(* ===== verification/Prelude.thy ===== *)
theory Prelude
  imports Main "HOL-Library.Word" "HOL-Library.Monad_Syntax"
begin

text \<open>
  Shared ground of the development: the lemma collections, the C integer conversions, the
  division and the number formatting that every component uses, and generic facts on lists.

  \<^item> \<open>c_int\<close>, \<open>c_short\<close>: the value an integer has after a conversion to a 32-bit \<open>int\<close>
    or a 16-bit \<open>short\<close> (two's complement, as gcc converts).
  \<^item> \<open>c_div\<close>: C's division, which truncates towards zero.
  \<^item> \<open>fmt_d\<close>, \<open>fmt_lu\<close>, \<open>fmt_lu3\<close>: what \<open>printf\<close> prints for \<open>%d\<close> and \<open>%ld\<close>, for
    \<open>%lu\<close> and for \<open>%.3lu\<close>.

  Throughout the development a result of type \<open>'a option\<close> of an operation that C code
  performs means: \<open>None\<close> is a call that has no defined result, because it accesses an array
  out of its bounds, uses a freed node, overflows a signed integer or a buffer, or never
  returns. Every such branch is written into the model.
\<close>

named_theorems cint_simps "conversions between C integer types"
named_theorems frame_simps "which parts of the state an operation leaves unchanged"

subsection \<open>C integers\<close>

definition c_int :: "int \<Rightarrow> int" where
  "c_int x = (x + 2 ^ 31) mod 2 ^ 32 - 2 ^ 31"

definition c_short :: "int \<Rightarrow> int" where
  "c_short x = (x + 2 ^ 15) mod 2 ^ 16 - 2 ^ 15"

definition in_int :: "int \<Rightarrow> bool" where
  "in_int x \<longleftrightarrow> - (2 ^ 31) \<le> x \<and> x < 2 ^ 31"

definition c_div :: "int \<Rightarrow> int \<Rightarrow> int" where
  "c_div a b = sgn a * sgn b * (\<bar>a\<bar> div \<bar>b\<bar>)"

lemma c_int_id [cint_simps]: "in_int x \<Longrightarrow> c_int x = x"
  by (simp add: c_int_def in_int_def)

lemma c_int_in_int [simp]: "in_int (c_int x)"
  using pos_mod_bound [of "2 ^ 32 :: int" "x + 2 ^ 31"] pos_mod_sign [of "2 ^ 32 :: int" "x + 2 ^ 31"]
  unfolding c_int_def in_int_def by simp

lemma c_int_small [simp]: "0 \<le> x \<Longrightarrow> x < 2147483648 \<Longrightarrow> c_int x = x"
  by (simp add: c_int_def)

lemma c_short_small [simp]: "0 \<le> x \<Longrightarrow> x < 32768 \<Longrightarrow> c_short x = x"
  by (simp add: c_short_def)

lemma c_div_nonneg [simp]: "0 \<le> a \<Longrightarrow> 0 < b \<Longrightarrow> c_div a b = a div b"
  by (cases "a = 0") (simp_all add: c_div_def sgn_if)

subsection \<open>Formatting numbers\<close>

definition digit_char :: "nat \<Rightarrow> char" where
  "digit_char d = char_of (48 + d)"

fun dec_nat :: "nat \<Rightarrow> string" where
  "dec_nat n = (if n < 10 then [digit_char n] else dec_nat (n div 10) @ [digit_char (n mod 10)])"

declare dec_nat.simps [simp del]

definition fmt_d :: "int \<Rightarrow> string" where
  "fmt_d x = (if x < 0 then ''-'' @ dec_nat (nat (- x)) else dec_nat (nat x))"

definition fmt_lu :: "int \<Rightarrow> string" where
  "fmt_lu x = dec_nat (nat (x mod 2 ^ 64))"

definition fmt_lu3 :: "int \<Rightarrow> string" where
  "fmt_lu3 x = (let s = fmt_lu x in replicate (3 - length s) (CHR ''0'') @ s)"

definition is_digit :: "char \<Rightarrow> bool" where
  "is_digit c \<longleftrightarrow> (48 :: nat) \<le> of_char c \<and> of_char c \<le> (57 :: nat)"

definition digit_val :: "char \<Rightarrow> nat" where
  "digit_val c = of_char c - 48"

lemma is_digit_digit_char [simp]: "d < 10 \<Longrightarrow> is_digit (digit_char d)"
  by (simp add: is_digit_def digit_char_def)

lemma digit_val_digit_char [simp]: "d < 10 \<Longrightarrow> digit_val (digit_char d) = d"
  by (simp add: digit_val_def digit_char_def)

lemma dec_nat_digits: "c \<in> set (dec_nat n) \<Longrightarrow> is_digit c"
proof (induction n rule: dec_nat.induct)
  case (1 n)
  then show ?case
    by (subst (asm) (2) dec_nat.simps) (auto split: if_splits)
qed

lemma dec_nat_nonempty [simp]: "dec_nat n \<noteq> []"
  by (subst dec_nat.simps) simp

lemma fmt_d_nonempty [simp]: "fmt_d x \<noteq> []"
  by (simp add: fmt_d_def)

text \<open>Reading the digits back gives the number: \<open>foldl\<close> over the digits is how
  \<open>strtol\<close> reads them.\<close>

definition read_digits :: "string \<Rightarrow> nat" where
  "read_digits s = foldl (\<lambda>n c. 10 * n + digit_val c) 0 s"

lemma read_digits_snoc [simp]: "read_digits (s @ [c]) = 10 * read_digits s + digit_val c"
  by (simp add: read_digits_def)

lemma read_digits_dec_nat [simp]: "read_digits (dec_nat n) = n"
proof (induction n rule: dec_nat.induct)
  case (1 n)
  show ?case
  proof (cases "n < 10")
    case True
    then show ?thesis by (subst dec_nat.simps) (simp add: read_digits_def)
  next
    case False
    with 1 have "read_digits (dec_nat (n div 10)) = n div 10" by simp
    with False show ?thesis by (subst dec_nat.simps) simp
  qed
qed

lemma dec_nat_inj [simp]: "dec_nat m = dec_nat n \<longleftrightarrow> m = n"
  by (metis read_digits_dec_nat)

lemma fmt_lu3_length: "3 \<le> length (fmt_lu3 x)"
  by (simp add: fmt_lu3_def Let_def)

lemma length_dec_nat: "0 < k \<Longrightarrow> n < 10 ^ k \<Longrightarrow> length (dec_nat n) \<le> k"
proof (induction k arbitrary: n)
  case (Suc k)
  show ?case
  proof (cases "n < 10")
    case False
    then have "0 < k" using Suc.prems(2) by (cases k) auto
    moreover have "n div 10 < 10 ^ k" using Suc.prems(2) by (simp add: less_mult_imp_div_less mult.commute)
    ultimately have "length (dec_nat (n div 10)) \<le> k" by (rule Suc.IH)
    with False show ?thesis by (subst dec_nat.simps) simp
  qed (subst dec_nat.simps, simp)
qed simp

lemma length_fmt_d: "in_int x \<Longrightarrow> length (fmt_d x) \<le> 11"
proof -
  assume "in_int x"
  then have "nat x < 10 ^ 10" "nat (- x) < 10 ^ 10" by (auto simp: in_int_def)
  then have "length (dec_nat (nat x)) \<le> 10" "length (dec_nat (nat (- x))) \<le> 10"
    by (auto intro: length_dec_nat)
  then show ?thesis by (simp add: fmt_d_def)
qed

end
