(* ===== verification/C_Strings.thy ===== *)
theory C_Strings
  imports Prelude
begin

text \<open>
  The C library functions on strings that the sources call, on \<open>string\<close> values (the bytes
  before the terminating NUL): \<open>strncasecmp\<close>, \<open>strcasecmp\<close>, \<open>strncmp\<close>, \<open>strstr\<close>,
  \<open>atoi\<close> and \<open>sscanf\<close>. The comparison functions are modelled as "the result is 0".

  \<open>sscanf\<close> is modelled for the conversions the sources use, separated by white space:
  \<open>%ld\<close> and \<open>%d\<close> (\<open>Ld\<close>, \<open>Di\<close>), \<open>%lu\<close> (\<open>Lu\<close>), \<open>%s\<close> with or without a width
  (\<open>Str\<close>), \<open>%c\<close> after white space (\<open>Ch\<close>) and \<open>%<n>c\<close> after white space (\<open>Chs\<close>).
  Its result is the number of values assigned, or \<open>-1\<close> (EOF) when the input ends before the
  first conversion, and the values assigned. A number outside its type is saturated, which
  is what glibc does. A \<open>%<n>c\<close> conversion takes what is left when that is shorter.
\<close>

subsection \<open>Comparing\<close>

definition to_upper :: "char \<Rightarrow> char" where
  "to_upper c = (if (97 :: nat) \<le> of_char c \<and> of_char c \<le> (122 :: nat)
                 then char_of (of_char c - (32 :: nat)) else c)"

definition strncmp0 :: "string \<Rightarrow> string \<Rightarrow> nat \<Rightarrow> bool" where
  "strncmp0 a b n \<longleftrightarrow> take n a = take n b"

definition strncasecmp0 :: "string \<Rightarrow> string \<Rightarrow> nat \<Rightarrow> bool" where
  "strncasecmp0 a b n \<longleftrightarrow> map to_upper (take n a) = map to_upper (take n b)"

definition strcasecmp0 :: "string \<Rightarrow> string \<Rightarrow> bool" where
  "strcasecmp0 a b \<longleftrightarrow> map to_upper a = map to_upper b"

fun is_prefix :: "string \<Rightarrow> string \<Rightarrow> bool" where
  "is_prefix [] _ = True"
| "is_prefix (_ # _) [] = False"
| "is_prefix (x # xs) (y # ys) = (x = y \<and> is_prefix xs ys)"

fun strstr0 :: "string \<Rightarrow> string \<Rightarrow> bool" where
  "strstr0 [] needle = (needle = [])"
| "strstr0 (c # cs) needle = (is_prefix needle (c # cs) \<or> strstr0 cs needle)"

subsection \<open>Scanning\<close>

definition is_space :: "char \<Rightarrow> bool" where
  "is_space c \<longleftrightarrow> c = CHR '' '' \<or> ((9 :: nat) \<le> of_char c \<and> of_char c \<le> (13 :: nat))"

definition skip_ws :: "string \<Rightarrow> string" where
  "skip_ws s = dropWhile is_space s"

datatype conv = Ld | Lu | Di | Str "nat option" | Ch | Chs nat

datatype sval = VI int | VS string

definition clamp :: "int \<Rightarrow> int \<Rightarrow> int \<Rightarrow> int" where
  "clamp lo hi x = (if x < lo then lo else if hi < x then hi else x)"

text \<open>An optional sign and at least one digit; the text after them is left.\<close>

definition scan_num :: "string \<Rightarrow> (bool \<times> nat \<times> string) option" where
  "scan_num s =
     (let neg = (case s of c # _ \<Rightarrow> c = CHR ''-'' | [] \<Rightarrow> False);
          signed = (case s of c # _ \<Rightarrow> c = CHR ''-'' \<or> c = CHR ''+'' | [] \<Rightarrow> False);
          r = (if signed then tl s else s);
          ds = takeWhile is_digit r
      in if ds = [] then None else Some (neg, read_digits ds, dropWhile is_digit r))"

fun scan_conv :: "conv \<Rightarrow> string \<Rightarrow> (sval \<times> string) option" where
  "scan_conv Ld s =
     (case scan_num s of None \<Rightarrow> None
      | Some (neg, n, r) \<Rightarrow>
          Some (VI (clamp (- (2 ^ 63)) (2 ^ 63 - 1) (if neg then - int n else int n)), r))"
| "scan_conv Lu s =
     (case scan_num s of None \<Rightarrow> None
      | Some (neg, n, r) \<Rightarrow>
          Some (VI (if 2 ^ 64 \<le> int n then 2 ^ 64 - 1
                    else (if neg then - int n else int n) mod 2 ^ 64), r))"
| "scan_conv Di s =
     (case scan_num s of None \<Rightarrow> None
      | Some (neg, n, r) \<Rightarrow>
          Some (VI (c_int (clamp (- (2 ^ 63)) (2 ^ 63 - 1) (if neg then - int n else int n))), r))"
| "scan_conv (Str w) s =
     (let word = takeWhile (\<lambda>c. \<not> is_space c) s;
          word = (case w of None \<Rightarrow> word | Some k \<Rightarrow> take k word)
      in if word = [] then None else Some (VS word, drop (length word) s))"
| "scan_conv Ch s = (case s of [] \<Rightarrow> None | c # r \<Rightarrow> Some (VS [c], r))"
| "scan_conv (Chs n) s = (if s = [] then None else Some (VS (take n s), drop n s))"

fun sscanf_vals :: "string \<Rightarrow> conv list \<Rightarrow> sval list" where
  "sscanf_vals s [] = []"
| "sscanf_vals s (c # cs) =
     (case scan_conv c (skip_ws s) of
        None \<Rightarrow> []
      | Some (v, r) \<Rightarrow> v # sscanf_vals r cs)"

definition sscanf :: "string \<Rightarrow> conv list \<Rightarrow> int \<times> sval list" where
  "sscanf s cs = (let vs = sscanf_vals s cs
     in (if vs = [] \<and> cs \<noteq> [] \<and> skip_ws s = [] then - 1 else int (length vs), vs))"

definition atoi :: "string \<Rightarrow> int" where
  "atoi s = (case scan_conv Di (skip_ws s) of Some (VI x, _) \<Rightarrow> x | _ \<Rightarrow> 0)"

text \<open>The value of the \<open>i\<close>-th conversion, used only when it was assigned.\<close>

definition ival :: "sval list \<Rightarrow> nat \<Rightarrow> int" where
  "ival vs i = (case vs ! i of VI x \<Rightarrow> x | VS _ \<Rightarrow> 0)"

definition strval :: "sval list \<Rightarrow> nat \<Rightarrow> string" where
  "strval vs i = (case vs ! i of VS s \<Rightarrow> s | VI _ \<Rightarrow> [])"

subsection \<open>Facts about scanning\<close>

lemma is_space_blank [simp]: "is_space (CHR '' '')"
  by (simp add: is_space_def)

lemma skip_ws_Nil [simp]: "skip_ws [] = []"
  by (simp add: skip_ws_def)

lemma sscanf_vals_length: "length (sscanf_vals s cs) \<le> length cs"
  by (induction s cs rule: sscanf_vals.induct) (auto split: option.splits)

lemma sscanf_count_le: "sscanf s cs = (n, vs) \<Longrightarrow> n \<le> int (length cs)"
  using sscanf_vals_length [of s cs] by (auto simp: sscanf_def Let_def split: if_splits)

lemma sscanf_empty: "cs \<noteq> [] \<Longrightarrow> sscanf [] cs = (- 1, [])"
proof (cases cs)
  case (Cons c cs')
  have "scan_conv c [] = None"
    by (cases c) (simp_all add: scan_num_def Let_def split: option.splits)
  with Cons show ?thesis by (simp add: sscanf_def)
qed simp

lemma sscanf_vals_width:
  "\<lbrakk> i < length (sscanf_vals s cs); cs ! i = Str (Some k) \<rbrakk>
   \<Longrightarrow> length (strval (sscanf_vals s cs) i) \<le> k"
proof (induction s cs arbitrary: i rule: sscanf_vals.induct)
  case (2 s c cs)
  then show ?case
    by (cases i) (auto simp: strval_def Let_def split: option.splits if_splits)
qed simp

text \<open>What \<open>%d\<close> prints, \<open>%ld\<close> reads back, whatever follows it.\<close>

lemma is_digit_not_sign: "is_digit c \<Longrightarrow> c \<noteq> CHR ''-'' \<and> c \<noteq> CHR ''+''"
  by (auto simp: is_digit_def)

lemma is_digit_not_space: "is_digit c \<Longrightarrow> \<not> is_space c"
  by (auto simp: is_digit_def is_space_def)

lemma takeWhile_digits:
  "(\<And>c. c \<in> set ds \<Longrightarrow> is_digit c) \<Longrightarrow> r = [] \<or> \<not> is_digit (hd r)
   \<Longrightarrow> takeWhile is_digit (ds @ r) = ds \<and> dropWhile is_digit (ds @ r) = r"
  by (induction ds) (cases r; auto)+

lemma scan_num_dec_nat:
  assumes "r = [] \<or> \<not> is_digit (hd r)"
  shows "scan_num (dec_nat n @ r) = Some (False, n, r)"
    and "scan_num (''-'' @ dec_nat n @ r) = Some (True, n, r)"
proof -
  have tw: "takeWhile is_digit (dec_nat n @ r) = dec_nat n \<and> dropWhile is_digit (dec_nat n @ r) = r"
    by (rule takeWhile_digits) (use assms dec_nat_digits in auto)
  obtain c cs where c: "dec_nat n = c # cs" by (cases "dec_nat n") auto
  then have "is_digit c" by (metis dec_nat_digits list.set_intros(1))
  then have "c \<noteq> CHR ''-'' \<and> c \<noteq> CHR ''+''" by (rule is_digit_not_sign)
  then show "scan_num (dec_nat n @ r) = Some (False, n, r)"
    using tw read_digits_dec_nat [of n] by (simp add: scan_num_def Let_def c)
  show "scan_num (''-'' @ dec_nat n @ r) = Some (True, n, r)"
    using tw by (simp add: scan_num_def Let_def)
qed

lemma scan_Ld_fmt_d:
  assumes "r = [] \<or> \<not> is_digit (hd r)" and "- (2 ^ 63) \<le> x" and "x < 2 ^ 63"
  shows "scan_conv Ld (fmt_d x @ r) = Some (VI x, r)"
  using assms scan_num_dec_nat [OF assms(1)]
  by (cases "x < 0") (auto simp: fmt_d_def clamp_def zless_nat_eq_int_zless)

lemma fmt_d_hd_not_space: "skip_ws (fmt_d x @ r) = fmt_d x @ r"
proof -
  obtain c cs where c: "dec_nat (nat \<bar>x\<bar>) = c # cs" by (cases "dec_nat (nat \<bar>x\<bar>)") auto
  then have "\<not> is_space c" by (metis dec_nat_digits is_digit_not_space list.set_intros(1))
  with c show ?thesis by (auto simp: fmt_d_def skip_ws_def is_space_def abs_if split: if_splits)
qed

lemma skip_ws_space [simp]: "skip_ws (CHR '' '' # s) = skip_ws s"
  by (simp add: skip_ws_def is_space_def)

lemma skip_ws_fmt_d [simp]: "skip_ws (fmt_d x) = fmt_d x"
  using fmt_d_hd_not_space [of x "[]"] by simp

lemma sscanf_vals_Ld_Nil: "sscanf_vals [] (Ld # cs) = []"
  by (simp add: scan_num_def)

lemma scan_fmt_d_space:
  assumes "\<bar>x\<bar> < 2 ^ 31" and "r = [] \<or> \<not> is_digit (hd r)"
  shows "sscanf_vals (CHR '' '' # fmt_d x @ r) (Ld # cs) = VI x # sscanf_vals r cs"
proof -
  have "- (2 ^ 63) \<le> x" "x < 2 ^ 63" using assms(1) by auto
  then show ?thesis
    using scan_Ld_fmt_d [OF assms(2)] by (simp add: fmt_d_hd_not_space del: scan_conv.simps(1))
qed

subsection \<open>Lines of words and numbers\<close>

definition nums :: "int list \<Rightarrow> string" where
  "nums xs = concat (map (\<lambda>x. '' '' @ fmt_d x) xs)"

lemma nums_simps [simp]: "nums [] = []" "nums (x # xs) = CHR '' '' # fmt_d x @ nums xs"
  by (simp_all add: nums_def)

lemma nums_not_digit: "nums xs = [] \<or> \<not> is_digit (hd (nums xs))"
  by (cases xs) (simp_all add: is_digit_def)

lemma scan_nums:
  "\<forall>x\<in>set xs. in_int x \<Longrightarrow> sscanf_vals (nums xs) (replicate n Ld) = map VI (take n xs)"
proof (induction xs arbitrary: n)
  case Nil
  then show ?case by (cases n) (simp_all add: scan_num_def)
next
  case (Cons x xs)
  have x: "- (2 ^ 63) \<le> x" "x < 2 ^ 63" using Cons.prems by (auto simp: in_int_def)
  show ?case
  proof (cases n)
    case (Suc m)
    then show ?thesis
      using Cons scan_Ld_fmt_d [OF nums_not_digit x, of xs] by (simp add: fmt_d_hd_not_space del: scan_conv.simps(1))
  qed simp
qed

lemma sscanf_nums:
  assumes "\<forall>x\<in>set xs. in_int x" and "xs \<noteq> []" and "0 < n"
  shows "sscanf (tl (nums xs)) (replicate n Ld) = (int (min n (length xs)), map VI (take n xs))"
proof -
  obtain x ys where xs: "xs = x # ys" using assms(2) by (cases xs) auto
  obtain m where m: "n = Suc m" using assms(3) by (cases n) auto
  have skip: "skip_ws (nums xs) = skip_ws (tl (nums xs))" by (simp add: xs)
  have "sscanf_vals (tl (nums xs)) (replicate n Ld) = sscanf_vals (nums xs) (replicate n Ld)"
    unfolding m replicate_Suc sscanf_vals.simps(2) skip ..
  with scan_nums [OF assms(1)]
  have v: "sscanf_vals (tl (nums xs)) (replicate n Ld) = map VI (take n xs)" by simp
  show ?thesis unfolding sscanf_def v Let_def by (simp add: m xs)
qed

lemma length_nums: "\<forall>x\<in>set xs. in_int x \<Longrightarrow> length (nums xs) \<le> 12 * length xs"
proof (induction xs)
  case (Cons x xs)
  then have "length (fmt_d x) \<le> 11" "length (nums xs) \<le> 12 * length xs" by (auto intro: length_fmt_d)
  then show ?case by simp
qed simp

definition is_word :: "string \<Rightarrow> bool" where
  "is_word s \<longleftrightarrow> s \<noteq> [] \<and> (\<forall>c\<in>set s. \<not> is_space c)"

lemma scan_word:
  assumes "is_word s" and "r = [] \<or> is_space (hd r)"
  shows "sscanf_vals (s @ r) (Str None # cs) = VS s # sscanf_vals r cs"
proof -
  obtain c s' where s: "s = c # s'" "\<not> is_space c" using assms(1) by (cases s) (auto simp: is_word_def)
  have "takeWhile (\<lambda>c. \<not> is_space c) (s @ r) = s"
    using assms by (cases r) (auto simp: is_word_def takeWhile_append2)
  moreover have "skip_ws (s @ r) = s @ r" using s by (simp add: skip_ws_def)
  ultimately show ?thesis using assms(1) by (simp add: is_word_def Let_def)
qed

lemma scan_blank: "sscanf_vals (CHR '' '' # s) (c # cs) = sscanf_vals s (c # cs)"
  by simp

lemma fmt_d_word [simp]: "is_word (fmt_d x)"
  by (auto simp: is_word_def fmt_d_def is_space_def[of "CHR ''-''"] dest!: dec_nat_digits is_digit_not_space)

lemma atoi_fmt_d: "in_int x \<Longrightarrow> atoi (fmt_d x) = x"
proof -
  assume x: "in_int x"
  then have b: "- (2 ^ 63) \<le> x" "x < 2 ^ 63" by (auto simp: in_int_def)
  have "scan_conv Ld (fmt_d x) = Some (VI x, [])" using scan_Ld_fmt_d [of "[]" x] b by simp
  then have "scan_conv Di (fmt_d x) = Some (VI (c_int x), [])"
    by (auto split: option.splits)
  then show ?thesis using x fmt_d_hd_not_space [of x "[]"] by (simp add: atoi_def c_int_id del: scan_conv.simps)
qed

end
