(* ===== verification/Ring_Queue.thy ===== *)
theory Ring_Queue
  imports Prelude
begin

text \<open>
  The command queues. Every device group keeps, per bus, an array of \<open>QUEUELEN\<close> slots and
  the two indices \<open>in\<close> and \<open>out\<close> (\<open>srcp-gl.c\<close>, \<open>srcp-ga.c\<close>, \<open>srcp-sm.c\<close> and the
  reset queue of \<open>srcp-fb.c\<close> repeat the same code). \<open>ring\<close> is that triple and the
  operations below are that code, for any slot type and any length of the array.
  A writer fills fields of the slot at \<open>in\<close> in place and leaves the others as they were,
  so \<open>ring_put\<close> takes the update of the slot.

  The locale \<open>fifo\<close> states what a client of such a queue relies on: what is taken out is
  what was put in, in order, and nothing is lost. It is discharged for \<open>ring\<close>.
\<close>

record 'a ring =
  slots :: "'a list"
  wr :: nat
  rd :: nat

definition ring_new :: "nat \<Rightarrow> 'a \<Rightarrow> 'a ring" where
  "ring_new n x = \<lparr>slots = replicate n x, wr = 0, rd = 0\<rparr>"

definition ring_isempty :: "'a ring \<Rightarrow> bool" where
  "ring_isempty q \<longleftrightarrow> wr q = rd q"

definition ring_len :: "'a ring \<Rightarrow> nat" where
  "ring_len q = (if rd q \<le> wr q then wr q - rd q else length (slots q) + wr q - rd q)"

definition ring_isfull :: "'a ring \<Rightarrow> bool" where
  "ring_isfull q \<longleftrightarrow> length (slots q) - 1 \<le> ring_len q"

definition ring_next :: "'a ring \<Rightarrow> nat \<Rightarrow> nat" where
  "ring_next q i = (if Suc i = length (slots q) then 0 else Suc i)"

definition ring_put :: "('a \<Rightarrow> 'a) \<Rightarrow> 'a ring \<Rightarrow> 'a ring" where
  "ring_put f q = q\<lparr>slots := (slots q)[wr q := f (slots q ! wr q)], wr := ring_next q (wr q)\<rparr>"

definition ring_peek :: "'a ring \<Rightarrow> 'a option" where
  "ring_peek q = (if wr q = rd q then None else Some (slots q ! rd q))"

definition ring_get :: "'a ring \<Rightarrow> ('a \<times> 'a ring) option" where
  "ring_get q = (if wr q = rd q then None
                 else Some (slots q ! rd q, q\<lparr>rd := ring_next q (rd q)\<rparr>))"

text \<open>The invariant (both indices are in the array) and the abstraction (the contents).\<close>

definition ring_inv :: "nat \<Rightarrow> 'a ring \<Rightarrow> bool" where
  "ring_inv n q \<longleftrightarrow> 2 \<le> n \<and> length (slots q) = n \<and> wr q < n \<and> rd q < n"

definition ring_list :: "'a ring \<Rightarrow> 'a list" where
  "ring_list q = map (\<lambda>i. slots q ! ((rd q + i) mod length (slots q))) [0..<ring_len q]"

definition ring_push :: "'a \<Rightarrow> 'a ring \<Rightarrow> 'a ring" where
  "ring_push x q = ring_put (\<lambda>_. x) q"

subsection \<open>The queue is a bounded first-in first-out queue\<close>

lemma ring_put_push: "ring_put f q = ring_push (f (slots q ! wr q)) q"
  by (simp add: ring_put_def ring_push_def ring_next_def)

lemma ring_len_bound: "ring_inv n q \<Longrightarrow> ring_len q < n"
  by (auto simp: ring_inv_def ring_len_def)

lemma length_ring_list [simp]: "length (ring_list q) = ring_len q"
  by (simp add: ring_list_def)

lemma ring_list_empty_iff: "ring_inv n q \<Longrightarrow> ring_list q = [] \<longleftrightarrow> ring_isempty q"
  by (auto simp: ring_list_def ring_isempty_def ring_len_def ring_inv_def)

lemma ring_wr_index: "ring_inv n q \<Longrightarrow> (rd q + ring_len q) mod n = wr q"
  by (auto simp: ring_inv_def ring_len_def mod_if)

lemma ring_new_inv: "2 \<le> n \<Longrightarrow> ring_inv n (ring_new n x)"
  by (simp add: ring_inv_def ring_new_def)

lemma ring_new_list: "ring_list (ring_new n x) = []"
  by (simp add: ring_list_def ring_new_def ring_len_def)

lemma ring_push_inv: "ring_inv n q \<Longrightarrow> ring_inv n (ring_push x q)"
  by (auto simp: ring_inv_def ring_push_def ring_put_def ring_next_def)

lemma ring_len_push:
  "ring_inv n q \<Longrightarrow> \<not> ring_isfull q \<Longrightarrow> ring_len (ring_push x q) = Suc (ring_len q)"
  by (auto simp: ring_inv_def ring_isfull_def ring_len_def ring_push_def ring_put_def
      ring_next_def split: if_splits)

lemma ring_list_nth:
  "i < ring_len q \<Longrightarrow> ring_list q ! i = slots q ! ((rd q + i) mod length (slots q))"
  by (simp add: ring_list_def)

lemma ring_index_neq_wr:
  assumes "ring_inv n q" and "i < ring_len q"
  shows "(rd q + i) mod n \<noteq> wr q"
proof
  assume "(rd q + i) mod n = wr q"
  with ring_wr_index [OF assms(1)] have "(rd q + ring_len q) mod n = (rd q + i) mod n" by simp
  then have "n dvd (rd q + ring_len q) - (rd q + i)"
    using assms(2) by (subst (asm) mod_eq_dvd_iff_nat) auto
  with assms(2) have "n \<le> ring_len q - i" by (intro dvd_imp_le) auto
  with ring_len_bound [OF assms(1)] assms(2) show False by simp
qed

lemma ring_list_push:
  assumes inv: "ring_inv n q" and nf: "\<not> ring_isfull q"
  shows "ring_list (ring_push x q) = ring_list q @ [x]"
proof (rule nth_equalityI)
  show "length (ring_list (ring_push x q)) = length (ring_list q @ [x])"
    using ring_len_push [OF inv nf] by simp
next
  fix i assume "i < length (ring_list (ring_push x q))"
  then have i: "i \<le> ring_len q" using ring_len_push [OF inv nf, of x] by simp
  have n: "length (slots q) = n" and w: "wr q < n" using inv by (auto simp: ring_inv_def)
  have lhs: "ring_list (ring_push x q) ! i = ((slots q)[wr q := x]) ! ((rd q + i) mod n)"
    using i ring_len_push [OF inv nf, of x]
    by (subst ring_list_nth) (simp_all add: ring_push_def ring_put_def n)
  show "ring_list (ring_push x q) ! i = (ring_list q @ [x]) ! i"
  proof (cases "i = ring_len q")
    case True
    then show ?thesis using lhs ring_wr_index [OF inv] n w by (simp add: nth_append)
  next
    case False
    with i have j: "i < ring_len q" by simp
    then have "wr q \<noteq> (rd q + i) mod n" using ring_index_neq_wr [OF inv j] by simp
    then show ?thesis using lhs j n by (simp add: nth_append ring_list_nth)
  qed
qed

lemma ring_len_get:
  "ring_inv n q \<Longrightarrow> ring_get q = Some (x, q') \<Longrightarrow> ring_len q = Suc (ring_len q')"
  by (auto simp: ring_inv_def ring_len_def ring_get_def ring_next_def split: if_splits)

lemma ring_get_inv: "ring_inv n q \<Longrightarrow> ring_get q = Some (x, q') \<Longrightarrow> ring_inv n q'"
  by (auto simp: ring_inv_def ring_get_def ring_next_def split: if_splits)

lemma ring_list_get:
  assumes inv: "ring_inv n q" and get: "ring_get q = Some (x, q')"
  shows "ring_list q = x # ring_list q'"
proof (rule nth_equalityI)
  show "length (ring_list q) = length (x # ring_list q')"
    using ring_len_get [OF assms] by simp
next
  fix i assume "i < length (ring_list q)"
  then have i: "i < ring_len q" by simp
  have n: "length (slots q) = n" "2 \<le> n" "rd q < n" using inv by (auto simp: ring_inv_def)
  have q': "slots q' = slots q" "rd q' = ring_next q (rd q)" "x = slots q ! rd q"
    using get by (auto simp: ring_get_def split: if_splits)
  have step: "(rd q' + j) mod n = (rd q + Suc j) mod n" for j
  proof (cases "Suc (rd q) = n")
    case True
    then have "rd q + Suc j = n + j" by simp
    then have "(rd q + Suc j) mod n = (n + j) mod n" by (rule arg_cong)
    with True show ?thesis by (simp add: q' ring_next_def n)
  qed (simp add: q' ring_next_def n)
  show "ring_list q ! i = (x # ring_list q') ! i"
  proof (cases i)
    case 0
    then show ?thesis using i n q' by (simp add: ring_list_nth)
  next
    case (Suc j)
    then have "j < ring_len q'" using i ring_len_get [OF assms] by simp
    then show ?thesis
      using i Suc step [of j] by (simp add: ring_list_nth q' n(1))
  qed
qed

lemma ring_get_None: "ring_get q = None \<longleftrightarrow> ring_isempty q"
  by (simp add: ring_get_def ring_isempty_def)

lemma ring_isfull_len: "ring_inv n q \<Longrightarrow> ring_isfull q \<longleftrightarrow> n - 1 \<le> length (ring_list q)"
  by (auto simp: ring_isfull_def ring_inv_def)

subsection \<open>What a client relies on\<close>

datatype 'a qop = Put 'a | Get

text \<open>A run of requests against a queue with drop-when-full writers, as the callers are:
  the values taken out, the values accepted, and the queue at the end.\<close>

fun queue_run :: "('q \<Rightarrow> bool) \<Rightarrow> ('a \<Rightarrow> 'q \<Rightarrow> 'q) \<Rightarrow> ('q \<Rightarrow> ('a \<times> 'q) option)
    \<Rightarrow> 'a qop list \<Rightarrow> 'q \<Rightarrow> 'a list \<times> 'a list \<times> 'q" where
  "queue_run full put get [] q = ([], [], q)"
| "queue_run full put get (Put x # ops) q =
     (if full q then queue_run full put get ops q
      else case queue_run full put get ops (put x q) of (os, as, q') \<Rightarrow> (os, x # as, q'))"
| "queue_run full put get (Get # ops) q =
     (case get q of None \<Rightarrow> queue_run full put get ops q
      | Some (x, q1) \<Rightarrow>
          (case queue_run full put get ops q1 of (os, as, q') \<Rightarrow> (x # os, as, q')))"

locale fifo =
  fixes inv :: "'q \<Rightarrow> bool"
    and contents :: "'q \<Rightarrow> 'a list"
    and full :: "'q \<Rightarrow> bool"
    and put :: "'a \<Rightarrow> 'q \<Rightarrow> 'q"
    and get :: "'q \<Rightarrow> ('a \<times> 'q) option"
  assumes put_inv: "inv q \<Longrightarrow> inv (put x q)"
    and put_contents: "inv q \<Longrightarrow> \<not> full q \<Longrightarrow> contents (put x q) = contents q @ [x]"
    and get_inv: "inv q \<Longrightarrow> get q = Some (x, q') \<Longrightarrow> inv q'"
    and get_contents: "inv q \<Longrightarrow> get q = Some (x, q') \<Longrightarrow> contents q = x # contents q'"
    and get_none: "inv q \<Longrightarrow> get q = None \<Longrightarrow> contents q = []"
begin

lemma get_some: "inv q \<Longrightarrow> contents q = x # xs \<Longrightarrow> \<exists>q'. get q = Some (x, q') \<and> contents q' = xs"
  using get_contents [of q] get_none [of q] by (cases "get q") auto

lemma run_fifo:
  "inv q \<Longrightarrow> queue_run full put get ops q = (outs, accepted, q')
   \<Longrightarrow> inv q' \<and> contents q @ accepted = outs @ contents q'"
proof (induction ops arbitrary: q outs accepted q')
  case (Cons op ops)
  show ?case
  proof (cases op)
    case (Put x)
    show ?thesis
    proof (cases "full q")
      case True
      with Cons Put show ?thesis by simp
    next
      case False
      obtain os as q1 where r: "queue_run full put get ops (put x q) = (os, as, q1)"
        by (cases "queue_run full put get ops (put x q)")
      with Cons.prems Put False have "outs = os" "accepted = x # as" "q' = q1" by auto
      with Cons.IH [OF put_inv [OF Cons.prems(1)] r] put_contents [OF Cons.prems(1) False]
      show ?thesis by simp
    qed
  next
    case Get
    show ?thesis
    proof (cases "get q")
      case None
      with Cons Get show ?thesis by simp
    next
      case (Some a)
      obtain x q1 where g: "get q = Some (x, q1)" using Some by (cases a) auto
      obtain os as q2 where r: "queue_run full put get ops q1 = (os, as, q2)"
        by (cases "queue_run full put get ops q1")
      with Cons.prems Get g have "outs = x # os" "accepted = as" "q' = q2" by auto
      with Cons.IH [OF get_inv [OF Cons.prems(1) g] r] get_contents [OF Cons.prems(1) g]
      show ?thesis by simp
    qed
  qed
qed simp

end

interpretation ring_fifo: fifo "ring_inv n" ring_list ring_isfull ring_push ring_get for n
  by unfold_locales
    (auto intro: ring_push_inv ring_list_push ring_get_inv ring_list_get
      simp: ring_get_None ring_list_empty_iff)

end
