(* ===== verification/Srcp_State.thy ===== *)
theory Srcp_State
  imports C_Strings Ring_Queue
begin

text \<open>
  The data of the server, as the headers declare it, and the state all operations pass on.

  \<^item> locomotives (\<open>srcp-gl.h\<close>), accessories (\<open>srcp-ga.h\<close>), feedbacks (\<open>srcp-fb.h\<close>),
    service mode (\<open>srcp-sm.h\<close>), sessions (\<open>srcp-session.h\<close>), model time (\<open>srcp-time.h\<close>),
    the server state (\<open>srcp-server.h\<close>) and the bus table (\<open>config-srcpd.h\<close>);
  \<^item> \<open>world\<close>: every file-level static of the modelled files. The tables indexed by a bus
    number are functions; an array is a list, a pointer that is still \<open>NULL\<close> is \<open>[]\<close>.

  \<open>gettimeofday\<close> reads \<open>clk\<close>, an arbitrary sequence of time stamps, one per call.
  The session list holds the addresses of its nodes in list order; \<open>sess_heap\<close> maps the
  addresses that are allocated to the nodes. Reading through an address that is not
  allocated has no defined result.

  Field names carry a letter for the record (\<open>l_\<close> locomotive, \<open>a_\<close> accessory, \<open>f_\<close>
  feedback, \<open>s_\<close> service mode, \<open>n_\<close> session node) because the C structs share names.
\<close>

record timeval =
  tv_sec :: int
  tv_usec :: int

abbreviation tv_zero :: timeval where
  "tv_zero \<equiv> \<lparr>tv_sec = 0, tv_usec = 0\<rparr>"

subsection \<open>Locomotives\<close>

record gl_state =
  l_state :: int
  l_protocol :: char
  l_protocolversion :: int
  l_n_func :: int
  l_n_fs :: int
  l_id :: int
  l_speed :: int
  l_direction :: int
  l_funcs :: "32 word"
  l_tv :: timeval
  l_inittime :: timeval

definition zero_gl :: gl_state where
  "zero_gl = \<lparr>l_state = 0, l_protocol = CHR 0x00, l_protocolversion = 0, l_n_func = 0,
     l_n_fs = 0, l_id = 0, l_speed = 0, l_direction = 0, l_funcs = 0, l_tv = tv_zero,
     l_inittime = tv_zero\<rparr>"

record GL =
  numberOfGl :: int
  glstate :: "gl_state list"
  gl_locktime :: timeval
  gl_lockduration :: int
  gl_locked_by :: nat

subsection \<open>Accessories\<close>

definition MAXGAPORT :: nat where
  "MAXGAPORT = 8"

text \<open>\<open>a_tv\<close> is the array \<open>tv[MAXGAPORT]\<close>; every access below checks its bound.\<close>

record ga_state =
  a_state :: int
  a_protocol :: char
  a_id :: int
  a_port :: int
  a_action :: int
  a_activetime :: int
  a_inittime :: timeval
  a_tv :: "nat \<Rightarrow> timeval"
  a_t :: timeval
  a_locktime :: timeval
  a_locked_by :: nat
  a_lockduration :: int

definition zero_ga :: ga_state where
  "zero_ga = \<lparr>a_state = 0, a_protocol = CHR 0x00, a_id = 0, a_port = 0, a_action = 0,
     a_activetime = 0, a_inittime = tv_zero, a_tv = (\<lambda>_. tv_zero), a_t = tv_zero,
     a_locktime = tv_zero, a_locked_by = 0, a_lockduration = 0\<rparr>"

record GA =
  numberOfGa :: int
  gastate :: "ga_state list"

subsection \<open>Feedbacks\<close>

record fb_state =
  f_timestamp :: timeval
  f_state :: int
  f_change :: int

record fb_t =
  numberOfFb :: int
  fbstate :: "fb_state list"

record fb_reset =
  r_port :: int
  r_timestamp :: timeval

subsection \<open>Service mode\<close>

datatype sm_command = SM_SET | SM_GET | SM_VERIFY | SM_INIT | SM_TERM

datatype sm_type = REGISTER | PAGE | CV | CV_BIT

record sm_t =
  s_protocol :: string
  s_type :: sm_type
  s_command :: sm_command
  s_protocolversion :: int
  s_addr :: int
  s_typeaddr :: int
  s_bit :: int
  s_value :: int
  s_tv :: timeval

definition zero_sm :: sm_t where
  "zero_sm = \<lparr>s_protocol = [], s_type = REGISTER, s_command = SM_SET, s_protocolversion = 0,
     s_addr = 0, s_typeaddr = 0, s_bit = 0, s_value = 0, s_tv = tv_zero\<rparr>"

subsection \<open>Sessions, model time, server\<close>

datatype session_mode = smUndefined | smCommand | smInfo

text \<open>\<open>n_pipe\<close> is \<open>None\<close> while \<open>pipefd\<close> is \<open>-1\<close>, then what was written and not yet read.\<close>

record session_node =
  n_session :: nat
  n_thread :: nat
  n_socket :: int
  n_mode :: session_mode
  n_pipe :: "string list option"

record vtime =
  day :: int
  hour :: int
  minute :: int
  sec :: int

record time_distort =
  ratio_x :: int
  ratio_y :: int
  d_inittime :: timeval

datatype server_state = ssInitializing | ssRunning | ssTerminating | ssResetting

subsection \<open>The bus table\<close>

definition MAX_BUSES :: nat where
  "MAX_BUSES = 20"

record bus_data =
  protocols :: "string option"
  description :: string
  init_gl_func :: "(gl_state \<Rightarrow> int \<times> gl_state) option"
  init_ga_func :: "(ga_state \<Rightarrow> int \<times> ga_state) option"
  init_fb_func :: "(nat \<Rightarrow> int \<Rightarrow> char \<Rightarrow> int \<Rightarrow> int) option"
  flags :: int
  watchdog :: int
  power_state :: int
  power_changed :: int
  power_change_time :: timeval
  power_msg :: string
  wakeups :: nat
  tga :: "ga_state list"

record world =
  clk :: "nat \<Rightarrow> timeval"
  num_buses :: nat
  buses :: "nat \<Rightarrow> bus_data"
  gl :: "nat \<Rightarrow> GL"
  gl_queue :: "nat \<Rightarrow> gl_state ring"
  ga :: "nat \<Rightarrow> GA"
  ga_queue :: "nat \<Rightarrow> ga_state ring"
  fb :: "nat \<Rightarrow> fb_t"
  fb_queue :: "nat \<Rightarrow> fb_reset ring"
  min_time :: "nat \<Rightarrow> int"
  sm_queue :: "nat \<Rightarrow> sm_t ring"
  cb_data :: "nat \<Rightarrow> int"
  vtime_now :: vtime
  distort :: time_distort
  srv_state :: server_state
  lastsession :: nat
  runningsessions :: int
  session_list :: "nat list"
  sess_heap :: "nat \<Rightarrow> session_node option"
  sess_next :: nat
  loop_cv :: "int list"

definition now :: "world \<Rightarrow> timeval" where
  "now w = clk w 0"

definition tick :: "world \<Rightarrow> world" where
  "tick w = w\<lparr>clk := (\<lambda>i. clk w (Suc i))\<rparr>"

definition upd :: "('b \<Rightarrow> 'b) \<Rightarrow> nat \<Rightarrow> (nat \<Rightarrow> 'b) \<Rightarrow> (nat \<Rightarrow> 'b)" where
  "upd f b t = t(b := f (t b))"

lemma upd_same [simp]: "upd f b t b = f (t b)"
  by (simp add: upd_def)

lemma upd_other [simp]: "b' \<noteq> b \<Longrightarrow> upd f b t b' = t b'"
  by (simp add: upd_def)

lemma tick_simps [simp]:
  "num_buses (tick w) = num_buses w" "buses (tick w) = buses w"
  "gl (tick w) = gl w" "gl_queue (tick w) = gl_queue w"
  "ga (tick w) = ga w" "ga_queue (tick w) = ga_queue w"
  "fb (tick w) = fb w" "fb_queue (tick w) = fb_queue w" "min_time (tick w) = min_time w"
  "sm_queue (tick w) = sm_queue w" "cb_data (tick w) = cb_data w"
  "vtime_now (tick w) = vtime_now w" "distort (tick w) = distort w"
  "srv_state (tick w) = srv_state w" "lastsession (tick w) = lastsession w"
  "runningsessions (tick w) = runningsessions w" "session_list (tick w) = session_list w"
  "sess_heap (tick w) = sess_heap w" "sess_next (tick w) = sess_next w"
  "loop_cv (tick w) = loop_cv w"
  by (simp_all add: tick_def)

subsection \<open>Time stamps in messages\<close>

text \<open>\<open>"%lu.%.3lu"\<close> with the seconds and the microseconds divided by 1000.\<close>

definition fmt_time :: "timeval \<Rightarrow> string" where
  "fmt_time t = fmt_lu (tv_sec t) @ ''.'' @ fmt_lu3 (c_div (tv_usec t) 1000)"

lemma fmt_time_nonempty [simp]: "fmt_time t \<noteq> []"
  by (simp add: fmt_time_def)

subsection \<open>The bus table's queries\<close>

datatype device_group = DG_SESSION | DG_TIME | DG_GA | DG_GL | DG_FB | DG_SM | DG_LOCK
  | DG_DESCRIPTION | DG_SERVER | DG_POWER | DG_GM

fun bus_has_devicegroup :: "nat \<Rightarrow> device_group \<Rightarrow> world \<Rightarrow> bool" where
  "bus_has_devicegroup b DG_SESSION w = strstr0 (description (buses w b)) ''SESSION''"
| "bus_has_devicegroup b DG_POWER w = strstr0 (description (buses w b)) ''POWER''"
| "bus_has_devicegroup b DG_GA w = strstr0 (description (buses w b)) ''GA''"
| "bus_has_devicegroup b DG_GL w = strstr0 (description (buses w b)) ''GL''"
| "bus_has_devicegroup b DG_GM w = strstr0 (description (buses w b)) ''GM''"
| "bus_has_devicegroup b DG_FB w = strstr0 (description (buses w b)) ''FB''"
| "bus_has_devicegroup b DG_SM w = strstr0 (description (buses w b)) ''SM''"
| "bus_has_devicegroup b DG_SERVER w = strstr0 (description (buses w b)) ''SERVER''"
| "bus_has_devicegroup b DG_TIME w = strstr0 (description (buses w b)) ''TIME''"
| "bus_has_devicegroup b DG_LOCK w = strstr0 (description (buses w b)) ''LOCK''"
| "bus_has_devicegroup b DG_DESCRIPTION w = strstr0 (description (buses w b)) ''DESCRIPTION''"

definition resume_bus_thread :: "nat \<Rightarrow> world \<Rightarrow> world" where
  "resume_bus_thread b w = w\<lparr>buses := upd (\<lambda>d. d\<lparr>wakeups := wakeups d + 1\<rparr>) b (buses w)\<rparr>"

subsection \<open>Loops over the state\<close>

text \<open>A \<open>for\<close> loop whose body may have no defined result.\<close>

fun loopM :: "('x \<Rightarrow> 's \<Rightarrow> 's option) \<Rightarrow> 'x list \<Rightarrow> 's \<Rightarrow> 's option" where
  "loopM f [] s = Some s"
| "loopM f (x # xs) s = (case f x s of None \<Rightarrow> None | Some s' \<Rightarrow> loopM f xs s')"

lemma loopM_append: "loopM f (xs @ ys) s = Option.bind (loopM f xs s) (loopM f ys)"
  by (induction xs arbitrary: s) (auto split: option.splits)

lemma loopM_inv:
  assumes "\<And>x s. x \<in> set xs \<Longrightarrow> P s \<Longrightarrow> \<exists>s'. f x s = Some s' \<and> P s'" and "P s"
  shows "\<exists>s'. loopM f xs s = Some s' \<and> P s'"
  using assms
proof (induction xs arbitrary: s)
  case (Cons x xs)
  then obtain s1 where s1: "f x s = Some s1" "P s1" by force
  have "\<exists>s'. loopM f xs s1 = Some s' \<and> P s'"
    by (rule Cons.IH [OF _ s1(2)]) (use Cons.prems in auto)
  with s1 show ?case by simp
qed simp

lemma loopM_preserves:
  assumes "loopM f xs s = Some s'" and "P s"
    and "\<And>x s s'. x \<in> set xs \<Longrightarrow> P s \<Longrightarrow> f x s = Some s' \<Longrightarrow> P s'"
  shows "P s'"
  using assms
proof (induction xs arbitrary: s)
  case (Cons x xs)
  then obtain s1 where "f x s = Some s1" "loopM f xs s1 = Some s'" by (auto split: option.splits)
  with Cons show ?case by (metis list.set_intros)
qed simp

text \<open>A loop whose turns change disjoint parts of a table \<open>v\<close>, each entry once.\<close>

lemma loopM_update:
  assumes "\<And>x s. x \<in> set xs \<Longrightarrow> P s \<Longrightarrow>
      \<exists>s'. f x s = Some s' \<and> P s' \<and> v s' = (\<lambda>y. if y \<in> K x then F (v s y) else v s y)"
    and "distinct xs" and "\<And>x y. x \<in> set xs \<Longrightarrow> y \<in> set xs \<Longrightarrow> x \<noteq> y \<Longrightarrow> K x \<inter> K y = {}" and "P s"
  shows "\<exists>s'. loopM f xs s = Some s' \<and> P s' \<and>
    v s' = (\<lambda>y. if y \<in> (\<Union>x\<in>set xs. K x) then F (v s y) else v s y)"
  using assms
proof (induction xs arbitrary: s)
  case (Cons x xs)
  obtain s1 where s1: "f x s = Some s1" "P s1" "v s1 = (\<lambda>y. if y \<in> K x then F (v s y) else v s y)"
    using Cons.prems(1) [of x s] Cons.prems(4) by auto
  obtain s2 where s2: "loopM f xs s1 = Some s2" "P s2"
      "v s2 = (\<lambda>y. if y \<in> (\<Union>x\<in>set xs. K x) then F (v s1 y) else v s1 y)"
    using Cons.IH [OF _ _ _ s1(2)] Cons.prems(1-3) by auto
  have "y \<notin> K x" if "y \<in> (\<Union>x\<in>set xs. K x)" for y
    using that Cons.prems(2) Cons.prems(3) by fastforce
  then have "v s2 = (\<lambda>y. if y \<in> (\<Union>x\<in>set (x # xs). K x) then F (v s y) else v s y)"
    unfolding s2(3) s1(3) by (auto simp: fun_eq_iff)
  with s1(1) s2(1,2) show ?case by auto
qed simp

text \<open>The thread of a bus tells the main loop that it is alive.\<close>

definition set_watchdog :: "int \<Rightarrow> nat \<Rightarrow> world \<Rightarrow> world" where
  "set_watchdog v b w = w\<lparr>buses := upd (\<lambda>s. s\<lparr>watchdog := v\<rparr>) b (buses w)\<rparr>"

text \<open>The addresses \<open>1 .. n\<close> of a device table, in order.\<close>

definition addrs :: "int \<Rightarrow> int list" where
  "addrs n = map int [1..<Suc (nat n)]"

lemma distinct_addrs [simp]: "distinct (addrs n)"
  by (simp add: addrs_def distinct_map)

lemma set_addrs [simp]: "set (addrs n) = {1..n}"
proof (intro set_eqI iffI)
  fix x assume "x \<in> {1..n}"
  then have "x = int (nat x)" and "nat x \<in> {1..<Suc (nat n)}" by auto
  then show "x \<in> set (addrs n)" unfolding addrs_def by (metis image_eqI set_map set_upt)
qed (auto simp: addrs_def)

end
