(* ===== verification/Srcp_Error.thy ===== *)
theory Srcp_Error
  imports Srcp_State
begin

text \<open>
  The reply codes of \<open>srcp-error.h\<close>, the reply line \<open>srcp_fmt_msg\<close> of \<open>srcp-error.c\<close>
  formats for a code, and \<open>bus_supports_protocol\<close> of \<open>config-srcpd.c\<close>, which returns
  such a code.
\<close>

abbreviation SRCP_INFO :: int where "SRCP_INFO \<equiv> 100"
abbreviation SRCP_OK :: int where "SRCP_OK \<equiv> 200"
abbreviation SRCP_OK_PROTOCOL :: int where "SRCP_OK_PROTOCOL \<equiv> 201"
abbreviation SRCP_OK_CONNMODE :: int where "SRCP_OK_CONNMODE \<equiv> 202"
abbreviation SRCP_HS_WRONGPROTOCOL :: int where "SRCP_HS_WRONGPROTOCOL \<equiv> 400"
abbreviation SRCP_HS_WRONGCONNMODE :: int where "SRCP_HS_WRONGCONNMODE \<equiv> 401"
abbreviation SRCP_HS_NODATA :: int where "SRCP_HS_NODATA \<equiv> 402"
abbreviation SRCP_UNKNOWNCOMMAND :: int where "SRCP_UNKNOWNCOMMAND \<equiv> 410"
abbreviation SRCP_WRONGVALUE :: int where "SRCP_WRONGVALUE \<equiv> 412"
abbreviation SRCP_TEMPORARILYPROHIBITED :: int where "SRCP_TEMPORARILYPROHIBITED \<equiv> 413"
abbreviation SRCP_DEVICELOCKED :: int where "SRCP_DEVICELOCKED \<equiv> 414"
abbreviation SRCP_FORBIDDEN :: int where "SRCP_FORBIDDEN \<equiv> 415"
abbreviation SRCP_NODATA :: int where "SRCP_NODATA \<equiv> 416"
abbreviation SRCP_TIMEOUT :: int where "SRCP_TIMEOUT \<equiv> 417"
abbreviation SRCP_LISTTOOLONG :: int where "SRCP_LISTTOOLONG \<equiv> 418"
abbreviation SRCP_LISTTOOSHORT :: int where "SRCP_LISTTOOSHORT \<equiv> 419"
abbreviation SRCP_UNSUPPORTEDDEVICEPROTOCOL :: int where "SRCP_UNSUPPORTEDDEVICEPROTOCOL \<equiv> 420"
abbreviation SRCP_UNSUPPORTEDDEVICE :: int where "SRCP_UNSUPPORTEDDEVICE \<equiv> 421"
abbreviation SRCP_UNSUPPORTEDDEVICEGROUP :: int where "SRCP_UNSUPPORTEDDEVICEGROUP \<equiv> 422"
abbreviation SRCP_UNSUPPORTEDOPERATION :: int where "SRCP_UNSUPPORTEDOPERATION \<equiv> 423"

text \<open>The text of each code, \<open>None\<close> for the default branch of the switch.\<close>

definition error_text :: "int \<Rightarrow> string option" where
  "error_text e =
     (if e = 100 then Some ''INFO''
      else if e = 101 then Some ''INFO''
      else if e = 102 then Some ''INFO''
      else if e = 110 then Some ''INFO''
      else if e = 200 then Some ''OK''
      else if e = 202 then Some ''OK CONNECTIONMODE''
      else if e = 201 then Some ''OK PROTOCOL SRCP''
      else if e = 400 then Some ''ERROR unsupported protocol''
      else if e = 401 then Some ''ERROR unsupported connection mode''
      else if e = 402 then Some ''ERROR insufficient data''
      else if e = 410 then Some ''ERROR unknown command''
      else if e = 411 then Some ''ERROR unknown value''
      else if e = 412 then Some ''ERROR wrong value''
      else if e = 413 then Some ''ERROR temporarily prohibited''
      else if e = 414 then Some ''ERROR device locked''
      else if e = 415 then Some ''ERROR forbidden''
      else if e = 416 then Some ''ERROR no data''
      else if e = 417 then Some ''ERROR timeout''
      else if e = 418 then Some ''ERROR list too long''
      else if e = 419 then Some ''ERROR list too short''
      else if e = 420 then Some ''ERROR unsupported device protocol''
      else if e = 421 then Some ''ERROR unsupported device''
      else if e = 422 then Some ''ERROR unsupported device group''
      else if e = 423 then Some ''ERROR unsupported operation''
      else if e = 424 then Some ''ERROR device reinitialized''
      else if e = 500 then Some ''ERROR out of resources''
      else None)"

definition srcp_fmt_msg :: "int \<Rightarrow> timeval \<Rightarrow> string" where
  "srcp_fmt_msg e t =
     (case error_text e of
        Some txt \<Rightarrow> fmt_time t @ '' '' @ fmt_d e @ '' '' @ txt @ ''\<newline>''
      | None \<Rightarrow> fmt_time t @ '' 600 ERROR internal error '' @ fmt_d e
          @ '', please report to srcpd-devel@srcpd.sorceforge.net\<newline>'')"

definition bus_supports_protocol :: "nat \<Rightarrow> char \<Rightarrow> world \<Rightarrow> int" where
  "bus_supports_protocol b p w =
     (case protocols (buses w b) of
        Some ps \<Rightarrow> if p \<in> set ps then SRCP_OK else SRCP_UNSUPPORTEDDEVICEPROTOCOL
      | None \<Rightarrow> SRCP_UNSUPPORTEDDEVICEPROTOCOL)"

lemma srcp_fmt_msg_nonempty [simp]: "srcp_fmt_msg e t \<noteq> []"
  by (simp add: srcp_fmt_msg_def split: option.splits)

text \<open>Reading a reply line: the field after the first blank is the code.\<close>

definition reply_code :: "string \<Rightarrow> int" where
  "reply_code s = (let (n, vs) = sscanf s [Str None, Ld] in if n = 2 then ival vs 1 else - 1)"

lemma digits_no_space: "c \<in> set (fmt_lu x) \<Longrightarrow> \<not> is_space c"
  unfolding fmt_lu_def by (metis dec_nat_digits is_digit_not_space)

lemma fmt_time_no_space: "c \<in> set (fmt_time t) \<Longrightarrow> \<not> is_space c"
  by (auto simp: fmt_time_def fmt_lu3_def Let_def is_space_def dest: digits_no_space)

lemma takeWhile_time:
  "takeWhile (\<lambda>c. \<not> is_space c) (fmt_time t @ CHR '' '' # r) = fmt_time t"
  by (subst takeWhile_append2) (auto dest: fmt_time_no_space)

lemma skip_ws_time: "skip_ws (fmt_time t @ r) = fmt_time t @ r"
proof -
  obtain c cs where "fmt_time t = c # cs" by (cases "fmt_time t") auto
  with fmt_time_no_space [of c t] show ?thesis by (simp add: skip_ws_def)
qed

lemma reply_code_of_line:
  assumes "- (2 ^ 63) \<le> e" and "e < 2 ^ 63"
  shows "reply_code (fmt_time t @ '' '' @ fmt_d e @ CHR '' '' # r) = e"
proof -
  have "is_digit (CHR '' '') = False" by (simp add: is_digit_def)
  with scan_Ld_fmt_d [of "CHR '' '' # r" e] assms
  have ld: "scan_conv Ld (fmt_d e @ CHR '' '' # r) = Some (VI e, CHR '' '' # r)" by simp
  show ?thesis
    using ld by (simp add: reply_code_def sscanf_def takeWhile_time skip_ws_time
        fmt_d_hd_not_space Let_def ival_def del: scan_conv.simps(1))
qed

lemma fmt_d_600: "fmt_d 600 = ''600''"
  by (simp add: fmt_d_def dec_nat.simps digit_char_def char_of_def bit_0)

text \<open>The reply line for a code carries that code in its second field, and code 600 for an
  integer that is no SRCP code.\<close>

theorem srcp_fmt_msg_code: "reply_code (srcp_fmt_msg e t) = (if error_text e = None then 600 else e)"
proof (cases "error_text e")
  case None
  then show ?thesis
    using reply_code_of_line [of 600 t "''ERROR internal error '' @ fmt_d e
          @ '', please report to srcpd-devel@srcpd.sorceforge.net'' @ [CHR 0x0A]"]
    by (simp add: srcp_fmt_msg_def fmt_d_600)
next
  case (Some m)
  then have "- (2 ^ 63) \<le> e" "e < 2 ^ 63" by (auto simp: error_text_def split: if_splits)
  from reply_code_of_line [OF this, of t "m @ [CHR 0x0A]"] Some show ?thesis
    by (simp add: srcp_fmt_msg_def)
qed

end
