(* ===== verification/Srcp_Session.thy ===== *)
theory Srcp_Session
  imports Srcp_Error
begin

text \<open>
  The session list of \<open>srcp-session.c\<close> and the delivery of information messages to the
  pipes of the INFO sessions. The C code walks a linked list of allocated nodes; here the
  list is the addresses in order, and every step of a walk reads the node through its
  address, which has no defined result (\<open>None\<close>) when the node has been freed.
\<close>

subsection \<open>Walking the list\<close>

fun list_search_session_node :: "(nat \<Rightarrow> session_node option) \<Rightarrow> nat list \<Rightarrow> nat \<Rightarrow> nat option option" where
  "list_search_session_node h [] sid = Some None"
| "list_search_session_node h (p # ps) sid =
     (case h p of None \<Rightarrow> None
      | Some n \<Rightarrow> if n_session n = sid then Some (Some p) else list_search_session_node h ps sid)"

fun list_search_thread_by_sessionid :: "(nat \<Rightarrow> session_node option) \<Rightarrow> nat list \<Rightarrow> nat \<Rightarrow> nat option" where
  "list_search_thread_by_sessionid h [] sid = Some 0"
| "list_search_thread_by_sessionid h (p # ps) sid =
     (case h p of None \<Rightarrow> None
      | Some n \<Rightarrow> if n_session n = sid then Some (n_thread n)
                 else list_search_thread_by_sessionid h ps sid)"

fun list_has_info_sessionid :: "(nat \<Rightarrow> session_node option) \<Rightarrow> nat list \<Rightarrow> nat \<Rightarrow> bool option" where
  "list_has_info_sessionid h [] sid = Some False"
| "list_has_info_sessionid h (p # ps) sid =
     (case h p of None \<Rightarrow> None
      | Some n \<Rightarrow> if n_session n = sid \<and> n_mode n = smInfo then Some True
                 else list_has_info_sessionid h ps sid)"

subsection \<open>Creating, registering and destroying sessions\<close>

text \<open>\<open>malloc\<close> returns an address that is not in use; that it may return \<open>NULL\<close> is the
  argument \<open>ok\<close>. The result is the new node's address, or \<open>None\<close> for \<open>NULL\<close>.\<close>

definition list_add :: "bool \<Rightarrow> int \<Rightarrow> world \<Rightarrow> nat option \<times> world" where
  "list_add ok s w =
     (if \<not> ok then (None, w)
      else let p = sess_next w in
        (Some p, w\<lparr>session_list := p # session_list w, sess_next := p + 1,
                  sess_heap := (sess_heap w)(p \<mapsto> \<lparr>n_session = 0, n_thread = 0, n_socket = s,
                                                  n_mode = smUndefined, n_pipe = None\<rparr>)\<rparr>))"

definition create_anonymous_session :: "bool \<Rightarrow> int \<Rightarrow> world \<Rightarrow> nat option \<times> world" where
  "create_anonymous_session ok s w =
     (case list_add ok s w of
        (Some p, w') \<Rightarrow> (Some p, w'\<lparr>runningsessions := runningsessions w' + 1\<rparr>)
      | (None, w') \<Rightarrow> (None, w'))"

text \<open>\<open>list_remove\<close> unlinks the node that the pointer \<open>*p\<close> designates by overwriting
  \<open>*p\<close>, and frees it. \<open>destroy_session\<close> hands it the link inside the list.\<close>

definition list_remove_link :: "nat \<Rightarrow> world \<Rightarrow> world" where
  "list_remove_link p w = w\<lparr>session_list := remove1 p (session_list w),
                            sess_heap := (sess_heap w)(p := None)\<rparr>"

text \<open>\<open>destroy_session\<close> passes \<open>list_search_session\<close>'s result on unchecked:
  \<open>list_remove(NULL)\<close> reads through a null pointer when no node has the session id.\<close>

definition destroy_session :: "nat \<Rightarrow> world \<Rightarrow> world option" where
  "destroy_session sid w =
     (case list_search_session_node (sess_heap w) (session_list w) sid of
        None \<Rightarrow> None
      | Some None \<Rightarrow> None
      | Some (Some p) \<Rightarrow>
          Some ((list_remove_link p w)\<lparr>runningsessions := runningsessions w - 1\<rparr>))"

text \<open>\<open>destroy_anonymous_session\<close> passes the address of its own parameter \<open>n\<close>: the node
  is freed and the local variable advanced, and the list itself keeps the address.\<close>

definition destroy_anonymous_session :: "nat option \<Rightarrow> world \<Rightarrow> world option" where
  "destroy_anonymous_session n w =
     (case n of None \<Rightarrow> Some w
      | Some p \<Rightarrow>
          (case sess_heap w p of None \<Rightarrow> None
           | Some _ \<Rightarrow> Some (w\<lparr>sess_heap := (sess_heap w)(p := None),
                              runningsessions := runningsessions w - 1\<rparr>)))"

definition register_session :: "nat \<Rightarrow> world \<Rightarrow> world option" where
  "register_session p w =
     (case sess_heap w p of None \<Rightarrow> None
      | Some n \<Rightarrow>
          let sid = lastsession w + 1;
              m = (if n_mode n = smUndefined then smCommand else n_mode n)
          in Some (w\<lparr>lastsession := sid,
                     sess_heap := (sess_heap w)(p \<mapsto> n\<lparr>n_session := sid, n_mode := m\<rparr>)\<rparr>))"

definition is_valid_info_session :: "nat \<Rightarrow> world \<Rightarrow> bool option" where
  "is_valid_info_session sid w = list_has_info_sessionid (sess_heap w) (session_list w) sid"

subsection \<open>Delivering messages\<close>

definition deliver :: "string \<Rightarrow> session_node \<Rightarrow> session_node" where
  "deliver msg n =
     (if n_mode n = smInfo
      then (case n_pipe n of None \<Rightarrow> n | Some ms \<Rightarrow> n\<lparr>n_pipe := Some (ms @ [msg])\<rparr>)
      else n)"

fun deliver_all :: "string \<Rightarrow> nat list \<Rightarrow> (nat \<Rightarrow> session_node option) \<Rightarrow> (nat \<Rightarrow> session_node option) option" where
  "deliver_all msg [] h = Some h"
| "deliver_all msg (p # ps) h =
     (case h p of None \<Rightarrow> None
      | Some n \<Rightarrow> deliver_all msg ps (h(p \<mapsto> deliver msg n)))"

definition session_enqueue_info_message :: "nat \<Rightarrow> string \<Rightarrow> world \<Rightarrow> world option" where
  "session_enqueue_info_message sid msg w =
     (if session_list w = [] then Some w
      else if sid = 0 then
        (case deliver_all msg (session_list w) (sess_heap w) of
           None \<Rightarrow> None | Some h \<Rightarrow> Some (w\<lparr>sess_heap := h\<rparr>))
      else
        (case list_search_session_node (sess_heap w) (session_list w) sid of
           None \<Rightarrow> None
         | Some None \<Rightarrow> Some w
         | Some (Some p) \<Rightarrow>
             Some (w\<lparr>sess_heap := (sess_heap w)(p := map_option (deliver msg) (sess_heap w p))\<rparr>)))"

definition enqueueInfoMessage :: "string \<Rightarrow> world \<Rightarrow> world option" where
  "enqueueInfoMessage msg w = session_enqueue_info_message 0 msg w"

text \<open>\<open>start_session\<close> announces a session to all INFO sessions; \<open>termSESSION\<close> only
  lets a session end itself, and reports that with a negative code.\<close>

definition start_session :: "nat \<Rightarrow> world \<Rightarrow> world option" where
  "start_session p w =
     (case sess_heap w p of None \<Rightarrow> None
      | Some n \<Rightarrow>
          enqueueInfoMessage
            (fmt_time (now w) @ '' 101 INFO 0 SESSION '' @ dec_nat (n_session n) @ '' ''
              @ (if n_mode n = smCommand then ''COMMAND'' else ''INFO'') @ ''\<newline>'')
            (tick w))"

definition session_terminate :: "nat \<Rightarrow> world \<Rightarrow> nat option option" where
  "session_terminate sid w =
     (case list_search_thread_by_sessionid (sess_heap w) (session_list w) sid of
        None \<Rightarrow> None
      | Some t \<Rightarrow> Some (if t \<noteq> 0 then Some t else None))"

definition termSESSION :: "nat \<Rightarrow> nat \<Rightarrow> world \<Rightarrow> int option" where
  "termSESSION sid termsid w =
     (if sid = termsid then
        (case session_terminate termsid w of None \<Rightarrow> None | Some _ \<Rightarrow> Some (- SRCP_OK))
      else Some SRCP_FORBIDDEN)"

subsection \<open>The list is healthy\<close>

text \<open>Every address in the list is allocated and occurs once, addresses are below the next
  one, and the ids of registered sessions are at most \<open>lastsession\<close> and pairwise different.\<close>

definition sess_inv :: "world \<Rightarrow> bool" where
  "sess_inv w \<longleftrightarrow>
     distinct (session_list w) \<and>
     (\<forall>p \<in> set (session_list w). \<exists>n. sess_heap w p = Some n) \<and>
     (\<forall>p n. sess_heap w p = Some n \<longrightarrow> p \<in> set (session_list w) \<and> p < sess_next w
        \<and> n_session n \<le> lastsession w) \<and>
     (\<forall>p q n m. sess_heap w p = Some n \<and> sess_heap w q = Some m \<and> n_session n = n_session m
        \<and> n_session n \<noteq> 0 \<longrightarrow> p = q) \<and>
     runningsessions w = int (length (session_list w))"

lemma sess_invI:
  assumes "distinct (session_list w)" and "runningsessions w = int (length (session_list w))"
    and "\<And>p. p \<in> set (session_list w) \<Longrightarrow> sess_heap w p \<noteq> None"
    and "\<And>p n. sess_heap w p = Some n \<Longrightarrow> p \<in> set (session_list w)"
    and "\<And>p n. sess_heap w p = Some n \<Longrightarrow> p < sess_next w"
    and "\<And>p n. sess_heap w p = Some n \<Longrightarrow> n_session n \<le> lastsession w"
    and "\<And>p q n m. sess_heap w p = Some n \<Longrightarrow> sess_heap w q = Some m \<Longrightarrow> n_session n = n_session m
      \<Longrightarrow> n_session n \<noteq> 0 \<Longrightarrow> p = q"
  shows "sess_inv w"
  using assms unfolding sess_inv_def by blast

lemma sess_invD:
  assumes "sess_inv w"
  shows "distinct (session_list w)" and "runningsessions w = int (length (session_list w))"
    and "p \<in> set (session_list w) \<Longrightarrow> sess_heap w p \<noteq> None"
    and "sess_heap w p = Some n \<Longrightarrow> p \<in> set (session_list w)"
    and "sess_heap w p = Some n \<Longrightarrow> p < sess_next w"
    and "sess_heap w p = Some n \<Longrightarrow> n_session n \<le> lastsession w"
    and "sess_heap w p = Some n \<Longrightarrow> sess_heap w q = Some m \<Longrightarrow> n_session n = n_session m
      \<Longrightarrow> n_session n \<noteq> 0 \<Longrightarrow> p = q"
  using assms unfolding sess_inv_def by blast+

definition broadcast :: "string \<Rightarrow> world \<Rightarrow> world" where
  "broadcast msg w = w\<lparr>sess_heap := (\<lambda>p. map_option (deliver msg) (sess_heap w p))\<rparr>"

lemma deliver_fields [simp]:
  "n_session (deliver msg n) = n_session n" "n_mode (deliver msg n) = n_mode n"
  "n_thread (deliver msg n) = n_thread n" "n_socket (deliver msg n) = n_socket n"
  by (simp_all add: deliver_def split: option.splits)

lemma deliver_all_live:
  "distinct ps \<Longrightarrow> (\<forall>p \<in> set ps. h p \<noteq> None) \<Longrightarrow>
   deliver_all msg ps h = Some (\<lambda>p. if p \<in> set ps then map_option (deliver msg) (h p) else h p)"
proof (induction ps arbitrary: h)
  case (Cons p ps)
  then obtain n where n: "h p = Some n" by auto
  have "deliver_all msg ps (h(p \<mapsto> deliver msg n)) =
     Some (\<lambda>q. if q \<in> set ps then map_option (deliver msg) ((h(p \<mapsto> deliver msg n)) q)
               else (h(p \<mapsto> deliver msg n)) q)"
    using Cons.prems by (intro Cons.IH) auto
  then show ?case using n Cons.prems(1) by (auto simp: fun_eq_iff)
qed simp

lemma enqueueInfoMessage_ok:
  assumes "sess_inv w"
  shows "enqueueInfoMessage msg w = Some (broadcast msg w)"
proof (cases "session_list w = []")
  case True
  with assms have "sess_heap w = (\<lambda>_. None)" by (auto simp: sess_inv_def fun_eq_iff)
  with True show ?thesis
    by (simp add: enqueueInfoMessage_def session_enqueue_info_message_def broadcast_def)
next
  case False
  have "deliver_all msg (session_list w) (sess_heap w) = Some (\<lambda>p. if p \<in> set (session_list w)
      then map_option (deliver msg) (sess_heap w p) else sess_heap w p)"
    using assms by (intro deliver_all_live) (auto simp: sess_inv_def)
  moreover have "(if p \<in> set (session_list w) then map_option (deliver msg) (sess_heap w p)
      else sess_heap w p) = map_option (deliver msg) (sess_heap w p)" for p
    using assms by (cases "sess_heap w p") (auto simp: sess_inv_def)
  ultimately show ?thesis using False
    by (simp add: enqueueInfoMessage_def session_enqueue_info_message_def broadcast_def)
qed

text \<open>Delivering a message changes nothing but the pipes.\<close>

lemma broadcast_frame [simp]:
  "clk (broadcast msg w) = clk w" "num_buses (broadcast msg w) = num_buses w"
  "buses (broadcast msg w) = buses w" "gl (broadcast msg w) = gl w"
  "gl_queue (broadcast msg w) = gl_queue w" "ga (broadcast msg w) = ga w"
  "ga_queue (broadcast msg w) = ga_queue w" "fb (broadcast msg w) = fb w"
  "fb_queue (broadcast msg w) = fb_queue w" "min_time (broadcast msg w) = min_time w"
  "sm_queue (broadcast msg w) = sm_queue w" "cb_data (broadcast msg w) = cb_data w"
  "vtime_now (broadcast msg w) = vtime_now w" "distort (broadcast msg w) = distort w"
  "srv_state (broadcast msg w) = srv_state w" "lastsession (broadcast msg w) = lastsession w"
  "runningsessions (broadcast msg w) = runningsessions w"
  "session_list (broadcast msg w) = session_list w" "sess_next (broadcast msg w) = sess_next w"
  "loop_cv (broadcast msg w) = loop_cv w"
  by (simp_all add: broadcast_def)

text \<open>\<open>sess_inv\<close> is a statement about the session variables alone.\<close>

lemma sess_inv_cong:
  "\<lbrakk> session_list w' = session_list w; sess_heap w' = sess_heap w; sess_next w' = sess_next w;
     lastsession w' = lastsession w; runningsessions w' = runningsessions w; sess_inv w \<rbrakk>
   \<Longrightarrow> sess_inv w'"
  by (simp add: sess_inv_def)

lemma sess_inv_tick [simp]: "sess_inv (tick w) = sess_inv w"
  by (simp add: sess_inv_def)

lemma sess_inv_broadcast [simp]: "sess_inv w \<Longrightarrow> sess_inv (broadcast msg w)"
  unfolding sess_inv_def broadcast_def by fastforce

lemma sess_inv_updates [simp]:
  "sess_inv (w\<lparr>gl := a\<rparr>) = sess_inv w" "sess_inv (w\<lparr>gl_queue := b\<rparr>) = sess_inv w"
  "sess_inv (w\<lparr>ga := c\<rparr>) = sess_inv w" "sess_inv (w\<lparr>ga_queue := d\<rparr>) = sess_inv w"
  "sess_inv (w\<lparr>fb := e\<rparr>) = sess_inv w" "sess_inv (w\<lparr>fb_queue := f\<rparr>) = sess_inv w"
  "sess_inv (w\<lparr>sm_queue := g\<rparr>) = sess_inv w" "sess_inv (w\<lparr>cb_data := i\<rparr>) = sess_inv w"
  "sess_inv (w\<lparr>vtime_now := j\<rparr>) = sess_inv w" "sess_inv (w\<lparr>distort := k\<rparr>) = sess_inv w"
  "sess_inv (w\<lparr>srv_state := l\<rparr>) = sess_inv w" "sess_inv (w\<lparr>buses := m\<rparr>) = sess_inv w"
  "sess_inv (w\<lparr>loop_cv := v\<rparr>) = sess_inv w"
  by (simp_all add: sess_inv_def)

end
