(* ===== verification/Srcp_Inv.thy ===== *)
theory Srcp_Inv
  imports Srcp_Session
begin

text \<open>
  The well-formedness invariant of the server state, which every operation keeps: the session
  list is healthy (\<open>sess_inv\<close>), every queue's indices are inside its array, and every device
  table that is in use has the entries its bounds promise. A component's part constrains
  only that component's variables.
\<close>

definition GL_QUEUELEN :: nat where "GL_QUEUELEN = 50"
definition GA_QUEUELEN :: nat where "GA_QUEUELEN = 50"
definition SM_QUEUELEN :: nat where "SM_QUEUELEN = 2"
definition QUEUELENGTH_FB :: nat where "QUEUELENGTH_FB = 1000"

definition gl_inv :: "world \<Rightarrow> bool" where
  "gl_inv w \<longleftrightarrow> (\<forall>b. ring_inv GL_QUEUELEN (gl_queue w b) \<and>
     (0 < numberOfGl (gl w b) \<longrightarrow> length (glstate (gl w b)) = nat (numberOfGl (gl w b)) + 1))"

definition ga_inv :: "world \<Rightarrow> bool" where
  "ga_inv w \<longleftrightarrow> (\<forall>b. ring_inv GA_QUEUELEN (ga_queue w b) \<and>
     (0 < numberOfGa (ga w b) \<longrightarrow> length (gastate (ga w b)) = nat (numberOfGa (ga w b)) + 1))"

definition fb_inv :: "world \<Rightarrow> bool" where
  "fb_inv w \<longleftrightarrow> (\<forall>b. ring_inv QUEUELENGTH_FB (fb_queue w b) \<and>
     (0 < numberOfFb (fb w b) \<longrightarrow> length (fbstate (fb w b)) = nat (numberOfFb (fb w b))) \<and>
     (\<forall>r \<in> set (ring_list (fb_queue w b)). 0 \<le> r_port r \<and> r_port r < numberOfFb (fb w b)))"

definition sm_inv :: "world \<Rightarrow> bool" where
  "sm_inv w \<longleftrightarrow> (\<forall>b. ring_inv SM_QUEUELEN (sm_queue w b))"

definition world_inv :: "world \<Rightarrow> bool" where
  "world_inv w \<longleftrightarrow> sess_inv w \<and> gl_inv w \<and> ga_inv w \<and> fb_inv w \<and> sm_inv w"

named_theorems inv_intros "operations that keep the invariant"

lemma gl_inv_cong: "gl w' = gl w \<Longrightarrow> gl_queue w' = gl_queue w \<Longrightarrow> gl_inv w' = gl_inv w"
  by (simp add: gl_inv_def)

lemma ga_inv_cong: "ga w' = ga w \<Longrightarrow> ga_queue w' = ga_queue w \<Longrightarrow> ga_inv w' = ga_inv w"
  by (simp add: ga_inv_def)

lemma fb_inv_cong: "fb w' = fb w \<Longrightarrow> fb_queue w' = fb_queue w \<Longrightarrow> fb_inv w' = fb_inv w"
  by (simp add: fb_inv_def)

lemma sm_inv_cong: "sm_queue w' = sm_queue w \<Longrightarrow> sm_inv w' = sm_inv w"
  by (simp add: sm_inv_def)

lemmas part_congs = gl_inv_cong ga_inv_cong fb_inv_cong sm_inv_cong

lemma resume_bus_thread_frame [simp]:
  "clk (resume_bus_thread b w) = clk w" "num_buses (resume_bus_thread b w) = num_buses w"
  "gl (resume_bus_thread b w) = gl w" "gl_queue (resume_bus_thread b w) = gl_queue w"
  "ga (resume_bus_thread b w) = ga w" "ga_queue (resume_bus_thread b w) = ga_queue w"
  "fb (resume_bus_thread b w) = fb w" "fb_queue (resume_bus_thread b w) = fb_queue w"
  "min_time (resume_bus_thread b w) = min_time w" "sm_queue (resume_bus_thread b w) = sm_queue w"
  "cb_data (resume_bus_thread b w) = cb_data w" "vtime_now (resume_bus_thread b w) = vtime_now w"
  "distort (resume_bus_thread b w) = distort w" "srv_state (resume_bus_thread b w) = srv_state w"
  "lastsession (resume_bus_thread b w) = lastsession w"
  "runningsessions (resume_bus_thread b w) = runningsessions w"
  "session_list (resume_bus_thread b w) = session_list w"
  "sess_heap (resume_bus_thread b w) = sess_heap w" "sess_next (resume_bus_thread b w) = sess_next w"
  by (simp_all add: resume_bus_thread_def)

lemma world_inv_tick [simp]: "world_inv (tick w) = world_inv w"
  by (simp add: world_inv_def gl_inv_def ga_inv_def fb_inv_def sm_inv_def)

lemma world_inv_broadcast [simp]: "world_inv w \<Longrightarrow> world_inv (broadcast msg w)"
  by (simp add: world_inv_def gl_inv_def ga_inv_def fb_inv_def sm_inv_def)

lemma world_inv_resume [simp]: "world_inv (resume_bus_thread b w) = world_inv w"
proof -
  have "sess_inv (resume_bus_thread b w) = sess_inv w" by (simp add: sess_inv_def)
  then show ?thesis by (simp add: world_inv_def gl_inv_def ga_inv_def fb_inv_def sm_inv_def)
qed

lemma world_inv_buses [simp]: "world_inv (w\<lparr>buses := d\<rparr>) = world_inv w"
  by (simp add: world_inv_def gl_inv_def ga_inv_def fb_inv_def sm_inv_def)

lemma world_inv_gl [simp]:
  "world_inv w \<Longrightarrow> gl_inv (w\<lparr>gl := t\<rparr>) \<Longrightarrow> world_inv (w\<lparr>gl := t\<rparr>)"
  "world_inv w \<Longrightarrow> gl_inv (w\<lparr>gl_queue := q\<rparr>) \<Longrightarrow> world_inv (w\<lparr>gl_queue := q\<rparr>)"
  by (simp_all add: world_inv_def ga_inv_def fb_inv_def sm_inv_def)

lemma world_inv_ga [simp]:
  "world_inv w \<Longrightarrow> ga_inv (w\<lparr>ga := u\<rparr>) \<Longrightarrow> world_inv (w\<lparr>ga := u\<rparr>)"
  "world_inv w \<Longrightarrow> ga_inv (w\<lparr>ga_queue := r\<rparr>) \<Longrightarrow> world_inv (w\<lparr>ga_queue := r\<rparr>)"
  by (simp_all add: world_inv_def gl_inv_def fb_inv_def sm_inv_def)

lemma world_inv_fb [simp]:
  "world_inv w \<Longrightarrow> fb_inv (w\<lparr>fb := u\<rparr>) \<Longrightarrow> world_inv (w\<lparr>fb := u\<rparr>)"
  "world_inv w \<Longrightarrow> fb_inv (w\<lparr>fb_queue := r\<rparr>) \<Longrightarrow> world_inv (w\<lparr>fb_queue := r\<rparr>)"
  by (simp_all add: world_inv_def gl_inv_def ga_inv_def sm_inv_def)

lemma world_inv_sm [simp]:
  "world_inv w \<Longrightarrow> sm_inv (w\<lparr>sm_queue := r\<rparr>) \<Longrightarrow> world_inv (w\<lparr>sm_queue := r\<rparr>)"
  by (simp_all add: world_inv_def gl_inv_def ga_inv_def fb_inv_def)

lemma world_inv_rest [simp]:
  "world_inv (w\<lparr>cb_data := i\<rparr>) = world_inv w" "world_inv (w\<lparr>vtime_now := j\<rparr>) = world_inv w"
  "world_inv (w\<lparr>distort := k\<rparr>) = world_inv w" "world_inv (w\<lparr>srv_state := l\<rparr>) = world_inv w"
  "world_inv (w\<lparr>loop_cv := v\<rparr>) = world_inv w"
  by (simp_all add: world_inv_def gl_inv_def ga_inv_def fb_inv_def sm_inv_def)

text \<open>The updates the operations make: a command is queued, a table entry is replaced.\<close>

lemma world_inv_gl_queue_put [simp]:
  "world_inv v \<Longrightarrow> gl_queue v = t \<Longrightarrow> world_inv (v\<lparr>gl_queue := upd (ring_put f) b t\<rparr>)"
  by (rule world_inv_gl) (auto simp: world_inv_def gl_inv_def upd_def ring_put_push ring_push_inv)

lemma world_inv_gl_upd [simp]:
  "\<lbrakk> world_inv v; gl v = t; numberOfGl (f (t b)) = numberOfGl (t b);
     length (glstate (f (t b))) = length (glstate (t b)) \<rbrakk> \<Longrightarrow> world_inv (v\<lparr>gl := upd f b t\<rparr>)"
  by (rule world_inv_gl) (auto simp: world_inv_def gl_inv_def upd_def)

lemma world_inv_ga_queue_put [simp]:
  "world_inv v \<Longrightarrow> ga_queue v = t \<Longrightarrow> world_inv (v\<lparr>ga_queue := upd (ring_put f') b t\<rparr>)"
  by (rule world_inv_ga) (auto simp: world_inv_def ga_inv_def upd_def ring_put_push ring_push_inv)

lemma world_inv_ga_upd [simp]:
  "\<lbrakk> world_inv v; ga v = t; numberOfGa (f (t b)) = numberOfGa (t b);
     length (gastate (f (t b))) = length (gastate (t b)) \<rbrakk> \<Longrightarrow> world_inv (v\<lparr>ga := upd f b t\<rparr>)"
  by (rule world_inv_ga) (auto simp: world_inv_def ga_inv_def upd_def)

lemma world_inv_sm_queue_put [simp]:
  "world_inv v \<Longrightarrow> sm_queue v = t \<Longrightarrow> world_inv (v\<lparr>sm_queue := upd (ring_put f) b t\<rparr>)"
  by (rule world_inv_sm) (auto simp: world_inv_def sm_inv_def upd_def ring_put_push ring_push_inv)

lemma world_inv_fb_upd [simp]:
  "\<lbrakk> world_inv v; fb v = t; numberOfFb (f (t b)) = numberOfFb (t b);
     length (fbstate (f (t b))) = length (fbstate (t b)) \<rbrakk> \<Longrightarrow> world_inv (v\<lparr>fb := upd f b t\<rparr>)"
  by (rule world_inv_fb) (auto simp: world_inv_def fb_inv_def upd_def)

lemma world_inv_sess: "world_inv w \<Longrightarrow> sess_inv w"
  by (simp add: world_inv_def)

lemma info_ok: "world_inv w \<Longrightarrow> enqueueInfoMessage msg w = Some (broadcast msg w)"
  by (simp add: enqueueInfoMessage_ok world_inv_sess)

subsection \<open>The state before \<open>main\<close>, and a small server\<close>

definition zero_bus :: bus_data where
  "zero_bus = \<lparr>protocols = None, description = [], init_gl_func = None, init_ga_func = None,
     init_fb_func = None, flags = 0, watchdog = 0, power_state = 0, power_changed = 0,
     power_change_time = tv_zero, power_msg = [], wakeups = 0, tga = replicate 50 zero_ga\<rparr>"

text \<open>The statics before \<open>main\<close>: everything is zero.\<close>

definition zero_world :: "(nat \<Rightarrow> timeval) \<Rightarrow> world" where
  "zero_world c = \<lparr>clk = c, num_buses = 0, buses = (\<lambda>_. zero_bus),
     gl = (\<lambda>_. \<lparr>numberOfGl = 0, glstate = [], gl_locktime = tv_zero, gl_lockduration = 0, gl_locked_by = 0\<rparr>),
     gl_queue = (\<lambda>_. ring_new GL_QUEUELEN zero_gl),
     ga = (\<lambda>_. \<lparr>numberOfGa = 0, gastate = []\<rparr>), ga_queue = (\<lambda>_. ring_new GA_QUEUELEN zero_ga),
     fb = (\<lambda>_. \<lparr>numberOfFb = 0, fbstate = []\<rparr>),
     fb_queue = (\<lambda>_. ring_new QUEUELENGTH_FB \<lparr>r_port = 0, r_timestamp = tv_zero\<rparr>),
     min_time = (\<lambda>_. 0), sm_queue = (\<lambda>_. ring_new SM_QUEUELEN zero_sm), cb_data = (\<lambda>_. 0),
     vtime_now = \<lparr>day = 0, hour = 0, minute = 0, sec = 0\<rparr>,
     distort = \<lparr>ratio_x = 0, ratio_y = 0, d_inittime = tv_zero\<rparr>, srv_state = ssInitializing,
     lastsession = 0, runningsessions = 0, session_list = [], sess_heap = (\<lambda>_. None),
     sess_next = 1, loop_cv = replicate 256 0\<rparr>"

lemma zero_world_inv: "world_inv (zero_world c)"
proof -
  have "sess_inv (zero_world c)" by (simp add: sess_inv_def zero_world_def)
  then show ?thesis
    by (simp add: world_inv_def gl_inv_def ga_inv_def fb_inv_def sm_inv_def zero_world_def
        ring_new_inv ring_new_list GL_QUEUELEN_def GA_QUEUELEN_def QUEUELENGTH_FB_def SM_QUEUELEN_def)
qed

text \<open>A server with one bus, a locomotive and an accessory that are initialized, four feedback
  ports, a COMMAND session and an INFO session.\<close>

definition sample_bus :: bus_data where
  "sample_bus = zero_bus\<lparr>description := ''GA GL FB SM POWER LOCK DESCRIPTION''\<rparr>"

definition sample_gl :: gl_state where
  "sample_gl = zero_gl\<lparr>l_state := 1, l_protocol := CHR ''N'', l_protocolversion := 1, l_n_fs := 28,
     l_n_func := 4, l_id := 3\<rparr>"

definition sample_ga :: ga_state where
  "sample_ga = zero_ga\<lparr>a_state := 1, a_protocol := CHR ''N''\<rparr>"

definition sample_node :: "nat \<Rightarrow> session_mode \<Rightarrow> session_node" where
  "sample_node sid m = \<lparr>n_session = sid, n_thread = sid, n_socket = int sid, n_mode = m,
     n_pipe = (if m = smInfo then Some [] else None)\<rparr>"

definition sample_world :: world where
  "sample_world = (zero_world (\<lambda>i. \<lparr>tv_sec = int i, tv_usec = 0\<rparr>))\<lparr>
     num_buses := 1, buses := (\<lambda>b. if b = 1 then sample_bus else zero_bus),
     gl := (\<lambda>b. \<lparr>numberOfGl = (if b = 1 then 3 else 0),
                 glstate = (if b = 1 then [zero_gl, zero_gl, zero_gl, sample_gl] else []),
                 gl_locktime = tv_zero, gl_lockduration = 0, gl_locked_by = 0\<rparr>),
     ga := (\<lambda>b. if b = 1 then \<lparr>numberOfGa = 2, gastate = [zero_ga, sample_ga, zero_ga]\<rparr>
                else \<lparr>numberOfGa = 0, gastate = []\<rparr>),
     fb := (\<lambda>b. if b = 1
                then \<lparr>numberOfFb = 16, fbstate = replicate 16 \<lparr>f_timestamp = tv_zero, f_state = 0, f_change = 0\<rparr>\<rparr>
                else \<lparr>numberOfFb = 0, fbstate = []\<rparr>),
     srv_state := ssRunning, lastsession := 2, runningsessions := 2, session_list := [2, 1],
     sess_heap := [1 \<mapsto> sample_node 1 smCommand, 2 \<mapsto> sample_node 2 smInfo], sess_next := 3\<rparr>"

lemma sample_world_inv: "world_inv sample_world"
proof -
  have "sess_inv sample_world"
    by (rule sess_invI) (auto simp: sample_world_def zero_world_def sample_node_def split: if_splits)
  then show ?thesis
    by (simp add: world_inv_def gl_inv_def ga_inv_def fb_inv_def sm_inv_def sample_world_def zero_world_def
        ring_new_inv ring_new_list GL_QUEUELEN_def GA_QUEUELEN_def QUEUELENGTH_FB_def SM_QUEUELEN_def)
qed

end
