(* ===== verification/Device_Lock.thy ===== *)
theory Device_Lock
  imports Prelude
begin

text \<open>
  What a session relies on when it locks a device: the contract of the lock operations of
  \<open>srcp-gl.c\<close> and \<open>srcp-ga.c\<close>. A lock has a holder, a session id, or 0. A lock request is
  granted if the device is free or already held by the session, an unlock request if the
  device is free or held by the session; any other answer leaves the state as it was.

  From these laws follows what the lock is for: while a session holds a device, no
  interleaving of requests of other sessions, on this and other devices, takes it away.
\<close>

datatype ('d, 'x) lock_req = Lock_req 'd 'x nat | Unlock_req 'd 'x nat

locale device_lock =
  fixes inv :: "'w \<Rightarrow> bool"
    and holder :: "'d \<Rightarrow> 'w \<Rightarrow> nat"
    and ok :: int
    and lock :: "'d \<Rightarrow> 'x \<Rightarrow> nat \<Rightarrow> 'w \<Rightarrow> (int \<times> 'w) option"
    and unlock :: "'d \<Rightarrow> 'x \<Rightarrow> nat \<Rightarrow> 'w \<Rightarrow> (int \<times> 'w) option"
  assumes lock_inv: "inv w \<Longrightarrow> lock d x s w = Some (rc, w') \<Longrightarrow> inv w'"
    and unlock_inv: "inv w \<Longrightarrow> unlock d x s w = Some (rc, w') \<Longrightarrow> inv w'"
    and lock_granted: "inv w \<Longrightarrow> lock d x s w = Some (rc, w') \<Longrightarrow> rc = ok \<Longrightarrow>
      (holder d w = s \<or> holder d w = 0) \<and> holder d w' = s"
    and lock_refused: "inv w \<Longrightarrow> lock d x s w = Some (rc, w') \<Longrightarrow> rc \<noteq> ok \<Longrightarrow> holder d w' = holder d w"
    and unlock_granted: "inv w \<Longrightarrow> unlock d x s w = Some (rc, w') \<Longrightarrow> rc = ok \<Longrightarrow>
      (holder d w = s \<or> holder d w = 0) \<and> holder d w' = 0"
    and unlock_refused: "inv w \<Longrightarrow> unlock d x s w = Some (rc, w') \<Longrightarrow> rc \<noteq> ok \<Longrightarrow> holder d w' = holder d w"
    and lock_other: "inv w \<Longrightarrow> lock d x s w = Some (rc, w') \<Longrightarrow> d' \<noteq> d \<Longrightarrow> holder d' w' = holder d' w"
    and unlock_other: "inv w \<Longrightarrow> unlock d x s w = Some (rc, w') \<Longrightarrow> d' \<noteq> d \<Longrightarrow> holder d' w' = holder d' w"

text \<open>A run of requests: the state at the end, if every request has a defined result.\<close>

fun lock_run :: "('d \<Rightarrow> 'x \<Rightarrow> nat \<Rightarrow> 'w \<Rightarrow> (int \<times> 'w) option) \<Rightarrow> ('d \<Rightarrow> 'x \<Rightarrow> nat \<Rightarrow> 'w \<Rightarrow> (int \<times> 'w) option)
    \<Rightarrow> ('d, 'x) lock_req list \<Rightarrow> 'w \<Rightarrow> 'w option" where
  "lock_run lock unlock [] w = Some w"
| "lock_run lock unlock (Lock_req d x s # rs) w =
     do { (_, w') \<leftarrow> lock d x s w; lock_run lock unlock rs w' }"
| "lock_run lock unlock (Unlock_req d x s # rs) w =
     do { (_, w') \<leftarrow> unlock d x s w; lock_run lock unlock rs w' }"

fun from_session :: "nat \<Rightarrow> ('d, 'x) lock_req \<Rightarrow> bool" where
  "from_session s (Lock_req d x s') \<longleftrightarrow> s = s'"
| "from_session s (Unlock_req d x s') \<longleftrightarrow> s = s'"

context device_lock begin

lemma step_keeps:
  assumes "inv w" and "holder d w = s" and "s \<noteq> 0" and "s' \<noteq> s"
  shows "lock d' x s' w = Some (rc, w') \<Longrightarrow> inv w' \<and> holder d w' = s"
    and "unlock d' x s' w = Some (rc, w') \<Longrightarrow> inv w' \<and> holder d w' = s"
proof -
  show "inv w' \<and> holder d w' = s" if l: "lock d' x s' w = Some (rc, w')"
    using lock_inv [OF assms(1) l] lock_granted [OF assms(1) l] lock_refused [OF assms(1) l]
      lock_other [OF assms(1) l, of d] assms(2-4)
    by (cases "d = d'"; cases "rc = ok") auto
  show "inv w' \<and> holder d w' = s" if u: "unlock d' x s' w = Some (rc, w')"
    using unlock_inv [OF assms(1) u] unlock_granted [OF assms(1) u] unlock_refused [OF assms(1) u]
      unlock_other [OF assms(1) u, of d] assms(2-4)
    by (cases "d = d'"; cases "rc = ok") auto
qed

lemma run_keeps:
  "inv w \<Longrightarrow> holder d w = s \<Longrightarrow> s \<noteq> 0 \<Longrightarrow> \<forall>r\<in>set rs. \<not> from_session s r \<Longrightarrow>
   lock_run lock unlock rs w = Some w' \<Longrightarrow> inv w' \<and> holder d w' = s"
proof (induction rs arbitrary: w)
  case (Cons r rs)
  obtain w1 where w1: "inv w1" "holder d w1 = s" "lock_run lock unlock rs w1 = Some w'"
  proof (cases r)
    case (Lock_req d' x s')
    then obtain rc w1 where *: "lock d' x s' w = Some (rc, w1)" "lock_run lock unlock rs w1 = Some w'"
      using Cons.prems(5) by (auto simp: bind_eq_Some_conv)
    have "s' \<noteq> s" using Cons.prems(4) Lock_req by auto
    from step_keeps(1) [OF Cons.prems(1-3) this *(1)] *(2) that show ?thesis by blast
  next
    case (Unlock_req d' x s')
    then obtain rc w1 where *: "unlock d' x s' w = Some (rc, w1)" "lock_run lock unlock rs w1 = Some w'"
      using Cons.prems(5) by (auto simp: bind_eq_Some_conv)
    have "s' \<noteq> s" using Cons.prems(4) Unlock_req by auto
    from step_keeps(2) [OF Cons.prems(1-3) this *(1)] *(2) that show ?thesis by blast
  qed
  show ?case by (rule Cons.IH [OF w1(1,2) Cons.prems(3) _ w1(3)]) (use Cons.prems(4) in simp)
qed auto

text \<open>Mutual exclusion.\<close>

lemma exclusive:
  assumes "inv w" and "lock d x s w = Some (ok, w1)" and "s \<noteq> 0"
    and "\<forall>r\<in>set rs. \<not> from_session s r" and "lock_run lock unlock rs w1 = Some w2"
    and "s' \<noteq> s" and "lock d x' s' w2 = Some (rc, w3)"
  shows "holder d w2 = s \<and> rc \<noteq> ok \<and> holder d w3 = s"
proof -
  have "inv w1" "holder d w1 = s"
    using lock_inv [OF assms(1,2)] lock_granted [OF assms(1,2) refl] by simp_all
  then have 2: "inv w2" "holder d w2 = s" using run_keeps [OF _ _ assms(3-5)] by blast+
  then have "rc \<noteq> ok" using lock_granted [OF 2(1) assms(7)] assms(3,6) by auto
  with 2 lock_refused [OF 2(1) assms(7)] show ?thesis by simp
qed

text \<open>A released device can be locked by the next session that asks.\<close>

lemma released:
  assumes "inv w" and "unlock d x s w = Some (ok, w1)"
    and "\<forall>r\<in>set rs. \<not> (\<exists>x' s'. r = Lock_req d x' s')" and "lock_run lock unlock rs w1 = Some w2"
  shows "holder d w2 = 0"
proof -
  have "lock_run lock unlock rs w1 = Some w2 \<Longrightarrow> inv w1 \<Longrightarrow> holder d w1 = 0 \<Longrightarrow> holder d w2 = 0"
    using assms(3)
  proof (induction rs arbitrary: w1)
    case (Cons r rs)
    obtain w' where w': "inv w'" "holder d w' = 0" "lock_run lock unlock rs w' = Some w2"
    proof (cases r)
      case (Lock_req d' x s')
      then obtain rc w' where l: "lock d' x s' w1 = Some (rc, w')" "lock_run lock unlock rs w' = Some w2"
        using Cons.prems(1) by (auto simp: bind_eq_Some_conv)
      have "d \<noteq> d'" using Cons.prems(4) Lock_req by auto
      then show ?thesis
        using that [OF lock_inv [OF Cons.prems(2) l(1)] _ l(2)] lock_other [OF Cons.prems(2) l(1)]
          Cons.prems(3) by simp
    next
      case (Unlock_req d' x s')
      then obtain rc w' where l: "unlock d' x s' w1 = Some (rc, w')" "lock_run lock unlock rs w' = Some w2"
        using Cons.prems(1) by (auto simp: bind_eq_Some_conv)
      have "holder d w' = 0"
        using unlock_granted [OF Cons.prems(2) l(1)] unlock_refused [OF Cons.prems(2) l(1)]
          unlock_other [OF Cons.prems(2) l(1), of d] Cons.prems(3)
        by (cases "d = d'"; cases "rc = ok") auto
      then show ?thesis using that [OF unlock_inv [OF Cons.prems(2) l(1)] _ l(2)] by simp
    qed
    show ?case by (rule Cons.IH [OF w'(3,1,2)]) (use Cons.prems(4) in simp)
  qed simp
  with unlock_inv [OF assms(1,2)] unlock_granted [OF assms(1,2) refl] assms(4) show ?thesis by blast
qed

end

end
