(* ===== verification/Srcp_GL.thy ===== *)
theory Srcp_GL
  imports Srcp_Inv Device_Lock
begin

text \<open>
  Generic locomotives, \<open>srcp-gl.c\<close>: the state table per bus, the command queue per bus
  and the one lock per bus. \<open>cacheInitGL\<close> and \<open>enqueueGL\<close> call each other in the code;
  the recursion has depth one, because \<open>cacheInitGL\<close> calls \<open>enqueueGL\<close> only after it has
  set the state to 1, so the part of \<open>enqueueGL\<close> after that test is a definition of its
  own, \<open>enqueueGL_put\<close> (lemma \<open>enqueueGL_initialized\<close> states the unfolding).
\<close>

abbreviation gl_at :: "nat \<Rightarrow> int \<Rightarrow> world \<Rightarrow> gl_state" where
  "gl_at b addr w \<equiv> glstate (gl w b) ! nat addr"

definition set_gl_at :: "nat \<Rightarrow> int \<Rightarrow> gl_state \<Rightarrow> world \<Rightarrow> world" where
  "set_gl_at b addr g w =
     w\<lparr>gl := upd (\<lambda>t. t\<lparr>glstate := (glstate t)[nat addr := g]\<rparr>) b (gl w)\<rparr>"

definition isValidGL :: "nat \<Rightarrow> int \<Rightarrow> world \<Rightarrow> bool" where
  "isValidGL b addr w \<longleftrightarrow>
     b \<le> num_buses w \<and> 0 < numberOfGl (gl w b) \<and> 0 < addr \<and> addr \<le> numberOfGl (gl w b)"

definition getMaxAddrGL :: "nat \<Rightarrow> world \<Rightarrow> int" where
  "getMaxAddrGL b w = (if b \<le> num_buses w then numberOfGl (gl w b) else - 1)"

text \<open>The speed a decoder with \<open>n_fs\<close> steps is sent for \<open>vs\<close> of \<open>vmax\<close>. Signed
  overflow, and shifting a negative value to the left, have no defined result.\<close>

definition calcspeed :: "int \<Rightarrow> int \<Rightarrow> int \<Rightarrow> int option" where
  "calcspeed vs vmax n_fs =
     (if vmax = 0 then Some vs
      else
        let vs = (if vs < 0 then 0 else vs);
            vs = (if vs > vmax then vmax else vs);
            r1 = vs * n_fs;
            r2 = r1 * 2;
            r3 = r2 + vmax
        in if r1 < 0 \<or> \<not> in_int r1 \<or> \<not> in_int r2 \<or> \<not> in_int r3 then None
           else let rs = c_div r3 vmax div 2
                in Some (if rs = 0 \<and> vs \<noteq> 0 then 1 else rs))"

definition isInitializedGL :: "nat \<Rightarrow> int \<Rightarrow> world \<Rightarrow> bool" where
  "isInitializedGL b addr w \<longleftrightarrow> isValidGL b addr w \<and> l_state (gl_at b addr w) = 1"

definition queue_GL_isempty :: "nat \<Rightarrow> world \<Rightarrow> bool" where
  "queue_GL_isempty b w = ring_isempty (gl_queue w b)"

definition gl_queue_isfull :: "nat \<Rightarrow> world \<Rightarrow> bool" where
  "gl_queue_isfull b w = ring_isfull (gl_queue w b)"

text \<open>The slot written by \<open>enqueueGL\<close>: its state and inittime keep their old contents.\<close>

definition gl_command :: "gl_state \<Rightarrow> int \<Rightarrow> int \<Rightarrow> int \<Rightarrow> int \<Rightarrow> timeval \<Rightarrow> gl_state \<Rightarrow> gl_state" where
  "gl_command g addr dir sp f t slot =
     slot\<lparr>l_protocol := l_protocol g, l_protocolversion := l_protocolversion g, l_speed := sp,
          l_n_fs := l_n_fs g, l_n_func := l_n_func g, l_direction := dir,
          l_funcs := word_of_int f, l_tv := t, l_id := addr\<rparr>"

definition enqueueGL_put :: "nat \<Rightarrow> int \<Rightarrow> int \<Rightarrow> int \<Rightarrow> int \<Rightarrow> int \<Rightarrow> world \<Rightarrow> (int \<times> world) option" where
  "enqueueGL_put b addr dir speed maxspeed f w =
     (if gl_queue_isfull b w then Some (SRCP_TEMPORARILYPROHIBITED, w)
      else case calcspeed speed maxspeed (l_n_fs (gl_at b addr w)) of
        None \<Rightarrow> None
      | Some sp \<Rightarrow>
          Some (SRCP_OK, resume_bus_thread b ((tick w)\<lparr>gl_queue :=
            upd (ring_put (gl_command (gl_at b addr w) addr dir sp f (now w))) b (gl_queue w)\<rparr>)))"

definition cacheDescribeGL :: "nat \<Rightarrow> int \<Rightarrow> world \<Rightarrow> int \<times> string" where
  "cacheDescribeGL b addr w =
     (if isInitializedGL b addr w then
        (SRCP_INFO, fmt_time (l_inittime (gl_at b addr w)) @ '' 101 INFO '' @ fmt_d (int b) @ '' GL ''
           @ fmt_d addr @ '' '' @ [l_protocol (gl_at b addr w)] @ '' ''
           @ fmt_d (l_protocolversion (gl_at b addr w)) @ '' '' @ fmt_d (l_n_fs (gl_at b addr w))
           @ '' '' @ fmt_d (l_n_func (gl_at b addr w)) @ ''\<newline>'')
      else (SRCP_NODATA, []))"

text \<open>The INFO line of a locomotive. \<open>funcs >> i\<close> has no defined result for \<open>i\<close> of 32 and
  more, and the text is not written at all when the locomotive is not initialized (the
  inner \<open>None\<close>).\<close>

definition gl_function_bits :: "gl_state \<Rightarrow> string \<Rightarrow> string" where
  "gl_function_bits g msg =
     foldl (\<lambda>m i. take 1000 (m @ '' '' @ (if bit (l_funcs g) i then ''1'' else ''0'')))
       msg [1..<nat (l_n_func g)]"

definition cacheInfoGL :: "nat \<Rightarrow> int \<Rightarrow> world \<Rightarrow> (int \<times> string option) option" where
  "cacheInfoGL b addr w =
     (if isInitializedGL b addr w then
        (let g = gl_at b addr w in
         if 32 < l_n_func g then None
         else Some (SRCP_INFO, Some (take 1000 (gl_function_bits g
           (fmt_time (l_tv g) @ '' 100 INFO '' @ fmt_d (int b) @ '' GL '' @ fmt_d addr @ '' ''
              @ fmt_d (l_direction g) @ '' '' @ fmt_d (l_speed g) @ '' '' @ fmt_d (l_n_fs g) @ '' ''
              @ (if bit (l_funcs g) 0 then ''1'' else ''0'')) @ ''\<newline>''))))
      else Some (SRCP_NODATA, None))"

definition cacheInitGL :: "nat \<Rightarrow> int \<Rightarrow> char \<Rightarrow> int \<Rightarrow> int \<Rightarrow> int \<Rightarrow> world \<Rightarrow> (int \<times> world) option" where
  "cacheInitGL b addr p protoversion n_fs n_func w =
     (if isValidGL b addr w then
        if bus_supports_protocol b p w \<noteq> SRCP_OK then Some (bus_supports_protocol b p w, w)
        else
          let t = zero_gl\<lparr>l_inittime := now w, l_tv := now w, l_n_fs := n_fs, l_n_func := n_func,
                 l_protocolversion := protoversion, l_protocol := p, l_id := addr\<rparr>;
              w1 = tick w;
              (rc, t') = (case init_gl_func (buses w b) of Some f \<Rightarrow> f t | None \<Rightarrow> (SRCP_OK, t))
          in if rc = SRCP_OK then
               (let w2 = set_gl_at b addr (t'\<lparr>l_state := 1\<rparr>) w1 in do {
                  w3 \<leftarrow> enqueueInfoMessage (snd (cacheDescribeGL b addr w2)) w2;
                  (rc', w4) \<leftarrow> enqueueGL_put b addr 0 0 1 0 w3;
                  Some (rc, w4) })
             else Some (rc, w1)
      else Some (SRCP_WRONGVALUE, w))"

definition enqueueGL :: "nat \<Rightarrow> int \<Rightarrow> int \<Rightarrow> int \<Rightarrow> int \<Rightarrow> int \<Rightarrow> world \<Rightarrow> (int \<times> world) option" where
  "enqueueGL b addr dir speed maxspeed f w =
     (if isValidGL b addr w then do {
        (rc, w1) \<leftarrow> (if \<not> isInitializedGL b addr w then cacheInitGL b addr (CHR ''P'') 1 14 1 w
                     else Some (SRCP_OK, w));
        enqueueGL_put b addr dir speed maxspeed f w1 }
      else Some (SRCP_WRONGVALUE, w))"

definition dequeueNextGL :: "nat \<Rightarrow> world \<Rightarrow> (gl_state \<times> world) option" where
  "dequeueNextGL b w =
     (case ring_get (gl_queue w b) of None \<Rightarrow> None
      | Some (g, q) \<Rightarrow> Some (g, w\<lparr>gl_queue := upd (\<lambda>_. q) b (gl_queue w)\<rparr>))"

definition cacheGetGL :: "nat \<Rightarrow> int \<Rightarrow> world \<Rightarrow> gl_state option" where
  "cacheGetGL b addr w = (if isInitializedGL b addr w then Some (gl_at b addr w) else None)"

text \<open>\<open>cacheSetGL\<close> sends the buffer \<open>msg\<close> even if \<open>cacheInfoGL\<close> did not write it: then
  its contents are indeterminate and the call has no defined result.\<close>

definition cacheSetGL :: "nat \<Rightarrow> int \<Rightarrow> gl_state \<Rightarrow> world \<Rightarrow> (int \<times> world) option" where
  "cacheSetGL b addr l w =
     (if isValidGL b addr w then
        let g = (gl_at b addr w)\<lparr>l_direction := l_direction l, l_speed := l_speed l,
                  l_funcs := l_funcs l, l_n_fs := l_n_fs l, l_n_func := l_n_func l, l_tv := now w\<rparr>;
            w1 = set_gl_at b addr g (tick w)
        in if l_state g = 2 then do {
             w2 \<leftarrow> enqueueInfoMessage (fmt_time (l_tv g) @ '' 102 INFO '' @ fmt_d (int b) @ '' GL ''
                    @ fmt_d addr @ ''\<newline>'') (set_gl_at b addr zero_gl w1);
             Some (SRCP_OK, w2) }
           else (case cacheInfoGL b addr w1 of
                   Some (_, Some msg) \<Rightarrow> do {
                     w2 \<leftarrow> enqueueInfoMessage msg w1;
                     Some (SRCP_OK, w2) }
                 | _ \<Rightarrow> None)
      else Some (SRCP_WRONGVALUE, w))"

definition cacheTermGL :: "nat \<Rightarrow> int \<Rightarrow> world \<Rightarrow> (int \<times> world) option" where
  "cacheTermGL b addr w =
     (if isInitializedGL b addr w then do {
        let g = gl_at b addr w;
        w1 \<leftarrow> (if l_speed g \<noteq> 0 then do {
                  let g' = g\<lparr>l_speed := 0, l_state := 2, l_direction := 2\<rparr>;
                  (_, wa) \<leftarrow> enqueueGL b addr 2 0 (l_n_fs g') (sint (l_funcs g')) w;
                  (_, wb) \<leftarrow> cacheSetGL b addr g' wa;
                  Some wb }
                else Some w);
        w2 \<leftarrow> enqueueInfoMessage (fmt_time (now w1) @ '' 102 INFO '' @ fmt_d (int b) @ '' GL ''
               @ fmt_d addr @ ''\<newline>'') (tick w1);
        Some (SRCP_OK, set_gl_at b addr zero_gl w2) }
      else Some (SRCP_NODATA, w))"

definition resetGL :: "nat \<Rightarrow> int \<Rightarrow> world \<Rightarrow> (int \<times> world) option" where
  "resetGL b addr w =
     (if isInitializedGL b addr w then do {
        (_, w1) \<leftarrow> enqueueGL b addr 0 0 1 0 w;
        Some (SRCP_OK, w1) }
      else Some (SRCP_NODATA, w))"

subsection \<open>Locks\<close>

definition describeLOCKGL :: "nat \<Rightarrow> int \<Rightarrow> world \<Rightarrow> int \<times> string" where
  "describeLOCKGL b addr w =
     (if isInitializedGL b addr w then
        (SRCP_OK, fmt_time (gl_locktime (gl w b)) @ '' 100 INFO '' @ fmt_d (int b) @ '' LOCK GL ''
           @ fmt_d addr @ '' '' @ fmt_d (gl_lockduration (gl w b)) @ '' ''
           @ fmt_d (int (gl_locked_by (gl w b))) @ ''\<newline>'')
      else (SRCP_WRONGVALUE, []))"

definition cacheLockGL :: "nat \<Rightarrow> int \<Rightarrow> int \<Rightarrow> nat \<Rightarrow> world \<Rightarrow> (int \<times> world) option" where
  "cacheLockGL b addr duration sid w =
     (if isInitializedGL b addr w then
        if gl_locked_by (gl w b) = sid \<or> gl_locked_by (gl w b) = 0 then do {
          let w1 = (tick w)\<lparr>gl := upd (\<lambda>t. t\<lparr>gl_locked_by := sid, gl_lockduration := duration,
                     gl_locktime := now w\<rparr>) b (gl w)\<rparr>;
          w2 \<leftarrow> enqueueInfoMessage (snd (describeLOCKGL b addr w1)) w1;
          Some (SRCP_OK, w2) }
        else Some (SRCP_DEVICELOCKED, w)
      else Some (SRCP_WRONGVALUE, w))"

text \<open>The session id is written through a pointer only when the locomotive is initialized.\<close>

definition cacheGetLockGL :: "nat \<Rightarrow> int \<Rightarrow> world \<Rightarrow> nat option" where
  "cacheGetLockGL b addr w =
     (if isInitializedGL b addr w then Some (gl_locked_by (gl w b)) else None)"

definition cacheUnlockGL :: "nat \<Rightarrow> int \<Rightarrow> nat \<Rightarrow> world \<Rightarrow> (int \<times> world) option" where
  "cacheUnlockGL b addr sid w =
     (if \<not> isInitializedGL b addr w then Some (SRCP_WRONGVALUE, w)
      else if gl_locked_by (gl w b) = 0 \<or> gl_locked_by (gl w b) = sid then do {
        let w1 = (tick w)\<lparr>gl := upd (\<lambda>t. t\<lparr>gl_locked_by := 0, gl_locktime := now w\<rparr>) b (gl w)\<rparr>;
        w2 \<leftarrow> enqueueInfoMessage (fmt_time (now w) @ '' 102 INFO '' @ fmt_d (int b) @ '' LOCK GL ''
               @ fmt_d addr @ ''\<newline>'') w1;
        Some (SRCP_OK, w2) }
      else Some (SRCP_DEVICELOCKED, w))"

definition unlock_gl_bysessionid :: "nat \<Rightarrow> world \<Rightarrow> world option" where
  "unlock_gl_bysessionid sid w =
     loopM (\<lambda>i w. loopM (\<lambda>j w. if gl_locked_by (gl w i) = sid
                                then map_option snd (cacheUnlockGL i j sid w) else Some w)
                    (addrs (getMaxAddrGL i w)) w)
       [0..<Suc (num_buses w)] w"

text \<open>The body of \<open>unlock_gl_bytime\<close>'s inner loop for bus \<open>i\<close> and address \<open>j\<close>: the
  test \<open>lockduration > 0 && lockduration-- == 1\<close> and the unlock.\<close>

definition gl_lock_tick :: "nat \<Rightarrow> int \<Rightarrow> world \<Rightarrow> world option" where
  "gl_lock_tick i j w =
     (if 0 < gl_lockduration (gl w i) then
        (let w1 = w\<lparr>gl := upd (\<lambda>t. t\<lparr>gl_lockduration := gl_lockduration t - 1\<rparr>) i (gl w)\<rparr>
         in if gl_lockduration (gl w i) = 1
            then map_option snd (cacheUnlockGL i j (gl_locked_by (gl w1 i)) w1)
            else Some w1)
      else Some w)"

definition unlock_gl_bytime :: "world \<Rightarrow> world option" where
  "unlock_gl_bytime w =
     loopM (\<lambda>i w. loopM (gl_lock_tick i) (addrs (getMaxAddrGL i w)) w)
       [0..<Suc (num_buses w)] w"

subsection \<open>Start up\<close>

definition startup_GL :: "world \<Rightarrow> world" where
  "startup_GL w = w\<lparr>
     gl_queue := (\<lambda>b. if b < MAX_BUSES then (gl_queue w b)\<lparr>wr := 0, rd := 0\<rparr> else gl_queue w b),
     gl := (\<lambda>b. if b < MAX_BUSES then (gl w b)\<lparr>numberOfGl := 0, glstate := []\<rparr> else gl w b)\<rparr>"

definition init_GL :: "bool \<Rightarrow> nat \<Rightarrow> int \<Rightarrow> world \<Rightarrow> int \<times> world" where
  "init_GL malloc_ok b number w =
     (if MAX_BUSES \<le> b then (1, w)
      else if 0 < number then
        if \<not> malloc_ok then (1, w\<lparr>gl := upd (\<lambda>t. t\<lparr>glstate := []\<rparr>) b (gl w)\<rparr>)
        else (0, w\<lparr>gl := upd (\<lambda>t. t\<lparr>glstate := replicate (nat number + 1) zero_gl,
                                   numberOfGl := number\<rparr>) b (gl w)\<rparr>)
      else (0, w))"

subsection \<open>The recursion between \<open>enqueueGL\<close> and \<open>cacheInitGL\<close> is unfolded correctly\<close>

lemma enqueueGL_initialized:
  "isInitializedGL b addr w \<Longrightarrow>
   enqueueGL b addr dir speed maxspeed f w = enqueueGL_put b addr dir speed maxspeed f w"
  by (simp add: enqueueGL_def isInitializedGL_def)

lemma gl_at_set [simp]:
  "nat addr < length (glstate (gl w b)) \<Longrightarrow> gl_at b addr (set_gl_at b addr g w) = g"
  by (simp add: set_gl_at_def)

lemma isValidGL_set [simp]: "isValidGL b' a' (set_gl_at b addr g w) = isValidGL b' a' w"
  by (cases "b' = b") (simp_all add: isValidGL_def set_gl_at_def)

lemma isValidGL_length: "gl_inv w \<Longrightarrow> isValidGL b addr w \<Longrightarrow> nat addr < length (glstate (gl w b))"
  by (auto simp: gl_inv_def isValidGL_def)

lemma set_gl_at_inv [simp]: "world_inv w \<Longrightarrow> world_inv (set_gl_at b addr g w)"
  by (simp add: set_gl_at_def)

lemma isValidGL_broadcast [simp]: "isValidGL b addr (broadcast m w) = isValidGL b addr w"
  by (simp add: isValidGL_def)

lemma isInitializedGL_broadcast [simp]:
  "isInitializedGL b addr (broadcast m w) = isInitializedGL b addr w"
  by (simp add: isInitializedGL_def)

lemma isInitializedGL_tick [simp]: "isInitializedGL b addr (tick w) = isInitializedGL b addr w"
  by (simp add: isInitializedGL_def isValidGL_def)

lemma cacheInitGL_calls_enqueueGL:
  assumes "world_inv w" and "isValidGL b addr w"
  shows "enqueueGL b addr 0 0 1 0 (broadcast m (set_gl_at b addr (g\<lparr>l_state := 1\<rparr>) w))
       = enqueueGL_put b addr 0 0 1 0 (broadcast m (set_gl_at b addr (g\<lparr>l_state := 1\<rparr>) w))"
proof (rule enqueueGL_initialized)
  have "nat addr < length (glstate (gl w b))"
    using assms by (auto intro: isValidGL_length simp: world_inv_def)
  then show "isInitializedGL b addr (broadcast m (set_gl_at b addr (g\<lparr>l_state := 1\<rparr>) w))"
    using assms(2) by (simp add: isInitializedGL_def)
qed

subsection \<open>Every operation keeps the invariant\<close>

lemma enqueueGL_put_inv [inv_intros]:
  "world_inv w \<Longrightarrow> enqueueGL_put b addr dir speed maxspeed f w = Some (rc, w') \<Longrightarrow> world_inv w'"
  by (auto simp: enqueueGL_put_def split: if_splits option.splits)

lemma cacheInitGL_inv [inv_intros]:
  "world_inv w \<Longrightarrow> cacheInitGL b addr p pv n_fs n_func w = Some (rc, w') \<Longrightarrow> world_inv w'"
  by (auto simp: cacheInitGL_def Let_def info_ok bind_eq_Some_conv dest: enqueueGL_put_inv [rotated]
      split: if_splits option.splits prod.splits)

lemma enqueueGL_inv [inv_intros]:
  "world_inv w \<Longrightarrow> enqueueGL b addr dir speed maxspeed f w = Some (rc, w') \<Longrightarrow> world_inv w'"
  by (auto simp: enqueueGL_def bind_eq_Some_conv intro: cacheInitGL_inv enqueueGL_put_inv
      split: if_splits)

lemma dequeueNextGL_inv [inv_intros]:
  assumes "world_inv w" and "dequeueNextGL b w = Some (g, w')"
  shows "world_inv w'"
proof -
  obtain q where q: "ring_get (gl_queue w b) = Some (g, q)"
    and w': "w' = w\<lparr>gl_queue := upd (\<lambda>_. q) b (gl_queue w)\<rparr>"
    using assms(2) by (auto simp: dequeueNextGL_def split: option.splits)
  have "gl_inv w'"
    using assms(1) q by (auto simp: world_inv_def gl_inv_def upd_def w' intro: ring_get_inv)
  with assms(1) show ?thesis unfolding w' by (rule world_inv_gl)
qed

lemma cacheSetGL_inv [inv_intros]:
  "world_inv w \<Longrightarrow> cacheSetGL b addr l w = Some (rc, w') \<Longrightarrow> world_inv w'"
  by (auto simp: cacheSetGL_def Let_def info_ok bind_eq_Some_conv
      split: if_splits option.splits prod.splits)

lemma cacheTermGL_inv [inv_intros]:
  assumes "world_inv w" and "cacheTermGL b addr w = Some (rc, w')"
  shows "world_inv w'"
proof (cases "isInitializedGL b addr w \<and> l_speed (gl_at b addr w) \<noteq> 0")
  case True
  define g' where "g' = (gl_at b addr w)\<lparr>l_speed := 0, l_state := 2, l_direction := 2\<rparr>"
  obtain r1 wa r2 wb w2 where e: "enqueueGL b addr 2 0 (l_n_fs g') (sint (l_funcs g')) w = Some (r1, wa)"
    and s: "cacheSetGL b addr g' wa = Some (r2, wb)"
    and i: "enqueueInfoMessage (fmt_time (now wb) @ '' 102 INFO '' @ fmt_d (int b) @ '' GL ''
               @ fmt_d addr @ ''\<newline>'') (tick wb) = Some w2"
    and w': "w' = set_gl_at b addr zero_gl w2"
    using True assms(2) by (auto simp: cacheTermGL_def Let_def bind_eq_Some_conv g'_def)
  have "world_inv wb"
    using assms(1) e s by (blast intro: enqueueGL_inv cacheSetGL_inv)
  then show ?thesis using i w' by (auto simp: info_ok)
next
  case False
  then show ?thesis
    using assms by (auto simp: cacheTermGL_def Let_def bind_eq_Some_conv info_ok split: if_splits)
qed

lemma cacheLockGL_inv [inv_intros]:
  "world_inv w \<Longrightarrow> cacheLockGL b addr d sid w = Some (rc, w') \<Longrightarrow> world_inv w'"
  by (auto simp: cacheLockGL_def Let_def bind_eq_Some_conv info_ok split: if_splits)

lemma cacheUnlockGL_inv [inv_intros]:
  "world_inv w \<Longrightarrow> cacheUnlockGL b addr sid w = Some (rc, w') \<Longrightarrow> world_inv w'"
  by (auto simp: cacheUnlockGL_def Let_def bind_eq_Some_conv info_ok split: if_splits)

text \<open>With the invariant, locking and unlocking always have a defined result.\<close>

lemma cacheUnlockGL_total: "world_inv w \<Longrightarrow> \<exists>rc w'. cacheUnlockGL b addr sid w = Some (rc, w')"
  by (auto simp: cacheUnlockGL_def Let_def info_ok)

lemma unlock_gl_bysessionid_ok:
  assumes "world_inv w"
  shows "\<exists>w'. unlock_gl_bysessionid sid w = Some w' \<and> world_inv w'"
  unfolding unlock_gl_bysessionid_def
proof (rule loopM_inv [where P = world_inv], rule loopM_inv [where P = world_inv])
  fix i j and s :: world assume "world_inv s"
  with cacheUnlockGL_total [OF this, of i j sid]
  show "\<exists>s'. (if gl_locked_by (gl s i) = sid then map_option snd (cacheUnlockGL i j sid s)
              else Some s) = Some s' \<and> world_inv s'"
    by (auto intro: cacheUnlockGL_inv)
qed (use assms in auto)

lemma gl_lock_tick_ok:
  assumes "world_inv w"
  shows "\<exists>w'. gl_lock_tick i j w = Some w' \<and> world_inv w'"
proof -
  define w1 where "w1 = w\<lparr>gl := upd (\<lambda>t. t\<lparr>gl_lockduration := gl_lockduration t - 1\<rparr>) i (gl w)\<rparr>"
  have w1: "world_inv w1" using assms by (simp add: w1_def)
  obtain rc w2 where u: "cacheUnlockGL i j (gl_locked_by (gl w1 i)) w1 = Some (rc, w2)"
    using cacheUnlockGL_total [OF w1] by blast
  show ?thesis
    using assms w1 u cacheUnlockGL_inv [OF w1 u]
    unfolding gl_lock_tick_def Let_def w1_def [symmetric] by auto
qed

lemma unlock_gl_bytime_ok:
  assumes "world_inv w"
  shows "\<exists>w'. unlock_gl_bytime w = Some w' \<and> world_inv w'"
  unfolding unlock_gl_bytime_def
  by (rule loopM_inv [where P = world_inv], rule loopM_inv [where P = world_inv])
    (use assms gl_lock_tick_ok in auto)

subsection \<open>Commands reach the driver in order\<close>

text \<open>A run of commands for initialized locomotives and of the driver's requests: what the
  driver is given and what the queue has accepted, as address, direction and functions.\<close>

datatype gl_req = Enq int int int int int | Deq

fun gl_run :: "nat \<Rightarrow> gl_req list \<Rightarrow> world
    \<Rightarrow> ((int \<times> int \<times> 32 word) list \<times> (int \<times> int \<times> 32 word) list \<times> world) option" where
  "gl_run b [] w = Some ([], [], w)"
| "gl_run b (Enq addr dir speed maxspeed f # rs) w =
     do { (rc, w1) \<leftarrow> enqueueGL b addr dir speed maxspeed f w;
          (outs, accepted, w2) \<leftarrow> gl_run b rs w1;
          Some (outs, if rc = SRCP_OK then (addr, dir, word_of_int f) # accepted else accepted, w2) }"
| "gl_run b (Deq # rs) w =
     (case dequeueNextGL b w of
        None \<Rightarrow> gl_run b rs w
      | Some (g, w1) \<Rightarrow>
          do { (outs, accepted, w2) \<leftarrow> gl_run b rs w1;
               Some ((l_id g, l_direction g, l_funcs g) # outs, accepted, w2) })"

definition gl_pending :: "nat \<Rightarrow> world \<Rightarrow> (int \<times> int \<times> 32 word) list" where
  "gl_pending b w = map (\<lambda>g. (l_id g, l_direction g, l_funcs g)) (ring_list (gl_queue w b))"

lemma enqueueGL_pending:
  assumes "world_inv w" and "isInitializedGL b addr w"
    and "enqueueGL b addr dir speed maxspeed f w = Some (rc, w')"
  shows "gl_pending b w' = gl_pending b w @ (if rc = SRCP_OK then [(addr, dir, word_of_int f)] else [])"
    and "gl w' = gl w" and "num_buses w' = num_buses w"
proof -
  define q where "q = gl_queue w b"
  have q: "ring_inv GL_QUEUELEN q" using assms(1) by (simp add: world_inv_def gl_inv_def q_def)
  note e = assms(3) [unfolded enqueueGL_initialized [OF assms(2)] enqueueGL_put_def]
  show "gl w' = gl w" "num_buses w' = num_buses w"
    using e by (auto split: if_splits option.splits)
  show "gl_pending b w' = gl_pending b w @ (if rc = SRCP_OK then [(addr, dir, word_of_int f)] else [])"
  proof (cases "gl_queue_isfull b w")
    case True
    with e show ?thesis by auto
  next
    case False
    then have nf: "\<not> ring_isfull q" by (simp add: gl_queue_isfull_def q_def)
    obtain sp where sp: "rc = SRCP_OK" "gl_queue w' b
        = ring_put (gl_command (gl_at b addr w) addr dir sp f (now w)) q"
      using e False by (auto simp: q_def split: option.splits)
    show ?thesis
      using ring_fifo.put_contents [OF q nf]
      by (simp add: gl_pending_def sp ring_put_push q_def [symmetric] gl_command_def)
  qed
qed

lemma dequeueNextGL_pending:
  assumes "world_inv w"
  shows "dequeueNextGL b w = None \<Longrightarrow> gl_pending b w = []"
    and "dequeueNextGL b w = Some (g, w') \<Longrightarrow>
      gl_pending b w = (l_id g, l_direction g, l_funcs g) # gl_pending b w' \<and> gl w' = gl w \<and>
      num_buses w' = num_buses w"
proof -
  have q: "ring_inv GL_QUEUELEN (gl_queue w b)" using assms by (simp add: world_inv_def gl_inv_def)
  show "dequeueNextGL b w = None \<Longrightarrow> gl_pending b w = []"
    using ring_fifo.get_none [OF q] by (auto simp: dequeueNextGL_def gl_pending_def split: option.splits)
  show "dequeueNextGL b w = Some (g, w') \<Longrightarrow>
      gl_pending b w = (l_id g, l_direction g, l_funcs g) # gl_pending b w' \<and> gl w' = gl w \<and>
      num_buses w' = num_buses w"
    using ring_fifo.get_contents [OF q]
    by (auto simp: dequeueNextGL_def gl_pending_def split: option.splits)
qed

lemma isInitializedGL_cong:
  "gl w' = gl w \<Longrightarrow> num_buses w' = num_buses w \<Longrightarrow> isInitializedGL b a w' = isInitializedGL b a w"
  by (simp add: isInitializedGL_def isValidGL_def)


subsection \<open>Releasing the locks of a session\<close>

text \<open>The holder of each bus's lock, and whether the bus has an initialized locomotive: without
  one, \<open>cacheUnlockGL\<close> refuses for every address.\<close>

definition gl_lock_view :: "world \<Rightarrow> nat \<Rightarrow> nat \<times> bool" where
  "gl_lock_view w b =
     (gl_locked_by (gl w b), \<exists>j\<in>{1..getMaxAddrGL b w}. isInitializedGL b j w)"

definition gl_shape :: "world \<Rightarrow> world \<Rightarrow> bool" where
  "gl_shape w0 w \<longleftrightarrow> world_inv w \<and> num_buses w = num_buses w0 \<and>
     (\<forall>i. numberOfGl (gl w i) = numberOfGl (gl w0 i) \<and> glstate (gl w i) = glstate (gl w0 i))"

lemma gl_shape_init: "gl_shape w0 w \<Longrightarrow> isInitializedGL b j w = isInitializedGL b j w0"
  by (simp add: gl_shape_def isInitializedGL_def isValidGL_def)

lemma gl_shape_max: "gl_shape w0 w \<Longrightarrow> getMaxAddrGL b w = getMaxAddrGL b w0"
  by (simp add: gl_shape_def getMaxAddrGL_def)

lemma gl_release_addrs:
  assumes "gl_shape w0 w"
  shows "\<exists>w'. loopM (\<lambda>j w. if gl_locked_by (gl w i) = sid then map_option snd (cacheUnlockGL i j sid w) else Some w)
      js w = Some w' \<and> gl_shape w0 w' \<and>
    (\<forall>b. gl_locked_by (gl w' b) = (if b = i \<and> gl_locked_by (gl w i) = sid \<and>
       (\<exists>j\<in>set js. isInitializedGL i j w0) then 0 else gl_locked_by (gl w b)))"
  using assms
proof (induction js arbitrary: w)
  case (Cons j js)
  have inv: "world_inv w" using Cons.prems by (simp add: gl_shape_def)
  show ?case
  proof (cases "gl_locked_by (gl w i) = sid \<and> isInitializedGL i j w")
    case True
    define w1 where "w1 = (tick w)\<lparr>gl := upd (\<lambda>t. t\<lparr>gl_locked_by := 0, gl_locktime := now w\<rparr>) i (gl w)\<rparr>"
    have inv1: "world_inv w1" using inv by (simp add: w1_def)
    obtain m where u: "cacheUnlockGL i j sid w = Some (SRCP_OK, broadcast m w1)"
      using True info_ok [OF inv1] by (simp add: cacheUnlockGL_def w1_def Let_def)
    have sh: "gl_shape w0 (broadcast m w1)"
      using Cons.prems inv1 by (auto simp: gl_shape_def w1_def upd_def)
    have lk: "gl_locked_by (gl (broadcast m w1) b) = (if b = i then 0 else gl_locked_by (gl w b))" for b
      by (simp add: w1_def upd_def)
    have ini: "isInitializedGL i j w0" using True gl_shape_init [OF Cons.prems] by simp
    from Cons.IH [OF sh] u True lk ini show ?thesis by (auto split: if_splits)
  next
    case False
    have "(if gl_locked_by (gl w i) = sid then map_option snd (cacheUnlockGL i j sid w) else Some w) = Some w"
      using False by (auto simp: cacheUnlockGL_def)
    moreover have "gl_locked_by (gl w i) = sid \<Longrightarrow> \<not> isInitializedGL i j w0"
      using False gl_shape_init [OF Cons.prems] by simp
    ultimately show ?thesis using Cons.IH [OF Cons.prems] by auto
  qed
qed auto

lemma unlock_gl_bysessionid_view:
  assumes "world_inv w"
  shows "\<exists>w'. unlock_gl_bysessionid sid w = Some w' \<and> gl_shape w w' \<and>
    gl_lock_view w' = (\<lambda>b. if b \<in> (\<Union>i\<in>set [0..<Suc (num_buses w)]. {i})
      then (if gl_lock_view w b = (sid, True) then (0, True) else gl_lock_view w b)
      else gl_lock_view w b)"
  unfolding unlock_gl_bysessionid_def
proof (rule loopM_update [where P = "gl_shape w"])
  fix i s assume s: "gl_shape w s"
  obtain s' where s': "loopM (\<lambda>j w. if gl_locked_by (gl w i) = sid
        then map_option snd (cacheUnlockGL i j sid w) else Some w) (addrs (getMaxAddrGL i s)) s = Some s'"
      "gl_shape w s'"
      "\<And>b. gl_locked_by (gl s' b) = (if b = i \<and> gl_locked_by (gl s i) = sid \<and>
         (\<exists>j\<in>set (addrs (getMaxAddrGL i s)). isInitializedGL i j w) then 0 else gl_locked_by (gl s b))"
    using gl_release_addrs [OF s, of i sid "addrs (getMaxAddrGL i s)"] by blast
  have "gl_lock_view s' = (\<lambda>b. if b \<in> {i} then (if gl_lock_view s b = (sid, True) then (0, True)
      else gl_lock_view s b) else gl_lock_view s b)"
    using s'(3) by (auto simp: fun_eq_iff gl_lock_view_def gl_shape_init [OF s] gl_shape_init [OF s'(2)]
        gl_shape_max [OF s] gl_shape_max [OF s'(2)])
  with s' show "\<exists>s'. loopM (\<lambda>j w. if gl_locked_by (gl w i) = sid
        then map_option snd (cacheUnlockGL i j sid w) else Some w) (addrs (getMaxAddrGL i s)) s = Some s' \<and>
      gl_shape w s' \<and> gl_lock_view s' = (\<lambda>b. if b \<in> {i} then (if gl_lock_view s b = (sid, True)
        then (0, True) else gl_lock_view s b) else gl_lock_view s b)" by blast
qed (use assms in \<open>auto simp: gl_shape_def\<close>)

subsection \<open>The lock excludes other sessions\<close>

text \<open>One lock per bus: the requests for all its addresses are requests for the same device.\<close>

definition gl_holder :: "nat \<Rightarrow> world \<Rightarrow> nat" where
  "gl_holder b w = gl_locked_by (gl w b)"

definition gl_lock :: "nat \<Rightarrow> int \<times> int \<Rightarrow> nat \<Rightarrow> world \<Rightarrow> (int \<times> world) option" where
  "gl_lock b x s w = cacheLockGL b (fst x) (snd x) s w"

definition gl_unlock :: "nat \<Rightarrow> int \<times> int \<Rightarrow> nat \<Rightarrow> world \<Rightarrow> (int \<times> world) option" where
  "gl_unlock b x s w = cacheUnlockGL b (fst x) s w"

lemma gl_lock_cases:
  assumes "world_inv w" and "gl_lock b x s w = Some (rc, w')"
  shows "rc = SRCP_OK \<and> gl_holder b w \<in> {s, 0} \<and> gl_holder b w' = s \<and>
      (\<forall>b'. b' \<noteq> b \<longrightarrow> gl_holder b' w' = gl_holder b' w)
    \<or> rc \<noteq> SRCP_OK \<and> w' = w"
  using assms
  by (auto simp: gl_lock_def cacheLockGL_def gl_holder_def info_ok bind_eq_Some_conv Let_def
      split: if_splits)

lemma gl_unlock_cases:
  assumes "world_inv w" and "gl_unlock b x s w = Some (rc, w')"
  shows "rc = SRCP_OK \<and> gl_holder b w \<in> {s, 0} \<and> gl_holder b w' = 0 \<and>
      (\<forall>b'. b' \<noteq> b \<longrightarrow> gl_holder b' w' = gl_holder b' w)
    \<or> rc \<noteq> SRCP_OK \<and> w' = w"
  using assms
  by (auto simp: gl_unlock_def cacheUnlockGL_def gl_holder_def info_ok bind_eq_Some_conv Let_def
      split: if_splits)

interpretation gl_locks: device_lock world_inv gl_holder SRCP_OK gl_lock gl_unlock
proof unfold_locales
  show "world_inv w \<Longrightarrow> gl_lock d x s w = Some (rc, w') \<Longrightarrow> world_inv w'" for w d x s rc w'
    unfolding gl_lock_def by (rule cacheLockGL_inv)
  show "world_inv w \<Longrightarrow> gl_unlock d x s w = Some (rc, w') \<Longrightarrow> world_inv w'" for w d x s rc w'
    unfolding gl_unlock_def by (rule cacheUnlockGL_inv)
qed ((drule (1) gl_lock_cases, fastforce) | (drule (1) gl_unlock_cases, fastforce))+

text \<open>What a request for an initialized locomotive does.\<close>

lemma gl_lock_free:
  assumes "world_inv w" and "isInitializedGL b a w" and "gl_holder b w \<in> {s, 0}"
  shows "\<exists>w'. gl_lock b (a, d) s w = Some (SRCP_OK, w') \<and> world_inv w' \<and> gl_holder b w' = s
    \<and> isInitializedGL b a w'"
proof -
  define w1 where "w1 = (tick w)\<lparr>gl := upd (\<lambda>t. t\<lparr>gl_locked_by := s, gl_lockduration := d,
                     gl_locktime := now w\<rparr>) b (gl w)\<rparr>"
  have inv: "world_inv w1" using assms(1) by (simp add: w1_def)
  have ini: "isInitializedGL b a w1"
    using assms(2) by (auto simp: w1_def isInitializedGL_def isValidGL_def)
  have "gl_lock b (a, d) s w = Some (SRCP_OK, broadcast (snd (describeLOCKGL b a w1)) w1)"
    using assms(2,3) info_ok [OF inv] by (simp add: gl_lock_def cacheLockGL_def gl_holder_def w1_def Let_def)
  moreover have "gl_holder b (broadcast (snd (describeLOCKGL b a w1)) w1) = s"
    by (simp add: gl_holder_def w1_def)
  ultimately show ?thesis using inv ini by simp
qed

lemma gl_lock_held:
  assumes "isInitializedGL b a w" and "gl_holder b w \<notin> {s, 0}"
  shows "gl_lock b (a, d) s w = Some (SRCP_DEVICELOCKED, w)" "gl_unlock b (a, d) s w = Some (SRCP_DEVICELOCKED, w)"
  using assms by (auto simp: gl_lock_def cacheLockGL_def gl_unlock_def cacheUnlockGL_def gl_holder_def)

lemma sample_gl_init: "isInitializedGL 1 3 sample_world" "gl_holder 1 sample_world = 0"
  by (simp_all add: isInitializedGL_def isValidGL_def sample_world_def zero_world_def sample_gl_def
      gl_holder_def)

text \<open>C4: While a session holds the lock of a locomotive bus, no run of lock and unlock requests
  of other sessions takes it away, and their requests are refused.\<close>

theorem gl_lock_exclusive:
  assumes "world_inv w" and "gl_lock b x s w = Some (SRCP_OK, w1)" and "s \<noteq> 0"
    and "\<forall>r\<in>set rs. \<not> from_session s r" and "lock_run gl_lock gl_unlock rs w1 = Some w2"
    and "s' \<noteq> s" and "gl_lock b x' s' w2 = Some (rc, w3)"
  shows "gl_holder b w2 = s \<and> rc \<noteq> SRCP_OK \<and> gl_holder b w3 = s"
  using assms by (rule gl_locks.exclusive)

theorem gl_lock_exclusive_witness:
  "\<exists>w1 rc w3. gl_lock 1 (3, 60) 1 sample_world = Some (SRCP_OK, w1) \<and>
     lock_run gl_lock gl_unlock [Unlock_req 1 (3, 0) 2] w1 = Some w1 \<and>
     gl_lock 1 (3, 60) 2 w1 = Some (rc, w3) \<and> rc \<noteq> SRCP_OK \<and> gl_holder 1 w3 = 1"
proof -
  obtain w1 where w1: "gl_lock 1 (3, 60) 1 sample_world = Some (SRCP_OK, w1)" "gl_holder 1 w1 = 1"
    "isInitializedGL 1 3 w1"
    using gl_lock_free [OF sample_world_inv sample_gl_init(1), of 1 60] sample_gl_init(2) by auto
  have run: "lock_run gl_lock gl_unlock [Unlock_req 1 (3, 0) 2] w1 = Some w1"
    using gl_lock_held(2) [OF w1(3), of 2 0] w1(2) by simp
  have l2: "gl_lock 1 (3, 60) 2 w1 = Some (SRCP_DEVICELOCKED, w1)"
    using gl_lock_held(1) [OF w1(3), of 2 60] w1(2) by simp
  have "gl_holder 1 w1 = 1 \<and> SRCP_DEVICELOCKED \<noteq> SRCP_OK \<and> gl_holder 1 w1 = 1"
    by (rule gl_lock_exclusive [OF sample_world_inv w1(1) _ _ run _ l2]) simp_all
  with w1(1) run l2 show ?thesis by blast
qed

subsection \<open>The speed a decoder is sent\<close>

text \<open>Without overflow \<open>calcspeed\<close> is a rounding division, clamped at both ends.\<close>

lemma calcspeed_value:
  assumes "0 < vmax" and "0 \<le> n_fs" and "2 * (vmax * n_fs) + vmax \<le> 2147483647"
  shows "calcspeed v vmax n_fs =
    Some (let v = min vmax (max 0 v); r = (2 * (v * n_fs) + vmax) div vmax div 2
          in if r = 0 \<and> v \<noteq> 0 then 1 else r)"
proof -
  define u where "u = min vmax (max 0 v)"
  have u: "0 \<le> u" "u \<le> vmax" using assms(1) by (auto simp: u_def)
  have m: "0 \<le> u * n_fs" "u * n_fs \<le> vmax * n_fs"
    using u assms(2) by (auto intro: mult_right_mono)
  have b: "in_int x" if "0 \<le> x" "x \<le> 2147483647" for x using that by (simp add: in_int_def)
  have r: "in_int (u * n_fs)" "in_int (u * n_fs * 2)" "in_int (u * n_fs * 2 + vmax)"
    using m assms by (auto intro!: b)
  have v: "(if (if v < 0 then 0 else v) > vmax then vmax else (if v < 0 then 0 else v)) = u"
    using assms(1) by (auto simp: u_def)
  have "calcspeed v vmax n_fs = Some (if c_div (u * n_fs * 2 + vmax) vmax div 2 = 0 \<and> u \<noteq> 0 then 1
      else c_div (u * n_fs * 2 + vmax) vmax div 2)"
    using assms(1) m(1) r unfolding calcspeed_def Let_def v by simp
  then show ?thesis using m(1) assms(1) by (simp add: u_def [symmetric] Let_def mult.commute)
qed

text \<open>When the products fit an int, the speed a decoder is sent lies between 0 and its number
  of speed steps, grows with the speed asked for, is 0 only for a stop and is the highest step
  at the maximum.\<close>

theorem calcspeed_scales:
  assumes "0 < vmax" and "1 \<le> n_fs" and "2 * (vmax * n_fs) + vmax \<le> 2147483647" and "v \<le> v'"
  shows "\<exists>r r'. calcspeed v vmax n_fs = Some r \<and> calcspeed v' vmax n_fs = Some r' \<and>
    0 \<le> r \<and> r \<le> r' \<and> r' \<le> n_fs \<and> (r = 0 \<longleftrightarrow> v \<le> 0) \<and> (vmax \<le> v \<longrightarrow> r = n_fs)"
proof -
  define u where "u x = min vmax (max 0 x)" for x
  define q where "q x = (2 * (u x * n_fs) + vmax) div vmax div 2" for x
  have n: "0 \<le> n_fs" using assms(2) by simp
  have c: "calcspeed x vmax n_fs = Some (if q x = 0 \<and> u x \<noteq> 0 then 1 else q x)" for x
    using calcspeed_value [OF assms(1) n assms(3)] by (simp add: q_def u_def Let_def)
  have u: "0 \<le> u x" "u x \<le> vmax" "u x = 0 \<longleftrightarrow> x \<le> 0" "vmax \<le> x \<Longrightarrow> u x = vmax" for x
    using assms(1) by (auto simp: u_def)
  have q0: "0 \<le> q x" for x
    using u(1) [of x] assms(1) n by (simp add: q_def pos_imp_zdiv_nonneg_iff)
  have mono: "q x \<le> q y" if "u x \<le> u y" for x y
    unfolding q_def using that n assms(1) by (intro zdiv_mono1) (simp_all add: mult_right_mono)
  have max: "q x = n_fs" if "u x = vmax" for x
    using assms(1) by (simp add: q_def that div_add1_eq mult.commute [of vmax] mult.left_commute)
  have le: "q x \<le> n_fs" for x
  proof -
    have "q x \<le> q vmax" using u(2) [of x] u(4) [of vmax] by (intro mono) simp
    then show ?thesis using max [of vmax] u(4) [of vmax] by simp
  qed
  have z: "q x = 0" if "u x = 0" for x using assms(1) by (simp add: q_def that)
  have "u v \<le> u v'" using assms(4) by (auto simp: u_def)
  then have "q v \<le> q v'" and "u v \<noteq> 0 \<Longrightarrow> u v' \<noteq> 0" using mono u(1) [of v] by auto
  then show ?thesis
    using q0 [of v] q0 [of v'] le [of v] le [of v'] z [of v] max [of v] u(3) [of v] u(4) [of v] assms(1,2)
    unfolding c by auto
qed

theorem calcspeed_scales_witness:
  "\<exists>r r'. calcspeed 40 100 28 = Some r \<and> calcspeed 100 100 28 = Some r' \<and> r \<le> r' \<and> r' \<le> 28"
  using calcspeed_scales [of 100 28 40 100] by auto


end
