(* ===== verification/Srcp_GA.thy ===== *)
theory Srcp_GA
  imports Srcp_Inv Device_Lock
begin

text \<open>
  Generic accessories, \<open>srcp-ga.c\<close>. Unlike the locomotives, several operations index the
  table with an address nobody has checked; \<open>ga_ref\<close> is that access, with no result when
  the address is outside the table.
\<close>

definition get_number_ga :: "nat \<Rightarrow> world \<Rightarrow> int" where
  "get_number_ga b w = numberOfGa (ga w b)"

definition ga_ref :: "nat \<Rightarrow> int \<Rightarrow> world \<Rightarrow> ga_state option" where
  "ga_ref b addr w =
     (if 0 \<le> addr \<and> nat addr < length (gastate (ga w b)) then Some (gastate (ga w b) ! nat addr)
      else None)"

definition set_ga_at :: "nat \<Rightarrow> int \<Rightarrow> ga_state \<Rightarrow> world \<Rightarrow> world" where
  "set_ga_at b addr g w =
     w\<lparr>ga := upd (\<lambda>t. t\<lparr>gastate := (gastate t)[nat addr := g]\<rparr>) b (ga w)\<rparr>"

definition queue_GA_isempty :: "nat \<Rightarrow> world \<Rightarrow> bool" where
  "queue_GA_isempty b w = ring_isempty (ga_queue w b)"

definition ga_queue_isfull :: "nat \<Rightarrow> world \<Rightarrow> bool" where
  "ga_queue_isfull b w = ring_isfull (ga_queue w b)"

definition ga_command :: "ga_state \<Rightarrow> int \<Rightarrow> int \<Rightarrow> int \<Rightarrow> int \<Rightarrow> timeval \<Rightarrow> ga_state \<Rightarrow> ga_state" where
  "ga_command g addr port action activetime t slot =
     slot\<lparr>a_protocol := a_protocol g, a_action := action, a_port := port,
          a_activetime := activetime, a_tv := (a_tv slot)(nat port := t), a_id := addr\<rparr>"

text \<open>The time stamp is stored at \<open>tv[port]\<close>: outside \<open>0 .. 7\<close> this writes past the array.\<close>

definition enqueueGA :: "nat \<Rightarrow> int \<Rightarrow> int \<Rightarrow> int \<Rightarrow> int \<Rightarrow> world \<Rightarrow> (int \<times> world) option" where
  "enqueueGA b addr port action activetime w =
     (if 0 < addr \<and> addr \<le> get_number_ga b w then
        if ga_queue_isfull b w then Some (SRCP_TEMPORARILYPROHIBITED, w)
        else (case ga_ref b addr w of None \<Rightarrow> None
         | Some g \<Rightarrow>
            if port < 0 \<or> int MAXGAPORT \<le> port then None
            else Some (SRCP_OK, resume_bus_thread b ((tick w)\<lparr>ga_queue :=
              upd (ring_put (ga_command g addr port action activetime (now w))) b (ga_queue w)\<rparr>)))
      else Some (SRCP_WRONGVALUE, w))"

definition dequeueNextGA :: "nat \<Rightarrow> world \<Rightarrow> (ga_state \<times> world) option" where
  "dequeueNextGA b w =
     (case ring_get (ga_queue w b) of None \<Rightarrow> None
      | Some (g, q) \<Rightarrow> Some (g, w\<lparr>ga_queue := upd (\<lambda>_. q) b (ga_queue w)\<rparr>))"

definition isInitializedGA :: "nat \<Rightarrow> int \<Rightarrow> world \<Rightarrow> bool option" where
  "isInitializedGA b addr w = map_option (\<lambda>g. a_protocol g \<noteq> CHR 0x00) (ga_ref b addr w)"

definition getGA :: "nat \<Rightarrow> int \<Rightarrow> world \<Rightarrow> ga_state option" where
  "getGA b addr w =
     (if 0 < addr \<and> addr \<le> get_number_ga b w \<and> isInitializedGA b addr w = Some True
      then ga_ref b addr w else None)"

definition infoGA :: "nat \<Rightarrow> int \<Rightarrow> int \<Rightarrow> world \<Rightarrow> int \<times> string \<times> world" where
  "infoGA b addr port w =
     (case (if 0 < addr \<and> addr \<le> get_number_ga b w \<and> 0 \<le> port \<and> port < int MAXGAPORT
               \<and> isInitializedGA b addr w = Some True then ga_ref b addr w else None) of
        Some g \<Rightarrow>
          (SRCP_INFO, fmt_time (if 0 < tv_sec (a_tv g (nat port)) then a_tv g (nat port) else a_inittime g)
             @ '' 100 INFO '' @ fmt_d (int b) @ '' GA '' @ fmt_d addr @ '' '' @ fmt_d port @ '' ''
             @ fmt_d (a_action g) @ ''\<newline>'', w)
      | None \<Rightarrow> (SRCP_NODATA, srcp_fmt_msg SRCP_NODATA (now w), tick w))"

definition setGA :: "nat \<Rightarrow> int \<Rightarrow> ga_state \<Rightarrow> world \<Rightarrow> (int \<times> world) option" where
  "setGA b addr a w =
     (case (if 0 < addr \<and> addr \<le> get_number_ga b w \<and> isInitializedGA b addr w = Some True
            then ga_ref b addr w else None) of
        None \<Rightarrow> Some (SRCP_NODATA, w)
      | Some g \<Rightarrow>
          if a_port a < 0 \<or> int MAXGAPORT \<le> a_port a then None
          else do {
            let g' = g\<lparr>a_id := a_id a, a_action := a_action a, a_port := a_port a,
                       a_tv := (a_tv g)(nat (a_port a) := now w)\<rparr>;
            let (_, msg, w1) = infoGA b addr (a_port a) (set_ga_at b addr g' (tick w));
            w2 \<leftarrow> enqueueInfoMessage msg w1;
            Some (SRCP_OK, w2) })"

definition termGA :: "nat \<Rightarrow> int \<Rightarrow> world \<Rightarrow> (int \<times> world) option" where
  "termGA b addr w = do {
     ini \<leftarrow> isInitializedGA b addr w;
     if ini then do {
       w1 \<leftarrow> enqueueInfoMessage (fmt_time (now w) @ '' 102 INFO '' @ fmt_d (int b) @ '' GA ''
              @ fmt_d addr @ ''\<newline>'') (tick w);
       Some (SRCP_OK, set_ga_at b addr zero_ga w1) }
     else Some (SRCP_NODATA, w) }"

text \<open>The reply buffer is left untouched (here: empty) on a bus without accessories.\<close>

definition describeGA :: "nat \<Rightarrow> int \<Rightarrow> world \<Rightarrow> int \<times> string" where
  "describeGA b addr w =
     (if get_number_ga b w \<le> 0 then (SRCP_UNSUPPORTEDDEVICEGROUP, [])
      else case (if 0 < addr \<and> addr \<le> get_number_ga b w \<and> isInitializedGA b addr w = Some True
                 then ga_ref b addr w else None) of
        Some g \<Rightarrow> (SRCP_INFO, fmt_time (a_inittime g) @ '' 101 INFO '' @ fmt_d (int b) @ '' GA ''
                     @ fmt_d addr @ '' '' @ [a_protocol g] @ ''\<newline>'')
      | None \<Rightarrow> (SRCP_NODATA, []))"

definition initGA :: "nat \<Rightarrow> int \<Rightarrow> char \<Rightarrow> world \<Rightarrow> (int \<times> world) option" where
  "initGA b addr p w =
     (if 0 < addr \<and> addr \<le> get_number_ga b w then
        if bus_supports_protocol b p w \<noteq> SRCP_OK then Some (bus_supports_protocol b p w, w)
        else do {
          g \<leftarrow> ga_ref b addr w;
          let g1 = g\<lparr>a_protocol := p, a_inittime := now w, a_activetime := 0, a_action := 0,
                     a_tv := (\<lambda>_. tv_zero)\<rparr>;
          let (rc, g2) = (case init_ga_func (buses w b) of Some f \<Rightarrow> f g1 | None \<Rightarrow> (SRCP_OK, g1));
          let w1 = set_ga_at b addr g2 (tick w);
          if rc = SRCP_OK then do {
            let w2 = set_ga_at b addr (g2\<lparr>a_state := 1\<rparr>) w1;
            w3 \<leftarrow> enqueueInfoMessage (snd (describeGA b addr w2)) w2;
            Some (rc, w3) }
          else Some (rc, w1) }
      else Some (SRCP_UNSUPPORTEDDEVICE, w))"

subsection \<open>Locks\<close>

definition describeLOCKGA :: "nat \<Rightarrow> int \<Rightarrow> world \<Rightarrow> (int \<times> string) option" where
  "describeLOCKGA b addr w = do {
     g \<leftarrow> ga_ref b addr w;
     Some (SRCP_OK, fmt_time (a_locktime g) @ '' 100 INFO '' @ fmt_d (int b) @ '' LOCK GA ''
       @ fmt_d addr @ '' '' @ fmt_d (a_lockduration g) @ '' '' @ fmt_d (int (a_locked_by g))
       @ ''\<newline>'') }"

definition lockGA :: "nat \<Rightarrow> int \<Rightarrow> int \<Rightarrow> nat \<Rightarrow> world \<Rightarrow> (int \<times> world) option" where
  "lockGA b addr duration sid w = do {
     g \<leftarrow> ga_ref b addr w;
     if a_locked_by g = sid \<or> a_locked_by g = 0 then do {
       let w1 = set_ga_at b addr (g\<lparr>a_locked_by := sid, a_lockduration := duration,
                  a_locktime := now w\<rparr>) (tick w);
       (_, msg) \<leftarrow> describeLOCKGA b addr w1;
       w2 \<leftarrow> enqueueInfoMessage msg w1;
       Some (SRCP_OK, w2) }
     else Some (SRCP_DEVICELOCKED, w) }"

definition getlockGA :: "nat \<Rightarrow> int \<Rightarrow> world \<Rightarrow> nat option" where
  "getlockGA b addr w = map_option a_locked_by (ga_ref b addr w)"

definition unlockGA :: "nat \<Rightarrow> int \<Rightarrow> nat \<Rightarrow> world \<Rightarrow> (int \<times> world) option" where
  "unlockGA b addr sid w = do {
     g \<leftarrow> ga_ref b addr w;
     if a_locked_by g = 0 \<or> a_locked_by g = sid then do {
       w1 \<leftarrow> enqueueInfoMessage (fmt_time (now w) @ '' 102 INFO '' @ fmt_d (int b) @ '' LOCK GA ''
              @ fmt_d addr @ ''\<newline>'')
              (set_ga_at b addr (g\<lparr>a_locked_by := 0, a_locktime := now w\<rparr>) (tick w));
       Some (SRCP_OK, w1) }
     else Some (SRCP_DEVICELOCKED, w) }"

definition unlock_ga_bysessionid :: "nat \<Rightarrow> world \<Rightarrow> world option" where
  "unlock_ga_bysessionid sid w =
     loopM (\<lambda>i w. loopM (\<lambda>j w. do {
                      g \<leftarrow> ga_ref i j w;
                      if a_locked_by g = sid then map_option snd (unlockGA i j sid w) else Some w })
                    (addrs (get_number_ga i w)) w)
       [1..<Suc (num_buses w)] w"

text \<open>The body of \<open>unlock_ga_bytime\<close>'s loop: \<open>lockduration-- == 1\<close>, on every accessory.\<close>

definition ga_lock_tick :: "nat \<Rightarrow> int \<Rightarrow> world \<Rightarrow> world option" where
  "ga_lock_tick i j w = do {
     g \<leftarrow> ga_ref i j w;
     let w1 = set_ga_at i j (g\<lparr>a_lockduration := a_lockduration g - 1\<rparr>) w;
     if a_lockduration g = 1 then map_option snd (unlockGA i j (a_locked_by g) w1) else Some w1 }"

definition unlock_ga_bytime :: "world \<Rightarrow> world option" where
  "unlock_ga_bytime w =
     loopM (\<lambda>i w. loopM (ga_lock_tick i) (addrs (get_number_ga i w)) w) [1..<Suc (num_buses w)] w"

subsection \<open>Start up\<close>

definition startup_GA :: "world \<Rightarrow> world" where
  "startup_GA w = w\<lparr>
     ga_queue := (\<lambda>b. if b < MAX_BUSES then (ga_queue w b)\<lparr>wr := 0, rd := 0\<rparr> else ga_queue w b),
     ga := (\<lambda>b. if b < MAX_BUSES then (ga w b)\<lparr>numberOfGa := 0, gastate := []\<rparr> else ga w b)\<rparr>"

text \<open>\<open>init_GA\<close> sets four fields of each entry; the others keep what \<open>malloc\<close> returned,
  the argument \<open>raw\<close>.\<close>

definition init_GA :: "bool \<Rightarrow> (nat \<Rightarrow> ga_state) \<Rightarrow> nat \<Rightarrow> int \<Rightarrow> world \<Rightarrow> int \<times> world" where
  "init_GA malloc_ok raw b number w =
     (if MAX_BUSES \<le> b then (1, w)
      else if 0 < number then
        if \<not> malloc_ok then (1, w\<lparr>ga := upd (\<lambda>t. t\<lparr>gastate := []\<rparr>) b (ga w)\<rparr>)
        else (0, w\<lparr>ga := upd (\<lambda>t. t\<lparr>gastate := map (\<lambda>i. (raw i)\<lparr>a_protocol := CHR 0x00,
                     a_locked_by := 0, a_action := 0, a_lockduration := 0\<rparr>) [0..<nat number + 1],
                   numberOfGa := number\<rparr>) b (ga w)\<rparr>)
      else (0, w))"

subsection \<open>Switching off later\<close>

text \<open>Drivers keep accessories they have switched on in a table \<open>tga\<close> of 50 entries until it is
  time to switch them off; each of them has a copy of this code.\<close>

text \<open>The first slot of \<open>tga\<close> whose \<open>id\<close> is 0; the command is dropped when there is none.\<close>

fun tga_store :: "ga_state \<Rightarrow> ga_state list \<Rightarrow> ga_state list" where
  "tga_store g [] = []"
| "tga_store g (x # xs) = (if a_id x = 0 then g # xs else x # tga_store g xs)"

definition tga_due :: "timeval \<Rightarrow> int \<Rightarrow> timeval" where
  "tga_due t active =
     (let s = tv_sec t + c_div active 1000; u = tv_usec t + (active mod 1000) * 1000
      in if 1000000 < u then \<lparr>tv_sec = s + 1, tv_usec = u - 1000000\<rparr> else \<lparr>tv_sec = s, tv_usec = u\<rparr>)"

text \<open>\<open>cmpTime\<close> of \<open>toolbox.c\<close>: the second time is later.\<close>

definition cmpTime :: "timeval \<Rightarrow> timeval \<Rightarrow> bool" where
  "cmpTime t1 t2 \<longleftrightarrow> tv_sec t1 < tv_sec t2 \<or> (tv_sec t2 = tv_sec t1 \<and> tv_usec t1 < tv_usec t2)"

subsection \<open>Every operation keeps the invariant\<close>

lemma set_ga_at_inv [simp]: "world_inv w \<Longrightarrow> world_inv (set_ga_at b addr g w)"
  by (simp add: set_ga_at_def)

lemma ga_ref_valid:
  "world_inv w \<Longrightarrow> 0 < addr \<Longrightarrow> addr \<le> get_number_ga b w \<Longrightarrow>
   ga_ref b addr w = Some (gastate (ga w b) ! nat addr)"
  by (auto simp: world_inv_def ga_inv_def get_number_ga_def ga_ref_def)

lemma ga_ref_set [simp]:
  "ga_ref b addr (set_ga_at b addr g w) = (case ga_ref b addr w of None \<Rightarrow> None | Some _ \<Rightarrow> Some g)"
  by (simp add: ga_ref_def set_ga_at_def)

lemma ga_ref_set_other:
  "b' \<noteq> b \<or> nat addr' \<noteq> nat addr \<Longrightarrow> ga_ref b' addr' (set_ga_at b addr g w) = ga_ref b' addr' w"
  by (cases "b' = b") (auto simp: ga_ref_def set_ga_at_def)

lemma ga_ref_frame [simp]:
  "ga_ref b addr (tick w) = ga_ref b addr w" "ga_ref b addr (broadcast m w) = ga_ref b addr w"
  "ga_ref b addr (resume_bus_thread c w) = ga_ref b addr w"
  by (simp_all add: ga_ref_def)

lemma get_number_ga_frame [simp]:
  "get_number_ga b (tick w) = get_number_ga b w"
  "get_number_ga b (broadcast m w) = get_number_ga b w"
  "get_number_ga b (set_ga_at c addr g w) = get_number_ga b w"
  by (simp_all add: get_number_ga_def set_ga_at_def upd_def)

lemma enqueueGA_inv [inv_intros]:
  "world_inv w \<Longrightarrow> enqueueGA b addr port action at w = Some (rc, w') \<Longrightarrow> world_inv w'"
  by (auto simp: enqueueGA_def split: if_splits option.splits)

lemma dequeueNextGA_inv [inv_intros]:
  assumes "world_inv w" and "dequeueNextGA b w = Some (g, w')"
  shows "world_inv w'"
proof -
  obtain q where q: "ring_get (ga_queue w b) = Some (g, q)"
    and w': "w' = w\<lparr>ga_queue := upd (\<lambda>_. q) b (ga_queue w)\<rparr>"
    using assms(2) by (auto simp: dequeueNextGA_def split: option.splits)
  have "ga_inv w'"
    using assms(1) q by (auto simp: world_inv_def ga_inv_def upd_def w' intro: ring_get_inv)
  with assms(1) show ?thesis unfolding w' by (rule world_inv_ga)
qed

lemma infoGA_inv [inv_intros]: "world_inv w \<Longrightarrow> infoGA b addr port w = (rc, m, w') \<Longrightarrow> world_inv w'"
  by (auto simp: infoGA_def split: option.splits)

lemma setGA_inv [inv_intros]:
  "world_inv w \<Longrightarrow> setGA b addr a w = Some (rc, w') \<Longrightarrow> world_inv w'"
  by (auto simp: setGA_def bind_eq_Some_conv info_ok Let_def infoGA_def
      split: option.splits if_splits prod.splits)

lemma termGA_inv [inv_intros]:
  "world_inv w \<Longrightarrow> termGA b addr w = Some (rc, w') \<Longrightarrow> world_inv w'"
  by (auto simp: termGA_def bind_eq_Some_conv info_ok split: if_splits)

lemma initGA_inv [inv_intros]:
  assumes "world_inv w" and "initGA b addr p w = Some (rc, w')"
  shows "world_inv w'"
proof (cases "0 < addr \<and> addr \<le> get_number_ga b w \<and> bus_supports_protocol b p w = SRCP_OK")
  case True
  then obtain g where g: "ga_ref b addr w = Some g"
    using ga_ref_valid [OF assms(1)] by blast
  define g1 where "g1 = g\<lparr>a_protocol := p, a_inittime := now w, a_activetime := 0, a_action := 0,
                     a_tv := (\<lambda>_. tv_zero)\<rparr>"
  obtain rc2 g2 where f: "(case init_ga_func (buses w b) of Some f \<Rightarrow> f g1 | None \<Rightarrow> (SRCP_OK, g1))
      = (rc2, g2)" by fastforce
  show ?thesis
    using assms(1) assms(2) True g f
    by (auto simp: initGA_def Let_def info_ok f [unfolded g1_def] split: if_splits)
next
  case False
  with assms show ?thesis by (auto simp: initGA_def split: if_splits)
qed

lemma lockGA_inv [inv_intros]:
  "world_inv w \<Longrightarrow> lockGA b addr d sid w = Some (rc, w') \<Longrightarrow> world_inv w'"
  by (auto simp: lockGA_def bind_eq_Some_conv info_ok Let_def split: if_splits prod.splits)

lemma unlockGA_inv [inv_intros]:
  "world_inv w \<Longrightarrow> unlockGA b addr sid w = Some (rc, w') \<Longrightarrow> world_inv w'"
  by (auto simp: unlockGA_def bind_eq_Some_conv info_ok split: if_splits)

lemma unlockGA_total:
  "world_inv w \<Longrightarrow> ga_ref b addr w \<noteq> None \<Longrightarrow> \<exists>rc w'. unlockGA b addr sid w = Some (rc, w')"
  by (auto simp: unlockGA_def info_ok [OF set_ga_at_inv])

lemma unlockGA_number:
  "unlockGA b addr sid w = Some (rc, w') \<Longrightarrow> world_inv w \<Longrightarrow>
   get_number_ga i w' = get_number_ga i w \<and> num_buses w' = num_buses w"
  by (auto simp: unlockGA_def bind_eq_Some_conv info_ok [OF set_ga_at_inv] split: if_splits)
    (simp_all add: set_ga_at_def)

text \<open>The loops over all accessories stay inside the tables.\<close>

lemma unlock_ga_bysessionid_ok:
  assumes "world_inv w"
  shows "\<exists>w'. unlock_ga_bysessionid sid w = Some w' \<and> world_inv w'"
  unfolding unlock_ga_bysessionid_def
proof (rule loopM_inv [where P = world_inv])
  fix i and w1 :: world assume inv1: "world_inv w1"
  have "\<exists>w'. loopM (\<lambda>j w. do { g \<leftarrow> ga_ref i j w;
            if a_locked_by g = sid then map_option snd (unlockGA i j sid w) else Some w })
          (addrs (get_number_ga i w1)) w1 = Some w'
        \<and> (world_inv w' \<and> get_number_ga i w' = get_number_ga i w1)"
  proof (rule loopM_inv [where P = "\<lambda>w. world_inv w \<and> get_number_ga i w = get_number_ga i w1"])
    fix j s assume j: "j \<in> set (addrs (get_number_ga i w1))"
      and P: "world_inv s \<and> get_number_ga i s = get_number_ga i w1"
    then have ref: "ga_ref i j s = Some (gastate (ga s i) ! nat j)" by (intro ga_ref_valid) auto
    then obtain rc s' where u: "unlockGA i j sid s = Some (rc, s')"
      using P unlockGA_total [of s i j sid] by auto
    then show "\<exists>s'. (do { g \<leftarrow> ga_ref i j s;
            if a_locked_by g = sid then map_option snd (unlockGA i j sid s) else Some s }) = Some s'
          \<and> world_inv s' \<and> get_number_ga i s' = get_number_ga i w1"
      using P ref unlockGA_inv [OF _ u] unlockGA_number [OF u] by auto
  qed (use inv1 in simp)
  then show "\<exists>w'. loopM (\<lambda>j w. do { g \<leftarrow> ga_ref i j w;
            if a_locked_by g = sid then map_option snd (unlockGA i j sid w) else Some w })
          (addrs (get_number_ga i w1)) w1 = Some w' \<and> world_inv w'" by blast
qed (use assms in simp)

lemma ga_lock_tick_ok:
  assumes "world_inv w" and "0 < j" and "j \<le> get_number_ga i w"
  shows "\<exists>w'. ga_lock_tick i j w = Some w' \<and> world_inv w' \<and> get_number_ga i w' = get_number_ga i w"
proof -
  define g where "g = gastate (ga w i) ! nat j"
  have ref: "ga_ref i j w = Some g" unfolding g_def using assms by (rule ga_ref_valid)
  define w1 where "w1 = set_ga_at i j (g\<lparr>a_lockduration := a_lockduration g - 1\<rparr>) w"
  have w1: "world_inv w1" "ga_ref i j w1 \<noteq> None" "get_number_ga i w1 = get_number_ga i w"
    using assms(1) ref by (simp_all add: w1_def)
  obtain rc w2 where u: "unlockGA i j (a_locked_by g) w1 = Some (rc, w2)"
    using unlockGA_total [OF w1(1,2)] by blast
  show ?thesis
    using ref w1 u unlockGA_inv [OF w1(1) u] unlockGA_number [OF u w1(1), of i]
    unfolding ga_lock_tick_def Let_def ref bind.bind_lunit w1_def [symmetric] by simp
qed

lemma unlock_ga_bytime_ok:
  assumes "world_inv w"
  shows "\<exists>w'. unlock_ga_bytime w = Some w' \<and> world_inv w'"
  unfolding unlock_ga_bytime_def
proof (rule loopM_inv [where P = world_inv])
  fix i and w1 :: world assume inv1: "world_inv w1"
  have "\<exists>w'. loopM (ga_lock_tick i) (addrs (get_number_ga i w1)) w1 = Some w'
        \<and> (world_inv w' \<and> get_number_ga i w' = get_number_ga i w1)"
  proof (rule loopM_inv [where P = "\<lambda>w. world_inv w \<and> get_number_ga i w = get_number_ga i w1"])
    fix j s assume "j \<in> set (addrs (get_number_ga i w1))"
      and "world_inv s \<and> get_number_ga i s = get_number_ga i w1"
    then show "\<exists>s'. ga_lock_tick i j s = Some s' \<and> world_inv s' \<and>
        get_number_ga i s' = get_number_ga i w1"
      using ga_lock_tick_ok [of s j i] by auto
  qed (use inv1 in simp)
  then show "\<exists>w'. loopM (ga_lock_tick i) (addrs (get_number_ga i w1)) w1 = Some w' \<and> world_inv w'"
    by blast
qed (use assms in simp)

subsection \<open>What the loops over all accessories do\<close>

text \<open>The holder and the remaining duration of every lock.\<close>

definition ga_lock_view :: "world \<Rightarrow> nat \<times> int \<Rightarrow> nat \<times> int" where
  "ga_lock_view w d = (let g = gastate (ga w (fst d)) ! nat (snd d) in (a_locked_by g, a_lockduration g))"

definition ga_shape :: "world \<Rightarrow> world \<Rightarrow> bool" where
  "ga_shape w0 w \<longleftrightarrow> world_inv w \<and> num_buses w = num_buses w0 \<and> (\<forall>i. get_number_ga i w = get_number_ga i w0)"

lemma ga_sweep:
  assumes body: "\<And>i j s. ga_shape w0 s \<Longrightarrow> 0 < j \<Longrightarrow> j \<le> get_number_ga i w0 \<Longrightarrow>
      \<exists>s'. f i j s = Some s' \<and> ga_shape w0 s' \<and>
        ga_lock_view s' = (\<lambda>d. if d \<in> {(i, j)} then F (ga_lock_view s d) else ga_lock_view s d)"
    and "world_inv w0"
  shows "\<exists>w'. loopM (\<lambda>i w. loopM (f i) (addrs (get_number_ga i w)) w) [1..<Suc n] w0 = Some w' \<and>
    ga_shape w0 w' \<and>
    ga_lock_view w' = (\<lambda>d. if d \<in> (\<Union>i\<in>set [1..<Suc n]. {i} \<times> {1..get_number_ga i w0})
      then F (ga_lock_view w0 d) else ga_lock_view w0 d)"
proof (rule loopM_update [where P = "ga_shape w0"])
  fix i s assume sh: "ga_shape w0 s"
  then have n: "get_number_ga i s = get_number_ga i w0" by (simp add: ga_shape_def)
  have eq: "(\<Union>j\<in>set (addrs (get_number_ga i w0)). {(i, j)}) = {i} \<times> {1..get_number_ga i w0}" by auto
  have "\<exists>s'. loopM (f i) (addrs (get_number_ga i w0)) s = Some s' \<and> ga_shape w0 s' \<and>
      ga_lock_view s' = (\<lambda>d. if d \<in> (\<Union>j\<in>set (addrs (get_number_ga i w0)). {(i, j)})
        then F (ga_lock_view s d) else ga_lock_view s d)"
    by (rule loopM_update [where P = "ga_shape w0"]) (use body sh in auto)
  then show "\<exists>s'. loopM (f i) (addrs (get_number_ga i s)) s = Some s' \<and> ga_shape w0 s' \<and>
      ga_lock_view s' = (\<lambda>d. if d \<in> {i} \<times> {1..get_number_ga i w0} then F (ga_lock_view s d)
        else ga_lock_view s d)"
    unfolding n eq .
qed (use assms(2) in \<open>auto simp: ga_shape_def\<close>)

lemma ga_lock_view_set:
  assumes "ga_ref i j w = Some g" and "0 < j"
  shows "ga_lock_view (set_ga_at i j g' w) = (\<lambda>d. if d \<in> {(i, j)} then (a_locked_by g', a_lockduration g')
    else ga_lock_view w d)"
proof
  fix d :: "nat \<times> int"
  have "nat (snd d) = nat j \<longleftrightarrow> snd d = j" using assms(2) by auto
  then show "ga_lock_view (set_ga_at i j g' w) d = (if d \<in> {(i, j)} then (a_locked_by g', a_lockduration g')
      else ga_lock_view w d)"
    using assms(1) by (cases d; cases "fst d = i")
      (auto simp: ga_lock_view_def set_ga_at_def ga_ref_def nth_list_update Let_def split: if_splits)
qed

lemma ga_lock_view_frame [simp]:
  "ga_lock_view (tick w) = ga_lock_view w" "ga_lock_view (broadcast m w) = ga_lock_view w"
  by (simp_all add: ga_lock_view_def fun_eq_iff)

lemma ga_lock_view_ref: "ga_ref i j w = Some g \<Longrightarrow> ga_lock_view w (i, j) = (a_locked_by g, a_lockduration g)"
  by (auto simp: ga_ref_def ga_lock_view_def Let_def split: if_splits)

text \<open>Unlocking by the holder.\<close>

lemma unlockGA_view:
  assumes "world_inv w" and "ga_ref i j w = Some g" and "0 < j"
  shows "\<exists>w'. unlockGA i j (a_locked_by g) w = Some (SRCP_OK, w') \<and>
    ga_lock_view w' = (\<lambda>d. if d \<in> {(i, j)} then (0, a_lockduration g) else ga_lock_view w d)"
proof -
  have "ga_ref i j (tick w) = Some g" using assms(2) by simp
  note v = ga_lock_view_set [OF this assms(3)]
  show ?thesis
    using assms(1,2) by (auto simp: unlockGA_def info_ok [OF set_ga_at_inv] v fun_eq_iff)
qed

lemma ga_shape_ref:
  "ga_shape w0 s \<Longrightarrow> 0 < j \<Longrightarrow> j \<le> get_number_ga i w0 \<Longrightarrow> ga_ref i j s = Some (gastate (ga s i) ! nat j)"
  by (intro ga_ref_valid) (auto simp: ga_shape_def)

lemma unlock_ga_bysessionid_view:
  assumes "world_inv w"
  shows "\<exists>w'. unlock_ga_bysessionid sid w = Some w' \<and> ga_shape w w' \<and>
    ga_lock_view w' = (\<lambda>d. if d \<in> (\<Union>i\<in>set [1..<Suc (num_buses w)]. {i} \<times> {1..get_number_ga i w})
      then (if fst (ga_lock_view w d) = sid then (0, snd (ga_lock_view w d)) else ga_lock_view w d)
      else ga_lock_view w d)"
  unfolding unlock_ga_bysessionid_def
proof (rule ga_sweep [OF _ assms, where F = "\<lambda>v. if fst v = sid then (0, snd v) else v"])
  fix i j s assume s: "ga_shape w s" "0 < j" "j \<le> get_number_ga i w"
  define g where "g = gastate (ga s i) ! nat j"
  have ref: "ga_ref i j s = Some g" using ga_shape_ref [OF s] by (simp add: g_def)
  have inv: "world_inv s" using s(1) by (simp add: ga_shape_def)
  note v = ga_lock_view_ref [OF ref]
  show "\<exists>s'. (do { g \<leftarrow> ga_ref i j s; if a_locked_by g = sid then map_option snd (unlockGA i j sid s) else Some s })
        = Some s' \<and> ga_shape w s' \<and> ga_lock_view s' = (\<lambda>d. if d \<in> {(i, j)}
          then (if fst (ga_lock_view s d) = sid then (0, snd (ga_lock_view s d)) else ga_lock_view s d)
          else ga_lock_view s d)"
  proof (cases "a_locked_by g = sid")
    case True
    obtain s' where u: "unlockGA i j sid s = Some (SRCP_OK, s')"
      "ga_lock_view s' = (\<lambda>d. if d \<in> {(i, j)} then (0, a_lockduration g) else ga_lock_view s d)"
      using unlockGA_view [OF inv ref s(2)] True by auto
    have "ga_shape w s'"
      using s(1) unlockGA_inv [OF inv u(1)] unlockGA_number [OF u(1) inv] by (simp add: ga_shape_def)
    then show ?thesis using u True ref v by (auto simp: fun_eq_iff)
  next
    case False
    then show ?thesis using s(1) ref v by (auto simp: fun_eq_iff)
  qed
qed

lemma unlock_ga_bytime_view:
  assumes "world_inv w"
  shows "\<exists>w'. unlock_ga_bytime w = Some w' \<and> ga_shape w w' \<and>
    ga_lock_view w' = (\<lambda>d. if d \<in> (\<Union>i\<in>set [1..<Suc (num_buses w)]. {i} \<times> {1..get_number_ga i w})
      then (if snd (ga_lock_view w d) = 1 then (0, 0)
            else (fst (ga_lock_view w d), snd (ga_lock_view w d) - 1))
      else ga_lock_view w d)"
  unfolding unlock_ga_bytime_def
proof (rule ga_sweep [OF _ assms, where F = "\<lambda>v. if snd v = 1 then (0, 0) else (fst v, snd v - 1)"])
  fix i j s assume s: "ga_shape w s" "0 < j" "j \<le> get_number_ga i w"
  define g where "g = gastate (ga s i) ! nat j"
  have ref: "ga_ref i j s = Some g" using ga_shape_ref [OF s] by (simp add: g_def)
  have inv: "world_inv s" using s(1) by (simp add: ga_shape_def)
  define g' where "g' = g\<lparr>a_lockduration := a_lockduration g - 1\<rparr>"
  define s1 where "s1 = set_ga_at i j g' s"
  have inv1: "world_inv s1" using inv by (simp add: s1_def)
  have sh1: "ga_shape w s1" using s(1) inv1
    by (simp add: ga_shape_def s1_def) (simp add: set_ga_at_def)
  have ref1: "ga_ref i j s1 = Some g'" using ref by (simp add: s1_def)
  note v = ga_lock_view_ref [OF ref] and v1 = ga_lock_view_set [OF ref s(2), of g', folded s1_def]
  have step: "ga_lock_tick i j s
      = (if a_lockduration g = 1 then map_option snd (unlockGA i j (a_locked_by g') s1) else Some s1)"
    by (simp add: ga_lock_tick_def ref Let_def s1_def g'_def)
  show "\<exists>s'. ga_lock_tick i j s = Some s' \<and> ga_shape w s' \<and> ga_lock_view s' = (\<lambda>d. if d \<in> {(i, j)}
          then (if snd (ga_lock_view s d) = 1 then (0, 0)
                else (fst (ga_lock_view s d), snd (ga_lock_view s d) - 1))
          else ga_lock_view s d)"
  proof (cases "a_lockduration g = 1")
    case True
    obtain s' where u: "unlockGA i j (a_locked_by g') s1 = Some (SRCP_OK, s')"
      "ga_lock_view s' = (\<lambda>d. if d \<in> {(i, j)} then (0, a_lockduration g') else ga_lock_view s1 d)"
      using unlockGA_view [OF inv1 ref1 s(2)] by auto
    have "ga_shape w s'"
      using sh1 unlockGA_inv [OF inv1 u(1)] unlockGA_number [OF u(1) inv1] by (simp add: ga_shape_def)
    then show ?thesis using u True step v v1 by (auto simp: fun_eq_iff g'_def)
  next
    case False
    then show ?thesis using sh1 step v v1 by (auto simp: fun_eq_iff g'_def)
  qed
qed

subsection \<open>The lock excludes other sessions\<close>

text \<open>One lock per accessory.\<close>

definition ga_holder :: "nat \<times> nat \<Rightarrow> world \<Rightarrow> nat" where
  "ga_holder d w = a_locked_by (gastate (ga w (fst d)) ! snd d)"

definition ga_lock :: "nat \<times> nat \<Rightarrow> int \<Rightarrow> nat \<Rightarrow> world \<Rightarrow> (int \<times> world) option" where
  "ga_lock d duration s w = lockGA (fst d) (int (snd d)) duration s w"

definition ga_unlock :: "nat \<times> nat \<Rightarrow> int \<Rightarrow> nat \<Rightarrow> world \<Rightarrow> (int \<times> world) option" where
  "ga_unlock d x s w = unlockGA (fst d) (int (snd d)) s w"

lemma ga_holder_ref: "ga_ref b (int a) w = Some g \<Longrightarrow> ga_holder (b, a) w = a_locked_by g"
  by (auto simp: ga_ref_def ga_holder_def split: if_splits)

lemma ga_holder_frame [simp]:
  "ga_holder d (tick w) = ga_holder d w" "ga_holder d (broadcast m w) = ga_holder d w"
  by (simp_all add: ga_holder_def)

lemma ga_holder_set:
  "ga_ref b (int a) w = Some g \<Longrightarrow>
   ga_holder d (set_ga_at b (int a) g' w) = (if d = (b, a) then a_locked_by g' else ga_holder d w)"
  by (cases d; cases "fst d = b")
    (auto simp: ga_ref_def ga_holder_def set_ga_at_def nth_list_update split: if_splits)

lemma ga_lock_cases:
  assumes "world_inv w" and "ga_lock d x s w = Some (rc, w')"
  shows "rc = SRCP_OK \<and> ga_holder d w \<in> {s, 0} \<and> ga_holder d w' = s \<and>
      (\<forall>d'. d' \<noteq> d \<longrightarrow> ga_holder d' w' = ga_holder d' w)
    \<or> rc \<noteq> SRCP_OK \<and> w' = w"
proof -
  obtain b a where d: "d = (b, a)" by fastforce
  obtain g where g: "ga_ref b (int a) w = Some g"
    using assms(2) by (auto simp: ga_lock_def lockGA_def d bind_eq_Some_conv)
  have gt: "ga_ref b (int a) (tick w) = Some g" using g by simp
  show ?thesis
    using assms g gt
    by (auto simp: ga_lock_def lockGA_def d bind_eq_Some_conv describeLOCKGA_def info_ok Let_def
        ga_holder_ref [OF g] ga_holder_set [OF gt] split: if_splits)
qed

lemma ga_unlock_cases:
  assumes "world_inv w" and "ga_unlock d x s w = Some (rc, w')"
  shows "rc = SRCP_OK \<and> ga_holder d w \<in> {s, 0} \<and> ga_holder d w' = 0 \<and>
      (\<forall>d'. d' \<noteq> d \<longrightarrow> ga_holder d' w' = ga_holder d' w)
    \<or> rc \<noteq> SRCP_OK \<and> w' = w"
proof -
  obtain b a where d: "d = (b, a)" by fastforce
  obtain g where g: "ga_ref b (int a) w = Some g"
    using assms(2) by (auto simp: ga_unlock_def unlockGA_def d bind_eq_Some_conv)
  have gt: "ga_ref b (int a) (tick w) = Some g" using g by simp
  show ?thesis
    using assms g gt
    by (auto simp: ga_unlock_def unlockGA_def d bind_eq_Some_conv info_ok
        ga_holder_ref [OF g] ga_holder_set [OF gt] split: if_splits)
qed

interpretation ga_locks: device_lock world_inv ga_holder SRCP_OK ga_lock ga_unlock
proof unfold_locales
  show "world_inv w \<Longrightarrow> ga_lock d x s w = Some (rc, w') \<Longrightarrow> world_inv w'" for w d x s rc w'
    unfolding ga_lock_def by (rule lockGA_inv)
  show "world_inv w \<Longrightarrow> ga_unlock d x s w = Some (rc, w') \<Longrightarrow> world_inv w'" for w d x s rc w'
    unfolding ga_unlock_def by (rule unlockGA_inv)
qed ((drule (1) ga_lock_cases, fastforce) | (drule (1) ga_unlock_cases, fastforce))+

text \<open>What a request for an accessory of the table does.\<close>

lemma ga_lock_free:
  assumes "world_inv w" and "ga_ref b (int a) w = Some g" and "a_locked_by g \<in> {s, 0}"
  shows "\<exists>w' g'. ga_lock (b, a) d s w = Some (SRCP_OK, w') \<and> world_inv w' \<and>
    ga_ref b (int a) w' = Some g' \<and> a_locked_by g' = s"
proof -
  define g' where "g' = g\<lparr>a_locked_by := s, a_lockduration := d, a_locktime := now w\<rparr>"
  define w1 where "w1 = set_ga_at b (int a) g' (tick w)"
  have inv: "world_inv w1" using assms(1) by (simp add: w1_def)
  have r: "ga_ref b (int a) w1 = Some g'" using assms(2) by (simp add: w1_def)
  obtain m where m: "describeLOCKGA b (int a) w1 = Some (SRCP_OK, m)"
    using r by (simp add: describeLOCKGA_def)
  have "ga_lock (b, a) d s w = Some (SRCP_OK, broadcast m w1)"
    using assms(2,3) m info_ok [OF inv] by (auto simp: ga_lock_def lockGA_def g'_def w1_def Let_def)
  moreover have "a_locked_by g' = s" by (simp add: g'_def)
  ultimately show ?thesis using inv r by simp
qed

lemma ga_lock_held:
  assumes "ga_ref b (int a) w = Some g" and "a_locked_by g \<notin> {s, 0}"
  shows "ga_lock (b, a) d s w = Some (SRCP_DEVICELOCKED, w)" "ga_unlock (b, a) d s w = Some (SRCP_DEVICELOCKED, w)"
  using assms by (auto simp: ga_lock_def lockGA_def ga_unlock_def unlockGA_def)

lemma sample_ga_ref: "ga_ref 1 (int 1) sample_world = Some sample_ga" "a_locked_by sample_ga = 0"
  by (simp_all add: ga_ref_def sample_world_def zero_world_def sample_ga_def zero_ga_def)

text \<open>While a session holds the lock of an accessory, no run of lock and unlock requests of
  other sessions, on this or other accessories, takes it away, and their requests are refused.\<close>

theorem ga_lock_exclusive:
  assumes "world_inv w" and "ga_lock d x s w = Some (SRCP_OK, w1)" and "s \<noteq> 0"
    and "\<forall>r\<in>set rs. \<not> from_session s r" and "lock_run ga_lock ga_unlock rs w1 = Some w2"
    and "s' \<noteq> s" and "ga_lock d x' s' w2 = Some (rc, w3)"
  shows "ga_holder d w2 = s \<and> rc \<noteq> SRCP_OK \<and> ga_holder d w3 = s"
  using assms by (rule ga_locks.exclusive)

theorem ga_lock_exclusive_witness:
  "\<exists>w1 rc w3. ga_lock (1, 1) 60 1 sample_world = Some (SRCP_OK, w1) \<and>
     lock_run ga_lock ga_unlock [Unlock_req (1, 1) 0 2] w1 = Some w1 \<and>
     ga_lock (1, 1) 60 2 w1 = Some (rc, w3) \<and> rc \<noteq> SRCP_OK \<and> ga_holder (1, 1) w3 = 1"
proof -
  obtain w1 g where w1: "ga_lock (1, 1) 60 1 sample_world = Some (SRCP_OK, w1)"
    "ga_ref 1 (int 1) w1 = Some g" "a_locked_by g = 1"
    using ga_lock_free [OF sample_world_inv sample_ga_ref(1), of 1 60] sample_ga_ref(2) by auto
  have run: "lock_run ga_lock ga_unlock [Unlock_req (1, 1) 0 2] w1 = Some w1"
    using ga_lock_held(2) [OF w1(2), of 2 0] w1(3) by simp
  have l2: "ga_lock (1, 1) 60 2 w1 = Some (SRCP_DEVICELOCKED, w1)"
    using ga_lock_held(1) [OF w1(2), of 2 60] w1(3) by simp
  have "ga_holder (1, 1) w1 = 1 \<and> SRCP_DEVICELOCKED \<noteq> SRCP_OK \<and> ga_holder (1, 1) w1 = 1"
    by (rule ga_lock_exclusive [OF sample_world_inv w1(1) _ _ run _ l2]) simp_all
  with w1(1) run l2 show ?thesis by blast
qed


subsection \<open>A lock lasts as long as it was asked for\<close>

text \<open>\<open>n\<close> seconds of the main loop, as far as the accessories are concerned.\<close>

fun ga_seconds :: "nat \<Rightarrow> world \<Rightarrow> world option" where
  "ga_seconds 0 w = Some w"
| "ga_seconds (Suc n) w = do { w' \<leftarrow> unlock_ga_bytime w; ga_seconds n w' }"

lemma ga_seconds_view:
  assumes "world_inv w" and "b \<in> {1..num_buses w}" and "a \<in> {1..get_number_ga b w}"
    and "ga_lock_view w (b, a) = (h, k)" and "0 < k \<or> h = 0"
  shows "\<exists>w' h' k'. ga_seconds n w = Some w' \<and> ga_lock_view w' (b, a) = (h', k') \<and>
    h' = (if int n < k then h else 0)"
  using assms
proof (induction n arbitrary: w h k)
  case (Suc n)
  obtain w1 where w1: "unlock_ga_bytime w = Some w1" "ga_shape w w1"
    "ga_lock_view w1 = (\<lambda>d. if d \<in> (\<Union>i\<in>set [1..<Suc (num_buses w)]. {i} \<times> {1..get_number_ga i w})
      then (if snd (ga_lock_view w d) = 1 then (0, 0)
            else (fst (ga_lock_view w d), snd (ga_lock_view w d) - 1))
      else ga_lock_view w d)"
    using unlock_ga_bytime_view [OF Suc.prems(1)] by blast
  have "b \<in> set [1..<Suc (num_buses w)]" using Suc.prems(2) by (simp del: upt_Suc add: less_Suc_eq_le)
  then have mem: "(b, a) \<in> (\<Union>i\<in>set [1..<Suc (num_buses w)]. {i} \<times> {1..get_number_ga i w})"
    using Suc.prems(3) by (intro UN_I [of b]) simp_all
  have v: "ga_lock_view w1 (b, a) = (if k = 1 then (0, 0) else (h, k - 1))"
    by (simp only: w1(3) mem Suc.prems(4) if_True fst_conv snd_conv)
  have sh: "world_inv w1" "b \<in> {1..num_buses w1}" "a \<in> {1..get_number_ga b w1}"
    using w1(2) Suc.prems(2,3) by (simp_all add: ga_shape_def)
  show ?case
  proof (cases "k = 1")
    case True
    from Suc.IH [OF sh, of 0 0] v True w1(1) show ?thesis by auto
  next
    case False
    have "0 < k - 1 \<or> h = 0" using Suc.prems(5) False by auto
    from Suc.IH [OF sh, of h "k - 1"] v False this obtain w' h' k' where
      "ga_seconds n w1 = Some w'" "ga_lock_view w' (b, a) = (h', k')" "h' = (if int n < k - 1 then h else 0)"
      by auto
    with w1(1) show ?thesis by auto
  qed
qed auto

lemma ga_lock_view_holder: "ga_lock_view w (b, int a) = (h, k) \<Longrightarrow> ga_holder (b, a) w = h"
  by (simp add: ga_lock_view_def ga_holder_def Let_def)

lemma ga_lock_granted_view:
  assumes "world_inv w" and "ga_lock (b, a) k s w = Some (SRCP_OK, w1)"
  shows "ga_lock_view w1 (b, int a) = (s, k)" and "ga_shape w w1"
proof -
  obtain g where g: "ga_ref b (int a) w = Some g"
    using assms(2) by (auto simp: ga_lock_def lockGA_def bind_eq_Some_conv)
  define g' where "g' = g\<lparr>a_locked_by := s, a_lockduration := k, a_locktime := now w\<rparr>"
  define w2 where "w2 = set_ga_at b (int a) g' (tick w)"
  have inv: "world_inv w2" using assms(1) by (simp add: w2_def)
  have r: "ga_ref b (int a) w2 = Some g'" using g by (simp add: w2_def)
  obtain m where w1: "w1 = broadcast m w2"
    using assms(2) g r info_ok [OF inv]
    by (auto simp: ga_lock_def lockGA_def describeLOCKGA_def g'_def [symmetric] w2_def [symmetric] Let_def
        split: if_splits)
  show "ga_lock_view w1 (b, int a) = (s, k)"
    using ga_lock_view_ref [OF r] by (simp add: w1 g'_def)
  show "ga_shape w w1"
    using inv by (auto simp: ga_shape_def w1 w2_def) (simp add: set_ga_at_def)
qed

text \<open>C30: An accessory lock granted for k seconds is held by its session for exactly the first k
  - 1 turns of the once-a-second sweep and released by the k-th.\<close>

theorem ga_lock_lasts:
  assumes "world_inv w" and "b \<in> {1..num_buses w}" and "int a \<in> {1..get_number_ga b w}"
    and "ga_lock (b, a) k s w = Some (SRCP_OK, w1)" and "0 < k"
  shows "\<exists>w'. ga_seconds n w1 = Some w' \<and> ga_holder (b, a) w' = (if int n < k then s else 0)"
proof -
  note l = ga_lock_granted_view [OF assms(1,4)]
  have "world_inv w1" "b \<in> {1..num_buses w1}" "int a \<in> {1..get_number_ga b w1}"
    using l(2) assms(2,3) by (simp_all add: ga_shape_def)
  from ga_seconds_view [OF this l(1), of n] assms(5) ga_lock_view_holder show ?thesis by blast
qed

theorem ga_lock_lasts_witness:
  "\<exists>w1 w2 w3. ga_lock (1, 1) 2 7 sample_world = Some (SRCP_OK, w1) \<and>
     ga_seconds 1 w1 = Some w2 \<and> ga_holder (1, 1) w2 = 7 \<and>
     ga_seconds 2 w1 = Some w3 \<and> ga_holder (1, 1) w3 = 0"
proof -
  obtain w1 where w1: "ga_lock (1, 1) 2 7 sample_world = Some (SRCP_OK, w1)"
    using ga_lock_free [OF sample_world_inv sample_ga_ref(1), of 7 2] sample_ga_ref(2) by auto
  have b: "1 \<in> {1..num_buses sample_world}" "int 1 \<in> {1..get_number_ga 1 sample_world}"
    by (simp_all add: sample_world_def get_number_ga_def zero_world_def)
  show ?thesis
    using w1 ga_lock_lasts [OF sample_world_inv b w1, of 1] ga_lock_lasts [OF sample_world_inv b w1, of 2]
    by simp
qed

subsection \<open>Switching\<close>



end
