(* ===== verification/Srcp_FB.thy ===== *)
theory Srcp_FB
  imports Srcp_Inv
begin

text \<open>
  Feedbacks, \<open>srcp-fb.c\<close>: the state of every contact, and the queue in which a contact's
  return to 0 waits for \<open>min_time\<close>. \<open>queue_reset_fb\<close> waits in a loop while the queue is
  full; that call has no result in the model (\<open>None\<close>): the state the caller passed in does
  not change while it waits.
\<close>

definition get_number_fb :: "nat \<Rightarrow> world \<Rightarrow> int" where
  "get_number_fb b w = numberOfFb (fb w b)"

definition set_fb_at :: "nat \<Rightarrow> int \<Rightarrow> fb_state \<Rightarrow> world \<Rightarrow> world" where
  "set_fb_at b i s w = w\<lparr>fb := upd (\<lambda>t. t\<lparr>fbstate := (fbstate t)[nat i := s]\<rparr>) b (fb w)\<rparr>"

abbreviation fb_at :: "nat \<Rightarrow> int \<Rightarrow> world \<Rightarrow> fb_state" where
  "fb_at b i w \<equiv> fbstate (fb w b) ! nat i"

definition queueLengthFB :: "nat \<Rightarrow> world \<Rightarrow> nat" where
  "queueLengthFB b w = ring_len (fb_queue w b)"

definition queueIsFullFB :: "nat \<Rightarrow> world \<Rightarrow> bool" where
  "queueIsFullFB b w = ring_isfull (fb_queue w b)"

definition queueIsEmptyFB :: "nat \<Rightarrow> world \<Rightarrow> bool" where
  "queueIsEmptyFB b w = ring_isempty (fb_queue w b)"

definition getNextFB :: "nat \<Rightarrow> world \<Rightarrow> fb_reset option" where
  "getNextFB b w = ring_peek (fb_queue w b)"

definition unqueueNextFB :: "nat \<Rightarrow> world \<Rightarrow> world" where
  "unqueueNextFB b w = w\<lparr>fb_queue := upd (\<lambda>q. q\<lparr>rd := ring_next q (rd q)\<rparr>) b (fb_queue w)\<rparr>"

definition queue_reset_fb :: "nat \<Rightarrow> int \<Rightarrow> timeval \<Rightarrow> world \<Rightarrow> world option" where
  "queue_reset_fb b port ctime w =
     (if queueIsFullFB b w then None
      else Some (w\<lparr>fb_queue :=
             upd (ring_push \<lparr>r_port = port, r_timestamp = ctime\<rparr>) b (fb_queue w)\<rparr>))"

text \<open>\<open>getFB\<close> leaves its output parameters alone when it answers \<open>SRCP_NODATA\<close>.\<close>

definition getFB :: "nat \<Rightarrow> int \<Rightarrow> world \<Rightarrow> int \<times> (timeval \<times> int) option" where
  "getFB b port w =
     (let p = port - 1 in
      if get_number_fb b w \<le> 0 \<or> p < 0 \<or> get_number_fb b w \<le> p then (SRCP_NODATA, None)
      else (SRCP_OK, Some (f_timestamp (fb_at b p w), f_state (fb_at b p w))))"

text \<open>The test is \<open>rc >= SRCP_OK\<close>; \<open>SRCP_NODATA\<close> is 416 and passes it as well.\<close>

definition infoFB :: "nat \<Rightarrow> int \<Rightarrow> world \<Rightarrow> int \<times> string" where
  "infoFB b port w =
     (let (rc, out) = getFB b port w;
          (t, s) = (case out of None \<Rightarrow> (tv_zero, 0) | Some o1 \<Rightarrow> o1)
      in if SRCP_OK \<le> rc
         then (SRCP_INFO, fmt_time t @ '' 100 INFO '' @ fmt_d (int b) @ '' FB '' @ fmt_d port @ '' ''
                 @ fmt_d s @ ''\<newline>'')
         else (SRCP_NODATA, []))"

definition enqueueInfoFB :: "nat \<Rightarrow> int \<Rightarrow> world \<Rightarrow> world option" where
  "enqueueInfoFB b port w = enqueueInfoMessage (snd (infoFB b port w)) w"

definition describeFB :: "nat \<Rightarrow> int \<Rightarrow> int" where
  "describeFB b addr = SRCP_UNSUPPORTEDOPERATION"

definition updateFB :: "nat \<Rightarrow> int \<Rightarrow> int \<Rightarrow> world \<Rightarrow> (int \<times> world) option" where
  "updateFB b port val w =
     (if get_number_fb b w < port \<or> port < 1 then Some (SRCP_WRONGVALUE, w)
      else
        let p = port - 1; s = fb_at b p w; t = now w; w1 = tick w in
        if f_state s \<noteq> val then
          if val = 0 then
            if min_time w b = 0 then do {
              w2 \<leftarrow> enqueueInfoFB b port
                     (set_fb_at b p \<lparr>f_timestamp = t, f_state = 0, f_change = 0\<rparr> w1);
              Some (SRCP_OK, w2) }
            else do {
              w2 \<leftarrow> queue_reset_fb b p t (set_fb_at b p (s\<lparr>f_change := -1\<rparr>) w1);
              Some (SRCP_OK, w2) }
          else
            if f_change s < 0 then Some (SRCP_OK, set_fb_at b p (s\<lparr>f_change := 0\<rparr>) w1)
            else do {
              w2 \<leftarrow> enqueueInfoFB b port
                     (set_fb_at b p \<lparr>f_timestamp = t, f_state = c_short val, f_change = 0\<rparr> w1);
              Some (SRCP_OK, w2) }
        else Some (SRCP_OK, w))"

definition setFB :: "nat \<Rightarrow> int \<Rightarrow> int \<Rightarrow> world \<Rightarrow> (int \<times> world) option" where
  "setFB b port val w = updateFB b port val w"

text \<open>The flags \<open>FB_ORDER_0\<close> (0x200), \<open>FB_16_PORTS\<close> (0x400) and \<open>FB_4_PORTS\<close> (0x800)
  are single bits, and so is \<open>mask\<close>: \<open>values & mask\<close> tests bit \<open>i\<close> or \<open>ports - 1 - i\<close>.\<close>

definition fb_ports :: "int \<Rightarrow> nat" where
  "fb_ports fl = (if bit fl 11 then 4 else if bit fl 10 then 16 else 8)"

definition fb_mask_bit :: "int \<Rightarrow> nat \<Rightarrow> nat" where
  "fb_mask_bit fl i = (if bit fl 9 then i else fb_ports fl - 1 - i)"

fun setFB_loop :: "nat \<Rightarrow> int \<Rightarrow> int \<Rightarrow> int \<Rightarrow> nat list \<Rightarrow> int \<Rightarrow> world \<Rightarrow> (int \<times> world) option" where
  "setFB_loop b fl vals contact [] rc w = Some (rc, w)"
| "setFB_loop b fl vals contact (i # is) rc w =
     (case updateFB b contact (if bit vals (fb_mask_bit fl i) then 1 else 0) w of
        None \<Rightarrow> None
      | Some (rc', w') \<Rightarrow> setFB_loop b fl vals (contact + 1) is rc' w')"

definition setFBmodul :: "nat \<Rightarrow> int \<Rightarrow> int \<Rightarrow> world \<Rightarrow> (int \<times> world) option" where
  "setFBmodul b modul vals w =
     (let fl = flags (buses w b); ports = fb_ports fl; c0 = (modul - 1) * int ports + 1 in
      if \<not> in_int (modul - 1) \<or> \<not> in_int (c0 - 1) \<or> \<not> in_int (c0 + int ports) then None
      else setFB_loop b fl vals c0 [0..<ports] SRCP_OK w)"

text \<open>One pass of the loop of \<open>check_reset_fb\<close>: \<open>Inl\<close> leaves it, \<open>Inr\<close> goes round again.
  Each pass but the last takes an entry out, so the fuel \<open>QUEUELENGTH_FB\<close> is enough
  (lemma \<open>check_reset_fb_ok\<close>).\<close>

definition check_reset_step :: "nat \<Rightarrow> world \<Rightarrow> (world + world) option" where
  "check_reset_step b w =
     (case getNextFB b w of
        None \<Rightarrow> Some (Inl w)
      | Some r \<Rightarrow>
          if r_port r < 0 \<or> int (length (fbstate (fb w b))) \<le> r_port r then None
          else if f_change (fb_at b (r_port r) w) = 0 then Some (Inr (unqueueNextFB b w))
          else
            let t = now w; w1 = tick w;
                diff = (tv_usec t - tv_usec (r_timestamp r))
                       + (tv_sec t - tv_sec (r_timestamp r)) * 1000000
            in if diff < min_time w b then Some (Inl w1)
               else do {
                 w2 \<leftarrow> enqueueInfoFB b (r_port r + 1)
                        (set_fb_at b (r_port r) \<lparr>f_timestamp = r_timestamp r, f_state = 0, f_change = 0\<rparr>
                          (unqueueNextFB b w1));
                 Some (Inr w2) })"

fun check_reset_loop :: "nat \<Rightarrow> nat \<Rightarrow> world \<Rightarrow> world option" where
  "check_reset_loop 0 b w = None"
| "check_reset_loop (Suc n) b w =
     (case check_reset_step b w of
        None \<Rightarrow> None
      | Some (Inl w') \<Rightarrow> Some w'
      | Some (Inr w') \<Rightarrow> check_reset_loop n b w')"

definition check_reset_fb :: "nat \<Rightarrow> world \<Rightarrow> world option" where
  "check_reset_fb b w = check_reset_loop QUEUELENGTH_FB b w"

definition startup_FB :: "world \<Rightarrow> world" where
  "startup_FB w = w\<lparr>
     fb := (\<lambda>b. if b < MAX_BUSES then \<lparr>numberOfFb = 0, fbstate = []\<rparr> else fb w b),
     fb_queue := (\<lambda>b. if b < MAX_BUSES then (fb_queue w b)\<lparr>wr := 0, rd := 0\<rparr> else fb_queue w b),
     min_time := (\<lambda>b. if b < MAX_BUSES then 0 else min_time w b)\<rparr>"

text \<open>The product is an \<open>int\<close>: it overflows for \<open>mt\<close> above 2147483.\<close>

definition set_min_time :: "nat \<Rightarrow> int \<Rightarrow> world \<Rightarrow> world option" where
  "set_min_time b mt w =
     (if MAX_BUSES \<le> b then Some w
      else if in_int (mt * 1000) then Some (w\<lparr>min_time := (min_time w)(b := mt * 1000)\<rparr>)
      else None)"

definition init_FB :: "bool \<Rightarrow> nat \<Rightarrow> int \<Rightarrow> world \<Rightarrow> int \<times> world" where
  "init_FB malloc_ok b number w =
     (if MAX_BUSES \<le> b then (1, w)
      else if 0 < number then
        if \<not> malloc_ok then (1, (tick w)\<lparr>fb := upd (\<lambda>t. t\<lparr>fbstate := []\<rparr>) b (fb w)\<rparr>)
        else (0, (tick w)\<lparr>fb := upd (\<lambda>t. \<lparr>numberOfFb = number,
               fbstate = replicate (nat number) \<lparr>f_timestamp = now w, f_state = 0, f_change = 0\<rparr>\<rparr>)
               b (fb w)\<rparr>)
      else (0, w))"

definition initFB :: "nat \<Rightarrow> int \<Rightarrow> char \<Rightarrow> int \<Rightarrow> world \<Rightarrow> int" where
  "initFB b adres prot ix w =
     (if 0 < adres \<and> adres \<le> get_number_fb b w then
        (case init_fb_func (buses w b) of None \<Rightarrow> SRCP_OK | Some f \<Rightarrow> f b adres prot ix)
      else SRCP_OK)"

subsection \<open>Every operation keeps the invariant\<close>

lemma world_inv_min_time [simp]: "world_inv (w\<lparr>min_time := m\<rparr>) = world_inv w"
  by (simp add: world_inv_def sess_inv_def gl_inv_def ga_inv_def fb_inv_def sm_inv_def)

lemma set_fb_at_inv [simp]: "world_inv w \<Longrightarrow> world_inv (set_fb_at b i s w)"
  by (simp add: set_fb_at_def)

lemma fb_frame [simp]:
  "get_number_fb b (tick w) = get_number_fb b w"
  "get_number_fb b (broadcast m w) = get_number_fb b w"
  "get_number_fb b (set_fb_at c i s w) = get_number_fb b w"
  "get_number_fb b (unqueueNextFB c w) = get_number_fb b w"
  "fb_queue (set_fb_at c i s w) = fb_queue w" "min_time (set_fb_at c i s w) = min_time w"
  "session_list (set_fb_at c i s w) = session_list w" "sess_heap (set_fb_at c i s w) = sess_heap w"
  "num_buses (set_fb_at c i s w) = num_buses w" "buses (set_fb_at c i s w) = buses w"
  by (simp_all add: get_number_fb_def set_fb_at_def upd_def unqueueNextFB_def)

lemma fb_at_set [simp]:
  "nat i < length (fbstate (fb w b)) \<Longrightarrow> fb_at b i (set_fb_at b i s w) = s"
  by (simp add: set_fb_at_def)

lemma fb_at_set_other:
  "b' \<noteq> b \<or> nat j \<noteq> nat i \<Longrightarrow> fb_at b' j (set_fb_at b i s w) = fb_at b' j w"
  by (cases "b' = b") (auto simp: set_fb_at_def)

lemma length_fbstate_set [simp]:
  "length (fbstate (fb (set_fb_at b i s w) c)) = length (fbstate (fb w c))"
  by (cases "c = b") (simp_all add: set_fb_at_def)

lemma fb_length:
  "world_inv w \<Longrightarrow> 0 < get_number_fb b w \<Longrightarrow> length (fbstate (fb w b)) = nat (get_number_fb b w)"
  by (simp add: world_inv_def fb_inv_def get_number_fb_def)

lemma fb_queue_push_inv:
  assumes "world_inv w" and "\<not> queueIsFullFB b w"
    and "0 \<le> r_port r" and "r_port r < get_number_fb b w"
  shows "world_inv (w\<lparr>fb_queue := upd (ring_push r) b (fb_queue w)\<rparr>)"
proof (rule world_inv_fb(2))
  have inv: "ring_inv QUEUELENGTH_FB (fb_queue w c)" for c
    using assms(1) by (simp add: world_inv_def fb_inv_def)
  show "fb_inv (w\<lparr>fb_queue := upd (ring_push r) b (fb_queue w)\<rparr>)"
    using assms inv ring_list_push [OF inv, of b r]
    by (auto simp: world_inv_def fb_inv_def upd_def queueIsFullFB_def get_number_fb_def
        intro: ring_push_inv)
qed (use assms in simp)

lemma queue_reset_fb_inv:
  assumes "world_inv w" and "0 \<le> p" and "p < get_number_fb b w"
    and "queue_reset_fb b p t w = Some w'"
  shows "world_inv w'"
  using assms fb_queue_push_inv [of w b "\<lparr>r_port = p, r_timestamp = t\<rparr>"]
  by (auto simp: queue_reset_fb_def split: if_splits)

lemma enqueueInfoFB_ok:
  "world_inv w \<Longrightarrow> enqueueInfoFB b port w = Some (broadcast (snd (infoFB b port w)) w)"
  by (simp add: enqueueInfoFB_def info_ok)

text \<open>The three ways \<open>updateFB\<close> can go on once the port is in range and the value differs.\<close>

lemma updateFB_cases:
  assumes "updateFB b port val w = Some (rc, w')"
  obtains (wrong) "get_number_fb b w < port \<or> port < 1" and "rc = SRCP_WRONGVALUE" and "w' = w"
  | (same) "1 \<le> port" and "port \<le> get_number_fb b w" and "f_state (fb_at b (port - 1) w) = val"
      and "rc = SRCP_OK" and "w' = w"
  | (delay) "1 \<le> port" and "port \<le> get_number_fb b w" and "val = 0" and "min_time w b \<noteq> 0"
      and "rc = SRCP_OK"
      and "queue_reset_fb b (port - 1) (now w)
             (set_fb_at b (port - 1) ((fb_at b (port - 1) w)\<lparr>f_change := -1\<rparr>) (tick w)) = Some w'"
  | (cancel) "1 \<le> port" and "port \<le> get_number_fb b w" and "val \<noteq> 0"
      and "f_change (fb_at b (port - 1) w) < 0" and "rc = SRCP_OK"
      and "w' = set_fb_at b (port - 1) ((fb_at b (port - 1) w)\<lparr>f_change := 0\<rparr>) (tick w)"
  | (store) "1 \<le> port" and "port \<le> get_number_fb b w" and "rc = SRCP_OK"
      and "enqueueInfoFB b port (set_fb_at b (port - 1)
             \<lparr>f_timestamp = now w, f_state = c_short val, f_change = 0\<rparr> (tick w)) = Some w'"
proof -
  have z: "c_short 0 = 0" by (simp add: c_short_def)
  show thesis
  proof (cases "get_number_fb b w < port \<or> port < 1")
    case True
    with assms show ?thesis by (intro wrong) (auto simp: updateFB_def)
  next
    case False
    then have p: "1 \<le> port" "port \<le> get_number_fb b w" by auto
    note u = assms [unfolded updateFB_def Let_def, simplified False if_False]
    consider "f_state (fb_at b (port - 1) w) = val"
      | "f_state (fb_at b (port - 1) w) \<noteq> val" "val = 0" "min_time w b = 0"
      | "f_state (fb_at b (port - 1) w) \<noteq> val" "val = 0" "min_time w b \<noteq> 0"
      | "f_state (fb_at b (port - 1) w) \<noteq> val" "val \<noteq> 0" "f_change (fb_at b (port - 1) w) < 0"
      | "f_state (fb_at b (port - 1) w) \<noteq> val" "val \<noteq> 0" "\<not> f_change (fb_at b (port - 1) w) < 0"
      by blast
    then show ?thesis
    proof cases
      case 1 with u p show ?thesis by (intro same) auto
    next
      case 2 with u p z show ?thesis by (intro store) (auto simp: bind_eq_Some_conv)
    next
      case 3 with u p show ?thesis by (intro delay) (auto simp: bind_eq_Some_conv)
    next
      case 4 with u p show ?thesis by (intro cancel) auto
    next
      case 5 with u p show ?thesis by (intro store) (auto simp: bind_eq_Some_conv)
    qed
  qed
qed

lemma updateFB_inv [inv_intros]:
  assumes "world_inv w" and "updateFB b port val w = Some (rc, w')"
  shows "world_inv w'"
  using assms(2)
proof (cases rule: updateFB_cases)
  case delay
  show ?thesis by (rule queue_reset_fb_inv [OF _ _ _ delay(6)]) (use assms(1) delay in auto)
next
  case store
  have "world_inv (set_fb_at b (port - 1) \<lparr>f_timestamp = now w, f_state = c_short val, f_change = 0\<rparr>
          (tick w))" using assms(1) by simp
  with store(4) show ?thesis by (auto simp: enqueueInfoFB_ok)
qed (use assms(1) in simp_all)

lemma setFB_loop_inv:
  "world_inv w \<Longrightarrow> setFB_loop b fl vals c is rc w = Some (rc', w') \<Longrightarrow> world_inv w'"
proof (induction b fl vals c "is" rc w rule: setFB_loop.induct)
  case (2 b fl vals contact i "is" rc w)
  then show ?case by (auto split: option.splits prod.splits dest: updateFB_inv)
qed auto

lemma setFBmodul_inv [inv_intros]:
  "world_inv w \<Longrightarrow> setFBmodul b m v w = Some (rc, w') \<Longrightarrow> world_inv w'"
  by (auto simp: setFBmodul_def Let_def split: if_splits intro: setFB_loop_inv)

lemma getNextFB_get:
  "getNextFB b w = Some r \<longleftrightarrow> ring_get (fb_queue w b) = Some (r, fb_queue (unqueueNextFB b w) b)"
  by (simp add: getNextFB_def ring_peek_def ring_get_def unqueueNextFB_def)

lemma unqueueNextFB_inv:
  assumes "world_inv w" and "getNextFB b w = Some r"
  shows "world_inv (unqueueNextFB b w)"
    and "ring_list (fb_queue w b) = r # ring_list (fb_queue (unqueueNextFB b w) b)"
    and "0 \<le> r_port r \<and> r_port r < get_number_fb b w"
proof -
  have inv: "ring_inv QUEUELENGTH_FB (fb_queue w b)"
    using assms(1) by (simp add: world_inv_def fb_inv_def)
  have get: "ring_get (fb_queue w b) = Some (r, fb_queue (unqueueNextFB b w) b)"
    using assms(2) by (simp add: getNextFB_get)
  show l: "ring_list (fb_queue w b) = r # ring_list (fb_queue (unqueueNextFB b w) b)"
    by (rule ring_list_get [OF inv get])
  have ports: "\<forall>r \<in> set (ring_list (fb_queue w b)). 0 \<le> r_port r \<and> r_port r < numberOfFb (fb w b)"
    using assms(1) by (simp add: world_inv_def fb_inv_def)
  then show "0 \<le> r_port r \<and> r_port r < get_number_fb b w"
    unfolding get_number_fb_def l by simp
  have rest: "\<forall>r \<in> set (ring_list (fb_queue (unqueueNextFB b w) b)).
      0 \<le> r_port r \<and> r_port r < numberOfFb (fb w b)"
    using ports unfolding l by simp
  show "world_inv (unqueueNextFB b w)"
    unfolding unqueueNextFB_def
  proof (rule world_inv_fb(2))
    show "fb_inv (w\<lparr>fb_queue := upd (\<lambda>q. q\<lparr>rd := ring_next q (rd q)\<rparr>) b (fb_queue w)\<rparr>)"
      using assms(1) rest ring_get_inv [OF inv get]
      by (simp add: world_inv_def fb_inv_def unqueueNextFB_def upd_def)
  qed (rule assms(1))
qed

text \<open>A pass of the loop is defined, keeps the invariant, and shortens the queue unless it
  is the last one.\<close>

lemma check_reset_step_ok:
  assumes "world_inv w"
  shows "\<exists>r. check_reset_step b w = Some r \<and>
    (case r of Inl w' \<Rightarrow> world_inv w'
     | Inr w' \<Rightarrow> world_inv w' \<and> Suc (queueLengthFB b w') = queueLengthFB b w)"
proof (cases "getNextFB b w")
  case (Some r)
  note u = unqueueNextFB_inv [OF assms Some]
  have len: "Suc (queueLengthFB b (unqueueNextFB b w)) = queueLengthFB b w"
    using arg_cong [OF u(2), of length] by (simp add: queueLengthFB_def)
  have t: "unqueueNextFB b (tick w) = tick (unqueueNextFB b w)"
    by (simp add: unqueueNextFB_def tick_def)
  have "0 \<le> r_port r" "r_port r < int (length (fbstate (fb w b)))"
    using u(3) fb_length [OF assms, of b] by auto
  with assms Some u(1) len show ?thesis
    by (auto simp: check_reset_step_def Let_def t enqueueInfoFB_ok queueLengthFB_def)
qed (use assms in \<open>simp add: check_reset_step_def\<close>)

lemma check_reset_loop_ok:
  "world_inv w \<Longrightarrow> queueLengthFB b w < n \<Longrightarrow>
   \<exists>w'. check_reset_loop n b w = Some w' \<and> world_inv w'"
proof (induction n arbitrary: w)
  case (Suc n)
  obtain r where r: "check_reset_step b w = Some r"
    "case r of Inl w' \<Rightarrow> world_inv w'
     | Inr w' \<Rightarrow> world_inv w' \<and> Suc (queueLengthFB b w') = queueLengthFB b w"
    using check_reset_step_ok [OF Suc.prems(1)] by blast
  with Suc show ?case by (cases r) auto
qed simp

lemma check_reset_fb_ok:
  assumes "world_inv w"
  shows "\<exists>w'. check_reset_fb b w = Some w' \<and> world_inv w'"
proof -
  have "ring_inv QUEUELENGTH_FB (fb_queue w b)"
    using assms by (simp add: world_inv_def fb_inv_def)
  then have "queueLengthFB b w < QUEUELENGTH_FB"
    by (simp add: queueLengthFB_def ring_len_bound)
  with assms show ?thesis unfolding check_reset_fb_def by (rule check_reset_loop_ok)
qed

subsection \<open>Contacts and modules\<close>


text \<open>A bus whose contacts change without a delay.\<close>

definition fb_settled :: "nat \<Rightarrow> world \<Rightarrow> bool" where
  "fb_settled b w \<longleftrightarrow> world_inv w \<and> min_time w b = 0 \<and> (\<forall>s\<in>set (fbstate (fb w b)). f_change s = 0)"

definition fb_value :: "nat \<Rightarrow> int \<Rightarrow> world \<Rightarrow> int" where
  "fb_value b port w = f_state (fb_at b (port - 1) w)"

lemma fb_settled_at:
  "fb_settled b w \<Longrightarrow> 1 \<le> port \<Longrightarrow> port \<le> get_number_fb b w \<Longrightarrow> f_change (fb_at b (port - 1) w) = 0"
  using fb_length [of w b] by (auto simp: fb_settled_def)

lemma fb_settled_set:
  "fb_settled b w \<Longrightarrow> f_change s = 0 \<Longrightarrow> fb_settled b (set_fb_at b i s w)"
  using set_update_subset_insert [of "fbstate (fb w b)" "nat i" s]
  by (auto simp: fb_settled_def) (auto simp: set_fb_at_def)

lemma fb_settled_frame [simp]:
  "fb_settled b (tick w) = fb_settled b w" "fb_settled b w \<Longrightarrow> fb_settled b (broadcast m w)"
  "fb_value b p (tick w) = fb_value b p w" "fb_value b p (broadcast m w) = fb_value b p w"
  by (simp_all add: fb_settled_def fb_value_def)

lemma updateFB_immediate:
  assumes "fb_settled b w" and "1 \<le> port" and "port \<le> get_number_fb b w" and "val = 0 \<or> val = 1"
  shows "\<exists>w'. updateFB b port val w = Some (SRCP_OK, w') \<and> fb_settled b w' \<and>
    get_number_fb b w' = get_number_fb b w \<and> buses w' = buses w \<and>
    (\<forall>p\<ge>1. fb_value b p w' = (if p = port then val else fb_value b p w))"
proof (cases "f_state (fb_at b (port - 1) w) = val")
  case True
  then show ?thesis using assms by (auto simp: updateFB_def fb_value_def)
next
  case False
  define w1 where "w1 = set_fb_at b (port - 1) \<lparr>f_timestamp = now w, f_state = val, f_change = 0\<rparr> (tick w)"
  have set1: "fb_settled b w1" using assms(1) by (simp add: w1_def fb_settled_set)
  then have inv: "world_inv w1" by (simp add: fb_settled_def)
  have c: "c_short val = val" using assms(4) by auto
  have "updateFB b port val w = Some (SRCP_OK, broadcast (snd (infoFB b port w1)) w1)"
    using assms False fb_settled_at [OF assms(1-3)] enqueueInfoFB_ok [OF inv, of b port] c
    by (auto simp: updateFB_def Let_def w1_def fb_settled_def)
  moreover have "fb_value b p w1 = (if p = port then val else fb_value b p w)" if "1 \<le> p" for p
    using that assms fb_length [of w b]
    by (auto simp: fb_value_def w1_def fb_settled_def fb_at_set_other)
  ultimately show ?thesis using set1 by (auto simp: w1_def)
qed

lemma setFB_loop_sets:
  assumes "fb_settled b w" and "1 \<le> c" and "c + int (length js) - 1 \<le> get_number_fb b w"
  shows "\<exists>w'. setFB_loop b fl v c js SRCP_OK w = Some (SRCP_OK, w') \<and> fb_settled b w' \<and>
    get_number_fb b w' = get_number_fb b w \<and> buses w' = buses w \<and>
    (\<forall>p\<ge>1. fb_value b p w' =
      (if c \<le> p \<and> p < c + int (length js) then of_bool (bit v (fb_mask_bit fl (js ! nat (p - c))))
       else fb_value b p w))"
  using assms
proof (induction js arbitrary: c w)
  case (Cons i js)
  obtain w1 where w1: "updateFB b c (of_bool (bit v (fb_mask_bit fl i))) w = Some (SRCP_OK, w1)"
    "fb_settled b w1" "get_number_fb b w1 = get_number_fb b w" "buses w1 = buses w"
    "\<forall>p\<ge>1. fb_value b p w1 = (if p = c then of_bool (bit v (fb_mask_bit fl i)) else fb_value b p w)"
    using updateFB_immediate [of b w c "of_bool (bit v (fb_mask_bit fl i))"] Cons.prems by auto
  obtain w2 where w2: "setFB_loop b fl v (c + 1) js SRCP_OK w1 = Some (SRCP_OK, w2)"
    "fb_settled b w2" "get_number_fb b w2 = get_number_fb b w1" "buses w2 = buses w1"
    "\<forall>p\<ge>1. fb_value b p w2 =
      (if c + 1 \<le> p \<and> p < c + 1 + int (length js) then of_bool (bit v (fb_mask_bit fl (js ! nat (p - (c + 1)))))
       else fb_value b p w1)"
    using Cons.IH [OF w1(2), of "c + 1"] Cons.prems(2,3) w1(3) by auto
  have "fb_value b p w2 = (if c \<le> p \<and> p < c + int (length (i # js))
      then of_bool (bit v (fb_mask_bit fl ((i # js) ! nat (p - c)))) else fb_value b p w)" if p: "1 \<le> p" for p
  proof -
    have "nat (p - c) = Suc (nat (p - (c + 1)))" if "c + 1 \<le> p" using that by simp
    then show ?thesis using p w1(5) w2(5) by auto
  qed
  moreover have "(if bit v (fb_mask_bit fl i) then 1 else 0 :: int) = of_bool (bit v (fb_mask_bit fl i))"
    by simp
  ultimately show ?case using w1(1,3,4) w2(1-4) by (simp only: setFB_loop.simps) simp
qed simp

text \<open>C26: On a bus without delay, reporting the value of a feedback module sets each of its 4, 8
  or 16 contacts to its bit in the configured bit order and leaves every other contact alone.\<close>

theorem setFBmodul_sets_ports:
  assumes "fb_settled b w" and "ports = int (fb_ports (flags (buses w b)))" and "1 \<le> m"
    and "m * ports \<le> get_number_fb b w" and "m * ports < 2147483647"
  shows "\<exists>w'. setFBmodul b m v w = Some (SRCP_OK, w') \<and> fb_settled b w' \<and>
    (\<forall>p\<ge>1. fb_value b p w' =
      (if (m - 1) * ports < p \<and> p \<le> m * ports
       then of_bool (bit v (fb_mask_bit (flags (buses w b)) (nat (p - (m - 1) * ports - 1))))
       else fb_value b p w))"
proof -
  define c where "c = (m - 1) * ports + 1"
  have ports: "4 \<le> ports" "ports \<le> 16" by (simp_all add: assms(2) fb_ports_def)
  have m: "m \<le> m * ports" "0 \<le> (m - 1) * ports" using assms(3) ports by simp_all
  have cm: "c + ports - 1 = m * ports" by (simp add: c_def left_diff_distrib)
  have r: "in_int (m - 1)" "in_int (c - 1)" "in_int (c + int (fb_ports (flags (buses w b))))"
  proof -
    have b: "in_int x" if "0 \<le> x" "x \<le> 2147483647" for x using that by (simp add: in_int_def)
    show "in_int (m - 1)" "in_int (c - 1)" "in_int (c + int (fb_ports (flags (buses w b))))"
      using m cm assms(3,5) ports unfolding assms(2) [symmetric] c_def
      by (intro b; linarith)+
  qed
  have c1: "1 \<le> c" using m(2) by (simp add: c_def)
  obtain w' where w': "setFB_loop b (flags (buses w b)) v c [0..<fb_ports (flags (buses w b))] SRCP_OK w
      = Some (SRCP_OK, w')" "fb_settled b w'"
    "\<forall>p\<ge>1. fb_value b p w' =
      (if c \<le> p \<and> p < c + int (length [0..<fb_ports (flags (buses w b))])
       then of_bool (bit v (fb_mask_bit (flags (buses w b)) ([0..<fb_ports (flags (buses w b))] ! nat (p - c))))
       else fb_value b p w)"
    using setFB_loop_sets [OF assms(1) c1, where fl = "flags (buses w b)" and v = v
        and js = "[0..<fb_ports (flags (buses w b))]"] cm assms(2,4)
    by auto
  have "fb_value b p w' = (if (m - 1) * ports < p \<and> p \<le> m * ports
       then of_bool (bit v (fb_mask_bit (flags (buses w b)) (nat (p - (m - 1) * ports - 1))))
       else fb_value b p w)" if "1 \<le> p" for p
  proof -
    have "(c \<le> p \<and> p < c + int (length [0..<fb_ports (flags (buses w b))])) \<longleftrightarrow>
        ((m - 1) * ports < p \<and> p \<le> m * ports)"
      using cm assms(2) by (auto simp: c_def)
    moreover have "nat (p - c) = nat (p - (m - 1) * ports - 1)" by (simp add: c_def)
    moreover have "nat (p - c) < fb_ports (flags (buses w b))"
      if "c \<le> p \<and> p < c + int (length [0..<fb_ports (flags (buses w b))])" using that by auto
    ultimately show ?thesis using w'(3) that by (auto simp: nth_upt)
  qed
  then show ?thesis
    using w'(1,2) r by (auto simp: setFBmodul_def Let_def assms(2) c_def [unfolded assms(2)])
qed


text \<open>Release.\<close>

lemma queue_reset_fb_room:
  assumes "\<not> queueIsFullFB b w"
  shows "queue_reset_fb b p t w = Some (w\<lparr>fb_queue := upd (ring_push \<lparr>r_port = p, r_timestamp = t\<rparr>) b (fb_queue w)\<rparr>)"
  using assms by (simp add: queue_reset_fb_def)

lemma getNextFB_hd:
  assumes "world_inv w"
  shows "getNextFB b w = (case ring_list (fb_queue w b) of [] \<Rightarrow> None | r # _ \<Rightarrow> Some r)"
proof (cases "getNextFB b w")
  case None
  have inv: "ring_inv QUEUELENGTH_FB (fb_queue w b)" using assms by (simp add: world_inv_def fb_inv_def)
  have "ring_isempty (fb_queue w b)"
    using None by (simp add: getNextFB_def ring_peek_def ring_isempty_def split: if_splits)
  then show ?thesis using None ring_list_empty_iff [OF inv] by simp
next
  case (Some r)
  then show ?thesis using unqueueNextFB_inv(2) [OF assms Some] by simp
qed



text \<open>C25: Contact debouncing does not do what its comment says: when an occupied contact is
  reported free and then occupied again before min_time has passed, the second report changes
  nothing, and the pending release still sets the contact to 0.\<close>

theorem release_is_not_cancelled:
  assumes "world_inv w" and "1 \<le> port" and "port \<le> get_number_fb b w"
    and "fb_at b (port - 1) w = \<lparr>f_timestamp = ts, f_state = 1, f_change = 0\<rparr>"
    and "min_time w b \<noteq> 0" and "ring_list (fb_queue w b) = []"
    and "clk w = (\<lambda>n. if n = 0 then t0 else t1)"
    and "min_time w b \<le> (tv_usec t1 - tv_usec t0) + (tv_sec t1 - tv_sec t0) * 1000000"
  shows "\<exists>w1 w2. updateFB b port 0 w = Some (SRCP_OK, w1) \<and> updateFB b port 1 w1 = Some (SRCP_OK, w1) \<and>
    sess_heap w1 = sess_heap w \<and> check_reset_fb b w1 = Some w2 \<and>
    fb_at b (port - 1) w2 = \<lparr>f_timestamp = t0, f_state = 0, f_change = 0\<rparr>"
proof -
  have inv0: "ring_inv QUEUELENGTH_FB (fb_queue w b)" using assms(1) by (simp add: world_inv_def fb_inv_def)
  have len: "nat (port - 1) < length (fbstate (fb w b))" using fb_length [OF assms(1), of b] assms(2,3) by simp
  have nf: "\<not> ring_isfull (fb_queue w b)"
    using ring_isfull_len [OF inv0] length_ring_list [of "fb_queue w b"] assms(6) by (simp add: QUEUELENGTH_FB_def)
  define q where "q = ring_push \<lparr>r_port = port - 1, r_timestamp = t0\<rparr> (fb_queue w b)"
  define w1 where "w1 = (set_fb_at b (port - 1) \<lparr>f_timestamp = ts, f_state = 1, f_change = -1\<rparr> (tick w))
      \<lparr>fb_queue := upd (ring_push \<lparr>r_port = port - 1, r_timestamp = t0\<rparr>) b (fb_queue w)\<rparr>"
  have u0: "updateFB b port 0 w = Some (SRCP_OK, w1)"
    using assms nf by (simp add: updateFB_def Let_def queue_reset_fb_def queueIsFullFB_def w1_def now_def)
  have inv1: "world_inv w1" by (rule updateFB_inv [OF assms(1) u0])
  have at1: "fb_at b (port - 1) w1 = \<lparr>f_timestamp = ts, f_state = 1, f_change = -1\<rparr>"
    using len by (simp add: w1_def set_fb_at_def)
  have num1: "get_number_fb b w1 = get_number_fb b w" by (simp add: w1_def get_number_fb_def set_fb_at_def)
  have u1: "updateFB b port 1 w1 = Some (SRCP_OK, w1)"
    using at1 assms(2,3) num1 by (auto simp: updateFB_def Let_def)
  have q1: "ring_list (fb_queue w1 b) = [\<lparr>r_port = port - 1, r_timestamp = t0\<rparr>]"
    using ring_list_push [OF inv0 nf] assms(6) by (simp add: w1_def)
  have hd1: "getNextFB b w1 = Some \<lparr>r_port = port - 1, r_timestamp = t0\<rparr>"
    using getNextFB_hd [OF inv1] q1 by simp
  note u = unqueueNextFB_inv [OF inv1 hd1]
  define w2 where "w2 = set_fb_at b (port - 1) \<lparr>f_timestamp = t0, f_state = 0, f_change = 0\<rparr>
      (unqueueNextFB b (tick w1))"
  define w3 where "w3 = broadcast (snd (infoFB b port w2)) w2"
  have tk: "unqueueNextFB b (tick w1) = tick (unqueueNextFB b w1)"
    by (simp add: unqueueNextFB_def tick_def)
  have inv2: "world_inv w2" using u(1) by (simp add: w2_def tk)
  have n1: "now w1 = t1" by (simp add: w1_def now_def tick_def set_fb_at_def assms(7))
  have m1: "min_time w1 b = min_time w b" "length (fbstate (fb w1 b)) = length (fbstate (fb w b))"
    by (simp_all add: w1_def set_fb_at_def)
  have s1: "check_reset_step b w1 = Some (Inr w3)"
    using assms(2,8) len at1 n1 m1 enqueueInfoFB_ok [OF inv2]
    by (simp add: check_reset_step_def hd1 Let_def w2_def w3_def)
  have inv3: "world_inv w3" using inv2 by (simp add: w3_def)
  have "ring_list (fb_queue w3 b) = []" using u(2) q1 by (simp add: w3_def w2_def unqueueNextFB_def)
  then have s3: "check_reset_step b w3 = Some (Inl w3)"
    using getNextFB_hd [OF inv3] by (simp add: check_reset_step_def)
  have "check_reset_fb b w1 = Some w3"
    using s1 s3 by (simp add: check_reset_fb_def QUEUELENGTH_FB_def numeral_eq_Suc)
  moreover have "fb_at b (port - 1) w3 = \<lparr>f_timestamp = t0, f_state = 0, f_change = 0\<rparr>"
    using len m1 by (simp add: w3_def w2_def set_fb_at_def unqueueNextFB_def)
  moreover have "sess_heap w1 = sess_heap w" by (simp add: w1_def)
  ultimately show ?thesis using u0 u1 by blast
qed


definition reset_due :: "nat \<Rightarrow> timeval \<Rightarrow> world \<Rightarrow> bool" where
  "reset_due b t w = (case getNextFB b w of None \<Rightarrow> False
     | Some r \<Rightarrow> f_change (fb_at b (r_port r) w) = 0 \<or>
         min_time w b \<le> (tv_usec t - tv_usec (r_timestamp r)) + (tv_sec t - tv_sec (r_timestamp r)) * 1000000)"

lemma reset_due_tick [simp]: "reset_due b t (tick w) = reset_due b t w"
  by (simp add: reset_due_def getNextFB_def split: option.split)

lemma check_reset_step_due:
  assumes "world_inv w" and "clk w = (\<lambda>_. t)" and "check_reset_step b w = Some r"
  shows "case r of Inl w' \<Rightarrow> \<not> reset_due b t w' | Inr w' \<Rightarrow> clk w' = (\<lambda>_. t)"
proof -
  have n: "now w = t" using assms(2) by (simp add: now_def)
  have c: "clk (tick w) = (\<lambda>_. t)" using assms(2) by (simp add: tick_def)
  have f: "clk (unqueueNextFB b v) = clk v" "clk (set_fb_at b i s v) = clk v" for v i s
    by (simp_all add: unqueueNextFB_def set_fb_at_def)
  show ?thesis
  proof (cases "getNextFB b w")
    case None
    with assms(3) show ?thesis by (auto simp: check_reset_step_def reset_due_def)
  next
    case (Some q)
    note u = unqueueNextFB_inv [OF assms(1) Some]
    have t: "unqueueNextFB b (tick w) = tick (unqueueNextFB b w)"
      by (simp add: unqueueNextFB_def tick_def)
    have inv: "world_inv (set_fb_at b i s (tick (unqueueNextFB b w)))" for i s using u(1) by simp
    have "getNextFB b (tick w) = getNextFB b w" by (simp add: getNextFB_def)
    with Some assms(2,3) n c f show ?thesis
      by (auto simp: check_reset_step_def Let_def t enqueueInfoFB_ok [OF inv] reset_due_def split: if_splits)
        (simp_all add: tick_def)
  qed
qed

lemma check_reset_loop_due:
  "world_inv w \<Longrightarrow> clk w = (\<lambda>_. t) \<Longrightarrow> check_reset_loop n b w = Some w' \<Longrightarrow> \<not> reset_due b t w'"
proof (induction n arbitrary: w)
  case (Suc n)
  obtain r where r: "check_reset_step b w = Some r" using Suc.prems(3) by (auto split: option.splits)
  from check_reset_step_due [OF Suc.prems(1,2) r] check_reset_step_ok [OF Suc.prems(1), of b] Suc r
  show ?case by (cases r) auto
qed simp


lemma world_inv_clk: "world_inv (w\<lparr>clk := c\<rparr>) = world_inv w"
  by (simp add: world_inv_def sess_inv_def gl_inv_def ga_inv_def fb_inv_def sm_inv_def)

lemma fb_samples:
  "fb_settled 1 sample_world" "get_number_fb 1 sample_world = 16" "fb_ports (flags (buses sample_world 1)) = 8"
  "fb_value 1 3 sample_world = 0"
  using sample_world_inv
  by (simp_all add: fb_settled_def get_number_fb_def fb_ports_def fb_value_def)
    (simp_all add: sample_world_def zero_world_def sample_bus_def zero_bus_def)

theorem setFBmodul_sets_ports_witness:
  "\<exists>w'. setFBmodul 1 2 1 sample_world = Some (SRCP_OK, w') \<and> fb_value 1 16 w' = 1 \<and> fb_value 1 3 w' = 0"
  using setFBmodul_sets_ports [OF fb_samples(1), of 8 2 1] fb_samples(2,3,4)
  by (auto simp: fb_mask_bit_def sample_world_def sample_bus_def zero_bus_def)


definition contact_world :: world where
  "contact_world = set_fb_at 1 2 \<lparr>f_timestamp = tv_zero, f_state = 1, f_change = 0\<rparr>
     (sample_world\<lparr>min_time := (\<lambda>_. 5000),
        clk := (\<lambda>n. if n = 0 then \<lparr>tv_sec = 1, tv_usec = 0\<rparr> else \<lparr>tv_sec = 1, tv_usec = 6000\<rparr>)\<rparr>)"

theorem release_is_not_cancelled_witness:
  "\<exists>w1 w2. updateFB 1 3 0 contact_world = Some (SRCP_OK, w1) \<and> updateFB 1 3 1 w1 = Some (SRCP_OK, w1) \<and>
    check_reset_fb 1 w1 = Some w2 \<and> f_state (fb_at 1 2 w2) = 0"
proof -
  have inv: "world_inv contact_world" using sample_world_inv by (simp add: contact_world_def world_inv_clk)
  have n: "get_number_fb 1 contact_world = 16" "fb_queue contact_world = fb_queue sample_world"
    "min_time contact_world 1 = 5000"
    using fb_samples(2) by (simp_all add: contact_world_def get_number_fb_def set_fb_at_def)
  have q: "ring_list (fb_queue contact_world 1) = []"
    unfolding n(2) by (simp add: sample_world_def zero_world_def ring_new_list)
  have a: "fb_at 1 (3 - 1) contact_world = \<lparr>f_timestamp = tv_zero, f_state = 1, f_change = 0\<rparr>"
    by (simp add: contact_world_def set_fb_at_def sample_world_def)
  have c: "clk contact_world = (\<lambda>n. if n = 0 then \<lparr>tv_sec = 1, tv_usec = 0\<rparr> else \<lparr>tv_sec = 1, tv_usec = 6000\<rparr>)"
    by (simp add: contact_world_def set_fb_at_def)
  show ?thesis
    using release_is_not_cancelled [OF inv _ _ a _ q c] n by auto
qed

end
