(* ===== verification/Srcp_SM.thy ===== *)
theory Srcp_SM
  imports Srcp_Inv
begin

text \<open>
  Service mode (decoder programming), \<open>srcp-sm.c\<close>. A command waits in a queue of one
  entry until the bus thread takes it; \<open>infoSM\<close> waits for the result with a condition
  variable. What the rest of the server does during that wait is the argument \<open>drv\<close>: it
  maps the state at the start of the wait to the result the bus thread reports
  (\<open>None\<close>: \<open>ETIMEDOUT\<close> after 90 seconds) and the state afterwards.
\<close>

type_synonym sm_wait = "nat \<Rightarrow> world \<Rightarrow> (int option \<times> world) option"

definition sm_error_text :: "int \<Rightarrow> string option" where
  "sm_error_text rc =
     (if rc = 0xF2 then Some ''Cannot terminate task ''
      else if rc = 0xF3 then Some ''No task to terminate''
      else if rc = 0xF4 then Some ''Task terminated''
      else if rc = 0xF6 then Some (''XPT_DCCQD: Not Ok (direct bit read mode '' @ ''is (probably) not supported)'')
      else if rc = 0xF7 then Some (''XPT_DCCQD: Ok (direct bit read mode is '' @ ''(probably) supported)'')
      else if rc = 0xF8 then Some ''Error during Selectrix read''
      else if rc = 0xF9 then Some (''No acknowledge to paged operation '' @ ''(paged r/w not supported?)'')
      else if rc = 0xFA then Some ''Error during DCC direct bit mode operation''
      else if rc = 0xFB then Some ''Generic Error''
      else if rc = 0xFC then Some ''No decoder detected''
      else if rc = 0xFD then Some ''Short! (on the PT)''
      else if rc = 0xFE then Some (''No acknowledge from decoder (but a write '' @ ''maybe was successful)'')
      else if rc = 0xFF then Some ''Timeout''
      else None)"

fun sm_place :: "sm_type \<Rightarrow> int \<Rightarrow> int \<Rightarrow> int \<Rightarrow> string" where
  "sm_place REGISTER typeaddr bt val = ''REG '' @ fmt_d typeaddr @ '' '' @ fmt_d val"
| "sm_place CV typeaddr bt val = ''CV '' @ fmt_d typeaddr @ '' '' @ fmt_d val"
| "sm_place CV_BIT typeaddr bt val = ''CVBIT '' @ fmt_d typeaddr @ '' '' @ fmt_d bt @ '' '' @ fmt_d val"
| "sm_place PAGE typeaddr bt val = ''PAGE '' @ fmt_d typeaddr @ '' '' @ fmt_d val"

text \<open>The second part of the line, the buffer \<open>tmp\<close>; \<open>None\<close> where no branch writes it.\<close>

definition sm_info_tail :: "sm_command \<Rightarrow> sm_type \<Rightarrow> int \<Rightarrow> int \<Rightarrow> int \<Rightarrow> int \<Rightarrow> string option" where
  "sm_info_tail command typ typeaddr bt val rc =
     (if rc = 0 then
        if command = SM_INIT then (if typeaddr = 0 then Some ''NMRA'' else None)
        else if command = SM_TERM then Some []
        else Some (sm_place typ typeaddr bt val)
      else sm_error_text rc)"

definition sm_info_head :: "nat \<Rightarrow> int \<Rightarrow> sm_command \<Rightarrow> int \<Rightarrow> timeval \<Rightarrow> string" where
  "sm_info_head b addr command rc t =
     (if rc = 0 then
        if command = SM_INIT then fmt_time t @ '' 101 INFO '' @ fmt_d (int b) @ '' SM''
        else if command = SM_TERM then fmt_time t @ '' 102 INFO '' @ fmt_d (int b) @ '' SM''
        else fmt_time t @ '' 100 INFO '' @ fmt_d (int b) @ '' SM '' @ fmt_d addr
      else fmt_time t @ '' 600 ERROR '' @ fmt_d (int b) @ '' SM '' @ fmt_d addr @ '' '' @ fmt_d rc)"

definition enqueueInfoSM :: "nat \<Rightarrow> int \<Rightarrow> sm_command \<Rightarrow> sm_type \<Rightarrow> int \<Rightarrow> int \<Rightarrow> int \<Rightarrow> int
    \<Rightarrow> timeval \<Rightarrow> world \<Rightarrow> (int \<times> world) option" where
  "enqueueInfoSM b addr command typ typeaddr bt val rc t w = do {
     tmp \<leftarrow> sm_info_tail command typ typeaddr bt val rc;
     w1 \<leftarrow> enqueueInfoMessage (sm_info_head b addr command rc t @ '' '' @ tmp @ ''\<newline>'') w;
     Some (SRCP_OK, w1) }"

definition sm_queue_isfull :: "nat \<Rightarrow> world \<Rightarrow> bool" where
  "sm_queue_isfull b w = ring_isfull (sm_queue w b)"

definition queue_SM_isempty :: "nat \<Rightarrow> world \<Rightarrow> bool" where
  "queue_SM_isempty b w = ring_isempty (sm_queue w b)"

definition enqueueSM :: "nat \<Rightarrow> sm_command \<Rightarrow> sm_type \<Rightarrow> int \<Rightarrow> int \<Rightarrow> int \<Rightarrow> int \<Rightarrow> world
    \<Rightarrow> int \<times> world" where
  "enqueueSM b command typ addr typeaddr bt val w =
     (if sm_queue_isfull b w then (SRCP_TEMPORARILYPROHIBITED, w)
      else (SRCP_OK, (tick w)\<lparr>sm_queue := upd (ring_put (\<lambda>_. \<lparr>s_protocol = ''NMRA'', s_type = typ,
               s_command = command, s_protocolversion = 1, s_addr = addr, s_typeaddr = typeaddr,
               s_bit = bt, s_value = val, s_tv = now w\<rparr>)) b (sm_queue w)\<rparr>))"

definition getNextSM :: "nat \<Rightarrow> world \<Rightarrow> sm_t option" where
  "getNextSM b w = ring_peek (sm_queue w b)"

definition dequeueNextSM :: "nat \<Rightarrow> world \<Rightarrow> (sm_t \<times> world) option" where
  "dequeueNextSM b w =
     (case ring_get (sm_queue w b) of None \<Rightarrow> None
      | Some (s, q) \<Rightarrow> Some (s, w\<lparr>sm_queue := upd (\<lambda>_. q) b (sm_queue w)\<rparr>))"

text \<open>\<open>session_endwait\<close> (\<open>srcp-session.c\<close>): the bus thread leaves the result for the waiter.\<close>

definition session_endwait :: "nat \<Rightarrow> int \<Rightarrow> world \<Rightarrow> world" where
  "session_endwait b v w = w\<lparr>cb_data := (cb_data w)(b := v)\<rparr>"

text \<open>\<open>1 << bit\<close> is defined for \<open>bit\<close> between 0 and 30.\<close>

definition setSM :: "nat \<Rightarrow> sm_type \<Rightarrow> int \<Rightarrow> int \<Rightarrow> int \<Rightarrow> int \<Rightarrow> int \<Rightarrow> world
    \<Rightarrow> (int \<times> world) option" where
  "setSM b typ addr typeaddr bt val rc w =
     (if addr = -1 then
        if typ = CV_BIT \<and> (bt < 0 \<or> 30 < bt) then None
        else do {
          let v = (if typ = CV_BIT then (if bit val (nat bt) then 1 else 0) else val);
          (_, w1) \<leftarrow> enqueueInfoSM b addr SM_SET typ typeaddr bt v rc (now w) (tick w);
          Some (SRCP_OK, w1) }
      else Some (SRCP_NODATA, w))"

definition infoSM_reply :: "nat \<Rightarrow> sm_command \<Rightarrow> sm_type \<Rightarrow> int \<Rightarrow> int \<Rightarrow> int \<Rightarrow> int \<Rightarrow> int
    \<Rightarrow> int option \<Rightarrow> timeval \<Rightarrow> int \<times> string" where
  "infoSM_reply b command typ addr typeaddr bt val status res t =
     (case res of
        None \<Rightarrow> (status, fmt_time t @ '' 417 ERROR timeout'' @ ''\<newline>'')
      | Some r \<Rightarrow>
          if r = -1 \<or> (command = SM_VERIFY \<and> val \<noteq> r)
          then (SRCP_WRONGVALUE, fmt_time t @ '' 412 ERROR wrong value'' @ ''\<newline>'')
          else (status, fmt_time t @ '' 100 INFO '' @ fmt_d (int b) @ '' SM '' @ fmt_d addr @ '' ''
                  @ sm_place typ typeaddr bt r @ ''\<newline>''))"

definition infoSM :: "sm_wait \<Rightarrow> nat \<Rightarrow> sm_command \<Rightarrow> sm_type \<Rightarrow> int \<Rightarrow> int \<Rightarrow> int \<Rightarrow> int \<Rightarrow> world
    \<Rightarrow> (int \<times> string \<times> world) option" where
  "infoSM drv b command typ addr typeaddr bt val w = do {
     w1 \<leftarrow> (if command = SM_INIT \<or> command = SM_TERM
            then map_option snd (enqueueInfoSM b addr command typ typeaddr 0 0 0 (now w) (tick w))
            else Some w);
     let (status, w2) = enqueueSM b command typ addr typeaddr bt val w1;
     (res, w3) \<leftarrow> drv b w2;
     let (rc, m) = infoSM_reply b command typ addr typeaddr bt val status res (now w3);
     Some (rc, m, tick w3) }"

subsection \<open>Every operation keeps the invariant\<close>

lemma enqueueInfoSM_inv [inv_intros]:
  "world_inv w \<Longrightarrow> enqueueInfoSM b a c ty ta bt v rc t w = Some (r, w') \<Longrightarrow> world_inv w'"
  by (auto simp: enqueueInfoSM_def bind_eq_Some_conv info_ok)

lemma enqueueSM_inv [inv_intros]:
  "world_inv w \<Longrightarrow> enqueueSM b c ty a ta bt v w = (r, w') \<Longrightarrow> world_inv w'"
  by (auto simp: enqueueSM_def split: if_splits)

lemma dequeueNextSM_inv [inv_intros]:
  assumes "world_inv w" and "dequeueNextSM b w = Some (g, w')"
  shows "world_inv w'"
proof -
  obtain q where q: "ring_get (sm_queue w b) = Some (g, q)"
    and w': "w' = w\<lparr>sm_queue := upd (\<lambda>_. q) b (sm_queue w)\<rparr>"
    using assms(2) by (auto simp: dequeueNextSM_def split: option.splits)
  have "sm_inv w'"
    using assms(1) q by (auto simp: world_inv_def sm_inv_def upd_def w' intro: ring_get_inv)
  with assms(1) show ?thesis unfolding w' by (rule world_inv_sm)
qed

lemma setSM_inv [inv_intros]:
  "world_inv w \<Longrightarrow> setSM b ty a ta bt v rc w = Some (r, w') \<Longrightarrow> world_inv w'"
  by (auto simp: setSM_def bind_eq_Some_conv Let_def dest: enqueueInfoSM_inv [rotated]
      split: if_splits)

definition sm_wait_ok :: "sm_wait \<Rightarrow> bool" where
  "sm_wait_ok drv \<longleftrightarrow> (\<forall>b w r w'. world_inv w \<longrightarrow> drv b w = Some (r, w') \<longrightarrow> world_inv w')"

lemma infoSM_inv [inv_intros]:
  assumes "sm_wait_ok drv" and "world_inv w"
    and "infoSM drv b c ty a ta bt v w = Some (r, m, w')"
  shows "world_inv w'"
proof -
  obtain w1 where w1: "(if c = SM_INIT \<or> c = SM_TERM
            then map_option snd (enqueueInfoSM b a c ty ta 0 0 0 (now w) (tick w))
            else Some w) = Some w1"
    and rest: "(case enqueueSM b c ty a ta bt v w1 of (status, w2) \<Rightarrow> do {
       (res, w3) \<leftarrow> drv b w2;
       let (rc, m) = infoSM_reply b c ty a ta bt v status res (now w3);
       Some (rc, m, tick w3) }) = Some (r, m, w')"
    using assms(3) unfolding infoSM_def bind_eq_Some_conv Let_def by blast
  obtain status w2 where w2: "enqueueSM b c ty a ta bt v w1 = (status, w2)" by fastforce
  obtain res w3 where w3: "drv b w2 = Some (res, w3)" and w': "w' = tick w3"
    using rest by (auto simp: w2 bind_eq_Some_conv split_beta)
  have "world_inv w1" using assms(2) w1 by (auto split: if_splits dest: enqueueInfoSM_inv [rotated])
  then have "world_inv w2" using w2 by (rule enqueueSM_inv)
  then have "world_inv w3" using assms(1) w3 by (simp add: sm_wait_ok_def)
  then show ?thesis by (simp add: w')
qed

end
