(* ===== verification/Srcp_Time.thy ===== *)
theory Srcp_Time
  imports Srcp_Inv
begin

text \<open>
  Model time, \<open>srcp-time.c\<close>: the current model time, the ratio that makes it run, and one
  turn of the clock thread. The thread runs one turn per model second; how long that takes
  in real time is \<open>clock_sleeptime\<close>.
\<close>

definition startup_TIME :: "world \<Rightarrow> world" where
  "startup_TIME w = (tick w)\<lparr>distort := (distort w)\<lparr>d_inittime := now w\<rparr>\<rparr>"

definition getTIME :: "world \<Rightarrow> vtime" where
  "getTIME w = vtime_now w"

definition set_time :: "vtime \<Rightarrow> world \<Rightarrow> world" where
  "set_time vt w = w\<lparr>vtime_now := vt\<rparr>"

definition time_is_available :: "world \<Rightarrow> bool" where
  "time_is_available w \<longleftrightarrow> 0 < ratio_x (distort w) \<and> 0 < ratio_y (distort w)"

definition infoTIME :: "world \<Rightarrow> int \<times> string \<times> world" where
  "infoTIME w =
     (if \<not> time_is_available w then (SRCP_NODATA, [], w)
      else let vt = getTIME w in
        (SRCP_INFO, fmt_time (now w) @ '' 100 INFO 0 TIME '' @ fmt_d (day vt) @ '' '' @ fmt_d (hour vt)
           @ '' '' @ fmt_d (minute vt) @ '' '' @ fmt_d (sec vt) @ ''\<newline>'', tick w))"

definition describeTIME :: "world \<Rightarrow> int \<times> string" where
  "describeTIME w =
     (SRCP_INFO, fmt_time (d_inittime (distort w)) @ '' 101 INFO 0 TIME ''
        @ fmt_d (ratio_x (distort w)) @ '' '' @ fmt_d (ratio_y (distort w)) @ ''\<newline>'')"

text \<open>The text of \<open>infoTIME\<close> is sent whatever it returned: with a stopped clock it is the
  empty string.\<close>

definition setTIME :: "int \<Rightarrow> int \<Rightarrow> int \<Rightarrow> int \<Rightarrow> world \<Rightarrow> (int \<times> world) option" where
  "setTIME d h m s w =
     (if d < 0 \<or> h < 0 \<or> 23 < h \<or> m < 0 \<or> 59 < m \<or> s < 0 \<or> 59 < s then Some (SRCP_WRONGVALUE, w)
      else do {
        let (_, msg, w1) = infoTIME (set_time \<lparr>day = d, hour = h, minute = m, sec = s\<rparr> w);
        w2 \<leftarrow> enqueueInfoMessage msg w1;
        Some (SRCP_OK, w2) })"

definition initTIME :: "int \<Rightarrow> int \<Rightarrow> world \<Rightarrow> (int \<times> world) option" where
  "initTIME fx fy w =
     (if fx < 0 \<or> fy \<le> 0 then Some (SRCP_WRONGVALUE, w)
      else do {
        let w1 = (tick w)\<lparr>distort := \<lparr>ratio_x = fx, ratio_y = fy, d_inittime = now w\<rparr>\<rparr>;
        w2 \<leftarrow> enqueueInfoMessage (snd (describeTIME w1)) w1;
        Some (SRCP_OK, w2) })"

definition termTIME :: "world \<Rightarrow> (int \<times> world) option" where
  "termTIME w = do {
     let w1 = w\<lparr>distort := (distort w)\<lparr>ratio_x := 0, ratio_y := 0\<rparr>\<rparr>;
     w2 \<leftarrow> enqueueInfoMessage (fmt_time (now w1) @ '' 102 INFO 0 TIME'' @ ''\<newline>'') (tick w1);
     Some (SRCP_OK, w2) }"

subsection \<open>The clock thread\<close>

text \<open>Microseconds of real time per model second. \<open>1000000 * ratio_y\<close> is an \<open>int\<close>
  product, which overflows for \<open>ratio_y\<close> above 2147.\<close>

definition clock_sleeptime :: "time_distort \<Rightarrow> int option" where
  "clock_sleeptime td =
     (if in_int (1000000 * ratio_y td) then Some (c_div (1000000 * ratio_y td) (ratio_x td)) else None)"

text \<open>The three carries; the flag says that a full minute was reached. An increment has no
  defined result when it overflows.\<close>

definition c_inc :: "int \<Rightarrow> int option" where
  "c_inc x = (if in_int (x + 1) then Some (x + 1) else None)"

definition clock_next :: "vtime \<Rightarrow> (vtime \<times> bool) option" where
  "clock_next vt = do {
     s \<leftarrow> c_inc (sec vt);
     v2 \<leftarrow> (if 60 \<le> s then map_option (\<lambda>m. vt\<lparr>sec := 0, minute := m\<rparr>) (c_inc (minute vt))
            else Some (vt\<lparr>sec := s\<rparr>));
     v3 \<leftarrow> (if 60 \<le> minute v2 then map_option (\<lambda>h. v2\<lparr>hour := h, minute := 0\<rparr>) (c_inc (hour v2))
            else Some v2);
     v4 \<leftarrow> (if 24 \<le> hour v3 then map_option (\<lambda>d. v3\<lparr>day := d, hour := 0\<rparr>) (c_inc (day v3))
            else Some v3);
     Some (v4, 60 \<le> s) }"

definition clock_turn :: "world \<Rightarrow> world option" where
  "clock_turn w =
     (if ratio_x (distort w) = 0 \<or> ratio_y (distort w) = 0 then Some w
      else do {
        _ \<leftarrow> clock_sleeptime (distort w);
        (vt, full) \<leftarrow> clock_next (getTIME w);
        let w1 = set_time vt w;
        if full then (let (_, msg, w2) = infoTIME w1 in enqueueInfoMessage msg w2)
        else Some w1 })"

subsection \<open>Facts\<close>

definition vtime_ok :: "vtime \<Rightarrow> bool" where
  "vtime_ok vt \<longleftrightarrow> 0 \<le> day vt \<and> 0 \<le> hour vt \<and> hour vt \<le> 23 \<and> 0 \<le> minute vt \<and> minute vt \<le> 59
     \<and> 0 \<le> sec vt \<and> sec vt \<le> 59"

definition model_seconds :: "vtime \<Rightarrow> int" where
  "model_seconds vt = ((day vt * 24 + hour vt) * 60 + minute vt) * 60 + sec vt"

lemma clock_next_valid:
  assumes "vtime_ok vt" and "day vt < 2147483647"
  shows "\<exists>vt' full. clock_next vt = Some (vt', full) \<and> vtime_ok vt' \<and>
     model_seconds vt' = model_seconds vt + 1 \<and> (full \<longleftrightarrow> sec vt' = 0)"
  using assms by (auto simp: clock_next_def c_inc_def vtime_ok_def model_seconds_def in_int_def)

lemma infoTIME_inv [inv_intros]: "world_inv w \<Longrightarrow> infoTIME w = (rc, m, w') \<Longrightarrow> world_inv w'"
  by (auto simp: infoTIME_def Let_def split: if_splits)

lemma set_time_inv [simp]: "world_inv (set_time vt w) = world_inv w"
  by (simp add: set_time_def)

lemma infoTIME_snd_inv [simp]: "world_inv w \<Longrightarrow> world_inv (snd (snd (infoTIME w)))"
  by (simp add: infoTIME_def Let_def)

lemma setTIME_inv [inv_intros]:
  "world_inv w \<Longrightarrow> setTIME d h m s w = Some (rc, w') \<Longrightarrow> world_inv w'"
  by (auto simp: setTIME_def split_beta bind_eq_Some_conv info_ok Let_def split: if_splits)

lemma initTIME_inv [inv_intros]:
  "world_inv w \<Longrightarrow> initTIME fx fy w = Some (rc, w') \<Longrightarrow> world_inv w'"
  by (auto simp: initTIME_def bind_eq_Some_conv info_ok Let_def split: if_splits)

lemma termTIME_inv [inv_intros]: "world_inv w \<Longrightarrow> termTIME w = Some (rc, w') \<Longrightarrow> world_inv w'"
  by (auto simp: termTIME_def bind_eq_Some_conv info_ok Let_def)

lemma clock_turn_inv [inv_intros]: "world_inv w \<Longrightarrow> clock_turn w = Some w' \<Longrightarrow> world_inv w'"
  by (auto simp: clock_turn_def bind_eq_Some_conv info_ok Let_def split_beta split: if_splits)

text \<open>What running the clock keeps: the time is a valid time of day, and the ratio was
  accepted by \<open>initTIME\<close>.\<close>

lemma clock_turn_defined:
  assumes "world_inv w" and "vtime_ok (vtime_now w)" and "day (vtime_now w) < 2147483647"
    and "0 < ratio_y (distort w)" and "ratio_y (distort w) \<le> 2147"
  shows "\<exists>w'. clock_turn w = Some w' \<and> vtime_ok (vtime_now w')"
proof -
  obtain vt full where "clock_next (vtime_now w) = Some (vt, full)" "vtime_ok vt"
    using clock_next_valid [OF assms(2,3)] by blast
  with assms show ?thesis
    by (auto simp: clock_turn_def getTIME_def clock_sleeptime_def in_int_def Let_def split_beta
        info_ok infoTIME_def set_time_def)
qed

subsection \<open>Running\<close>

text \<open>\<open>n\<close> turns of the clock thread.\<close>

primrec clock_run :: "nat \<Rightarrow> vtime \<Rightarrow> vtime option" where
  "clock_run 0 vt = Some vt"
| "clock_run (Suc n) vt = do { (vt', _) \<leftarrow> clock_next vt; clock_run n vt' }"


lemma clock_run_valid:
  "vtime_ok vt \<Longrightarrow> day vt + int n < 2147483647 \<Longrightarrow>
   \<exists>vt'. clock_run n vt = Some vt' \<and> vtime_ok vt' \<and> model_seconds vt' = model_seconds vt + int n"
proof (induction n arbitrary: vt)
  case (Suc n)
  obtain vt1 full where s: "clock_next vt = Some (vt1, full)" "vtime_ok vt1"
    "model_seconds vt1 = model_seconds vt + 1"
    using clock_next_valid [OF Suc.prems(1)] Suc.prems(2) by auto
  have "day vt1 \<le> day vt + 1"
    using s(2,3) Suc.prems(1) by (auto simp: vtime_ok_def model_seconds_def)
  then have "day vt1 + int n < 2147483647" using Suc.prems(2) by simp
  with Suc.IH [OF s(2)] s show ?case by auto
qed simp

text \<open>n turns of the model clock advance the model time by n seconds, with the carries into
  minute, hour and day, and never leave the valid range.\<close>

theorem clock_keeps_time:
  assumes "vtime_ok vt" and "day vt + int n < 2147483647"
  shows "\<exists>vt'. clock_run n vt = Some vt' \<and> vtime_ok vt' \<and>
    model_seconds vt' = model_seconds vt + int n"
  using clock_run_valid [OF assms] .

theorem clock_keeps_time_witness:
  "\<exists>vt. clock_run 86400 \<lparr>day = 0, hour = 23, minute = 59, sec = 59\<rparr> = Some vt \<and>
     model_seconds vt = 2 * 86400 - 1"
  using clock_keeps_time [of "\<lparr>day = 0, hour = 23, minute = 59, sec = 59\<rparr>" 86400]
  by (auto simp: vtime_ok_def model_seconds_def)

end
