(* ===== verification/Srcp_Bus.thy ===== *)
theory Srcp_Bus
  imports Srcp_Inv
begin

text \<open>
  The device groups that belong to a bus or to the server as a whole: power
  (\<open>srcp-power.c\<close>), generic messages (\<open>srcp-gm.c\<close>), descriptions (\<open>srcp-descr.c\<close>) and the
  server state (\<open>srcp-server.c\<close>).
\<close>

subsection \<open>Power\<close>

text \<open>\<open>power_msg\<close> is an array of 100 bytes, and \<open>strcpy\<close> does not check: a text of 100
  characters or more has no defined result.\<close>

definition setPower :: "nat \<Rightarrow> int \<Rightarrow> string \<Rightarrow> world \<Rightarrow> (int \<times> world) option" where
  "setPower b state msg w =
     (if 100 \<le> length msg then None
      else Some (SRCP_OK, resume_bus_thread b ((tick w)\<lparr>buses := upd (\<lambda>d. d\<lparr>
             power_change_time := now w,
             power_state := (if state = -1 then 0 else state),
             power_msg := msg,
             power_changed := (if state = -1 then 0 else 1)\<rparr>) b (buses w)\<rparr>)))"

definition getPower :: "nat \<Rightarrow> world \<Rightarrow> int" where
  "getPower b w = power_state (buses w b)"

definition infoPower :: "nat \<Rightarrow> world \<Rightarrow> int \<times> string" where
  "infoPower b w =
     (SRCP_INFO, fmt_time (power_change_time (buses w b)) @ '' 100 INFO '' @ fmt_d (int b) @ '' POWER ''
        @ (if power_state (buses w b) \<noteq> 0 then ''ON'' else ''OFF'') @ '' '' @ power_msg (buses w b)
        @ ''\<newline>'')"

text \<open>Drivers build the message in an array of 110 bytes and send it.\<close>

definition power_info :: "nat \<Rightarrow> world \<Rightarrow> world option" where
  "power_info b w =
     (let msg = snd (infoPower b w) in if 110 \<le> length msg then None else enqueueInfoMessage msg w)"

definition initPower :: "nat \<Rightarrow> int" where
  "initPower b = SRCP_OK"

definition termPower :: "nat \<Rightarrow> world \<Rightarrow> (int \<times> world) option" where
  "termPower b w =
     (if getPower b w = 1 then setPower b 0 ''Device Termination'' w else Some (SRCP_OK, w))"

subsection \<open>Generic messages\<close>

definition setGM :: "nat \<Rightarrow> nat \<Rightarrow> string \<Rightarrow> world \<Rightarrow> (int \<times> world) option" where
  "setGM sid rid msg w = do {
     ok1 \<leftarrow> (if sid \<noteq> 0 then is_valid_info_session sid w else Some True);
     if \<not> ok1 then Some (SRCP_WRONGVALUE, w)
     else do {
       ok2 \<leftarrow> (if rid \<noteq> 0 then is_valid_info_session rid w else Some True);
       if \<not> ok2 then Some (SRCP_WRONGVALUE, w)
       else do {
         w1 \<leftarrow> session_enqueue_info_message sid
                (take 1000 (fmt_time (now w) @ '' 100 INFO 0 GM '' @ dec_nat sid @ '' '' @ dec_nat rid
                   @ '' '' @ msg @ ''\<newline>'')) (tick w);
         Some (SRCP_OK, w1) } } }"

subsection \<open>Descriptions and the server\<close>

definition describeBus :: "nat \<Rightarrow> world \<Rightarrow> int \<times> string" where
  "describeBus b w =
     (SRCP_INFO, fmt_time (power_change_time (buses w b)) @ '' 100 INFO '' @ fmt_d (int b)
        @ '' DESCRIPTION '' @ description (buses w b) @ ''\<newline>'')"

definition describeSERVER :: "nat \<Rightarrow> int \<Rightarrow> int" where
  "describeSERVER b addr = SRCP_UNSUPPORTEDOPERATION"

definition describeSESSION :: "nat \<Rightarrow> int \<Rightarrow> int" where
  "describeSESSION b sid = SRCP_UNSUPPORTEDOPERATION"

definition init_bus_server :: "world \<Rightarrow> int \<times> world" where
  "init_bus_server w =
     (0, (tick w)\<lparr>buses := upd (\<lambda>d. d\<lparr>power_change_time := now w\<rparr>) 0 (buses w)\<rparr>)"

definition set_server_state :: "server_state \<Rightarrow> world \<Rightarrow> world" where
  "set_server_state s w = w\<lparr>srv_state := s\<rparr>"

definition get_server_state :: "world \<Rightarrow> server_state" where
  "get_server_state w = srv_state w"

text \<open>The buffer is not written while the server is starting up (\<open>None\<close>).\<close>

definition infoSERVER :: "world \<Rightarrow> int \<times> string option \<times> world" where
  "infoSERVER w =
     (SRCP_OK,
      (case get_server_state w of
         ssResetting \<Rightarrow> Some (fmt_time (now w) @ '' 100 INFO 0 SERVER RESETTING'' @ ''\<newline>'')
       | ssTerminating \<Rightarrow> Some (fmt_time (now w) @ '' 100 INFO 0 SERVER TERMINATING'' @ ''\<newline>'')
       | ssRunning \<Rightarrow> Some (fmt_time (now w) @ '' 100 INFO 0 SERVER RUNNING'' @ ''\<newline>'')
       | ssInitializing \<Rightarrow> None),
      tick w)"

definition server_reset :: "world \<Rightarrow> world option" where
  "server_reset w =
     (case infoSERVER (set_server_state ssResetting w) of
        (_, Some msg, w1) \<Rightarrow> map_option (set_server_state ssRunning) (enqueueInfoMessage msg w1)
      | (_, None, _) \<Rightarrow> None)"

definition server_shutdown :: "world \<Rightarrow> world option" where
  "server_shutdown w =
     (case infoSERVER (set_server_state ssTerminating w) of
        (_, Some msg, w1) \<Rightarrow> enqueueInfoMessage msg w1
      | (_, None, _) \<Rightarrow> None)"

subsection \<open>Every operation keeps the invariant\<close>

lemma setPower_inv [inv_intros]:
  "world_inv w \<Longrightarrow> setPower b s m w = Some (rc, w') \<Longrightarrow> world_inv w'"
  by (auto simp: setPower_def split: if_splits)

lemma termPower_inv [inv_intros]:
  "world_inv w \<Longrightarrow> termPower b w = Some (rc, w') \<Longrightarrow> world_inv w'"
  by (auto simp: termPower_def dest: setPower_inv [rotated] split: if_splits)

lemma power_info_buses: "power_info b w = Some w' \<Longrightarrow> buses w' = buses w"
  by (auto simp: power_info_def Let_def enqueueInfoMessage_def session_enqueue_info_message_def
      split: if_splits option.splits)

lemma power_info_inv [inv_intros]: "world_inv w \<Longrightarrow> power_info b w = Some w' \<Longrightarrow> world_inv w'"
  by (auto simp: power_info_def Let_def info_ok split: if_splits)

text \<open>A message for one session changes that session's pipe only; the list stays healthy.\<close>

definition deliver_to :: "nat \<Rightarrow> string \<Rightarrow> world \<Rightarrow> world" where
  "deliver_to p msg w =
     w\<lparr>sess_heap := (sess_heap w)(p := map_option (deliver msg) (sess_heap w p))\<rparr>"

lemma sess_inv_deliver_to: "sess_inv w \<Longrightarrow> sess_inv (deliver_to p msg w)"
proof -
  assume inv: "sess_inv w"
  have ids: "map_option n_session (sess_heap (deliver_to p msg w) q) =
      map_option n_session (sess_heap w q)" for q
    by (cases "sess_heap w q") (auto simp: deliver_to_def)
  have dom: "sess_heap (deliver_to p msg w) q = None \<longleftrightarrow> sess_heap w q = None" for q
    by (simp add: deliver_to_def)
  have old: "\<exists>n'. sess_heap w q = Some n' \<and> n_session n' = n_session n"
    if "sess_heap (deliver_to p msg w) q = Some n" for q n
    using ids [of q] that by (cases "sess_heap w q") auto
  have rest: "session_list (deliver_to p msg w) = session_list w"
    "sess_next (deliver_to p msg w) = sess_next w" "lastsession (deliver_to p msg w) = lastsession w"
    "runningsessions (deliver_to p msg w) = runningsessions w"
    by (simp_all add: deliver_to_def)
  show ?thesis
    using inv unfolding sess_inv_def rest
  proof (elim conjE, intro conjI)
    show "\<forall>q \<in> set (session_list w). \<exists>n. sess_heap (deliver_to p msg w) q = Some n"
      if "\<forall>q \<in> set (session_list w). \<exists>n. sess_heap w q = Some n"
      using that dom by (metis not_None_eq)
    show "\<forall>q n. sess_heap (deliver_to p msg w) q = Some n \<longrightarrow>
        q \<in> set (session_list w) \<and> q < sess_next w \<and> n_session n \<le> lastsession w"
      if "\<forall>q n. sess_heap w q = Some n \<longrightarrow>
        q \<in> set (session_list w) \<and> q < sess_next w \<and> n_session n \<le> lastsession w"
      using that old by metis
    show "\<forall>q q' n m. sess_heap (deliver_to p msg w) q = Some n \<and>
        sess_heap (deliver_to p msg w) q' = Some m \<and> n_session n = n_session m \<and> n_session n \<noteq> 0
        \<longrightarrow> q = q'"
      if "\<forall>q q' n m. sess_heap w q = Some n \<and> sess_heap w q' = Some m \<and> n_session n = n_session m
        \<and> n_session n \<noteq> 0 \<longrightarrow> q = q'"
      using that old by metis
  qed
qed

lemma world_inv_deliver_to [simp]: "world_inv w \<Longrightarrow> world_inv (deliver_to p msg w)"
proof -
  assume inv: "world_inv w"
  have "gl_inv (deliver_to p msg w) = gl_inv w" "ga_inv (deliver_to p msg w) = ga_inv w"
    "fb_inv (deliver_to p msg w) = fb_inv w" "sm_inv (deliver_to p msg w) = sm_inv w"
    by (rule part_congs; simp add: deliver_to_def)+
  with inv show ?thesis by (simp add: world_inv_def sess_inv_deliver_to)
qed

lemma session_enqueue_cases:
  assumes "session_enqueue_info_message sid msg w = Some w'"
  obtains (nobody) "w' = w"
  | (all) "sid = 0" and "enqueueInfoMessage msg w = Some w'"
  | (one) p where "sid \<noteq> 0" and "w' = deliver_to p msg w"
      and "list_search_session_node (sess_heap w) (session_list w) sid = Some (Some p)"
proof (cases "session_list w = []")
  case True
  with assms show thesis by (intro nobody) (simp add: session_enqueue_info_message_def)
next
  case False
  note u = assms [unfolded session_enqueue_info_message_def]
  show thesis
  proof (cases "sid = 0")
    case True
    with assms show thesis by (intro all) (simp_all add: enqueueInfoMessage_def)
  next
    case sid: False
    show thesis
    proof (cases "list_search_session_node (sess_heap w) (session_list w) sid")
      case (Some r)
      show thesis
      proof (cases r)
        case None
        with u False sid Some have "w' = w" by simp
        then show thesis by (rule nobody)
      next
        case (Some p)
        with u False sid \<open>list_search_session_node _ _ _ = Some r\<close>
        have "w' = deliver_to p msg w" by (simp add: deliver_to_def)
        with sid \<open>list_search_session_node _ _ _ = Some r\<close> \<open>r = Some p\<close> show thesis
          by (intro one) simp_all
      qed
    qed (use u False sid in simp)
  qed
qed

lemma session_enqueue_inv [inv_intros]:
  assumes "world_inv w" and "session_enqueue_info_message sid msg w = Some w'"
  shows "world_inv w'"
  using assms(2) by (cases rule: session_enqueue_cases) (use assms(1) in \<open>auto simp: info_ok\<close>)

lemma setGM_inv [inv_intros]:
  "world_inv w \<Longrightarrow> setGM sid rid m w = Some (rc, w') \<Longrightarrow> world_inv w'"
  by (auto simp: setGM_def bind_eq_Some_conv dest: session_enqueue_inv [rotated] split: if_splits)

lemma set_server_state_inv [simp]: "world_inv (set_server_state s w) = world_inv w"
  by (simp add: set_server_state_def)

lemma server_reset_inv [inv_intros]: "world_inv w \<Longrightarrow> server_reset w = Some w' \<Longrightarrow> world_inv w'"
  by (auto simp: server_reset_def infoSERVER_def get_server_state_def info_ok
      split: option.splits prod.splits)

lemma server_shutdown_inv [inv_intros]: "world_inv w \<Longrightarrow> server_shutdown w = Some w' \<Longrightarrow> world_inv w'"
  by (auto simp: server_shutdown_def infoSERVER_def get_server_state_def info_ok
      split: option.splits prod.splits)

end
