(* ===== verification/Srcp_Command.thy ===== *)
theory Srcp_Command
  imports Srcp_GL Srcp_GA Srcp_FB Srcp_SM Srcp_Time Srcp_Bus
begin

text \<open>
  The command interpreter, \<open>srcp-command.c\<close>: one handler per SRCP command and the
  interpretation of a line in \<open>doCmdClient\<close>. A handler returns the code, the reply line
  and the new state.

  Arguments of the model that are no arguments of the code: \<open>drv\<close> and \<open>env\<close> say what the
  other threads do while a handler waits (for a service mode result; while it sleeps for
  the \<open>k\<close>-th time), and \<open>stk\<close> is what the stack holds where a handler reads a local variable
  that no statement has written. Values that are scanned as \<open>long\<close> and passed as \<open>int\<close>
  are converted with \<open>c_int\<close>.
\<close>

type_synonym env = "nat \<Rightarrow> world \<Rightarrow> world option"

record stack =
  u_addr :: int
  u_lockid :: nat
  u_value :: int

definition reply_now :: "int \<Rightarrow> world \<Rightarrow> int \<times> string \<times> world" where
  "reply_now rc w = (rc, srcp_fmt_msg rc (now w), tick w)"

definition parse_sm_type :: "string \<Rightarrow> sm_type option" where
  "parse_sm_type s =
     (if strcasecmp0 s ''REG'' then Some REGISTER
      else if strcasecmp0 s ''CV'' then Some CV
      else if strcasecmp0 s ''CVBIT'' then Some CV_BIT
      else if strcasecmp0 s ''PAGE'' then Some PAGE
      else None)"

subsection \<open>SET and CHECK\<close>

definition gl_func_bits :: "sval list \<Rightarrow> nat \<Rightarrow> int" where
  "gl_func_bits vs n = sum_list (map (\<lambda>i. if ival vs (4 + i) \<noteq> 0 then 2 ^ i else 0) [0..<n])"

definition set_GL :: "nat \<Rightarrow> nat \<Rightarrow> string \<Rightarrow> bool \<Rightarrow> world \<Rightarrow> (int \<times> world) option" where
  "set_GL sid b parameter setit w =
     (let (n, vs) = sscanf parameter (replicate 33 Ld);
          func = gl_func_bits vs (nat (n - 4));
          addr = c_int (ival vs 0);
          lockid = (case cacheGetLockGL b addr w of Some l \<Rightarrow> l | None \<Rightarrow> 0)
      in if 4 \<le> n then
           if lockid = 0 \<or> lockid = sid \<or> ival vs 1 = 2 then
             if setit then enqueueGL b addr (c_int (ival vs 1)) (c_int (ival vs 2)) (c_int (ival vs 3)) func w
             else Some (SRCP_OK, w)
           else Some (SRCP_DEVICELOCKED, w)
         else Some (SRCP_LISTTOOSHORT, w))"

definition set_GA :: "nat \<Rightarrow> nat \<Rightarrow> string \<Rightarrow> bool \<Rightarrow> world \<Rightarrow> (int \<times> world) option" where
  "set_GA sid b parameter setit w =
     (let (n, vs) = sscanf parameter [Ld, Ld, Ld, Ld]; addr = c_int (ival vs 0)
      in if 4 \<le> n then do {
           lockid \<leftarrow> getlockGA b addr w;
           if lockid = 0 \<or> lockid = sid then
             if setit then enqueueGA b addr (c_int (ival vs 1)) (c_int (ival vs 2)) (c_int (ival vs 3)) w
             else Some (SRCP_OK, w)
           else Some (SRCP_DEVICELOCKED, w) }
         else Some (SRCP_LISTTOOSHORT, w))"

definition set_FB :: "nat \<Rightarrow> string \<Rightarrow> bool \<Rightarrow> world \<Rightarrow> (int \<times> world) option" where
  "set_FB b parameter setit w =
     (let (n, vs) = sscanf parameter [Ld, Ld]
      in if 2 \<le> n \<and> setit then setFB b (c_int (ival vs 0)) (c_int (ival vs 1)) w
         else Some (SRCP_UNSUPPORTEDDEVICEGROUP, w))"

definition set_GM :: "string \<Rightarrow> world \<Rightarrow> (int \<times> world) option" where
  "set_GM parameter w =
     (let (n, vs) = sscanf parameter [Lu, Lu, Chs 990]
      in if n < 3 then Some (SRCP_LISTTOOSHORT, w)
         else setGM (nat (ival vs 0)) (nat (ival vs 1)) (strval vs 2) w)"

text \<open>SET and VERIFY of service mode share their text but for the command.\<close>

definition set_SM :: "sm_wait \<Rightarrow> nat \<Rightarrow> sm_command \<Rightarrow> string \<Rightarrow> world \<Rightarrow> (int \<times> world) option" where
  "set_SM drv b command parameter w =
     (let (n, vs) = sscanf parameter [Ld, Str None, Ld, Ld, Ld]; addr = c_int (ival vs 0);
          v1 = c_int (ival vs 2); v2 = c_int (ival vs 3); v3 = c_int (ival vs 4)
      in if n < 4 then Some (SRCP_LISTTOOSHORT, w)
         else (case parse_sm_type (strval vs 1) of
           None \<Rightarrow> Some (SRCP_WRONGVALUE, w)
         | Some CV_BIT \<Rightarrow>
             if n < 5 then Some (SRCP_LISTTOOSHORT, w)
             else map_option (\<lambda>(rc, _, w'). (rc, w')) (infoSM drv b command CV_BIT addr v1 v2 v3 w)
         | Some typ \<Rightarrow> map_option (\<lambda>(rc, _, w'). (rc, w')) (infoSM drv b command typ addr v1 0 v2 w)))"

definition set_TIME :: "string \<Rightarrow> bool \<Rightarrow> world \<Rightarrow> (int \<times> world) option" where
  "set_TIME parameter setit w =
     (let (n, vs) = sscanf parameter [Ld, Ld, Ld, Ld]
      in if 4 \<le> n then
           if setit then setTIME (c_int (ival vs 0)) (c_int (ival vs 1)) (c_int (ival vs 2)) (c_int (ival vs 3)) w
           else Some (SRCP_OK, w)
         else Some (SRCP_LISTTOOSHORT, w))"

definition set_LOCK :: "nat \<Rightarrow> nat \<Rightarrow> string \<Rightarrow> bool \<Rightarrow> world \<Rightarrow> (int \<times> world) option" where
  "set_LOCK sid b parameter setit w =
     (let (n, vs) = (if parameter = [] then (-1, []) else sscanf parameter [Str None, Ld, Ld])
      in if 3 \<le> n then
           if strncmp0 (strval vs 0) ''GL'' 2 then
             if setit then cacheLockGL b (c_int (ival vs 1)) (c_int (ival vs 2)) sid w else Some (SRCP_OK, w)
           else if strncmp0 (strval vs 0) ''GA'' 2 then
             if setit then lockGA b (c_int (ival vs 1)) (c_int (ival vs 2)) sid w else Some (SRCP_OK, w)
           else Some (SRCP_UNSUPPORTEDDEVICEGROUP, w)
         else Some (SRCP_LISTTOOSHORT, w))"

definition set_POWER :: "nat \<Rightarrow> string \<Rightarrow> bool \<Rightarrow> world \<Rightarrow> (int \<times> world) option" where
  "set_POWER b parameter setit w =
     (let (n, vs) = sscanf parameter [Str (Some 3), Chs 100];
          msg = (if 2 \<le> n then strval vs 1 else [])
      in if 1 \<le> n then
           if strncasecmp0 (strval vs 0) ''OFF'' 3 then
             if setit then setPower b 0 msg w else Some (SRCP_OK, w)
           else if strncasecmp0 (strval vs 0) ''ON'' 2 then
             if setit then setPower b 1 msg w else Some (SRCP_OK, w)
           else Some (SRCP_WRONGVALUE, w)
         else Some (SRCP_LISTTOOSHORT, w))"

definition setcheck_device :: "sm_wait \<Rightarrow> nat \<Rightarrow> nat \<Rightarrow> string \<Rightarrow> string \<Rightarrow> bool \<Rightarrow> world
    \<Rightarrow> (int \<times> world) option" where
  "setcheck_device drv sid b device parameter setit w =
     (if bus_has_devicegroup b DG_GL w \<and> strncasecmp0 device ''GL'' 2 then set_GL sid b parameter setit w
      else if bus_has_devicegroup b DG_GA w \<and> strncasecmp0 device ''GA'' 2 then set_GA sid b parameter setit w
      else if bus_has_devicegroup b DG_FB w \<and> strncasecmp0 device ''FB'' 2 then set_FB b parameter setit w
      else if bus_has_devicegroup b DG_GM w \<and> strncasecmp0 device ''GM'' 2 then set_GM parameter w
      else if bus_has_devicegroup b DG_SM w \<and> strncasecmp0 device ''SM'' 2 then set_SM drv b SM_SET parameter w
      else if bus_has_devicegroup b DG_TIME w \<and> strncasecmp0 device ''TIME'' 4 then set_TIME parameter setit w
      else if bus_has_devicegroup b DG_LOCK w \<and> strncasecmp0 device ''LOCK'' 4 then set_LOCK sid b parameter setit w
      else if bus_has_devicegroup b DG_POWER w \<and> strncasecmp0 device ''POWER'' 5 then set_POWER b parameter setit w
      else Some (SRCP_UNSUPPORTEDDEVICEGROUP, w))"

definition handle_setcheck :: "sm_wait \<Rightarrow> nat \<Rightarrow> nat \<Rightarrow> string \<Rightarrow> string \<Rightarrow> bool \<Rightarrow> world
    \<Rightarrow> (int \<times> string \<times> world) option" where
  "handle_setcheck drv sid b device parameter setit w = do {
     (rc, w1) \<leftarrow> setcheck_device drv sid b device parameter setit w;
     Some (reply_now rc w1) }"

definition handleSET :: "sm_wait \<Rightarrow> nat \<Rightarrow> nat \<Rightarrow> string \<Rightarrow> string \<Rightarrow> world
    \<Rightarrow> (int \<times> string \<times> world) option" where
  "handleSET drv sid b device parameter w = handle_setcheck drv sid b device parameter True w"

definition handleCHECK :: "sm_wait \<Rightarrow> nat \<Rightarrow> nat \<Rightarrow> string \<Rightarrow> string \<Rightarrow> world
    \<Rightarrow> (int \<times> string \<times> world) option" where
  "handleCHECK drv sid b device parameter w = handle_setcheck drv sid b device parameter False w"

subsection \<open>GET\<close>

text \<open>A branch returns the empty string where it leaves the reply buffer empty.\<close>

definition get_FB :: "nat \<Rightarrow> string \<Rightarrow> timeval \<Rightarrow> world \<Rightarrow> int \<times> string" where
  "get_FB b parameter t w =
     (let (n, vs) = sscanf parameter [Ld]
      in if 1 \<le> n then infoFB b (c_int (ival vs 0)) w
         else (SRCP_LISTTOOSHORT, srcp_fmt_msg SRCP_LISTTOOSHORT t))"

definition get_GL :: "nat \<Rightarrow> string \<Rightarrow> timeval \<Rightarrow> world \<Rightarrow> (int \<times> string) option" where
  "get_GL b parameter t w =
     (let (n, vs) = sscanf parameter [Ld]
      in if 1 \<le> n then map_option (\<lambda>(rc, m). (rc, case m of Some s \<Rightarrow> s | None \<Rightarrow> []))
                          (cacheInfoGL b (c_int (ival vs 0)) w)
         else Some (SRCP_LISTTOOSHORT, srcp_fmt_msg SRCP_LISTTOOSHORT t))"

definition get_GA :: "nat \<Rightarrow> string \<Rightarrow> timeval \<Rightarrow> world \<Rightarrow> int \<times> string \<times> world" where
  "get_GA b parameter t w =
     (let (n, vs) = sscanf parameter [Ld, Ld]
      in if n = 0 \<or> n = 1 then (SRCP_LISTTOOSHORT, srcp_fmt_msg SRCP_LISTTOOSHORT t, w)
         else if n = 2 then infoGA b (c_int (ival vs 0)) (c_int (ival vs 1)) w
         else (SRCP_LISTTOOLONG, srcp_fmt_msg SRCP_LISTTOOLONG t, w))"

definition get_SM :: "sm_wait \<Rightarrow> nat \<Rightarrow> string \<Rightarrow> world \<Rightarrow> (int \<times> string \<times> world) option" where
  "get_SM drv b parameter w =
     (let (n, vs) = sscanf parameter [Ld, Str None, Ld, Ld]; addr = c_int (ival vs 0)
      in if n < 3 then Some (SRCP_LISTTOOSHORT, [], w)
         else (case parse_sm_type (strval vs 1) of
           None \<Rightarrow> Some (SRCP_WRONGVALUE, [], w)
         | Some typ \<Rightarrow>
             if typ = CV_BIT \<and> n < 4 then Some (SRCP_LISTTOOSHORT, [], w)
             else infoSM drv b SM_GET typ addr (c_int (ival vs 2))
                    (if typ \<noteq> CV_BIT then 0 else c_int (ival vs 3)) 0 w))"

definition get_DESCRIPTION :: "stack \<Rightarrow> nat \<Rightarrow> string \<Rightarrow> timeval \<Rightarrow> world \<Rightarrow> int \<times> string" where
  "get_DESCRIPTION stk b parameter t w =
     (let (n, vs) = (if parameter = [] then (0, []) else sscanf parameter [Str (Some 10), Ld]);
          grp = strval vs 0; addr = (if 2 \<le> n then ival vs 1 else u_addr stk)
      in if n \<le> 0 then describeBus b w
         else if bus_has_devicegroup b DG_DESCRIPTION w then
           if strncmp0 grp ''GL'' 2 then cacheDescribeGL b (c_int addr) w
           else if strncmp0 grp ''GA'' 2 then describeGA b (c_int addr) w
           else if strncmp0 grp ''FB'' 2 then (describeFB b (c_int addr), [])
           else if strncmp0 grp ''SESSION'' 7 then (describeSESSION b addr, [])
           else if strncmp0 grp ''TIME'' 4 then describeTIME w
           else if strncmp0 grp ''SERVER'' 6 then (describeSERVER b (c_int addr), [])
           else (SRCP_UNSUPPORTEDDEVICEGROUP, [])
         else (SRCP_UNSUPPORTEDDEVICEGROUP, srcp_fmt_msg SRCP_UNSUPPORTEDDEVICEGROUP t))"

text \<open>\<open>devgrp\<close> is an array of 10 bytes here, and \<open>%s\<close> has no width: a word of 10 or more
  characters has no defined result.\<close>

definition get_LOCK :: "nat \<Rightarrow> string \<Rightarrow> timeval \<Rightarrow> world \<Rightarrow> (int \<times> string) option" where
  "get_LOCK b parameter t w =
     (let (n, vs) = (if parameter = [] then (-1, []) else sscanf parameter [Str None, Ld]);
          grp = strval vs 0
      in if 1 \<le> n \<and> 10 \<le> length grp then None
         else if n \<le> 1 then Some (SRCP_LISTTOOSHORT, srcp_fmt_msg SRCP_LISTTOOSHORT t)
         else if strncmp0 grp ''GL'' 2 then Some (describeLOCKGL b (c_int (ival vs 1)) w)
         else if strncmp0 grp ''GA'' 2 then describeLOCKGA b (c_int (ival vs 1)) w
         else Some (SRCP_UNSUPPORTEDDEVICEGROUP, []))"

definition get_device :: "sm_wait \<Rightarrow> stack \<Rightarrow> nat \<Rightarrow> string \<Rightarrow> string \<Rightarrow> timeval \<Rightarrow> world
    \<Rightarrow> (int \<times> string \<times> world) option" where
  "get_device drv stk b device parameter t w =
     (if bus_has_devicegroup b DG_FB w \<and> strncasecmp0 device ''FB'' 2 then
        (case get_FB b parameter t w of (rc, m) \<Rightarrow> Some (rc, m, w))
      else if bus_has_devicegroup b DG_GL w \<and> strncasecmp0 device ''GL'' 2 then
        map_option (\<lambda>(rc, m). (rc, m, w)) (get_GL b parameter t w)
      else if bus_has_devicegroup b DG_GA w \<and> strncasecmp0 device ''GA'' 2 then
        Some (get_GA b parameter t w)
      else if bus_has_devicegroup b DG_SM w \<and> strncasecmp0 device ''SM'' 2 then
        get_SM drv b parameter w
      else if bus_has_devicegroup b DG_POWER w \<and> strncasecmp0 device ''POWER'' 5 then
        (case infoPower b w of (rc, m) \<Rightarrow> Some (rc, m, w))
      else if bus_has_devicegroup b DG_SERVER w \<and> strncasecmp0 device ''SERVER'' 6 then
        (case infoSERVER w of (rc, m, w1) \<Rightarrow> Some (rc, case m of Some s \<Rightarrow> s | None \<Rightarrow> [], w1))
      else if bus_has_devicegroup b DG_TIME w \<and> strncasecmp0 device ''TIME'' 4 then
        (case infoTIME w of (rc, m, w1) \<Rightarrow>
           Some (if rc \<noteq> SRCP_INFO then (SRCP_NODATA, srcp_fmt_msg SRCP_NODATA t, w1) else (rc, m, w1)))
      else if strncasecmp0 device ''DESCRIPTION'' 11 then
        (case get_DESCRIPTION stk b parameter t w of (rc, m) \<Rightarrow> Some (rc, m, w))
      else if bus_has_devicegroup b DG_LOCK w \<and> strncasecmp0 device ''LOCK'' 4 then
        map_option (\<lambda>(rc, m). (rc, m, w)) (get_LOCK b parameter t w)
      else Some (SRCP_UNSUPPORTEDDEVICEGROUP, [], w))"

definition handleGET :: "sm_wait \<Rightarrow> stack \<Rightarrow> nat \<Rightarrow> string \<Rightarrow> string \<Rightarrow> world
    \<Rightarrow> (int \<times> string \<times> world) option" where
  "handleGET drv stk b device parameter w = do {
     let t = now w;
     (rc, reply, w1) \<leftarrow> get_device drv stk b device parameter t (tick w);
     Some (rc, if reply = [] then srcp_fmt_msg rc t else reply, w1) }"

subsection \<open>WAIT\<close>

text \<open>The loop that polls a feedback: \<open>timeout\<close> counts the 1/20 seconds that are left.\<close>

function wait_fb :: "env \<Rightarrow> nat \<Rightarrow> int \<Rightarrow> int \<Rightarrow> nat \<Rightarrow> int \<Rightarrow> int \<Rightarrow> world
    \<Rightarrow> (int \<times> world) option" where
  "wait_fb env b port waitvalue k timeout val w =
     (case env k w of None \<Rightarrow> None
      | Some w1 \<Rightarrow>
          let val' = (case snd (getFB b port w1) of Some (_, v) \<Rightarrow> v | None \<Rightarrow> val) in
          if 0 \<le> timeout - 1 \<and> val' \<noteq> waitvalue
          then wait_fb env b port waitvalue (Suc k) (timeout - 1) val' w1
          else Some (timeout - 1, w1))"
  by pat_completeness auto
termination
  by (relation "measure (\<lambda>(env, b, port, waitvalue, k, timeout, val, w). nat timeout)") auto

declare wait_fb.simps [simp del]

definition in_long :: "int \<Rightarrow> bool" where
  "in_long x \<longleftrightarrow> - (2 ^ 63) \<le> x \<and> x < 2 ^ 63"

definition wait_FB :: "env \<Rightarrow> stack \<Rightarrow> nat \<Rightarrow> string \<Rightarrow> timeval \<Rightarrow> world
    \<Rightarrow> (int \<times> string \<times> world) option" where
  "wait_FB env stk b parameter t w =
     (let (n, vs) = sscanf parameter [Ld, Di, Ld];
          port = c_int (ival vs 0); waitvalue = ival vs 1; timeout = ival vs 2;
          (rc, out) = getFB b port w;
          v = (case out of Some (_, v) \<Rightarrow> v | None \<Rightarrow> u_value stk)
      in if 3 \<le> n then
           if rc = SRCP_OK \<and> v = waitvalue then Some (fst (infoFB b port w), snd (infoFB b port w), w)
           else if \<not> in_long (timeout * 20) then None
           else do {
             (left, w1) \<leftarrow> wait_fb env b port waitvalue 0 (timeout * 20) v w;
             if left < 0 then Some (SRCP_TIMEOUT, srcp_fmt_msg SRCP_TIMEOUT (now w1), tick w1)
             else Some (fst (infoFB b port w1), snd (infoFB b port w1), w1) }
         else Some (SRCP_LISTTOOSHORT, srcp_fmt_msg SRCP_LISTTOOSHORT t, w))"

text \<open>The loop that waits for a model time: it goes on while the time asked for is at or after
  the current one. The left side is \<open>long\<close> arithmetic, the right side \<open>int\<close>.\<close>

definition time_target :: "int \<Rightarrow> int \<Rightarrow> int \<Rightarrow> int \<Rightarrow> int option" where
  "time_target d h m s =
     (if in_long (d * 24) \<and> in_long (d * 24 + h) \<and> in_long ((d * 24 + h) * 60)
         \<and> in_long ((d * 24 + h) * 60 + m) \<and> in_long (((d * 24 + h) * 60 + m) * 60)
         \<and> in_long (((d * 24 + h) * 60 + m) * 60 + s)
      then Some (((d * 24 + h) * 60 + m) * 60 + s) else None)"

definition time_current :: "vtime \<Rightarrow> int option" where
  "time_current vt =
     (let h = day vt * 24 + hour vt; m = h * 60 + minute vt
      in if in_int (day vt * 24) \<and> in_int h \<and> in_int (h * 60) \<and> in_int m \<and> in_int (m * 60)
            \<and> in_int (m * 60 + sec vt)
         then Some (m * 60 + sec vt) else None)"

partial_function (option) wait_time :: "env \<Rightarrow> int \<Rightarrow> nat \<Rightarrow> world \<Rightarrow> world option" where
  "wait_time env target k w = do {
     cur \<leftarrow> time_current (getTIME w);
     if cur \<le> target then do {
       w1 \<leftarrow> env k w;
       wait_time env target (Suc k) w1 }
     else Some w }"

definition wait_TIME :: "env \<Rightarrow> string \<Rightarrow> timeval \<Rightarrow> world \<Rightarrow> (int \<times> string \<times> world) option" where
  "wait_TIME env parameter t w =
     (let (n, vs) = sscanf parameter [Ld, Ld, Ld, Ld]
      in if 4 \<le> n then
           if time_is_available w then do {
             target \<leftarrow> time_target (ival vs 0) (ival vs 1) (ival vs 2) (ival vs 3);
             w1 \<leftarrow> wait_time env target 0 w;
             Some (infoTIME w1) }
           else Some (SRCP_NODATA, srcp_fmt_msg SRCP_NODATA t, w)
         else Some (SRCP_LISTTOOSHORT, srcp_fmt_msg SRCP_LISTTOOSHORT t, w))"

definition handleWAIT :: "env \<Rightarrow> stack \<Rightarrow> nat \<Rightarrow> string \<Rightarrow> string \<Rightarrow> world
    \<Rightarrow> (int \<times> string \<times> world) option" where
  "handleWAIT env stk b device parameter w =
     (let t = now w; w1 = tick w in
      if bus_has_devicegroup b DG_FB w \<and> strncasecmp0 device ''FB'' 2
      then wait_FB env stk b parameter t w1
      else if bus_has_devicegroup b DG_TIME w \<and> strncasecmp0 device ''TIME'' 4
      then wait_TIME env parameter t w1
      else Some (SRCP_UNSUPPORTEDDEVICEGROUP, [], w1))"

subsection \<open>VERIFY\<close>

definition handleVERIFY :: "sm_wait \<Rightarrow> nat \<Rightarrow> string \<Rightarrow> string \<Rightarrow> world
    \<Rightarrow> (int \<times> string \<times> world) option" where
  "handleVERIFY drv b device parameter w = do {
     let t = now w;
     (rc, w1) \<leftarrow> (if bus_has_devicegroup b DG_SM w \<and> strncasecmp0 device ''SM'' 2
                  then set_SM drv b SM_VERIFY parameter (tick w)
                  else Some (SRCP_UNSUPPORTEDOPERATION, tick w));
     Some (rc, srcp_fmt_msg rc t, w1) }"

subsection \<open>TERM\<close>

definition term_GL :: "stack \<Rightarrow> nat \<Rightarrow> nat \<Rightarrow> string \<Rightarrow> world \<Rightarrow> (int \<times> world) option" where
  "term_GL stk sid b parameter w =
     (let (n, vs) = (if parameter = [] then (0, []) else sscanf parameter [Ld]);
          addr = c_int (ival vs 0);
          lockid = (case cacheGetLockGL b addr w of Some l \<Rightarrow> l | None \<Rightarrow> u_lockid stk)
      in if n = 1 then
           if lockid = 0 then cacheTermGL b addr w
           else if lockid = sid then do {
             (rc, w1) \<leftarrow> cacheUnlockGL b addr sid w;
             if rc = SRCP_OK then cacheTermGL b addr w1 else Some (SRCP_UNSUPPORTEDDEVICEGROUP, w1) }
           else Some (SRCP_DEVICELOCKED, w)
         else Some (SRCP_UNSUPPORTEDDEVICEGROUP, w))"

definition term_GA :: "nat \<Rightarrow> nat \<Rightarrow> string \<Rightarrow> world \<Rightarrow> (int \<times> world) option" where
  "term_GA sid b parameter w =
     (let (n, vs) = (if parameter = [] then (0, []) else sscanf parameter [Ld]);
          addr = c_int (ival vs 0)
      in if n = 1 then do {
           lockid \<leftarrow> getlockGA b addr w;
           if lockid = 0 then termGA b addr w
           else if lockid = sid then do {
             (rc, w1) \<leftarrow> unlockGA b addr sid w;
             if rc = SRCP_OK then termGA b addr w1 else Some (SRCP_UNSUPPORTEDDEVICEGROUP, w1) }
           else Some (SRCP_DEVICELOCKED, w) }
         else Some (SRCP_UNSUPPORTEDDEVICEGROUP, w))"

definition term_LOCK :: "nat \<Rightarrow> nat \<Rightarrow> string \<Rightarrow> world \<Rightarrow> (int \<times> world) option" where
  "term_LOCK sid b parameter w =
     (let (n, vs) = (if parameter = [] then (-1, []) else sscanf parameter [Str None, Ld]);
          grp = strval vs 0
      in if 1 \<le> n \<and> 10 \<le> length grp then None
         else if n \<le> 1 then Some (SRCP_LISTTOOSHORT, w)
         else if strncmp0 grp ''GL'' 2 then cacheUnlockGL b (c_int (ival vs 1)) sid w
         else if strncmp0 grp ''GA'' 2 then unlockGA b (c_int (ival vs 1)) sid w
         else Some (SRCP_UNSUPPORTEDDEVICE, w))"

definition term_SESSION :: "nat \<Rightarrow> string \<Rightarrow> world \<Rightarrow> (int \<times> world) option" where
  "term_SESSION sid parameter w =
     (let (n, vs) = (if parameter = [] then (0, []) else sscanf parameter [Ld]);
          termsid = (if n \<le> 0 then sid else nat (ival vs 0 mod 2 ^ 64))
      in map_option (\<lambda>rc. (rc, w)) (termSESSION sid termsid w))"

definition term_device :: "sm_wait \<Rightarrow> stack \<Rightarrow> nat \<Rightarrow> nat \<Rightarrow> string \<Rightarrow> string \<Rightarrow> world
    \<Rightarrow> (int \<times> world) option" where
  "term_device drv stk sid b device parameter w =
     (if bus_has_devicegroup b DG_GL w \<and> strncasecmp0 device ''GL'' 2 then term_GL stk sid b parameter w
      else if bus_has_devicegroup b DG_GA w \<and> strncasecmp0 device ''GA'' 2 then term_GA sid b parameter w
      else if bus_has_devicegroup b DG_LOCK w \<and> strncasecmp0 device ''LOCK'' 4 then term_LOCK sid b parameter w
      else if bus_has_devicegroup b DG_POWER w \<and> strncasecmp0 device ''POWER'' 5 then termPower b w
      else if bus_has_devicegroup b DG_SERVER w \<and> strncasecmp0 device ''SERVER'' 6 then
        map_option (\<lambda>w'. (SRCP_OK, w')) (server_shutdown w)
      else if bus_has_devicegroup b DG_SESSION w \<and> strncasecmp0 device ''SESSION'' 7 then
        term_SESSION sid parameter w
      else if bus_has_devicegroup b DG_SM w \<and> strncasecmp0 device ''SM'' 2 then
        map_option (\<lambda>(rc, _, w'). (rc, w')) (infoSM drv b SM_TERM REGISTER (-1) 0 0 0 w)
      else if bus_has_devicegroup b DG_TIME w \<and> strncasecmp0 device ''TIME'' 4 then termTIME w
      else Some (SRCP_UNSUPPORTEDDEVICEGROUP, w))"

definition handleTERM :: "sm_wait \<Rightarrow> stack \<Rightarrow> nat \<Rightarrow> nat \<Rightarrow> string \<Rightarrow> string \<Rightarrow> world
    \<Rightarrow> (int \<times> string \<times> world) option" where
  "handleTERM drv stk sid b device parameter w = do {
     (rc, w1) \<leftarrow> term_device drv stk sid b device parameter w;
     Some (rc, srcp_fmt_msg \<bar>rc\<bar> (now w1), tick w1) }"

subsection \<open>INIT and RESET\<close>

definition init_GL_cmd :: "nat \<Rightarrow> nat \<Rightarrow> string \<Rightarrow> world \<Rightarrow> (int \<times> world) option" where
  "init_GL_cmd sid b parameter w =
     (let (n, vs) = sscanf parameter [Ld, Ch, Ld, Ld, Ld]; addr = c_int (ival vs 0);
          lockid = (case cacheGetLockGL b addr w of Some l \<Rightarrow> l | None \<Rightarrow> 0)
      in if 5 \<le> n then
           if lockid = 0 \<or> lockid = sid then
             cacheInitGL b addr (hd (strval vs 1)) (c_int (ival vs 2)) (c_int (ival vs 3))
               (c_int (ival vs 4)) w
           else Some (SRCP_DEVICELOCKED, w)
         else Some (SRCP_LISTTOOSHORT, w))"

definition init_GA_cmd :: "nat \<Rightarrow> string \<Rightarrow> world \<Rightarrow> (int \<times> world) option" where
  "init_GA_cmd b parameter w =
     (let (n, vs) = sscanf parameter [Ld, Ch]
      in if 2 \<le> n then initGA b (c_int (ival vs 0)) (hd (strval vs 1)) w
         else Some (SRCP_LISTTOOSHORT, w))"

definition init_FB_cmd :: "nat \<Rightarrow> string \<Rightarrow> world \<Rightarrow> int" where
  "init_FB_cmd b parameter w =
     (let (n, vs) = sscanf parameter [Ld, Ch, Ld]
      in if 3 \<le> n then initFB b (c_int (ival vs 0)) (hd (strval vs 1)) (c_int (ival vs 2)) w
         else SRCP_LISTTOOSHORT)"

definition init_TIME_cmd :: "string \<Rightarrow> world \<Rightarrow> (int \<times> world) option" where
  "init_TIME_cmd parameter w =
     (let (n, vs) = sscanf parameter [Ld, Ld]
      in if 2 \<le> n then initTIME (c_int (ival vs 0)) (c_int (ival vs 1)) w
         else Some (SRCP_LISTTOOSHORT, w))"

definition init_SM_cmd :: "sm_wait \<Rightarrow> nat \<Rightarrow> string \<Rightarrow> world \<Rightarrow> (int \<times> world) option" where
  "init_SM_cmd drv b parameter w =
     (let (n, vs) = sscanf parameter [Str None]
      in if n < 1 then Some (SRCP_LISTTOOSHORT, w)
         else if strncasecmp0 (strval vs 0) ''NMRA'' 4 then
           map_option (\<lambda>(rc, _, w'). (rc, w')) (infoSM drv b SM_INIT REGISTER (-1) 0 0 0 w)
         else Some (SRCP_WRONGVALUE, w))"

definition init_device :: "sm_wait \<Rightarrow> nat \<Rightarrow> nat \<Rightarrow> string \<Rightarrow> string \<Rightarrow> world
    \<Rightarrow> (int \<times> world) option" where
  "init_device drv sid b device parameter w =
     (if bus_has_devicegroup b DG_GL w \<and> strncasecmp0 device ''GL'' 2 then init_GL_cmd sid b parameter w
      else if bus_has_devicegroup b DG_GA w \<and> strncasecmp0 device ''GA'' 2 then init_GA_cmd b parameter w
      else if bus_has_devicegroup b DG_FB w \<and> strncasecmp0 device ''FB'' 2 then
        Some (init_FB_cmd b parameter w, w)
      else if bus_has_devicegroup b DG_POWER w \<and> strncasecmp0 device ''POWER'' 5 then
        Some (initPower b, w)
      else if bus_has_devicegroup b DG_TIME w \<and> strncasecmp0 device ''TIME'' 4 then init_TIME_cmd parameter w
      else if bus_has_devicegroup b DG_SM w \<and> strncasecmp0 device ''SM'' 2 then init_SM_cmd drv b parameter w
      else Some (SRCP_UNSUPPORTEDDEVICEGROUP, w))"

definition handleINIT :: "sm_wait \<Rightarrow> nat \<Rightarrow> nat \<Rightarrow> string \<Rightarrow> string \<Rightarrow> world
    \<Rightarrow> (int \<times> string \<times> world) option" where
  "handleINIT drv sid b device parameter w = do {
     (rc, w1) \<leftarrow> init_device drv sid b device parameter w;
     Some (reply_now rc w1) }"

definition handleRESET :: "nat \<Rightarrow> string \<Rightarrow> world \<Rightarrow> (int \<times> string \<times> world) option" where
  "handleRESET b device w = do {
     (rc, w1) \<leftarrow> (if bus_has_devicegroup b DG_SERVER w \<and> strncasecmp0 device ''SERVER'' 6
                  then map_option (\<lambda>w'. (SRCP_OK, w')) (server_reset w)
                  else Some (SRCP_UNSUPPORTEDOPERATION, w));
     Some (reply_now rc w1) }"

subsection \<open>A line from the client\<close>

definition strip_newline :: "string \<Rightarrow> string" where
  "strip_newline line =
     (if 1 < length line \<and> last line = CHR ''\<newline>'' then butlast line else line)"

text \<open>The bus number is converted from \<open>int\<close> to \<open>unsigned long\<close>: a negative one is huge.
  The reply stays empty for an unknown command.\<close>

definition dispatch :: "sm_wait \<Rightarrow> env \<Rightarrow> stack \<Rightarrow> nat \<Rightarrow> string \<Rightarrow> nat \<Rightarrow> string \<Rightarrow> string \<Rightarrow> world
    \<Rightarrow> (int \<times> string \<times> world) option" where
  "dispatch drv env stk sid command b device parameter w =
     (if strncasecmp0 command ''SET'' 3 then handleSET drv sid b device parameter w
      else if strncasecmp0 command ''GET'' 3 then handleGET drv stk b device parameter w
      else if strncasecmp0 command ''WAIT'' 4 then handleWAIT env stk b device parameter w
      else if strncasecmp0 command ''INIT'' 4 then handleINIT drv sid b device parameter w
      else if strncasecmp0 command ''TERM'' 4 then handleTERM drv stk sid b device parameter w
      else if strncasecmp0 command ''VERIFY'' 6 then handleVERIFY drv b device parameter w
      else if strncasecmp0 command ''RESET'' 5 then handleRESET b device w
      else Some (SRCP_UNKNOWNCOMMAND, [], w))"

definition cmd_line :: "sm_wait \<Rightarrow> env \<Rightarrow> stack \<Rightarrow> nat \<Rightarrow> string \<Rightarrow> world
    \<Rightarrow> (int \<times> string \<times> world) option" where
  "cmd_line drv env stk sid line w =
     (let (n, vs) = sscanf (strip_newline line) [Str None, Str None, Str None, Chs 1000];
          b = nat (atoi (if 2 \<le> n then strval vs 1 else []) mod 2 ^ 64);
          parameter = (if 4 \<le> n then strval vs 3 else [])
      in if 3 \<le> n then
           if b \<le> num_buses w then dispatch drv env stk sid (strval vs 0) b (strval vs 2) parameter w
           else Some (reply_now SRCP_WRONGVALUE w)
         else Some (reply_now SRCP_LISTTOOSHORT w))"

text \<open>\<open>doCmdClient\<close>: one line after the other, until a TERM answers with a negative code.
  The result is the replies written to the socket and the final state.\<close>

definition is_term :: "string \<Rightarrow> bool" where
  "is_term line \<longleftrightarrow>
     (let (n, vs) = sscanf (strip_newline line) [Str None, Str None, Str None, Chs 1000] in
      3 \<le> n \<and> strncasecmp0 (strval vs 0) ''TERM'' 4)"

fun doCmdClient :: "sm_wait \<Rightarrow> env \<Rightarrow> stack \<Rightarrow> nat \<Rightarrow> string list \<Rightarrow> world
    \<Rightarrow> (string list \<times> world) option" where
  "doCmdClient drv env stk sid [] w = Some ([], w)"
| "doCmdClient drv env stk sid (line # lines) w =
     (case cmd_line drv env stk sid line w of
        None \<Rightarrow> None
      | Some (rc, reply, w1) \<Rightarrow>
          if is_term line \<and> rc < 0 then Some ([reply], w1)
          else (case doCmdClient drv env stk sid lines w1 of
                  None \<Rightarrow> None
                | Some (replies, w2) \<Rightarrow> Some (reply # replies, w2)))"

end
