(* ===== verification/Srcp_Command_Inv.thy ===== *)
theory Srcp_Command_Inv
  imports Srcp_Command
begin

text \<open>
  Every command keeps the invariant of the server state, whatever its parameters: the lemmas
  per device group, then per handler, then for a line and for a whole command session. The
  only assumption is that the threads that run while a handler waits keep it too.
\<close>

definition env_ok :: "env \<Rightarrow> bool" where
  "env_ok env \<longleftrightarrow> (\<forall>k w w'. world_inv w \<longrightarrow> env k w = Some w' \<longrightarrow> world_inv w')"

lemma set_GL_inv [inv_intros]:
  "world_inv w \<Longrightarrow> set_GL sid b parameter s w = Some (rc, w') \<Longrightarrow> world_inv w'"
  by (auto simp: set_GL_def Let_def split_beta intro: enqueueGL_inv split: if_splits)

lemma set_GA_inv [inv_intros]:
  "world_inv w \<Longrightarrow> set_GA sid b parameter s w = Some (rc, w') \<Longrightarrow> world_inv w'"
  by (auto simp: set_GA_def Let_def split_beta bind_eq_Some_conv intro: enqueueGA_inv split: if_splits)

lemma set_FB_inv [inv_intros]:
  "world_inv w \<Longrightarrow> set_FB b parameter s w = Some (rc, w') \<Longrightarrow> world_inv w'"
  by (auto simp: set_FB_def setFB_def split_beta intro: updateFB_inv split: if_splits)

lemma set_GM_inv [inv_intros]:
  "world_inv w \<Longrightarrow> set_GM parameter w = Some (rc, w') \<Longrightarrow> world_inv w'"
  by (auto simp: set_GM_def split_beta intro: setGM_inv split: if_splits)

lemma set_SM_inv [inv_intros]:
  "sm_wait_ok drv \<Longrightarrow> world_inv w \<Longrightarrow> set_SM drv b c parameter w = Some (rc, w') \<Longrightarrow> world_inv w'"
  by (auto simp: set_SM_def Let_def split_beta intro: infoSM_inv
      split: if_splits option.splits sm_type.splits)

lemma set_TIME_inv [inv_intros]:
  "world_inv w \<Longrightarrow> set_TIME parameter s w = Some (rc, w') \<Longrightarrow> world_inv w'"
  by (auto simp: set_TIME_def split_beta intro: setTIME_inv split: if_splits)

lemma set_LOCK_inv [inv_intros]:
  "world_inv w \<Longrightarrow> set_LOCK sid b parameter s w = Some (rc, w') \<Longrightarrow> world_inv w'"
  by (auto simp: set_LOCK_def split_beta Let_def intro: cacheLockGL_inv lockGA_inv split: if_splits)

lemma set_POWER_inv [inv_intros]:
  "world_inv w \<Longrightarrow> set_POWER b parameter s w = Some (rc, w') \<Longrightarrow> world_inv w'"
  by (auto simp: set_POWER_def split_beta Let_def intro: setPower_inv split: if_splits)

lemma setcheck_device_inv [inv_intros]:
  "sm_wait_ok drv \<Longrightarrow> world_inv w \<Longrightarrow> setcheck_device drv sid b dev parameter s w = Some (rc, w')
   \<Longrightarrow> world_inv w'"
  unfolding setcheck_device_def
  by (auto intro: set_GL_inv set_GA_inv set_FB_inv set_GM_inv set_SM_inv set_TIME_inv set_LOCK_inv
      set_POWER_inv split: if_splits)

lemma handle_setcheck_inv [inv_intros]:
  "sm_wait_ok drv \<Longrightarrow> world_inv w \<Longrightarrow> handle_setcheck drv sid b dev parameter s w = Some (rc, m, w')
   \<Longrightarrow> world_inv w'"
  by (auto simp: handle_setcheck_def bind_eq_Some_conv reply_now_def dest: setcheck_device_inv)

lemma get_GA_inv [inv_intros]:
  "world_inv w \<Longrightarrow> get_GA b parameter t w = (rc, m, w') \<Longrightarrow> world_inv w'"
  by (auto simp: get_GA_def split_beta intro: infoGA_inv split: if_splits)

lemma get_SM_inv [inv_intros]:
  "sm_wait_ok drv \<Longrightarrow> world_inv w \<Longrightarrow> get_SM drv b parameter w = Some (rc, m, w') \<Longrightarrow> world_inv w'"
  by (auto simp: get_SM_def Let_def split_beta intro: infoSM_inv split: if_splits option.splits)

lemma infoSERVER_inv [inv_intros]: "world_inv w \<Longrightarrow> infoSERVER w = (rc, m, w') \<Longrightarrow> world_inv w'"
  by (auto simp: infoSERVER_def)

lemma get_device_inv [inv_intros]:
  assumes "sm_wait_ok drv" and "world_inv w"
    and "get_device drv stk b dev parameter t w = Some (rc, m, w')"
  shows "world_inv w'"
proof -
  have srv: "world_inv (snd (snd (infoSERVER w)))" using assms(2) by (simp add: infoSERVER_def)
  have time: "snd (infoTIME w) = (m, w') \<Longrightarrow> world_inv w'"
    using infoTIME_snd_inv [OF assms(2)] by simp
  from assms srv infoTIME_snd_inv [OF assms(2)] show ?thesis
    unfolding get_device_def
    by (auto simp: split_beta intro: get_GA_inv get_SM_inv time split: if_splits)
qed

lemma handleGET_inv [inv_intros]:
  assumes "sm_wait_ok drv" and "world_inv w" and "handleGET drv stk b dev parameter w = Some (rc, m, w')"
  shows "world_inv w'"
  using assms get_device_inv [OF assms(1), of "tick w"]
  by (auto simp: handleGET_def bind_eq_Some_conv Let_def)

text \<open>WAIT changes nothing itself; what changes is what the other threads do meanwhile.\<close>

lemma wait_fb_inv:
  "env_ok env \<Longrightarrow> world_inv w \<Longrightarrow> wait_fb env b port v k tmo val w = Some (r, w') \<Longrightarrow> world_inv w'"
proof (induction env b port v k tmo val w rule: wait_fb.induct)
  case (1 env b port waitvalue k timeout val w)
  obtain w1 where w1: "env k w = Some w1" using "1.prems"(3) by (subst (asm) wait_fb.simps) (auto split: option.splits)
  then have inv: "world_inv w1" using "1.prems"(1,2) by (simp add: env_ok_def)
  define val' where "val' = (case snd (getFB b port w1) of Some (_, v) \<Rightarrow> v | None \<Rightarrow> val)"
  show ?case
  proof (cases "0 \<le> timeout - 1 \<and> val' \<noteq> waitvalue")
    case True
    have "wait_fb env b port waitvalue (Suc k) (timeout - 1) val' w1 = Some (r, w')"
      using "1.prems"(3) w1 True by (subst (asm) wait_fb.simps) (simp add: Let_def val'_def)
    with "1.IH" [OF w1 val'_def True "1.prems"(1) inv] show ?thesis .
  next
    case False
    with "1.prems"(3) w1 inv show ?thesis
      by (subst (asm) wait_fb.simps) (auto simp: Let_def simp flip: val'_def)
  qed
qed

lemma wait_time_inv:
  assumes "wait_time env target k w = Some w'" and "env_ok env" and "world_inv w"
  shows "world_inv w'"
proof -
  have "env_ok env \<longrightarrow> world_inv w \<longrightarrow> world_inv w'"
    using assms(1)
  proof (rule wait_time.raw_induct [rotated])
    fix f env target k w w'
    assume IH: "\<And>env target k w w'. f env target k w = Some w'
        \<Longrightarrow> env_ok env \<longrightarrow> world_inv w \<longrightarrow> world_inv w'"
      and step: "time_current (getTIME w) \<bind> (\<lambda>cur. if cur \<le> target
          then env k w \<bind> f env target (Suc k) else Some w) = Some w'"
    show "env_ok env \<longrightarrow> world_inv w \<longrightarrow> world_inv w'"
    proof (intro impI)
      assume ok: "env_ok env" and inv: "world_inv w"
      show "world_inv w'"
      proof (cases "w' = w")
        case False
        then obtain w1 where w1: "env k w = Some w1" "f env target (Suc k) w1 = Some w'"
          using step by (auto simp: bind_eq_Some_conv split: if_splits)
        with ok inv have "world_inv w1" unfolding env_ok_def by blast
        with IH [OF w1(2)] ok show ?thesis by blast
      qed (use inv in simp)
    qed
  qed
  with assms(2,3) show ?thesis by blast
qed

lemma wait_FB_inv [inv_intros]:
  "env_ok env \<Longrightarrow> world_inv w \<Longrightarrow> wait_FB env stk b parameter t w = Some (rc, m, w') \<Longrightarrow> world_inv w'"
  by (auto simp: wait_FB_def Let_def split_beta bind_eq_Some_conv dest: wait_fb_inv split: if_splits)

lemma wait_TIME_inv [inv_intros]:
  assumes "env_ok env" and "world_inv w" and "wait_TIME env parameter t w = Some (rc, m, w')"
  shows "world_inv w'"
  using assms infoTIME_snd_inv [OF wait_time_inv [OF _ assms(1,2)]]
  by (fastforce simp: wait_TIME_def split_beta bind_eq_Some_conv split: if_splits)

lemma handleWAIT_inv [inv_intros]:
  assumes "env_ok env" and "world_inv w" and "handleWAIT env stk b dev parameter w = Some (rc, m, w')"
  shows "world_inv w'"
proof -
  have inv: "world_inv (tick w)" using assms(2) by simp
  show ?thesis
    using assms(1,3) inv wait_FB_inv [OF assms(1) inv] wait_TIME_inv [OF assms(1) inv]
    unfolding handleWAIT_def Let_def by (auto split: if_splits)
qed

lemma handleVERIFY_inv [inv_intros]:
  assumes "sm_wait_ok drv" and "world_inv w" and "handleVERIFY drv b dev parameter w = Some (rc, m, w')"
  shows "world_inv w'"
proof -
  have inv: "world_inv (tick w)" using assms(2) by simp
  show ?thesis
    using assms(3) inv set_SM_inv [OF assms(1) inv]
    unfolding handleVERIFY_def by (auto simp: bind_eq_Some_conv Let_def split: if_splits)
qed

lemma term_GL_inv [inv_intros]:
  "world_inv w \<Longrightarrow> term_GL stk sid b parameter w = Some (rc, w') \<Longrightarrow> world_inv w'"
  by (auto simp: term_GL_def Let_def split_beta bind_eq_Some_conv
      intro: cacheTermGL_inv cacheUnlockGL_inv split: if_splits)

lemma term_GA_inv [inv_intros]:
  "world_inv w \<Longrightarrow> term_GA sid b parameter w = Some (rc, w') \<Longrightarrow> world_inv w'"
  by (auto simp: term_GA_def Let_def split_beta bind_eq_Some_conv
      intro: termGA_inv unlockGA_inv split: if_splits)

lemma term_LOCK_inv [inv_intros]:
  "world_inv w \<Longrightarrow> term_LOCK sid b parameter w = Some (rc, w') \<Longrightarrow> world_inv w'"
  by (auto simp: term_LOCK_def Let_def split_beta intro: cacheUnlockGL_inv unlockGA_inv split: if_splits)

lemma term_SESSION_inv [inv_intros]:
  "world_inv w \<Longrightarrow> term_SESSION sid parameter w = Some (rc, w') \<Longrightarrow> world_inv w'"
  by (auto simp: term_SESSION_def Let_def split_beta)

lemma term_device_inv [inv_intros]:
  "sm_wait_ok drv \<Longrightarrow> world_inv w \<Longrightarrow> term_device drv stk sid b dev parameter w = Some (rc, w')
   \<Longrightarrow> world_inv w'"
  unfolding term_device_def
  by (auto intro: term_GL_inv term_GA_inv term_LOCK_inv termPower_inv server_shutdown_inv
      term_SESSION_inv infoSM_inv termTIME_inv split: if_splits)

lemma handleTERM_inv [inv_intros]:
  "sm_wait_ok drv \<Longrightarrow> world_inv w \<Longrightarrow> handleTERM drv stk sid b dev parameter w = Some (rc, m, w')
   \<Longrightarrow> world_inv w'"
  by (auto simp: handleTERM_def bind_eq_Some_conv dest: term_device_inv)

lemma init_device_inv [inv_intros]:
  "sm_wait_ok drv \<Longrightarrow> world_inv w \<Longrightarrow> init_device drv sid b dev parameter w = Some (rc, w')
   \<Longrightarrow> world_inv w'"
  unfolding init_device_def init_GL_cmd_def init_GA_cmd_def init_TIME_cmd_def init_SM_cmd_def Let_def
  by (auto simp: split_beta intro: cacheInitGL_inv initGA_inv initTIME_inv infoSM_inv split: if_splits)

lemma handleINIT_inv [inv_intros]:
  "sm_wait_ok drv \<Longrightarrow> world_inv w \<Longrightarrow> handleINIT drv sid b dev parameter w = Some (rc, m, w')
   \<Longrightarrow> world_inv w'"
  by (auto simp: handleINIT_def bind_eq_Some_conv reply_now_def dest: init_device_inv)

lemma handleRESET_inv [inv_intros]:
  "world_inv w \<Longrightarrow> handleRESET b dev w = Some (rc, m, w') \<Longrightarrow> world_inv w'"
  by (auto simp: handleRESET_def bind_eq_Some_conv reply_now_def dest: server_reset_inv split: if_splits)

lemma dispatch_inv [inv_intros]:
  "sm_wait_ok drv \<Longrightarrow> env_ok env \<Longrightarrow> world_inv w \<Longrightarrow>
   dispatch drv env stk sid c b dev parameter w = Some (rc, m, w') \<Longrightarrow> world_inv w'"
  unfolding dispatch_def handleSET_def
  by (auto intro: handle_setcheck_inv handleGET_inv handleWAIT_inv handleINIT_inv handleTERM_inv
      handleVERIFY_inv handleRESET_inv split: if_splits)

lemma cmd_line_inv [inv_intros]:
  "sm_wait_ok drv \<Longrightarrow> env_ok env \<Longrightarrow> world_inv w \<Longrightarrow>
   cmd_line drv env stk sid line w = Some (rc, m, w') \<Longrightarrow> world_inv w'"
  unfolding cmd_line_def Let_def
  by (auto simp: split_beta reply_now_def intro: dispatch_inv split: if_splits)

lemma doCmdClient_keeps_inv:
  assumes "sm_wait_ok drv" and "env_ok env" and "world_inv w"
    and "doCmdClient drv env stk sid lines w = Some (replies, w')"
  shows "world_inv w'"
  using assms(3,4)
proof (induction lines arbitrary: w replies)
  case (Cons line lines)
  obtain rc reply w1 where c: "cmd_line drv env stk sid line w = Some (rc, reply, w1)"
    using Cons.prems(2) by (auto split: option.splits)
  have "world_inv w1" using cmd_line_inv [OF assms(1,2) Cons.prems(1) c] .
  with Cons c show ?case by (auto split: if_splits option.splits)
qed simp

end
