(* ===== verification/Client_Service.thy ===== *)
theory Client_Service
  imports Srcp_Command_Inv
begin

text \<open>
  A client connection from accept to close: the handshake of \<open>clientservice.c\<close>, in which
  the client chooses its mode and gets its session id, and the end of the thread, which
  removes the session, releases its locks (\<open>stop_session\<close> of \<open>srcp-session.c\<close>) and tells
  the INFO sessions.

  The buffer \<open>p\<close> of the handshake is not cleared before \<open>%1000c\<close> fills a part of it, and
  \<open>%c\<close> writes no NUL: what follows is the argument \<open>junk\<close>.
\<close>

subsection \<open>The handshake\<close>

definition set_mode :: "nat \<Rightarrow> session_mode \<Rightarrow> world \<Rightarrow> world option" where
  "set_mode p m w =
     (case sess_heap w p of None \<Rightarrow> None
      | Some n \<Rightarrow> Some (w\<lparr>sess_heap := (sess_heap w)(p \<mapsto> n\<lparr>n_mode := m\<rparr>)\<rparr>))"

definition hs_set :: "string \<Rightarrow> nat \<Rightarrow> bool \<Rightarrow> string \<Rightarrow> world \<Rightarrow> (int \<times> world) option" where
  "hs_set junk p two parameter w =
     (let (n, vs) = sscanf parameter [Str None, Chs 1000];
          setcmd = strval vs 0;
          q = (if n = 2 then strval vs 1 @ drop (length (strval vs 1)) junk else junk)
      in do {
        (rc, w1) \<leftarrow>
          (if n = 2 \<and> strncasecmp0 setcmd ''CONNECTIONMODE'' 14 then
             if strncasecmp0 q ''SRCP INFO'' 9 then
               map_option (\<lambda>w'. (SRCP_OK_CONNMODE, w')) (set_mode p smInfo w)
             else if strncasecmp0 q ''SRCP COMMAND'' 12 then
               map_option (\<lambda>w'. (SRCP_OK_CONNMODE, w')) (set_mode p smCommand w)
             else Some (SRCP_HS_WRONGCONNMODE, w)
           else Some (SRCP_UNKNOWNCOMMAND, w));
        if two \<and> strncasecmp0 setcmd ''PROTOCOL'' 8 then
          Some (if strncasecmp0 q ''SRCP 0.8'' 8 then SRCP_OK_PROTOCOL else SRCP_HS_WRONGPROTOCOL, w1)
        else Some (rc, w1) })"

text \<open>One line of the handshake: the reply, whether the client said GO, and the new state.\<close>

definition hs_line :: "string \<Rightarrow> nat \<Rightarrow> string \<Rightarrow> world \<Rightarrow> (string \<times> bool \<times> world) option" where
  "hs_line junk p line w =
     (let (n, vs) = sscanf (strip_newline line) [Str None, Chs 1000];
          parameter = (if 2 \<le> n then strval vs 1 else [])
      in if 0 < n \<and> strncasecmp0 (strval vs 0) ''GO'' 2 then do {
           w1 \<leftarrow> register_session p w;
           sn \<leftarrow> sess_heap w1 p;
           w2 \<leftarrow> start_session p (tick w1);
           Some (fmt_time (now w1) @ '' 200 OK GO '' @ dec_nat (n_session sn) @ ''\<newline>'', True, w2) }
         else do {
           (rc, w1) \<leftarrow>
             (if n \<le> 0 then Some (SRCP_HS_NODATA, w)
              else if strncasecmp0 (strval vs 0) ''SET'' 3 then hs_set junk p (n = 2) parameter w
              else Some (SRCP_UNKNOWNCOMMAND, w));
           Some (srcp_fmt_msg rc (now w1), False, tick w1) })"

subsection \<open>The end of a session\<close>

definition stop_session :: "nat \<Rightarrow> world \<Rightarrow> world option" where
  "stop_session sid w = do {
     w1 \<leftarrow> unlock_ga_bysessionid sid (tick w);
     w2 \<leftarrow> unlock_gl_bysessionid sid w1;
     enqueueInfoMessage (fmt_time (now w) @ '' 102 INFO 0 SESSION '' @ dec_nat sid @ ''\<newline>'') w2 }"

definition end_client_thread :: "nat \<Rightarrow> world \<Rightarrow> world option" where
  "end_client_thread p w = do {
     sn \<leftarrow> sess_heap w p;
     w1 \<leftarrow> set_mode p smUndefined w;
     if n_mode sn \<noteq> smUndefined \<and> n_session sn \<noteq> 0 then do {
       w2 \<leftarrow> destroy_session (n_session sn) w1;
       stop_session (n_session sn) w2 }
     else Some w1 }"

subsection \<open>The session list stays healthy\<close>

lemma world_inv_sessI:
  assumes "world_inv w" and "sess_inv w'"
    and "gl w' = gl w" "gl_queue w' = gl_queue w" "ga w' = ga w" "ga_queue w' = ga_queue w"
    and "fb w' = fb w" "fb_queue w' = fb_queue w" "sm_queue w' = sm_queue w"
  shows "world_inv w'"
  using assms by (simp add: world_inv_def gl_inv_def ga_inv_def fb_inv_def sm_inv_def)

lemma create_anonymous_session_inv [inv_intros]:
  assumes "world_inv w" and "create_anonymous_session ok s w = (r, w')"
  shows "world_inv w'"
proof (cases ok)
  case True
  then have w': "w' = w\<lparr>session_list := sess_next w # session_list w, sess_next := sess_next w + 1,
      sess_heap := (sess_heap w)(sess_next w \<mapsto> \<lparr>n_session = 0, n_thread = 0, n_socket = s,
                                   n_mode = smUndefined, n_pipe = None\<rparr>),
      runningsessions := runningsessions w + 1\<rparr>"
    using assms(2) by (simp add: create_anonymous_session_def list_add_def Let_def)
  have inv: "sess_inv w" using assms(1) by (rule world_inv_sess)
  have fresh: "sess_next w \<notin> set (session_list w)" "sess_heap w (sess_next w) = None"
    using inv unfolding sess_inv_def by (metis less_irrefl, metis less_irrefl not_None_eq)
  have "sess_inv w'"
    using inv fresh unfolding w' sess_inv_def
    by (auto simp: less_Suc_eq split: if_splits)
  then show ?thesis by (rule world_inv_sessI [OF assms(1)]) (simp_all add: w')
next
  case False
  with assms show ?thesis by (simp add: create_anonymous_session_def list_add_def)
qed

text \<open>Changing a node but not its id.\<close>

lemma sess_inv_node:
  assumes "sess_inv w" and "sess_heap w p = Some n" and "n_session n' = n_session n"
  shows "sess_inv (w\<lparr>sess_heap := (sess_heap w)(p \<mapsto> n')\<rparr>)"
proof -
  define w' where "w' = w\<lparr>sess_heap := (sess_heap w)(p \<mapsto> n')\<rparr>"
  have f: "session_list w' = session_list w" "runningsessions w' = runningsessions w"
    "sess_next w' = sess_next w" "lastsession w' = lastsession w"
    by (simp_all add: w'_def)
  have old: "\<exists>m'. sess_heap w q = Some m' \<and> n_session m' = n_session m" if "sess_heap w' q = Some m" for q m
    using that assms(2,3) by (auto simp: w'_def split: if_splits)
  note D = sess_invD [OF assms(1)]
  have "sess_inv w'"
  proof (rule sess_invI)
    fix q assume "q \<in> set (session_list w')"
    with D(3) show "sess_heap w' q \<noteq> None" by (simp add: w'_def)
  next
    fix q r m k assume "sess_heap w' q = Some m" "sess_heap w' r = Some k" "n_session m = n_session k"
      "n_session m \<noteq> 0"
    with old [of q m] old [of r k] D(7) show "q = r" by metis
  qed (use D(1,2,4,5,6) old f in metis)+
  then show ?thesis by (simp add: w'_def)
qed

lemma set_mode_inv [inv_intros]:
  assumes "world_inv w" and "set_mode p m w = Some w'"
  shows "world_inv w'"
proof -
  obtain n where n: "sess_heap w p = Some n" and w': "w' = w\<lparr>sess_heap := (sess_heap w)(p \<mapsto> n\<lparr>n_mode := m\<rparr>)\<rparr>"
    using assms(2) by (auto simp: set_mode_def split: option.splits)
  have "sess_inv w'" unfolding w' by (rule sess_inv_node [OF _ n]) (use assms(1) in \<open>simp_all add: world_inv_sess\<close>)
  then show ?thesis by (rule world_inv_sessI [OF assms(1)]) (simp_all add: w')
qed

lemma register_session_inv [inv_intros]:
  assumes "world_inv w" and "register_session p w = Some w'"
  shows "world_inv w'"
proof -
  obtain n where n: "sess_heap w p = Some n"
    and w': "w' = w\<lparr>lastsession := lastsession w + 1, sess_heap := (sess_heap w)(p \<mapsto>
        n\<lparr>n_session := lastsession w + 1,
          n_mode := if n_mode n = smUndefined then smCommand else n_mode n\<rparr>)\<rparr>"
    using assms(2) by (auto simp: register_session_def Let_def split: option.splits)
  note D = sess_invD [OF world_inv_sess [OF assms(1)]]
  have old: "q \<noteq> p \<Longrightarrow> sess_heap w' q = sess_heap w q" for q by (simp add: w')
  have new: "sess_heap w' p = Some m \<Longrightarrow> n_session m = lastsession w + 1" for m by (auto simp: w')
  have f: "session_list w' = session_list w" "runningsessions w' = runningsessions w"
    "sess_next w' = sess_next w" "lastsession w' = lastsession w + 1"
    by (simp_all add: w')
  have "sess_inv w'"
  proof (rule sess_invI)
    show "distinct (session_list w')" "runningsessions w' = int (length (session_list w'))"
      using D(1,2) by (simp_all add: f)
    show "sess_heap w' q \<noteq> None" if "q \<in> set (session_list w')" for q
      using D(3) [of q] that by (simp add: w')
    fix q m assume q: "sess_heap w' q = Some m"
    have "\<exists>m0. sess_heap w q = Some m0" using q n old [of q] by (cases "q = p") auto
    with D(4,5) show "q \<in> set (session_list w')" "q < sess_next w'" by (auto simp: f)
    show "n_session m \<le> lastsession w'" using q new [of m] old [of q] D(6) [of q m]
      by (cases "q = p") (auto simp: f)
    fix r k assume r: "sess_heap w' r = Some k" "n_session m = n_session k" "n_session m \<noteq> 0"
    show "q = r"
    proof (cases "q = p \<or> r = p")
      case True
      have fresh: False if "t \<noteq> p" "sess_heap w' t = Some x" "n_session x = lastsession w + 1" for t x
        using D(6) [of t x] old [OF that(1)] that(2,3) by simp
      show ?thesis
      proof (cases "q = p")
        case True
        then have "n_session k = lastsession w + 1" using new [of m] q r(2) by simp
        with fresh [of r k] r(1) True show ?thesis by auto
      next
        case False
        with \<open>q = p \<or> r = p\<close> have "n_session m = lastsession w + 1" using new [of k] r by simp
        with fresh [OF False q] show ?thesis by auto
      qed
    next
      case False
      with q r D(7) [of q m r k] old show ?thesis by simp
    qed
  qed
  then show ?thesis by (rule world_inv_sessI [OF assms(1)]) (simp_all add: w')
qed

text \<open>Looking a session up finds the node with that id.\<close>

lemma list_search_live:
  assumes "\<And>p. p \<in> set ps \<Longrightarrow> h p \<noteq> None"
  shows "\<exists>r. list_search_session_node h ps sid = Some r \<and>
    (case r of Some p \<Rightarrow> p \<in> set ps \<and> map_option n_session (h p) = Some sid
     | None \<Rightarrow> \<forall>p \<in> set ps. map_option n_session (h p) \<noteq> Some sid)"
  using assms
proof (induction ps)
  case (Cons p ps)
  then obtain n where n: "h p = Some n" by auto
  obtain r where r: "list_search_session_node h ps sid = Some r"
    "case r of Some p \<Rightarrow> p \<in> set ps \<and> map_option n_session (h p) = Some sid
     | None \<Rightarrow> \<forall>p \<in> set ps. map_option n_session (h p) \<noteq> Some sid"
    using Cons by auto
  with n show ?case by (cases "n_session n = sid") (auto split: option.splits)
qed simp

lemma search_session:
  assumes "sess_inv w" and "sess_heap w p = Some n" and "n_session n = sid" and "sid \<noteq> 0"
  shows "list_search_session_node (sess_heap w) (session_list w) sid = Some (Some p)"
proof -
  note D = sess_invD [OF assms(1)]
  obtain r where r: "list_search_session_node (sess_heap w) (session_list w) sid = Some r"
    "case r of Some p \<Rightarrow> p \<in> set (session_list w) \<and> map_option n_session (sess_heap w p) = Some sid
     | None \<Rightarrow> \<forall>p \<in> set (session_list w). map_option n_session (sess_heap w p) \<noteq> Some sid"
    using list_search_live [of "session_list w" "sess_heap w" sid] D(3) by auto
  show ?thesis
  proof (cases r)
    case None
    with r(2) assms(2,3) D(4) [OF assms(2)] show ?thesis by auto
  next
    case (Some q)
    with r(2) obtain m where "sess_heap w q = Some m" "n_session m = sid" by auto
    with D(7) [OF assms(2)] assms(3,4) have "p = q" by auto
    with r(1) Some show ?thesis by simp
  qed
qed

lemma list_remove_inv:
  assumes "sess_inv w" and "sess_heap w p = Some n"
  shows "sess_inv ((list_remove_link p w)\<lparr>runningsessions := runningsessions w - 1\<rparr>)"
    (is "sess_inv ?w'")
proof (rule sess_invI)
  note D = sess_invD [OF assms(1)]
  have mem: "p \<in> set (session_list w)" by (rule D(4) [OF assms(2)])
  have set': "set (session_list ?w') = set (session_list w) - {p}"
    using D(1) by (simp add: list_remove_link_def)
  have old: "sess_heap ?w' q = Some m \<Longrightarrow> q \<noteq> p \<and> sess_heap w q = Some m" for q m
    by (auto simp: list_remove_link_def split: if_splits)
  show "distinct (session_list ?w')" using D(1) by (simp add: list_remove_link_def)
  show "runningsessions ?w' = int (length (session_list ?w'))"
    using D(2) mem length_pos_if_in_set [OF mem]
    by (simp add: list_remove_link_def length_remove1 of_nat_diff Suc_leI)
  show "sess_heap ?w' q \<noteq> None" if "q \<in> set (session_list ?w')" for q
    using that set' D(3) by (auto simp: list_remove_link_def)
  fix q m assume q: "sess_heap ?w' q = Some m"
  note o = old [OF q]
  show "q \<in> set (session_list ?w')" "q < sess_next ?w'" "n_session m \<le> lastsession ?w'"
    using o D(4,5,6) [of q m] set' by (auto simp: list_remove_link_def)
  fix r k assume "sess_heap ?w' r = Some k" "n_session m = n_session k" "n_session m \<noteq> 0"
  with o old [of r k] D(7) show "q = r" by metis
qed

lemma destroy_session_ok:
  assumes "world_inv w" and "sess_heap w p = Some n" and "n_session n = sid" and "sid \<noteq> 0"
  shows "destroy_session sid w = Some ((list_remove_link p w)\<lparr>runningsessions := runningsessions w - 1\<rparr>)"
    and "world_inv ((list_remove_link p w)\<lparr>runningsessions := runningsessions w - 1\<rparr>)"
proof -
  show "destroy_session sid w = Some ((list_remove_link p w)\<lparr>runningsessions := runningsessions w - 1\<rparr>)"
    using search_session [OF world_inv_sess [OF assms(1)] assms(2,3,4)] by (simp add: destroy_session_def)
  show "world_inv ((list_remove_link p w)\<lparr>runningsessions := runningsessions w - 1\<rparr>)"
    by (rule world_inv_sessI [OF assms(1) list_remove_inv [OF world_inv_sess [OF assms(1)] assms(2)]])
      (simp_all add: list_remove_link_def)
qed

lemma stop_session_ok:
  assumes "world_inv w"
  shows "\<exists>w'. stop_session sid w = Some w' \<and> world_inv w'"
proof -
  obtain w1 where w1: "unlock_ga_bysessionid sid (tick w) = Some w1" "world_inv w1"
    using unlock_ga_bysessionid_ok [of "tick w" sid] assms by auto
  obtain w2 where w2: "unlock_gl_bysessionid sid w1 = Some w2" "world_inv w2"
    using unlock_gl_bysessionid_ok [OF w1(2), of sid] by auto
  show ?thesis using w1 w2 by (simp add: stop_session_def info_ok)
qed

text \<open>The end of a client thread is always defined, and leaves a healthy state.\<close>

lemma end_client_thread_ok:
  assumes "world_inv w" and "sess_heap w p = Some sn"
  shows "\<exists>w'. end_client_thread p w = Some w' \<and> world_inv w'"
proof -
  define w1 where "w1 = w\<lparr>sess_heap := (sess_heap w)(p \<mapsto> sn\<lparr>n_mode := smUndefined\<rparr>)\<rparr>"
  have s: "set_mode p smUndefined w = Some w1" using assms(2) by (simp add: set_mode_def w1_def)
  have inv1: "world_inv w1" by (rule set_mode_inv [OF assms(1) s])
  have p1: "sess_heap w1 p = Some (sn\<lparr>n_mode := smUndefined\<rparr>)" by (simp add: w1_def)
  show ?thesis
  proof (cases "n_mode sn \<noteq> smUndefined \<and> n_session sn \<noteq> 0")
    case True
    then have "n_session (sn\<lparr>n_mode := smUndefined\<rparr>) = n_session sn" "n_session sn \<noteq> 0" by simp_all
    note d = destroy_session_ok [OF inv1 p1 this]
    show ?thesis using stop_session_ok [OF d(2), of "n_session sn"] True s d(1) assms(2)
      by (simp add: end_client_thread_def)
  next
    case False
    with s inv1 assms(2) show ?thesis by (auto simp: end_client_thread_def)
  qed
qed

subsection \<open>What a session that ends leaves behind\<close>

lemma info_frame:
  "enqueueInfoMessage msg w = Some w' \<Longrightarrow>
   gl w' = gl w \<and> ga w' = ga w \<and> num_buses w' = num_buses w \<and> session_list w' = session_list w"
  by (auto simp: enqueueInfoMessage_def session_enqueue_info_message_def split: if_splits option.splits)

lemma unlockGA_frame:
  "unlockGA i j sid w = Some (rc, w') \<Longrightarrow>
   gl w' = gl w \<and> num_buses w' = num_buses w \<and> session_list w' = session_list w"
  by (auto simp: unlockGA_def bind_eq_Some_conv dest!: info_frame split: if_splits)
    (simp_all add: set_ga_at_def)

lemma cacheUnlockGL_frame:
  "cacheUnlockGL i j sid w = Some (rc, w') \<Longrightarrow>
   ga w' = ga w \<and> num_buses w' = num_buses w \<and> session_list w' = session_list w"
  by (auto simp: cacheUnlockGL_def bind_eq_Some_conv Let_def dest!: info_frame split: if_splits)

lemma unlock_ga_bysessionid_frame:
  assumes "unlock_ga_bysessionid sid w = Some w'"
  shows "gl w' = gl w \<and> num_buses w' = num_buses w \<and> session_list w' = session_list w"
proof -
  let ?P = "\<lambda>s. gl s = gl w \<and> num_buses s = num_buses w \<and> session_list s = session_list w"
  show ?thesis
    using assms unfolding unlock_ga_bysessionid_def
  proof (rule loopM_preserves [where P = ?P])
    fix i s s' assume "?P s" and l: "loopM (\<lambda>j w. do { g \<leftarrow> ga_ref i j w;
        if a_locked_by g = sid then map_option snd (unlockGA i j sid w) else Some w })
        (addrs (get_number_ga i s)) s = Some s'"
    from l \<open>?P s\<close> show "?P s'"
    proof (rule loopM_preserves [where P = ?P])
      fix j r r' assume "?P r" "(do { g \<leftarrow> ga_ref i j r;
        if a_locked_by g = sid then map_option snd (unlockGA i j sid r) else Some r }) = Some r'"
      then show "?P r'" by (auto simp: bind_eq_Some_conv dest!: unlockGA_frame split: if_splits)
    qed
  qed simp
qed

lemma unlock_gl_bysessionid_frame:
  assumes "unlock_gl_bysessionid sid w = Some w'"
  shows "ga w' = ga w \<and> num_buses w' = num_buses w \<and> session_list w' = session_list w"
proof -
  let ?P = "\<lambda>s. ga s = ga w \<and> num_buses s = num_buses w \<and> session_list s = session_list w"
  show ?thesis
    using assms unfolding unlock_gl_bysessionid_def
  proof (rule loopM_preserves [where P = ?P])
    fix i s s' assume "?P s" and l: "loopM (\<lambda>j w. if gl_locked_by (gl w i) = sid
        then map_option snd (cacheUnlockGL i j sid w) else Some w) (addrs (getMaxAddrGL i s)) s = Some s'"
    from l \<open>?P s\<close> show "?P s'"
    proof (rule loopM_preserves [where P = ?P])
      fix j r r' assume "?P r" "(if gl_locked_by (gl r i) = sid
        then map_option snd (cacheUnlockGL i j sid r) else Some r) = Some r'"
      then show "?P r'" by (auto dest!: cacheUnlockGL_frame split: if_splits)
    qed
  qed simp
qed

lemma stop_session_locks:
  assumes "world_inv w"
  shows "\<exists>w'. stop_session sid w = Some w' \<and> world_inv w' \<and> session_list w' = session_list w \<and>
    (\<forall>b a. b \<in> {1..num_buses w} \<and> int a \<in> {1..get_number_ga b w} \<longrightarrow>
       ga_holder (b, a) w' = (if ga_holder (b, a) w = sid then 0 else ga_holder (b, a) w)) \<and>
    (\<forall>b \<le> num_buses w. gl_holder b w' =
       (if gl_holder b w = sid \<and> (\<exists>j\<in>{1..getMaxAddrGL b w}. isInitializedGL b j w) then 0
        else gl_holder b w))"
proof -
  have inv: "world_inv (tick w)" using assms by simp
  obtain w1 where w1: "unlock_ga_bysessionid sid (tick w) = Some w1" "ga_shape (tick w) w1"
    "ga_lock_view w1 = (\<lambda>d. if d \<in> (\<Union>i\<in>set [1..<Suc (num_buses w)]. {i} \<times> {1..get_number_ga i w})
      then (if fst (ga_lock_view w d) = sid then (0, snd (ga_lock_view w d)) else ga_lock_view w d)
      else ga_lock_view w d)"
    using unlock_ga_bysessionid_view [OF inv, of sid]
    unfolding tick_simps ga_lock_view_frame get_number_ga_frame by blast
  note f1 = unlock_ga_bysessionid_frame [OF w1(1)]
  have inv1: "world_inv w1" using w1(2) by (simp add: ga_shape_def)
  obtain w2 where w2: "unlock_gl_bysessionid sid w1 = Some w2" "gl_shape w1 w2"
    "gl_lock_view w2 = (\<lambda>b. if b \<in> (\<Union>i\<in>set [0..<Suc (num_buses w1)]. {i})
      then (if gl_lock_view w1 b = (sid, True) then (0, True) else gl_lock_view w1 b)
      else gl_lock_view w1 b)"
    using unlock_gl_bysessionid_view [OF inv1, of sid] by blast
  note f2 = unlock_gl_bysessionid_frame [OF w2(1)]
  have inv2: "world_inv w2" using w2(2) by (simp add: gl_shape_def)
  define w' where "w' = broadcast (fmt_time (now w) @ '' 102 INFO 0 SESSION '' @ dec_nat sid @ ''\<newline>'') w2"
  have st: "stop_session sid w = Some w'"
    by (simp add: stop_session_def w1(1) w2(1) w'_def info_ok [OF inv2])
  have ga: "ga_holder (b, a) w' = (if ga_holder (b, a) w = sid then 0 else ga_holder (b, a) w)"
    if "b \<in> {1..num_buses w}" "int a \<in> {1..get_number_ga b w}" for b a
  proof -
    have "b \<in> set [1..<Suc (num_buses w)]" using that(1) by (simp del: upt_Suc add: less_Suc_eq_le)
    then have mem: "(b, int a) \<in> (\<Union>i\<in>set [1..<Suc (num_buses w)]. {i} \<times> {1..get_number_ga i w})"
      using that(2) by (intro UN_I [of b]) simp_all
    have h: "ga_holder (b, a) v = fst (ga_lock_view v (b, int a))" for v
      by (simp add: ga_holder_def ga_lock_view_def Let_def)
    have "ga_lock_view w' = ga_lock_view w1"
      using f2 by (simp add: w'_def) (simp add: ga_lock_view_def fun_eq_iff)
    then have "ga_lock_view w' (b, int a) = (if fst (ga_lock_view w (b, int a)) = sid
        then (0, snd (ga_lock_view w (b, int a))) else ga_lock_view w (b, int a))"
      by (simp only: w1(3) mem if_True)
    then show ?thesis unfolding h by simp
  qed
  have gl: "gl_holder b w' = (if gl_holder b w = sid \<and> (\<exists>j\<in>{1..getMaxAddrGL b w}. isInitializedGL b j w)
      then 0 else gl_holder b w)" if "b \<le> num_buses w" for b
  proof -
    have mem: "b \<in> (\<Union>i\<in>set [0..<Suc (num_buses w1)]. {i})"
      using that f1 by (simp del: upt_Suc add: less_Suc_eq_le)
    have h: "gl_holder b v = fst (gl_lock_view v b)" for v
      by (simp add: gl_holder_def gl_lock_view_def)
    have "gl_lock_view w1 b = gl_lock_view w b"
      using f1 by (simp add: gl_lock_view_def isInitializedGL_def isValidGL_def getMaxAddrGL_def)
    moreover have "gl_lock_view w2 b = (if gl_lock_view w1 b = (sid, True) then (0, True) else gl_lock_view w1 b)"
      by (simp only: w2(3) mem if_True)
    moreover have "gl_holder b w' = fst (gl_lock_view w2 b)"
      by (simp add: w'_def gl_holder_def gl_lock_view_def)
    ultimately show ?thesis by (auto simp: h gl_lock_view_def)
  qed
  have "session_list w' = session_list w" "world_inv w'" using f1 f2 inv2 by (simp_all add: w'_def)
  with st ga gl show ?thesis by blast
qed

text \<open>C5: When the thread of a registered client ends, its node leaves the session list and every
  accessory lock it held, and every locomotive lock it held on a bus with an initialized
  locomotive, is released; the locks of other sessions stay.\<close>

theorem end_client_thread_releases:
  assumes "world_inv w" and "sess_heap w p = Some sn" and "n_mode sn \<noteq> smUndefined" and "n_session sn \<noteq> 0"
  shows "\<exists>w'. end_client_thread p w = Some w' \<and> world_inv w' \<and>
    p \<notin> set (session_list w') \<and> length (session_list w') = length (session_list w) - 1 \<and>
    (\<forall>b a. b \<in> {1..num_buses w} \<and> int a \<in> {1..get_number_ga b w} \<longrightarrow>
       ga_holder (b, a) w' = (if ga_holder (b, a) w = n_session sn then 0 else ga_holder (b, a) w)) \<and>
    (\<forall>b \<le> num_buses w. gl_holder b w' =
       (if gl_holder b w = n_session sn \<and> (\<exists>j\<in>{1..getMaxAddrGL b w}. isInitializedGL b j w) then 0
        else gl_holder b w))"
proof -
  define w1 where "w1 = w\<lparr>sess_heap := (sess_heap w)(p \<mapsto> sn\<lparr>n_mode := smUndefined\<rparr>)\<rparr>"
  have s: "set_mode p smUndefined w = Some w1" using assms(2) by (simp add: set_mode_def w1_def)
  have inv1: "world_inv w1" by (rule set_mode_inv [OF assms(1) s])
  have p1: "sess_heap w1 p = Some (sn\<lparr>n_mode := smUndefined\<rparr>)" by (simp add: w1_def)
  define w2 where "w2 = (list_remove_link p w1)\<lparr>runningsessions := runningsessions w1 - 1\<rparr>"
  have d: "destroy_session (n_session sn) w1 = Some w2" "world_inv w2"
    using destroy_session_ok [OF inv1 p1] assms(4) by (simp_all add: w2_def)
  have e: "end_client_thread p w = stop_session (n_session sn) w2"
    using assms(2-4) s d(1) by (simp add: end_client_thread_def)
  have mem: "p \<in> set (session_list w)" "distinct (session_list w)"
    using sess_invD(1,4) [OF world_inv_sess [OF assms(1)]] assms(2) by blast+
  have l: "session_list w2 = remove1 p (session_list w)"
    by (simp add: w2_def list_remove_link_def w1_def)
  have f: "num_buses w2 = num_buses w" "ga_holder d w2 = ga_holder d w" "get_number_ga b w2 = get_number_ga b w"
    "gl_holder b w2 = gl_holder b w" "getMaxAddrGL b w2 = getMaxAddrGL b w"
    "isInitializedGL b j w2 = isInitializedGL b j w" for b d j
    by (simp_all add: w2_def list_remove_link_def w1_def ga_holder_def get_number_ga_def gl_holder_def
        getMaxAddrGL_def isInitializedGL_def isValidGL_def)
  show ?thesis
    using stop_session_locks [OF d(2), of "n_session sn"] mem
    unfolding e l f by (auto simp: length_remove1)
qed

lemma hs_set_inv:
  "world_inv w \<Longrightarrow> hs_set junk p two parameter w = Some (rc, w') \<Longrightarrow> world_inv w'"
  by (auto simp: hs_set_def Let_def split_beta bind_eq_Some_conv intro: set_mode_inv split: if_splits)

lemma start_session_inv [inv_intros]:
  "world_inv w \<Longrightarrow> start_session p w = Some w' \<Longrightarrow> world_inv w'"
  by (auto simp: start_session_def info_ok split: option.splits)

lemma hs_line_inv [inv_intros]:
  assumes "world_inv w" and "hs_line junk p line w = Some (reply, go, w')"
  shows "world_inv w'"
proof -
  have go: "world_inv w2" if "register_session p w = Some w1" "start_session p (tick w1) = Some w2" for w1 w2
    using start_session_inv [OF _ that(2)] register_session_inv [OF assms(1) that(1)] by simp
  show ?thesis
    using assms go
    by (auto simp: hs_line_def Let_def split_beta bind_eq_Some_conv intro: hs_set_inv split: if_splits)
qed

theorem end_client_thread_releases_witness:
  "\<exists>w'. end_client_thread 1 sample_world = Some w' \<and> world_inv w' \<and> 1 \<notin> set (session_list w')"
proof -
  have "sess_heap sample_world 1 = Some (sample_node 1 smCommand)" by (simp add: sample_world_def)
  from end_client_thread_releases [OF sample_world_inv this] show ?thesis
    by (auto simp: sample_node_def)
qed

subsection \<open>GO\<close>

definition says_go :: "string \<Rightarrow> bool" where
  "says_go line = (let (n, vs) = sscanf (strip_newline line) [Str None, Chs 1000]
     in 0 < n \<and> strncasecmp0 (strval vs 0) ''GO'' 2)"

lemma register_session_fresh:
  assumes "world_inv w" and "sess_heap w p = Some sn"
  shows "\<exists>w1. register_session p w = Some w1 \<and> lastsession w1 = lastsession w + 1 \<and>
    sess_heap w1 = (sess_heap w)(p \<mapsto> sn\<lparr>n_session := lastsession w + 1,
      n_mode := if n_mode sn = smUndefined then smCommand else n_mode sn\<rparr>)"
  using assms by (simp add: register_session_def Let_def)

lemma reply_200: "reply_code (fmt_time t @ '' 200 OK GO '' @ s) = 200"
proof -
  have "fmt_d 200 = ''200''" by (simp add: fmt_d_def dec_nat.simps digit_char_def char_of_def bit_0)
  then show ?thesis using reply_code_of_line [of 200 t "''OK GO '' @ s"] by simp
qed

text \<open>A GO line of a connected client is answered with code 200, registers the client with
  the mode it chose (COMMAND if none) and gives it a session id that no other session has.\<close>

theorem handshake_go:
  assumes "world_inv w" and "sess_heap w p = Some sn" and "says_go line"
  shows "\<exists>reply w' sn'. hs_line junk p line w = Some (reply, True, w') \<and> world_inv w' \<and>
    reply_code reply = 200 \<and> lastsession w' = lastsession w + 1 \<and>
    sess_heap w' p = Some sn' \<and> n_session sn' = lastsession w + 1 \<and>
    n_mode sn' = (if n_mode sn = smUndefined then smCommand else n_mode sn) \<and>
    (\<forall>q m. sess_heap w' q = Some m \<and> n_session m = n_session sn' \<longrightarrow> q = p)"
proof -
  define sn1 where "sn1 = sn\<lparr>n_session := lastsession w + 1,
      n_mode := if n_mode sn = smUndefined then smCommand else n_mode sn\<rparr>"
  obtain w1 where w1: "register_session p w = Some w1" "lastsession w1 = lastsession w + 1"
    "sess_heap w1 = (sess_heap w)(p \<mapsto> sn1)"
    using register_session_fresh [OF assms(1,2)] unfolding sn1_def by blast
  have inv1: "world_inv w1" by (rule register_session_inv [OF assms(1) w1(1)])
  define msg where "msg = fmt_time (now (tick w1)) @ '' 101 INFO 0 SESSION '' @ dec_nat (n_session sn1) @ '' ''
              @ (if n_mode sn1 = smCommand then ''COMMAND'' else ''INFO'') @ ''\<newline>''"
  define w2 where "w2 = broadcast msg (tick (tick w1))"
  have s: "start_session p (tick w1) = Some w2"
    using w1(3) inv1 by (simp add: start_session_def info_ok w2_def msg_def)
  have inv2: "world_inv w2" using inv1 by (simp add: w2_def)
  define reply where "reply = fmt_time (now w1) @ '' 200 OK GO '' @ dec_nat (n_session sn1) @ ''\<newline>''"
  have h: "hs_line junk p line w = Some (reply, True, w2)"
    using assms(3) w1 s by (auto simp: hs_line_def says_go_def Let_def split_beta reply_def)
  have p2: "sess_heap w2 p = Some (deliver msg sn1)" using w1(3) by (simp add: w2_def broadcast_def)
  have "q = p" if q: "sess_heap w2 q = Some m" "n_session m = lastsession w + 1" for q m
    using sess_invD(7) [OF world_inv_sess [OF inv2] q(1) p2] q(2) by (simp add: sn1_def)
  then have u: "\<forall>q m. sess_heap w2 q = Some m \<and> n_session m = n_session (deliver msg sn1) \<longrightarrow> q = p"
    by (simp add: sn1_def)
  have c: "reply_code reply = 200" unfolding reply_def by (rule reply_200)
  have n: "n_session (deliver msg sn1) = lastsession w + 1" "lastsession w2 = lastsession w + 1"
    "n_mode (deliver msg sn1) = (if n_mode sn = smUndefined then smCommand else n_mode sn)"
    using w1(2) by (simp_all add: sn1_def w2_def)
  show ?thesis
    by (rule exI [of _ reply], rule exI [of _ w2], rule exI [of _ "deliver msg sn1"])
      (intro conjI h inv2 c n p2 u)
qed

theorem handshake_go_witness:
  "\<exists>reply w' sn'. hs_line [] 2 ''GO'' sample_world = Some (reply, True, w') \<and> reply_code reply = 200 \<and>
     sess_heap w' 2 = Some sn' \<and> n_session sn' = 3 \<and> n_mode sn' = smInfo"
proof -
  have h: "sess_heap sample_world 2 = Some (sample_node 2 smInfo)" "lastsession sample_world = 2"
    by (simp_all add: sample_world_def)
  have "says_go ''GO''"
    by (simp add: says_go_def sscanf_def strip_newline_def skip_ws_def is_space_def strval_def strncasecmp0_def)
  from handshake_go [OF sample_world_inv h(1) this, of "[]"] h(2) show ?thesis
    by (auto simp: sample_node_def)
qed

end
