(* ===== verification/Info_Client.thy ===== *)
theory Info_Client
  imports Client_Service
begin

text \<open>
  The INFO mode thread \<open>doInfoClient\<close> of \<open>srcp-info.c\<close>: what it sends to a new client, and
  the loop that moves the messages from the session's pipe to the socket.
\<close>

subsection \<open>The start-up dump\<close>

type_synonym 'w dump = "(string list \<times> 'w) option"

definition dump_GL :: "nat \<Rightarrow> int \<Rightarrow> world \<Rightarrow> string list option" where
  "dump_GL b i w =
     (if isInitializedGL b i w then do {
        (_, info) \<leftarrow> cacheInfoGL b i w;
        Some ([snd (cacheDescribeGL b i w), (case info of Some s \<Rightarrow> s | None \<Rightarrow> [])]
          @ (if cacheGetLockGL b i w \<noteq> Some 0 then [snd (describeLOCKGL b i w)] else [])) }
      else Some [])"

definition dump_GA_port :: "nat \<Rightarrow> int \<Rightarrow> int \<Rightarrow> world \<Rightarrow> string list \<times> world" where
  "dump_GA_port b i port w =
     (case infoGA b i port w of (rc, m, w1) \<Rightarrow> (if rc = SRCP_INFO then [m] else [], w1))"

definition dump_GA :: "nat \<Rightarrow> int \<Rightarrow> world \<Rightarrow> (string list \<times> world) option" where
  "dump_GA b i w = do {
     ini \<leftarrow> isInitializedGA b i w;
     if ini then do {
       let d = snd (describeGA b i w);
       let (p0, w1) = dump_GA_port b i 0 w;
       let (p1, w2) = dump_GA_port b i 1 w1;
       lock \<leftarrow> getlockGA b i w2;
       if lock \<noteq> 0 then do {
         (_, l) \<leftarrow> describeLOCKGA b i w2;
         Some ([d] @ p0 @ p1 @ [l], w2) }
       else Some ([d] @ p0 @ p1, w2) }
     else Some ([], w) }"

definition dump_FB :: "nat \<Rightarrow> int \<Rightarrow> world \<Rightarrow> string list" where
  "dump_FB b i w =
     (case getFB b i w of
        (rc, Some (_, v)) \<Rightarrow> if rc = SRCP_OK \<and> v \<noteq> 0 then [snd (infoFB b i w)] else []
      | (_, None) \<Rightarrow> [])"

text \<open>Collecting what a loop sends.\<close>

fun dump_loop :: "('x \<Rightarrow> world \<Rightarrow> (string list \<times> world) option) \<Rightarrow> 'x list \<Rightarrow> world
    \<Rightarrow> (string list \<times> world) option" where
  "dump_loop f [] w = Some ([], w)"
| "dump_loop f (x # xs) w =
     (case f x w of None \<Rightarrow> None
      | Some (ls, w1) \<Rightarrow> map_option (\<lambda>(ms, w2). (ls @ ms, w2)) (dump_loop f xs w1))"

text \<open>The device groups are looked for in the whole description line. A line of length 0 is
  written as well and puts nothing on the wire.\<close>

definition dump_time :: "string \<Rightarrow> world \<Rightarrow> string list \<times> world" where
  "dump_time d w =
     (if strstr0 d ''TIME''
      then (case infoTIME w of (_, m, w1) \<Rightarrow> ([snd (describeTIME w), m], w1)) else ([], w))"

definition dump_devices :: "string \<Rightarrow> nat \<Rightarrow> world \<Rightarrow> (string list \<times> world) option" where
  "dump_devices d b w = do {
     (gls, w1) \<leftarrow> (if strstr0 d ''GL''
        then dump_loop (\<lambda>i w. map_option (\<lambda>ls. (ls, w)) (dump_GL b i w)) (addrs (getMaxAddrGL b w)) w
        else Some ([], w));
     (gas, w2) \<leftarrow> (if strstr0 d ''GA'' then dump_loop (dump_GA b) (addrs (get_number_ga b w1)) w1
        else Some ([], w1));
     (fbs, w3) \<leftarrow> (if strstr0 d ''FB''
        then dump_loop (\<lambda>i w. Some (dump_FB b i w, w)) (addrs (get_number_fb b w2)) w2
        else Some ([], w2));
     Some (gls @ gas @ fbs, w3) }"

definition dump_bus :: "nat \<Rightarrow> world \<Rightarrow> (string list \<times> world) option" where
  "dump_bus b w = do {
     let d = snd (describeBus b w);
     let pw = (if strstr0 d ''POWER'' then [snd (infoPower b w)] else []);
     let (tm, w1) = dump_time d w;
     (devs, w2) \<leftarrow> dump_devices d b w1;
     Some ([d] @ pw @ tm @ devs, w2) }"

definition info_dump :: "world \<Rightarrow> (string list \<times> world) option" where
  "info_dump w = dump_loop dump_bus [0..<Suc (num_buses w)] w"

subsection \<open>From the pipe to the socket\<close>

text \<open>The bytes in the read buffer, cut at the NULs: the messages and what follows the last
  NUL.\<close>

definition NUL :: char where "NUL = CHR 0x00"

fun split_nul :: "string \<Rightarrow> string \<Rightarrow> string list \<times> string" where
  "split_nul acc [] = ([], acc)"
| "split_nul acc (c # cs) =
     (if c = NUL then (case split_nul [] cs of (ms, r) \<Rightarrow> (acc # ms, r)) else split_nul (acc @ [c]) cs)"

text \<open>The inner loop writes the messages one by one. \<open>passed\<close> (\<open>total\<close> in the code) counts the bytes of the buffer it
  has passed; it stops at the truncated message (\<open>trunc\<close>: there is one, and it comes after the
  last of \<open>ms\<close>), or when \<open>passed\<close> has reached \<open>got\<close>, the number of bytes the last \<open>read\<close>
  returned, or after an empty message. The result: what was written, whether the loop broke
  off at the truncated message (which is then moved to the front), and the length of the last
  message, 0 being taken for a closed connection.\<close>

fun send_loop :: "bool \<Rightarrow> nat \<Rightarrow> nat \<Rightarrow> string list \<Rightarrow> string list \<times> bool \<times> nat" where
  "send_loop trunc got passed [] = ([], False, 0)"
| "send_loop trunc got passed (m # ms) =
     (let passed = passed + length m + 1 in
      if trunc \<and> ms = [] then ([m], True, length m)
      else if passed < got \<and> 0 < length m
      then (case send_loop trunc got passed ms of (s, mv, l) \<Rightarrow> (m # s, mv, l))
      else ([m], False, length m))"

text \<open>One turn of the middle loop: \<open>carry\<close> are the bytes at the front of the buffer of 2048
  bytes, \<open>got\<close> the bytes read after them. The result: what was written, whether the thread
  goes on, and the new front when there is a truncated message (\<open>None\<close>: the loop ends). If
  the truncated message was not moved, the front keeps the old bytes. A buffer that is not
  full and does not end with a NUL has stale bytes after it, and a full one without a NUL
  is read past its end: no defined result.\<close>

definition pump_read :: "string \<Rightarrow> string \<Rightarrow> (string list \<times> bool \<times> string option) option" where
  "pump_read carry got =
     (let buf = carry @ got; (ms, r) = split_nul [] buf;
          (sent, moved, l) = send_loop (r \<noteq> []) (length got) 0 ms
      in if ms = [] \<or> (r \<noteq> [] \<and> length buf \<noteq> 2048) then None
         else Some (sent, l \<noteq> 0,
                if r = [] then None else if moved then Some r else Some (take (length r) buf)))"

text \<open>The loop over the bytes \<open>inp\<close> that are in the pipe: each \<open>read\<close> takes what fits. It
  returns what was written to the socket and whether the thread is still alive.\<close>

function pump :: "string \<Rightarrow> string \<Rightarrow> (string list \<times> bool) option" where
  "pump carry inp =
     (if inp = [] \<or> 2048 \<le> length carry then (if carry = [] then Some ([], True) else None)
      else
        (case pump_read carry (take (2048 - length carry) inp) of
           None \<Rightarrow> None
         | Some (sent, ok, c) \<Rightarrow>
             if \<not> ok then Some (sent, False)
             else map_option (\<lambda>(s, a). (sent @ s, a))
                    (pump (case c of Some r \<Rightarrow> r | None \<Rightarrow> []) (drop (2048 - length carry) inp))))"
  by pat_completeness auto
termination
proof (relation "measure (\<lambda>(carry, inp). length inp)", goal_cases)
  case (2 carry inp)
  then have "0 < length inp" "length carry < 2048" by auto
  then have "length inp + length carry - 2048 < length inp" by linarith
  then show ?case by simp
qed simp

declare pump.simps [simp del]

subsection \<open>What reaches the socket\<close>

definition pipe_bytes :: "string list \<Rightarrow> string" where
  "pipe_bytes ms = concat (map (\<lambda>m. m @ [NUL]) ms)"

definition plain_msg :: "string \<Rightarrow> bool" where
  "plain_msg m \<longleftrightarrow> m \<noteq> [] \<and> NUL \<notin> set m"

lemma split_nul_msg: "NUL \<notin> set m \<Longrightarrow> split_nul acc (m @ NUL # cs) =
  (case split_nul [] cs of (ms, r) \<Rightarrow> ((acc @ m) # ms, r))"
  by (induction m arbitrary: acc) auto

lemma split_nul_tail: "NUL \<notin> set r \<Longrightarrow> split_nul acc r = ([], acc @ r)"
  by (induction r arbitrary: acc) auto

lemma split_nul_pipe:
  "\<forall>m \<in> set ms. NUL \<notin> set m \<Longrightarrow> NUL \<notin> set r \<Longrightarrow> split_nul [] (pipe_bytes ms @ r) = (ms, r)"
  by (induction ms) (auto simp: pipe_bytes_def split_nul_msg split_nul_tail)

lemma length_pipe_Cons [simp]: "length (pipe_bytes (m # ms)) = length m + 1 + length (pipe_bytes ms)"
  by (simp add: pipe_bytes_def)

lemma pipe_bytes_Nil [simp]: "pipe_bytes [] = []"
  by (simp add: pipe_bytes_def)

text \<open>Without a carried front, every message in the buffer is written, in order.\<close>

lemma send_loop_all:
  assumes "\<forall>m \<in> set ms. m \<noteq> []" and "ms \<noteq> []" and "passed + length (pipe_bytes ms) \<le> got"
    and "tr \<or> passed + length (pipe_bytes ms) = got"
  shows "send_loop tr got passed ms = (ms, tr, length (last ms))"
  using assms
proof (induction ms arbitrary: passed)
  case (Cons m ms)
  show ?case
  proof (cases "ms = []")
    case True
    with Cons.prems show ?thesis by auto
  next
    case False
    then obtain m' ms' where ms: "ms = m' # ms'" by (cases ms) auto
    have "send_loop tr got (passed + length m + 1) ms = (ms, tr, length (last ms))"
      using Cons.prems False by (intro Cons.IH) auto
    moreover have "passed + length m + 1 < got" using Cons.prems(3) by (simp add: ms)
    ultimately show ?thesis using Cons.prems False by (simp add: Let_def)
  qed
qed simp

lemma pump_read_fresh:
  assumes "\<forall>m \<in> set ms. plain_msg m" and "ms \<noteq> []" and "NUL \<notin> set r"
    and "r = [] \<or> length (pipe_bytes ms @ r) = 2048"
  shows "pump_read [] (pipe_bytes ms @ r) = Some (ms, True, if r = [] then None else Some r)"
proof -
  have s: "split_nul [] (pipe_bytes ms @ r) = (ms, r)"
    using assms(1,3) by (intro split_nul_pipe) (auto simp: plain_msg_def)
  have l: "send_loop (r \<noteq> []) (length (pipe_bytes ms @ r)) 0 ms = (ms, r \<noteq> [], length (last ms))"
    using assms(1,2) by (intro send_loop_all) (auto simp: plain_msg_def)
  have "last ms \<noteq> []" using assms(1,2) by (auto simp: plain_msg_def)
  then show ?thesis using assms(2,4) by (auto simp: pump_read_def s l [simplified])
qed

text \<open>C39: The INFO thread writes every message of the pipe to the socket, complete and in order,
  as long as they fit its buffer.\<close>

theorem pump_delivers:
  assumes "\<forall>m \<in> set ms. plain_msg m" and "length (pipe_bytes ms) \<le> 2048"
  shows "pump [] (pipe_bytes ms) = Some (ms, True)"
proof (cases "ms = []")
  case True
  then show ?thesis by (subst pump.simps) simp
next
  case False
  then have ne: "pipe_bytes ms \<noteq> []" by (cases ms) (simp_all add: pipe_bytes_def)
  have "pump_read [] (pipe_bytes ms) = Some (ms, True, None)"
    using pump_read_fresh [OF assms(1) False, of "[]"] by simp
  moreover have "pump [] [] = Some ([], True)" by (subst pump.simps) simp
  ultimately show ?thesis using ne assms(2) by (subst pump.simps) simp
qed

theorem pump_delivers_witness: "pump [] (pipe_bytes [''100 INFO'', ''101 INFO'']) = Some ([''100 INFO'', ''101 INFO''], True)"
  using pump_delivers [of "[''100 INFO'', ''101 INFO'']"] by (simp add: plain_msg_def NUL_def pipe_bytes_def)

text \<open>With a carried front that is at least as long as what was read, only the first message
  is written.\<close>

text \<open>When the bytes of a truncated message carried over from the last read are at least as
  long as what was read, only the first message of the buffer is written; the others are lost.\<close>

theorem pump_read_carry:
  assumes "plain_msg m" and "\<forall>k \<in> set ms. plain_msg k" and "carry @ got = pipe_bytes (m # ms)"
    and "length got \<le> length m + 1" and "ms \<noteq> []"
  shows "pump_read carry got = Some ([m], True, None)"
proof -
  have "split_nul [] (pipe_bytes (m # ms) @ []) = (m # ms, [])"
    using assms(1,2) by (intro split_nul_pipe) (auto simp: plain_msg_def)
  then show ?thesis using assms by (simp add: pump_read_def Let_def plain_msg_def)
qed

theorem pump_read_carry_witness:
  "pump_read ''100 IN'' (''FO'' @ [NUL] @ ''x'' @ [NUL]) = Some ([''100 INFO''], True, None)"
  using pump_read_carry [of "''100 INFO''" "[''x'']" "''100 IN''" "''FO'' @ [NUL] @ ''x'' @ [NUL]"]
  by (simp add: plain_msg_def NUL_def pipe_bytes_def)

end
