(* ===== verification/Dcc_Translate.thy ===== *)
theory Dcc_Translate
  imports Main "HOL-Library.Word" "HOL-Library.While_Combinator"
begin

text \<open>
  The translation of a DCC bit stream into bytes for the serial line, \<open>ddl_nmra.c\<close>: the table
  \<open>TranslateData_v3\<close> and \<open>translateBitstream2Packetstream_v3\<close>, the default version. The
  UART sends each byte as a start bit 0, the data bits (least significant first) and a stop
  bit 1; one serial bit takes 52 microseconds. On the track a DCC 1 is two half waves of one
  serial bit each, a DCC 0 two half waves of at least two serial bits.

  \<open>dcc_receive\<close> is that reading of the line, written independently of the table: it measures
  the runs of equal serial bits and pairs the half waves. The property is that it reads the
  bit stream back from the bytes the translation returns.

  A bit stream, in the code a string of \<open>'0'\<close> and \<open>'1'\<close>, is a list of booleans. The two
  variables that only serve a log message (\<open>last_restart\<close>) are left out.
\<close>

type_synonym bits = "bool list"

subsection \<open>The line\<close>

definition uart :: "nat \<Rightarrow> bool list" where
  "uart b = False # map (\<lambda>i. odd (b div 2 ^ i)) [0..<8] @ [True]"

definition wave :: "nat list \<Rightarrow> bool list" where
  "wave bs = concat (map uart bs)"

text \<open>The half waves: for each run of equal serial bits, whether it is one serial bit long.\<close>

fun halves_from :: "bool \<Rightarrow> nat \<Rightarrow> bool list \<Rightarrow> bool list" where
  "halves_from v n [] = [n = 1]"
| "halves_from v n (x # xs) =
     (if x = v then halves_from v (n + 1) xs else (n = 1) # halves_from x 1 xs)"

fun halves :: "bool list \<Rightarrow> bool list" where
  "halves [] = []"
| "halves (x # xs) = halves_from x 1 xs"

fun pair_halves :: "bool list \<Rightarrow> bits option" where
  "pair_halves (x # y # hs) = (if x = y then map_option (\<lambda>bs. x # bs) (pair_halves hs) else None)"
| "pair_halves _ = Some []"

text \<open>The receiver: the first half wave is the second half of a bit whose start it has missed,
  an unpaired half wave at the end belongs to a bit that is not over.\<close>

definition dcc_receive :: "bool list \<Rightarrow> bits option" where
  "dcc_receive w = pair_halves (tl (halves w))"

subsection \<open>The table\<close>

definition PKTSIZE :: nat where "PKTSIZE = 80"

definition TranslateData_v3 :: "((nat \<times> nat) \<times> (nat \<times> nat)) list" where
  "TranslateData_v3 =
     (let ll = 0xf0; lLl = 0xcc; lHl = 0xe8; lHLl = 0x9a; lLHl = 0xa6; lHHl = 0xd4;
          lLh = 0x1c; lHh = 0x40; lLHh = 0x4c; lHLh = 0x34; lHHh = 0x50; lHHHh = 0x54;
          hLh = 0x0f; hHLh = 0x1d; hLHh = 0x47; hHHLh = 0x35; hHLHh = 0x4d; hLHHh = 0x53;
          hHHHHh = 0x55; hl = 0xff; hLl = 0xc7; hHl = 0xfd; hHLl = 0xcd; hLHl = 0xd3;
          hHHl = 0xf5; hHHHl = 0xd5
      in [((lLl, 2), (ll, 1)), ((lLl, 2), (ll, 1)), ((lLl, 2), (ll, 1)), ((lLl, 2), (ll, 1)),
          ((lLHl, 3), (lLh, 2)), ((lLHl, 3), (lLh, 2)), ((lLHh, 3), (lLh, 2)), ((lLHh, 3), (lLh, 2)),
          ((lHLl, 3), (lHl, 2)), ((lHLl, 3), (lHl, 2)), ((lHLh, 3), (lHl, 2)), ((lHLh, 3), (lHl, 2)),
          ((lHHl, 3), (lHh, 2)), ((lHHl, 3), (lHh, 2)), ((lHHh, 3), (lHh, 2)), ((lHHHh, 4), (lHHh, 3)),
          ((hLl, 2), (hl, 1)), ((hLl, 2), (hl, 1)), ((hLl, 2), (hl, 1)), ((hLl, 2), (hl, 1)),
          ((hLHl, 3), (hLh, 2)), ((hLHl, 3), (hLh, 2)), ((hLHh, 3), (hLh, 2)), ((hLHHh, 4), (hLHh, 3)),
          ((hHLl, 3), (hHl, 2)), ((hHLl, 3), (hHl, 2)), ((hHLh, 3), (hHl, 2)), ((hHLHh, 4), (hHLh, 3)),
          ((hHHl, 3), (hHHl, 3)), ((hHHLh, 4), (hHHl, 3)), ((hHHHl, 4), (hHHHl, 4)), ((hHHHHh, 5), (hHHHHh, 5))])"

definition v3_entry :: "nat \<Rightarrow> bool \<Rightarrow> nat \<times> nat" where
  "v3_entry six second_try =
     (let row = TranslateData_v3 ! (six div 2) in if second_try then snd row else fst row)"

definition read_next_six_bits :: "bits \<Rightarrow> nat" where
  "read_next_six_bits b = foldl (\<lambda>n x. 2 * n + (if x then 1 else 0)) 0 (take 6 b)"

subsection \<open>The translation\<close>

record v3_state =
  read_ptr :: nat
  restart_read :: nat
  restart_packet :: nat
  generate_packet :: nat
  packetstream :: "nat list"

definition v3_init :: v3_state where
  "v3_init = \<lparr>read_ptr = 0, restart_read = 0, restart_packet = 0, generate_packet = 0,
     packetstream = replicate PKTSIZE 0\<rparr>"

text \<open>One pass of the loop; \<open>second_try\<close> is set and cleared within it.\<close>

definition v3_emit :: "bits \<Rightarrow> bool \<Rightarrow> v3_state \<Rightarrow> v3_state" where
  "v3_emit buf second_try s =
     (let six = read_next_six_bits (drop (read_ptr s) buf); (v, n) = v3_entry six second_try;
          s1 = s\<lparr>packetstream := (packetstream s)[generate_packet s := v]\<rparr>;
          s2 = (if six < 62 then s1\<lparr>restart_packet := generate_packet s, restart_read := read_ptr s\<rparr>
                else s1)
      in s2\<lparr>read_ptr := read_ptr s + n, generate_packet := generate_packet s + 1\<rparr>)"

definition v3_step :: "bits \<Rightarrow> v3_state \<Rightarrow> v3_state" where
  "v3_step buf s =
     (if read_next_six_bits (drop (read_ptr s) buf) = 62
      then v3_emit buf True (s\<lparr>generate_packet := restart_packet s, read_ptr := restart_read s\<rparr>)
      else v3_emit buf False s)"

definition v3_buffer :: "bits \<Rightarrow> bits" where
  "v3_buffer bs = [True, True] @ take 999 bs @ replicate 6 True"

definition v3_end :: "bits \<Rightarrow> nat" where
  "v3_end bs = 2 + length (take 999 bs)"

definition translateBitstream2Packetstream_v3 :: "bits \<Rightarrow> nat list option" where
  "translateBitstream2Packetstream_v3 bs =
     map_option (\<lambda>s. take (generate_packet s) (packetstream s))
       (while_option (\<lambda>s. generate_packet s < PKTSIZE \<and> read_ptr s < v3_end bs)
          (v3_step (v3_buffer bs)) v3_init)"

subsection \<open>Every entry of the table sends the bits it stands for\<close>

definition dup :: "bits \<Rightarrow> bits" where
  "dup bs = concat (map (\<lambda>b. [b, b]) bs)"

lemma dup_simps [simp]: "dup [] = []" "dup (b # bs) = b # b # dup bs" "dup (xs @ ys) = dup xs @ dup ys"
  by (simp_all add: dup_def)

text \<open>The first half of the entry's wave is the second half of its first bit, and it ends with
  the first half of the bit that follows.\<close>

definition entry_sends :: "nat \<Rightarrow> bits \<Rightarrow> nat \<Rightarrow> bool" where
  "entry_sends v bs n \<longleftrightarrow>
     halves (uart v) = bs ! 0 # dup (take (n - 1) (tl bs)) @ [bs ! n] \<and> 1 \<le> n \<and> n \<le> 5"

lemma wave_values [simp]:
  "halves (uart 240) = [False, False]"
  "halves (uart 204) = [False, False, False, False]"
  "halves (uart 232) = [False, True, True, False]"
  "halves (uart 154) = [False, True, True, False, False, False]"
  "halves (uart 166) = [False, False, False, True, True, False]"
  "halves (uart 212) = [False, True, True, True, True, False]"
  "halves (uart 28) = [False, False, False, True]"
  "halves (uart 64) = [False, True, True, True]"
  "halves (uart 76) = [False, False, False, True, True, True]"
  "halves (uart 52) = [False, True, True, False, False, True]"
  "halves (uart 80) = [False, True, True, True, True, True]"
  "halves (uart 84) = [False, True, True, True, True, True, True, True]"
  "halves (uart 15) = [True, False, False, True]"
  "halves (uart 29) = [True, True, True, False, False, True]"
  "halves (uart 71) = [True, False, False, True, True, True]"
  "halves (uart 53) = [True, True, True, True, True, False, False, True]"
  "halves (uart 77) = [True, True, True, False, False, True, True, True]"
  "halves (uart 83) = [True, False, False, True, True, True, True, True]"
  "halves (uart 85) = [True, True, True, True, True, True, True, True, True, True]"
  "halves (uart 255) = [True, False]"
  "halves (uart 199) = [True, False, False, False]"
  "halves (uart 253) = [True, True, True, False]"
  "halves (uart 205) = [True, True, True, False, False, False]"
  "halves (uart 211) = [True, False, False, True, True, False]"
  "halves (uart 245) = [True, True, True, True, True, False]"
  "halves (uart 213) = [True, True, True, True, True, True, True, False]"
  by (simp_all add: uart_def upt_rec)

lemma table_rows:
  "TranslateData_v3 ! 0 = ((204, 2), (240, Suc 0))"
  "TranslateData_v3 ! Suc 0 = ((204, 2), (240, Suc 0))"
  "TranslateData_v3 ! 2 = ((204, 2), (240, Suc 0))"
  "TranslateData_v3 ! 3 = ((204, 2), (240, Suc 0))"
  "TranslateData_v3 ! 4 = ((166, 3), (28, 2))"
  "TranslateData_v3 ! 5 = ((166, 3), (28, 2))"
  "TranslateData_v3 ! 6 = ((76, 3), (28, 2))"
  "TranslateData_v3 ! 7 = ((76, 3), (28, 2))"
  "TranslateData_v3 ! 8 = ((154, 3), (232, 2))"
  "TranslateData_v3 ! 9 = ((154, 3), (232, 2))"
  "TranslateData_v3 ! 10 = ((52, 3), (232, 2))"
  "TranslateData_v3 ! 11 = ((52, 3), (232, 2))"
  "TranslateData_v3 ! 12 = ((212, 3), (64, 2))"
  "TranslateData_v3 ! 13 = ((212, 3), (64, 2))"
  "TranslateData_v3 ! 14 = ((80, 3), (64, 2))"
  "TranslateData_v3 ! 15 = ((84, 4), (80, 3))"
  "TranslateData_v3 ! 16 = ((199, 2), (255, Suc 0))"
  "TranslateData_v3 ! 17 = ((199, 2), (255, Suc 0))"
  "TranslateData_v3 ! 18 = ((199, 2), (255, Suc 0))"
  "TranslateData_v3 ! 19 = ((199, 2), (255, Suc 0))"
  "TranslateData_v3 ! 20 = ((211, 3), (15, 2))"
  "TranslateData_v3 ! 21 = ((211, 3), (15, 2))"
  "TranslateData_v3 ! 22 = ((71, 3), (15, 2))"
  "TranslateData_v3 ! 23 = ((83, 4), (71, 3))"
  "TranslateData_v3 ! 24 = ((205, 3), (253, 2))"
  "TranslateData_v3 ! 25 = ((205, 3), (253, 2))"
  "TranslateData_v3 ! 26 = ((29, 3), (253, 2))"
  "TranslateData_v3 ! 27 = ((77, 4), (29, 3))"
  "TranslateData_v3 ! 28 = ((245, 3), (245, 3))"
  "TranslateData_v3 ! 29 = ((53, 4), (245, 3))"
  "TranslateData_v3 ! 30 = ((213, 4), (213, 4))"
  "TranslateData_v3 ! 31 = ((85, 5), (85, 5))"
  by (simp_all add: TranslateData_v3_def)

lemma entries_send:
  assumes "read_next_six_bits [b0, b1, b2, b3, b4, b5] \<noteq> 62"
    and "v3_entry (read_next_six_bits [b0, b1, b2, b3, b4, b5]) second = (v, n)"
  shows "entry_sends v [b0, b1, b2, b3, b4, b5] n"
  using assms
  by (cases b0; cases b1; cases b2; cases b3; cases b4; cases b5; cases second)
    (simp_all add: read_next_six_bits_def v3_entry_def table_rows entry_sends_def)

subsection \<open>Half waves of concatenated waves\<close>

lemma halves_from_append:
  "halves_from v n (xs @ [y] @ zs) =
     (if zs = [] then halves_from v n (xs @ [y])
      else if hd zs = y then halves_from v n (xs @ [y] @ zs)
      else halves_from v n (xs @ [y]) @ halves zs)"
proof (cases zs)
  case (Cons z zs')
  have "z \<noteq> y \<Longrightarrow> halves_from v n (xs @ [y] @ z # zs') = halves_from v n (xs @ [y]) @ halves_from z 1 zs'"
    by (induction v n xs rule: halves_from.induct) auto
  with Cons show ?thesis by simp
qed simp

text \<open>A byte starts with a start bit and ends with a stop bit.\<close>

lemma uart_ends: "\<exists>xs. uart b = False # xs @ [True]"
  by (simp add: uart_def)

lemma halves_uart_append: "halves (uart b @ uart c @ ws) = halves (uart b) @ halves (uart c @ ws)"
proof -
  obtain xs ys where u: "uart b = False # xs @ [True]" "uart c = False # ys @ [True]"
    using uart_ends by blast
  show ?thesis
    using halves_from_append [of False 1 xs True "uart c @ ws"] by (simp add: u)
qed

lemma halves_wave: "halves (wave bs) = concat (map (\<lambda>b. halves (uart b)) bs)"
proof (induction bs)
  case (Cons b bs)
  show ?case
  proof (cases bs)
    case Nil
    then show ?thesis by (simp add: wave_def)
  next
    case (Cons c cs)
    with halves_uart_append [of b c "wave cs"] Cons.IH show ?thesis by (simp add: wave_def)
  qed
qed (simp add: wave_def)

lemma pair_halves_dup: "pair_halves (dup bs @ [b]) = Some bs"
  by (induction bs) auto

subsection \<open>What has been sent matches what has been read\<close>

text \<open>The first \<open>g\<close> bytes send the bits before position \<open>r\<close>, up to the first half of bit \<open>r\<close>.\<close>

definition sent :: "bits \<Rightarrow> nat list \<Rightarrow> nat \<Rightarrow> nat \<Rightarrow> bool" where
  "sent B out g r \<longleftrightarrow> g \<le> length out \<and> r < length B \<and>
     B ! 0 # halves (wave (take g out)) @ [B ! r] = dup (take (r + 1) B)"

lemma sent_init: "B \<noteq> [] \<Longrightarrow> sent B out 0 0"
  by (cases B) (simp_all add: sent_def wave_def)

lemma sent_list_update: "sent B (out[i := v]) g r = sent B out g r" if "g \<le> i"
  using that by (simp add: sent_def)

text \<open>The six bits at a position.\<close>

lemma six_at:
  assumes "r + 6 \<le> length B"
  shows "take 6 (drop r B) = [B ! r, B ! (r + 1), B ! (r + 2), B ! (r + 3), B ! (r + 4), B ! (r + 5)]"
  by (rule nth_equalityI) (use assms in \<open>auto simp: nth_Cons' less_Suc_eq numeral_eq_Suc\<close>)

definition six :: "bits \<Rightarrow> nat \<Rightarrow> nat" where
  "six B r = read_next_six_bits (drop r B)"

lemma six_eq:
  "r + 6 \<le> length B \<Longrightarrow>
   six B r = read_next_six_bits [B ! r, B ! (r + 1), B ! (r + 2), B ! (r + 3), B ! (r + 4), B ! (r + 5)]"
  using six_at [of r B] by (simp add: six_def read_next_six_bits_def)

lemma sent_step:
  assumes "sent B out g r" and "r + 6 \<le> length B" and "six B r \<noteq> 62"
    and "v3_entry (six B r) second = (v, n)" and "g < length out"
  shows "sent B (out[g := v]) (g + 1) (r + n)" and "1 \<le> n" and "n \<le> 5"
proof -
  let ?bs = "[B ! r, B ! (r + 1), B ! (r + 2), B ! (r + 3), B ! (r + 4), B ! (r + 5)]"
  have e: "entry_sends v ?bs n"
    using assms(3,4) six_eq [OF assms(2)] by (intro entries_send [of _ _ _ _ _ _ second]) simp_all
  then show n: "1 \<le> n" "n \<le> 5" by (simp_all add: entry_sends_def)
  have bs: "?bs ! i = B ! (r + i)" if "i \<le> 5" for i
    using six_at [OF assms(2)] nth_take [of i 6 "drop r B"] that assms(2) by simp
  have h: "halves (uart v) = B ! r # dup (take (n - 1) (tl ?bs)) @ [B ! (r + n)]"
    using e bs [OF n(2)] by (simp add: entry_sends_def)
  have mid: "take (n - 1) (tl ?bs) = take (n - 1) (drop (r + 1) B)"
  proof -
    have "tl ?bs = take 5 (drop (r + 1) B)"
      using arg_cong [OF six_at [OF assms(2)], of tl] by (simp add: tl_take tl_drop drop_Suc)
    then show ?thesis using n by (simp add: min_def)
  qed
  have tk: "take (r + n + 1) B = take (r + 1) B @ take (n - 1) (drop (r + 1) B) @ [B ! (r + n)]"
  proof -
    have "take (r + n + 1) B = take (r + n) B @ [B ! (r + n)]"
      using assms(2) n by (simp add: take_Suc_conv_app_nth)
    moreover have "take (r + n) B = take (r + 1) B @ take (n - 1) (drop (r + 1) B)"
      using n take_add [of "r + 1" "n - 1" B] by simp
    ultimately show ?thesis by simp
  qed
  have w: "wave (take (g + 1) (out[g := v])) = wave (take g out) @ uart v"
    using assms(5) by (simp add: wave_def take_Suc_conv_app_nth)
  have hw: "halves (wave (take (g + 1) (out[g := v]))) = halves (wave (take g out)) @ halves (uart v)"
  proof -
    have "take (g + 1) (out[g := v]) = take g out @ [v]"
      using assms(5) by (simp add: take_Suc_conv_app_nth)
    then show ?thesis by (simp add: halves_wave)
  qed
  have old: "B ! 0 # halves (wave (take g out)) @ [B ! r] = dup (take (r + 1) B)"
    using assms(1) by (simp add: sent_def)
  have "B ! 0 # halves (wave (take (g + 1) (out[g := v]))) @ [B ! (r + n)] = dup (take (r + n + 1) B)"
    unfolding hw h mid tk dup_simps(3) old [symmetric] by simp
  then show "sent B (out[g := v]) (g + 1) (r + n)"
    using assms(1,2,5) n by (simp add: sent_def)
qed

subsection \<open>The loop ends\<close>

text \<open>A pass fails when the next six bits are 111110. Whether the entries lead there depends on
  the run of ones they are in: they advance by five inside it, so they fail at its end if the
  distance to it is a multiple of five. A restart enters the same run one bit earlier. The
  ghost value \<open>Z\<close> is the end of the last run that made a pass fail; it only grows.\<close>

definition ones :: "bits \<Rightarrow> nat \<Rightarrow> nat \<Rightarrow> bool" where
  "ones B i j \<longleftrightarrow> (\<forall>k. i \<le> k \<and> k < j \<longrightarrow> B ! k)"

definition in_run :: "bits \<Rightarrow> nat \<Rightarrow> nat \<Rightarrow> bool" where
  "in_run B r Z \<longleftrightarrow> Z \<le> r \<or> (r < Z \<and> ones B r Z \<and> (Z - r) mod 5 \<noteq> 0)
     \<or> (\<not> B ! r \<and> r + 1 < Z \<and> ones B (r + 1) Z \<and> (Z - (r + 1)) mod 5 = 0)"

lemma entry_steps:
  fixes b0 b1 b2 b3 b4 b5 :: bool
  defines "x \<equiv> read_next_six_bits [b0, b1, b2, b3, b4, b5]"
  shows "\<not> b0 \<Longrightarrow> b1 \<Longrightarrow> b2 \<Longrightarrow> b3 \<Longrightarrow> b4 \<Longrightarrow> b5 \<Longrightarrow> snd (v3_entry x False) = 4"
    and "b0 \<Longrightarrow> b1 \<Longrightarrow> b2 \<Longrightarrow> b3 \<Longrightarrow> b4 \<Longrightarrow> b5 \<Longrightarrow> snd (v3_entry x False) = 5"
    and "b0 \<Longrightarrow> b1 \<Longrightarrow> \<not> b2 \<Longrightarrow> 2 \<le> snd (v3_entry x False)"
    and "b0 \<Longrightarrow> b1 \<Longrightarrow> b2 \<Longrightarrow> \<not> b3 \<Longrightarrow> 3 \<le> snd (v3_entry x False)"
    and "b0 \<Longrightarrow> b1 \<Longrightarrow> b2 \<Longrightarrow> b3 \<Longrightarrow> \<not> b4 \<Longrightarrow> 4 \<le> snd (v3_entry x False)"
    and "x = 62 \<longleftrightarrow> b0 \<and> b1 \<and> b2 \<and> b3 \<and> b4 \<and> \<not> b5"
    and "x \<noteq> 62 \<Longrightarrow> \<not> x < 62 \<Longrightarrow> b0 \<and> b1 \<and> b2 \<and> b3 \<and> b4 \<and> b5"
    and "x < 62 \<Longrightarrow> [b0, b1, b2, b3, b4, b5] ! snd (v3_entry x False)
          \<Longrightarrow> snd (v3_entry x True) + 1 = snd (v3_entry x False)"
  unfolding x_def read_next_six_bits_def
  by (cases b0; cases b1; cases b2; cases b3; cases b4; cases b5;
      simp add: v3_entry_def table_rows)+

lemma at_steps:
  assumes "r + 6 \<le> length B"
  shows "six B r = 62 \<longleftrightarrow> ones B r (r + 5) \<and> \<not> B ! (r + 5)"
    and "six B r \<noteq> 62 \<Longrightarrow> \<not> six B r < 62 \<Longrightarrow> ones B r (r + 6)"
    and "\<not> B ! r \<Longrightarrow> ones B (r + 1) (r + 6) \<Longrightarrow> snd (v3_entry (six B r) False) = 4"
    and "ones B r (r + 6) \<Longrightarrow> snd (v3_entry (six B r) False) = 5"
    and "\<lbrakk> ones B r Z; r < Z; Z < r + 5; \<not> B ! Z; six B r \<noteq> 62; 1 \<le> snd (v3_entry (six B r) False) \<rbrakk>
      \<Longrightarrow> Z \<le> r + snd (v3_entry (six B r) False)"
    and "\<lbrakk> six B r < 62; snd (v3_entry (six B r) False) \<le> 5; B ! (r + snd (v3_entry (six B r) False)) \<rbrakk>
      \<Longrightarrow> snd (v3_entry (six B r) True) + 1 = snd (v3_entry (six B r) False)"
proof -
  let ?bs = "[B ! r, B ! (r + 1), B ! (r + 2), B ! (r + 3), B ! (r + 4), B ! (r + 5)]"
  note six = six_eq [OF assms]
  have bs: "?bs ! i = B ! (r + i)" if "i \<le> 5" for i
    using six_at [OF assms] nth_take [of i 6 "drop r B"] that assms by simp
  have o: "ones B r (r + 6) \<longleftrightarrow> (B ! r \<and> B ! (r + 1) \<and> B ! (r + 2) \<and> B ! (r + 3) \<and> B ! (r + 4) \<and> B ! (r + 5))"
    "ones B r (r + 5) \<longleftrightarrow> (B ! r \<and> B ! (r + 1) \<and> B ! (r + 2) \<and> B ! (r + 3) \<and> B ! (r + 4))"
    "ones B (r + 1) (r + 6) \<longleftrightarrow> (B ! (r + 1) \<and> B ! (r + 2) \<and> B ! (r + 3) \<and> B ! (r + 4) \<and> B ! (r + 5))"
    by (auto simp: ones_def less_Suc_eq le_Suc_eq numeral_eq_Suc)
  note es = entry_steps [where ?b0.0 = "B ! r" and ?b1.0 = "B ! (r + 1)" and ?b2.0 = "B ! (r + 2)"
      and ?b3.0 = "B ! (r + 3)" and ?b4.0 = "B ! (r + 4)" and ?b5.0 = "B ! (r + 5)", folded six]
  show "six B r = 62 \<longleftrightarrow> ones B r (r + 5) \<and> \<not> B ! (r + 5)" using es(6) o(2) by blast
  show "six B r \<noteq> 62 \<Longrightarrow> \<not> six B r < 62 \<Longrightarrow> ones B r (r + 6)" using es(7) o(1) by blast
  show "\<not> B ! r \<Longrightarrow> ones B (r + 1) (r + 6) \<Longrightarrow> snd (v3_entry (six B r) False) = 4"
    using es(1) o(3) by blast
  show "ones B r (r + 6) \<Longrightarrow> snd (v3_entry (six B r) False) = 5" using es(2) o(1) by blast
  show "Z \<le> r + snd (v3_entry (six B r) False)"
    if "ones B r Z" "r < Z" "Z < r + 5" "\<not> B ! Z" "six B r \<noteq> 62" "1 \<le> snd (v3_entry (six B r) False)"
  proof -
    consider "Z = r + 1" | "Z = r + 2" | "Z = r + 3" | "Z = r + 4" using \<open>r < Z\<close> \<open>Z < r + 5\<close> by linarith
    then show ?thesis
    proof cases
      case 1 with that(6) show ?thesis by simp
    next
      case 2 with that(1,4) es(3) show ?thesis by (simp add: ones_def)
    next
      case 3 with that(1,4) es(4) show ?thesis by (simp add: ones_def)
    next
      case 4 with that(1,4) es(5) show ?thesis by (simp add: ones_def)
    qed
  qed
  show "snd (v3_entry (six B r) True) + 1 = snd (v3_entry (six B r) False)"
    if "six B r < 62" "snd (v3_entry (six B r) False) \<le> 5" "B ! (r + snd (v3_entry (six B r) False))"
    using es(8) that bs [OF that(2)] by simp
qed

text \<open>A pass that does not fail stays clear of the end of the run.\<close>

lemma in_run_step:
  assumes "in_run B r Z" and "r + 6 \<le> length B" and "six B r \<noteq> 62" and "\<not> B ! Z"
    and "n = snd (v3_entry (six B r) False)" and "1 \<le> n" and "n \<le> 5"
  shows "in_run B (r + n) Z"
proof -
  consider "Z \<le> r" | "r < Z" "ones B r Z" "(Z - r) mod 5 \<noteq> 0"
    | "\<not> B ! r" "r + 1 < Z" "ones B (r + 1) Z" "(Z - (r + 1)) mod 5 = 0"
    using assms(1) by (auto simp: in_run_def)
  then show ?thesis
  proof cases
    case 1 with assms(6) show ?thesis by (simp add: in_run_def)
  next
    case 2
    show ?thesis
    proof (cases "Z < r + 5")
      case True
      have "Z \<le> r + n" using at_steps(5) [OF assms(2) 2(2,1) True assms(4,3)] assms(5,6) by simp
      then show ?thesis by (simp add: in_run_def)
    next
      case False
      then have ge: "r + 6 \<le> Z" using 2(3) by (cases "Z = r + 5") auto
      then have "ones B r (r + 6)" using 2(2) by (simp add: ones_def)
      then have n: "n = 5" using at_steps(4) [OF assms(2)] assms(5) by simp
      have "Z - r = (Z - (r + 5)) + 5" using ge by simp
      then have "(Z - r) mod 5 = (Z - (r + 5)) mod 5" by (metis mod_add_self2)
      with 2 ge n show ?thesis by (auto simp: in_run_def ones_def)
    qed
  next
    case 3
    have "5 \<le> Z - (r + 1)" using 3(2,4) by (metis dvd_imp_le mod_0_imp_dvd zero_less_diff)
    then have ge: "r + 6 \<le> Z" using 3(2) by linarith
    then have "ones B (r + 1) (r + 6)" using 3(3) by (simp add: ones_def)
    then have n: "n = 4" using at_steps(3) [OF assms(2) 3(1)] assms(5) by simp
    obtain q where q: "Z - (r + 1) = 5 * q" using 3(4) by (metis mod_0_imp_dvd dvd_def)
    then have "Z - (r + 4) = 5 * (q - 1) + 2" using ge by (cases q) auto
    then have "(Z - (r + 4)) mod 5 = 2" by (simp only: mod_mult_self4) simp
    then have "(Z - (r + 4)) mod 5 \<noteq> 0" by simp
    with 3 ge n show ?thesis by (auto simp: in_run_def ones_def)
  qed
qed

text \<open>Where the next pass is: in a run that will not fail, at a zero, or reached from the
  restart position by its first entry and a number of bytes that send five ones.\<close>

definition v3_next :: "bits \<Rightarrow> nat \<Rightarrow> nat \<Rightarrow> nat \<Rightarrow> bool" where
  "v3_next B rr r Z \<longleftrightarrow>
     (r < Z \<and> ones B r Z) \<or> \<not> B ! r \<or>
     (\<exists>k. six B rr < 62 \<and> r = rr + snd (v3_entry (six B rr) False) + 5 * k \<and>
          ones B (rr + snd (v3_entry (six B rr) False)) r)"

lemma v3_next_first:
  assumes "six B r < 62" and "n = snd (v3_entry (six B r) False)"
  shows "v3_next B r (r + n) Z"
proof -
  have "ones B (r + n) (r + n)" by (auto simp: ones_def)
  then have "\<exists>k. six B r < 62 \<and> r + n = r + snd (v3_entry (six B r) False) + 5 * k \<and>
      ones B (r + snd (v3_entry (six B r) False)) (r + n)"
    using assms by (intro exI [of _ 0]) simp
  then show ?thesis by (simp add: v3_next_def)
qed

lemma v3_next_ones:
  assumes "v3_next B rr r Z" and six63: "ones B r (r + 6)" and Z: "\<not> B ! Z"
  shows "v3_next B rr (r + 5) Z"
proof -
  have "B ! r" using six63 by (simp add: ones_def)
  then consider "r < Z" "ones B r Z"
    | k where "six B rr < 62" "r = rr + snd (v3_entry (six B rr) False) + 5 * k"
        "ones B (rr + snd (v3_entry (six B rr) False)) r"
    using assms(1) by (auto simp: v3_next_def)
  then show ?thesis
  proof cases
    case 1
    have "\<not> Z < r + 6" using six63 1(1) Z unfolding ones_def by (metis less_imp_le)
    with 1 show ?thesis by (simp add: v3_next_def ones_def)
  next
    case 2
    have "ones B (rr + snd (v3_entry (six B rr) False)) (r + 5)"
      unfolding ones_def
    proof (intro allI impI)
      fix i assume "rr + snd (v3_entry (six B rr) False) \<le> i \<and> i < r + 5"
      then show "B ! i" using 2(3) six63 unfolding ones_def by (cases "i < r") auto
    qed
    with 2(1,2) show ?thesis unfolding v3_next_def by (intro disjI2 exI [of _ "Suc k"]) simp
  qed
qed

text \<open>The invariant of the loop.\<close>

definition v3_inv :: "bits \<Rightarrow> nat \<Rightarrow> v3_state \<Rightarrow> nat \<Rightarrow> bool" where
  "v3_inv B e s Z \<longleftrightarrow>
     length (packetstream s) = PKTSIZE \<and> restart_packet s \<le> generate_packet s \<and>
     generate_packet s \<le> read_ptr s \<and> restart_packet s \<le> restart_read s \<and>
     sent B (packetstream s) (generate_packet s) (read_ptr s) \<and>
     sent B (packetstream s) (restart_packet s) (restart_read s) \<and> restart_read s < e \<and>
     read_ptr s < e + 5 \<and> \<not> B ! Z \<and> Z < length B \<and> in_run B (read_ptr s) Z \<and>
     v3_next B (restart_read s) (read_ptr s) Z"

lemma v3_normal:
  assumes inv: "v3_inv B e s Z" and e: "e + 6 \<le> length B"
    and run: "generate_packet s < PKTSIZE" "read_ptr s < e" and ok: "six B (read_ptr s) \<noteq> 62"
  shows "v3_inv B e (v3_step B s) Z" and "read_ptr s < read_ptr (v3_step B s)"
proof -
  define r where "r = read_ptr s"
  define g where "g = generate_packet s"
  obtain v n where vn: "v3_entry (six B r) False = (v, n)" by fastforce
  have n_eq: "n = snd (v3_entry (six B r) False)" by (simp add: vn)
  have len: "r + 6 \<le> length B" using run(2) e by (simp add: r_def)
  have st: "v3_step B s = (let s1 = s\<lparr>packetstream := (packetstream s)[g := v]\<rparr>;
      s2 = (if six B r < 62 then s1\<lparr>restart_packet := g, restart_read := r\<rparr> else s1)
      in s2\<lparr>read_ptr := r + n, generate_packet := g + 1\<rparr>)"
    using ok vn by (simp add: v3_step_def v3_emit_def six_def r_def g_def Let_def)
  note I = inv [unfolded v3_inv_def, folded r_def g_def]
  have glen: "g < length (packetstream s)" using I run(1) by (simp add: g_def)
  have ok': "six B r \<noteq> 62" using ok by (simp add: r_def)
  have "sent B (packetstream s) g r" using I by blast
  note step = sent_step [OF this len ok' vn glen]
  have keep: "sent B ((packetstream s)[g := v]) q t" if "sent B (packetstream s) q t" "q \<le> g" for q t
    using that by (simp add: sent_list_update)
  have run': "in_run B (r + n) Z" using in_run_step [OF _ len ok' _ n_eq step(2,3)] I by blast
  show "read_ptr s < read_ptr (v3_step B s)"
    using step(2) by (simp add: st Let_def r_def)
  show "v3_inv B e (v3_step B s) Z"
  proof (cases "six B r < 62")
    case True
    have s': "v3_step B s = s\<lparr>packetstream := (packetstream s)[g := v], restart_packet := g,
        restart_read := r, read_ptr := r + n, generate_packet := g + 1\<rparr>"
      using True by (simp add: st)
    note last = v3_next_first [OF True n_eq, of Z]
    show ?thesis
      unfolding v3_inv_def s' using I step run' last keep run(2)
      by (simp add: r_def [symmetric] g_def [symmetric])
  next
    case False
    then have six63: "ones B r (r + 6)" using at_steps(2) [OF len ok'] by blast
    then have n5: "n = 5" using at_steps(4) [OF len] n_eq by simp
    have s': "v3_step B s = s\<lparr>packetstream := (packetstream s)[g := v], read_ptr := r + n,
        generate_packet := g + 1\<rparr>"
      using False by (simp add: st)
    have last: "v3_next B (restart_read s) (r + n) Z"
      using v3_next_ones [OF _ six63] I n5 by blast
    show ?thesis
      unfolding v3_inv_def s' using I step run' last keep run(2)
      by (simp add: r_def [symmetric] g_def [symmetric])
  qed
qed

lemma v3_restart:
  assumes inv: "v3_inv B e s Z" and e: "e + 6 \<le> length B"
    and run: "generate_packet s < PKTSIZE" "read_ptr s < e" and bad: "six B (read_ptr s) = 62"
  shows "\<exists>Z'. v3_inv B e (v3_step B s) Z' \<and> Z < Z' \<and> Z' < length B"
proof -
  define r where "r = read_ptr s"
  define rr where "rr = restart_read s"
  define rg where "rg = restart_packet s"
  define f where "f = snd (v3_entry (six B rr) False)"
  have len: "r + 6 \<le> length B" using run(2) e by (simp add: r_def)
  note I = inv [unfolded v3_inv_def, folded r_def rr_def rg_def]
  have rr_e: "rr < e" and rg_g: "rg \<le> generate_packet s" and rg_rr: "rg \<le> rr"
    and plen: "length (packetstream s) = PKTSIZE" and snt: "sent B (packetstream s) rg rr"
    and Z: "\<not> B ! Z" "Z < length B" and inr: "in_run B r Z" and nxt: "v3_next B rr r Z"
    using I by simp_all
  have o: "ones B r (r + 5)" "\<not> B ! (r + 5)" using at_steps(1) [OF len] bad by (simp_all add: r_def)
  have Br: "B ! r" using o(1) by (simp add: ones_def)
  have Zr: "Z \<le> r"
  proof (rule ccontr)
    assume "\<not> Z \<le> r"
    then have z: "r < Z" "ones B r Z" "(Z - r) mod 5 \<noteq> 0" using inr Br by (auto simp: in_run_def)
    then have "Z \<le> r + 5" using o(2) unfolding ones_def by (metis le_add1 not_le)
    moreover have "\<not> Z < r + 5" using o(1) Z(1) z(1) unfolding ones_def by (metis less_imp_le)
    ultimately show False using z(3) by simp
  qed
  with Br nxt obtain k where k: "six B rr < 62" "r = rr + f + 5 * k" "ones B (rr + f) r"
    by (auto simp: v3_next_def f_def)
  have lenr: "rr + 6 \<le> length B" using rr_e e by simp
  obtain v1 where v1: "v3_entry (six B rr) False = (v1, f)" by (simp add: f_def prod_eq_iff)
  obtain v2 n2 where v2: "v3_entry (six B rr) True = (v2, n2)" by fastforce
  have glen: "rg < length (packetstream s)" using plen rg_g run(1) by simp
  have ne: "six B rr \<noteq> 62" using k(1) by simp
  note st1 = sent_step [OF snt lenr ne v1 glen] and st2 = sent_step [OF snt lenr ne v2 glen]
  have run_f: "ones B (rr + f) (r + 5)"
    unfolding ones_def
  proof (intro allI impI)
    fix i assume "rr + f \<le> i \<and> i < r + 5"
    then show "B ! i" using k(3) o(1) unfolding ones_def by (cases "i < r") auto
  qed
  have "B ! (rr + f)" using run_f k(2) unfolding ones_def by auto
  then have n2: "n2 + 1 = f"
    using at_steps(6) [OF lenr k(1)] st1(3) by (simp add: v2 f_def [symmetric])
  have s': "v3_step B s = s\<lparr>packetstream := (packetstream s)[rg := v2], restart_packet := rg,
      restart_read := rr, read_ptr := rr + n2, generate_packet := rg + 1\<rparr>"
    using bad k(1) v2
    by (simp add: v3_step_def v3_emit_def six_def r_def rr_def [symmetric] rg_def [symmetric] Let_def)
  have pos: "r + 5 - (rr + n2) = 5 * (k + 1) + 1" "r + 5 - (rr + n2 + 1) = 5 * (k + 1)"
    using k(2) n2 by simp_all
  have lt: "rr + n2 + 1 < r + 5" using k(2) n2 by simp
  have nxt': "in_run B (rr + n2) (r + 5) \<and> v3_next B rr (rr + n2) (r + 5)"
  proof (cases "B ! (rr + n2)")
    case True
    have "ones B (rr + n2) (r + 5)"
      unfolding ones_def
    proof (intro allI impI)
      fix i assume "rr + n2 \<le> i \<and> i < r + 5"
      then show "B ! i" using run_f True n2 unfolding ones_def by (cases "i = rr + n2") auto
    qed
    moreover have "(r + 5 - (rr + n2)) mod 5 \<noteq> 0"
      unfolding pos by (simp only: mod_mult_self4) simp
    ultimately show ?thesis using lt unfolding in_run_def v3_next_def by auto
  next
    case False
    have "ones B (rr + n2 + 1) (r + 5)" using run_f n2 [symmetric] by (simp add: add.assoc)
    then have "in_run B (rr + n2) (r + 5)"
      using False lt pos(2) unfolding in_run_def by simp
    then show ?thesis using False unfolding v3_next_def by simp
  qed
  have keep: "sent B ((packetstream s)[rg := v2]) rg rr" using snt by (simp add: sent_list_update)
  have "v3_inv B e (v3_step B s) (r + 5)"
    unfolding v3_inv_def s'
    using plen rg_rr st2 keep rr_e o(2) len nxt' by simp
  then show ?thesis using Zr len by (intro exI [of _ "r + 5"]) simp
qed

lemma v3_loop:
  assumes "v3_inv B e s Z" and e: "e + 6 \<le> length B"
  shows "\<exists>t Z'. while_option (\<lambda>s. generate_packet s < PKTSIZE \<and> read_ptr s < e) (v3_step B) s = Some t
    \<and> v3_inv B e t Z' \<and> \<not> (generate_packet t < PKTSIZE \<and> read_ptr t < e)"
  using assms(1)
proof (induction "(length B - Z) * (length B + 1) + (length B - read_ptr s)" arbitrary: s Z
    rule: less_induct)
  case less
  let ?L = "length B"
  show ?case
  proof (cases "generate_packet s < PKTSIZE \<and> read_ptr s < e")
    case False
    with less.prems show ?thesis by (subst while_option_unfold) auto
  next
    case True
    have "\<exists>Z'. v3_inv B e (v3_step B s) Z' \<and>
        (?L - Z') * (?L + 1) + (?L - read_ptr (v3_step B s)) < (?L - Z) * (?L + 1) + (?L - read_ptr s)"
    proof (cases "six B (read_ptr s) = 62")
      case bad: True
      obtain Z' where Z': "v3_inv B e (v3_step B s) Z'" "Z < Z'" "Z' < ?L"
        using v3_restart [OF less.prems e _ _ bad] True by blast
      have "Suc (?L - Z') \<le> ?L - Z" using Z'(2,3) by simp
      then have "Suc (?L - Z') * (?L + 1) \<le> (?L - Z) * (?L + 1)" by (rule mult_le_mono1)
      moreover have "Suc (?L - Z') * (?L + 1) = (?L - Z') * (?L + 1) + (?L + 1)" by simp
      ultimately show ?thesis using Z'(1) by (intro exI [of _ Z'] conjI) linarith+
    next
      case ok: False
      have "read_ptr s < read_ptr (v3_step B s)" "v3_inv B e (v3_step B s) Z"
        using v3_normal [OF less.prems e _ _ ok] True by blast+
      moreover have "read_ptr s < ?L" using True e by simp
      ultimately show ?thesis by (intro exI [of _ Z]) simp
    qed
    then obtain Z' where "v3_inv B e (v3_step B s) Z'" and
      "(?L - Z') * (?L + 1) + (?L - read_ptr (v3_step B s)) < (?L - Z) * (?L + 1) + (?L - read_ptr s)"
      by blast
    from less.hyps [OF this(2,1)] True show ?thesis by (subst while_option_unfold) simp
  qed
qed

subsection \<open>The bytes are the bit stream\<close>

lemma v3_init_inv:
  assumes "(k + 2) mod 5 \<noteq> 0" and "k < 999" and "bs = replicate k True @ False # r"
  shows "v3_inv (v3_buffer bs) (v3_end bs) v3_init (k + 2)"
proof -
  let ?B = "v3_buffer bs"
  have tk: "take 999 bs = replicate k True @ False # take (998 - k) r"
  proof -
    have "999 - k = Suc (998 - k)" using assms(2) by simp
    then show ?thesis using assms(2,3) by simp
  qed
  have B: "?B = replicate (k + 2) True @ False # take (998 - k) r @ replicate 6 True"
    by (simp add: v3_buffer_def tk)
  have one: "ones ?B 0 (k + 2)" unfolding ones_def B by (simp add: nth_append del: replicate_Suc)
  have zero: "\<not> ?B ! (k + 2)" unfolding B by (simp add: nth_append del: replicate_Suc)
  have zl: "k + 2 < length ?B" unfolding B by simp
  have "?B \<noteq> []" unfolding B by simp
  then have "sent ?B (replicate PKTSIZE 0) 0 0" by (rule sent_init)
  then show ?thesis
    using one zero zl assms(1)
    by (auto simp: v3_inv_def v3_init_def v3_end_def in_run_def v3_next_def)
qed

text \<open>Bytes that send a bit sequence: its first half wave and the last are halves of ones, so
  that the bytes of several packets can follow each other.\<close>

definition sends :: "nat list \<Rightarrow> bits \<Rightarrow> bool" where
  "sends out X \<longleftrightarrow> halves (wave out) = True # dup X @ [True]"

lemma sends_append: "sends a X \<Longrightarrow> sends b Y \<Longrightarrow> sends (a @ b) (X @ True # Y)"
  by (simp add: sends_def halves_wave)

lemma sends_receive: "sends out X \<Longrightarrow> dcc_receive (wave out) = Some X"
  by (simp add: sends_def dcc_receive_def pair_halves_dup)

lemma sent_sends:
  assumes "sent B out g r" and "B = True # B'" and "0 < r" and "B ! r"
  shows "sends (take g out) (take (r - 1) B')"
proof -
  have r: "r < length B" using assms(1) by (simp add: sent_def)
  let ?h = "halves (wave (take g out))"
  have eq: "True # ?h @ [B ! r] = dup (take (r + 1) B)" using assms(1,2) by (simp add: sent_def)
  obtain q where q: "r = Suc q" using assms(3) by (cases r) auto
  have "take (r + 1) B = True # take q B' @ [B' ! q]"
    using r q assms(2) by (simp add: take_Suc_conv_app_nth)
  with eq q assms(2) have "?h @ [B' ! q] = True # dup (take q B') @ [B' ! q] @ [B' ! q]" by simp
  then have "?h = True # dup (take q B') @ [B' ! q]" by (metis append_same_eq append_Cons append_assoc)
  then show ?thesis using q assms(2,4) by (simp add: sends_def)
qed

lemma v3_sends:
  assumes "(k + 2) mod 5 \<noteq> 0" and "bs = replicate k True @ False # r" and "length bs \<le> 999"
  shows "\<exists>out. translateBitstream2Packetstream_v3 bs = Some out \<and> length out \<le> PKTSIZE \<and>
    (length out = PKTSIZE \<longrightarrow> 72 < length bs) \<and>
    (length out < PKTSIZE \<longrightarrow> (\<exists>m\<le>4. sends out (True # bs @ replicate m True)))"
proof -
  let ?B = "v3_buffer bs" and ?e = "v3_end bs"
  have k: "k < 999" using assms(2,3) by simp
  have e: "?e = length bs + 2" "?e + 6 \<le> length ?B"
    using assms(3) by (simp_all add: v3_end_def v3_buffer_def min_def)
  have B: "?B = True # True # bs @ replicate 6 True"
    using assms(3) by (simp add: v3_buffer_def)
  obtain t Z where w: "while_option (\<lambda>s. generate_packet s < PKTSIZE \<and> read_ptr s < ?e) (v3_step ?B) v3_init
      = Some t" and inv: "v3_inv ?B ?e t Z" and stop: "\<not> (generate_packet t < PKTSIZE \<and> read_ptr t < ?e)"
    using v3_loop [OF v3_init_inv [OF assms(1) k assms(2)] e(2)] by blast
  let ?out = "take (generate_packet t) (packetstream t)"
  have tr: "translateBitstream2Packetstream_v3 bs = Some ?out"
    by (simp add: translateBitstream2Packetstream_v3_def w)
  have st: "sent ?B (packetstream t) (generate_packet t) (read_ptr t)"
    and gr: "generate_packet t \<le> read_ptr t" and re: "read_ptr t < ?e + 5"
    and pl: "length (packetstream t) = PKTSIZE"
    using inv by (simp_all add: v3_inv_def)
  have gp: "generate_packet t \<le> PKTSIZE" using st pl by (simp add: sent_def)
  then have lo: "length ?out = generate_packet t" using pl by simp
  have "\<exists>m\<le>4. sends ?out (True # bs @ replicate m True)" if "length ?out < PKTSIZE"
  proof -
    have rp: "?e \<le> read_ptr t" using that stop lo by simp
    have "?B = (True # True # bs) @ replicate 6 True" by (simp only: B append_Cons)
    moreover have "((True # True # bs) @ replicate 6 True) ! read_ptr t"
      unfolding nth_append using rp re e(1) by (simp del: replicate.simps)
    ultimately have "?B ! read_ptr t" by (simp only:)
    then have "sends ?out (take (read_ptr t - 1) (True # bs @ replicate 6 True))"
      using sent_sends [OF st B] rp e(1) by simp
    moreover have "take (read_ptr t - 1) (True # bs @ replicate 6 True)
        = True # bs @ replicate (read_ptr t - ?e) True"
    proof -
      have "read_ptr t - 1 = Suc (length bs + (read_ptr t - ?e))" using rp e(1) by simp
      moreover have "read_ptr t - ?e \<le> 6" using re by simp
      ultimately show ?thesis by (simp del: replicate.simps add: min_def)
    qed
    moreover have "read_ptr t - ?e \<le> 4" using re by simp
    ultimately show ?thesis by auto
  qed
  moreover have "72 < length bs" if "length ?out = PKTSIZE"
    using that lo gr re e(1) by (simp add: PKTSIZE_def)
  ultimately show ?thesis using tr gp lo by auto
qed

text \<open>C6: The translation of a DCC bit stream into serial bytes ends for every stream whose
  preamble length k has (k + 2) mod 5 different from 0, never writes more than PKTSIZE bytes,
  and unless the output buffer is filled the levels on the line, measured as half waves, are
  exactly the bit stream plus at most four trailing ones.\<close>

theorem v3_translates:
  assumes "(k + 2) mod 5 \<noteq> 0" and "bs = replicate k True @ False # r" and "length bs \<le> 999"
  shows "\<exists>out. translateBitstream2Packetstream_v3 bs = Some out \<and> length out \<le> PKTSIZE \<and>
    (length out = PKTSIZE \<longrightarrow> 72 < length bs) \<and>
    (length out < PKTSIZE \<longrightarrow> (\<exists>m\<le>4. dcc_receive (wave out) = Some (True # bs @ replicate m True)))"
proof -
  obtain out where out: "translateBitstream2Packetstream_v3 bs = Some out" "length out \<le> PKTSIZE"
    "length out = PKTSIZE \<longrightarrow> 72 < length bs"
    "length out < PKTSIZE \<longrightarrow> (\<exists>m\<le>4. sends out (True # bs @ replicate m True))"
    using v3_sends [OF assms] by blast
  then show ?thesis using sends_receive by blast
qed

theorem v3_translates_witness:
  "\<exists>out. translateBitstream2Packetstream_v3 (replicate 15 True @ False # replicate 8 False @ [True]) = Some out \<and>
     (\<exists>m\<le>4. dcc_receive (wave out)
       = Some (True # (replicate 15 True @ False # replicate 8 False @ [True]) @ replicate m True))"
  using v3_translates [of 15 "replicate 15 True @ False # replicate 8 False @ [True]"
      "replicate 8 False @ [True]"]
  by (auto simp del: replicate.simps replicate_Suc)

end
