(* ===== verification/Dcc_Packet.thy ===== *)
theory Dcc_Packet
  imports Prelude Dcc_Translate
begin

text \<open>
  The DCC packets of \<open>ddl_nmra.c\<close>: the bytes of each command, the bit stream they are put in
  (preamble, start bits, error detection byte, end bit) and the functions that hand the
  translated stream to the packet queue. A byte, in the code a string of eight \<open>'0'\<close> and
  \<open>'1'\<close>, is a list of eight booleans, most significant first. Only version 3 of the
  translation, the default, is used.

  \<open>packets_from\<close> is a decoder written from the packet format of the NMRA: at least ten ones, a
  zero, bytes separated by zeros and ended by a one. The lemmas say that it finds in each stream
  the bytes the command consists of.
\<close>

unbundle bit_operations_syntax

subsection \<open>Bytes\<close>

definition calc_single_byte :: "int \<Rightarrow> bits" where
  "calc_single_byte v = rev (map (bit v) [0..<8])"

definition calc_14bit_address_byte :: "int \<Rightarrow> bits \<times> bits" where
  "calc_14bit_address_byte address =
     (calc_single_byte (0xc0 OR drop_bit 8 address), calc_single_byte address)"

definition calc_baseline_speed_byte :: "int \<Rightarrow> int \<Rightarrow> int \<Rightarrow> bits" where
  "calc_baseline_speed_byte direction speed func =
     (let byte = calc_single_byte (0x40 OR push_bit 5 direction OR speed)
      in if func AND 1 \<noteq> 0 then byte[3 := True] else byte)"

definition calc_28spst_speed_byte :: "int \<Rightarrow> int \<Rightarrow> bits" where
  "calc_28spst_speed_byte direction speed =
     (if speed > 1
      then let speed = speed + 2;
               byte = calc_single_byte (0x40 OR push_bit 5 direction OR drop_bit 1 speed)
           in if speed AND 1 \<noteq> 0 then byte[3 := True] else byte
      else calc_single_byte (0x40 OR push_bit 5 direction OR speed))"

definition calc_function_group_one_byte :: "int \<Rightarrow> bits" where
  "calc_function_group_one_byte func =
     (let func = func AND 0x1f; byte = calc_single_byte (0x80 OR drop_bit 1 func)
      in if func AND 1 \<noteq> 0 then byte[3 := True] else byte)"

definition calc_function_group_two_byte :: "int \<Rightarrow> bool \<Rightarrow> bits" where
  "calc_function_group_two_byte func lower =
     calc_single_byte (if lower then (drop_bit 5 func AND 0xf) OR 0xb0
                       else (drop_bit 9 func AND 0xf) OR 0xa0)"

definition calc_128spst_adv_op_bytes :: "int \<Rightarrow> int \<Rightarrow> bits \<times> bits" where
  "calc_128spst_adv_op_bytes direction speed =
     ([False, False, True, True, True, True, True, True],
      let byte2 = calc_single_byte speed in if direction = 1 then byte2[0 := True] else byte2)"

definition xor_two_bytes :: "bits \<Rightarrow> bits \<Rightarrow> bits" where
  "xor_two_bytes byte1 byte2 = map2 (\<noteq>) byte1 byte2"

subsection \<open>Streams\<close>

definition preamble :: bits where "preamble = replicate 15 True"
definition longpreamble :: bits where "longpreamble = replicate 30 True"

text \<open>\<open>ADDR14BIT_OFFSET\<close> keeps the queue entries of long and short addresses apart.\<close>

definition ADDR14BIT_OFFSET :: int where "ADDR14BIT_OFFSET = 128"

definition accessory_stream :: "int \<Rightarrow> int \<Rightarrow> int \<Rightarrow> int \<Rightarrow> bits" where
  "accessory_stream address pairnr output activate =
     (let byte1 = calc_single_byte (0x80 OR (address AND 0x3f));
          byte2 = calc_single_byte (0x80 OR drop_bit 2 ((NOT address) AND 0x1c0) OR
                    push_bit 3 activate OR push_bit 1 pairnr OR output);
          byte3 = xor_two_bytes byte2 byte1
      in preamble @ [False] @ byte1 @ [False] @ byte2 @ [False] @ byte3 @ [True])"

text \<open>The address stream and the error detection byte of the address. In the code the second
  address byte is added for mode 2 only, but it is part of the error detection byte for every
  mode other than 1.\<close>

definition calc_address_stream :: "int \<Rightarrow> int \<Rightarrow> bits \<times> bits" where
  "calc_address_stream address mode =
     (let (addrbyte, addrbyte2, addrerrbyte) =
            (if mode = 1 then let b = calc_single_byte (address AND 0x7f) in (b, [], b)
             else let (b1, b2) = calc_14bit_address_byte address in (b1, b2, xor_two_bytes b1 b2))
      in (preamble @ [False] @ addrbyte @ [False] @
            (if mode = 2 then addrbyte2 @ [False] else []), addrerrbyte))"

definition wait_stream :: bits where "wait_stream = replicate 35 True"

text \<open>A command with one or two instruction bytes after the address.\<close>

definition command1 :: "bits \<Rightarrow> bits \<Rightarrow> bits \<Rightarrow> bits" where
  "command1 addrerrbyte addrstream b =
     addrstream @ b @ [False] @ xor_two_bytes addrerrbyte b @ [True]"

definition command2 :: "bits \<Rightarrow> bits \<Rightarrow> bits \<Rightarrow> bits \<Rightarrow> bits" where
  "command2 addrerrbyte addrstream b1 b2 =
     addrstream @ b1 @ [False] @ b2 @ [False] @ xor_two_bytes (xor_two_bytes addrerrbyte b1) b2 @ [True]"

definition calc_function_stream ::
    "bits \<Rightarrow> bits \<Rightarrow> bits \<Rightarrow> int \<Rightarrow> int \<Rightarrow> bits \<times> bits" where
  "calc_function_stream bitstream addrerrbyte addrstream func nfuncs =
     (let ext = [True, True, False, True, True, True, True, False];
          b = bitstream @
            (if nfuncs > 5
             then wait_stream @ command1 addrerrbyte addrstream (calc_function_group_two_byte func True) @
               (if nfuncs > 12
                then wait_stream @ command2 addrerrbyte addrstream ext (calc_single_byte (drop_bit 13 func))
                else [])
             else []);
          b2 = command1 addrerrbyte addrstream (calc_function_group_one_byte func) @
            (if nfuncs > 8
             then wait_stream @ command1 addrerrbyte addrstream (calc_function_group_two_byte func False) @
               (if nfuncs > 20
                then wait_stream @ command2 addrerrbyte addrstream (ext[7 := True])
                       (calc_single_byte (drop_bit 21 func))
                else [])
             else [])
      in (b, b2))"

text \<open>The speed part of \<open>comp_nmra_multi_func\<close>.\<close>

definition speed_stream :: "bits \<Rightarrow> bits \<Rightarrow> int \<Rightarrow> int \<Rightarrow> int \<Rightarrow> int \<Rightarrow> bits" where
  "speed_stream addrerrbyte addrstream direction speed func nspeed =
     (if speed < 2 \<or> nspeed < 15
      then command1 addrerrbyte addrstream (calc_baseline_speed_byte direction speed func)
      else if nspeed > 29
      then (let (b1, b2) = calc_128spst_adv_op_bytes direction speed
            in command2 addrerrbyte addrstream b1 b2)
      else command1 addrerrbyte addrstream (calc_28spst_speed_byte direction speed))"

definition calc_byte_program_stream :: "bits \<Rightarrow> int \<Rightarrow> int \<Rightarrow> bool \<Rightarrow> bool \<Rightarrow> bits" where
  "calc_byte_program_stream addrerrbyte cv v verify pom =
     (let byte3 = calc_single_byte cv;
          byte2 = calc_single_byte ((if pom then 0xec else 0x7c) OR drop_bit 8 cv);
          byte2 = (if verify then byte2[4 := False] else byte2);
          byte4 = calc_single_byte v;
          byte5 = xor_two_bytes (xor_two_bytes (xor_two_bytes addrerrbyte byte2) byte3) byte4
      in byte2 @ [False] @ byte3 @ [False] @ byte4 @ [False] @ byte5 @ [True])"

definition calc_bit_program_stream :: "bits \<Rightarrow> int \<Rightarrow> int \<Rightarrow> int \<Rightarrow> bool \<Rightarrow> bool \<Rightarrow> bits" where
  "calc_bit_program_stream addrerrbyte cv bitnr v verify pom =
     (let byte3 = calc_single_byte cv;
          byte2 = calc_single_byte ((if pom then 0xe8 else 0x78) OR drop_bit 8 cv);
          byte4 = calc_single_byte (0xf0 OR push_bit 3 v OR bitnr);
          byte4 = (if verify then byte4[3 := False] else byte4);
          byte5 = xor_two_bytes (xor_two_bytes (xor_two_bytes addrerrbyte byte2) byte3) byte4
      in byte2 @ [False] @ byte3 @ [False] @ byte4 @ [False] @ byte5 @ [True])"

definition calc_reg_bitstream :: "int \<Rightarrow> int \<Rightarrow> bool \<Rightarrow> bits" where
  "calc_reg_bitstream reg v verify =
     (let byte1 = calc_single_byte (0x78 OR reg);
          byte1 = (if verify then byte1[4 := False] else byte1);
          byte2 = calc_single_byte v; byte3 = xor_two_bytes byte1 byte2
      in longpreamble @ [False] @ byte1 @ [False] @ byte2 @ [False] @ byte3 @ [True])"

subsection \<open>Sending\<close>

text \<open>What the functions do to the packet queue and the refresh pool of \<open>ddl.c\<close>. \<open>None\<close> is a
  translation that does not return; the integer is the function's result.\<close>

datatype pkt_type =
    QEMPTY | QNOVALIDPKT | QM1LOCOPKT | QM2LOCOPKT | QM2FXPKT | QM1FUNCPKT | QM1SOLEPKT | QNBLOCOPKT | QNBACCPKT

datatype dcc_effect =
    Queue_add int "nat list" pkt_type
  | Update_NMRAPacketPool int "nat list" "nat list"

definition comp_nmra_accessory ::
    "int \<Rightarrow> int \<Rightarrow> int \<Rightarrow> int \<Rightarrow> (dcc_effect list \<times> int) option" where
  "comp_nmra_accessory nr output activate offset =
     (if nr < 1 \<or> nr > 2044 \<or> output < 0 \<or> output > 1 \<or> activate < 0 \<or> activate > 1
      then Some ([], 1)
      else let address = c_div (nr + offset) 4; pairnr = (nr + offset) - 4 * address in
           do { packetstream \<leftarrow> translateBitstream2Packetstream_v3
                  (accessory_stream address pairnr output activate);
                if length packetstream > 0
                then Some ([Queue_add address packetstream QNBACCPKT], 0) else Some ([], 1) })"

definition comp_nmra_multi_func ::
    "int \<Rightarrow> int \<Rightarrow> int \<Rightarrow> int \<Rightarrow> int \<Rightarrow> int \<Rightarrow> int \<Rightarrow> (dcc_effect list \<times> int) option" where
  "comp_nmra_multi_func address direction speed func nspeed nfuncs mode =
     (let adr = (if mode = 2 then address + ADDR14BIT_OFFSET else address) in
      if address < 1 \<or> address > 10239 \<or> direction < 0 \<or> direction > 1 \<or>
         speed < 0 \<or> speed > nspeed + 1 \<or> (address > 127 \<and> mode = 1)
      then Some ([], 1)
      else
        let speed = (if speed > 127 then 127 else speed);
            (addrstream, addrerrbyte) = calc_address_stream address mode;
            bitstream = speed_stream addrerrbyte addrstream direction speed func nspeed;
            two = (nfuncs \<noteq> 0 \<and> nspeed > 14);
            (bitstream, bitstream2) =
              (if two then calc_function_stream bitstream addrerrbyte addrstream func nfuncs
               else (bitstream, bitstream)) in
        do { packetstream \<leftarrow> translateBitstream2Packetstream_v3 bitstream;
             packetstream2 \<leftarrow> translateBitstream2Packetstream_v3 bitstream2;
             if length packetstream > 0 \<and> length packetstream2 > 0
             then Some ([Update_NMRAPacketPool adr packetstream packetstream2,
                         Queue_add adr packetstream QNBLOCOPKT] @
                        (if two then [Queue_add adr packetstream2 QNBLOCOPKT] else []), 0)
             else Some ([], 1) })"

definition pom_send :: "int \<Rightarrow> int \<Rightarrow> bits \<Rightarrow> (dcc_effect list \<times> int) option" where
  "pom_send address mode bitstream =
     do { packetstream \<leftarrow> translateBitstream2Packetstream_v3 bitstream;
          if length packetstream > 0
          then Some ([Queue_add (if mode = 2 then address + ADDR14BIT_OFFSET else address)
                        packetstream QNBLOCOPKT], 0)
          else Some ([], 1) }"

definition protocol_nmra_sm_write_cvbyte_pom ::
    "int \<Rightarrow> int \<Rightarrow> int \<Rightarrow> int \<Rightarrow> (dcc_effect list \<times> int) option" where
  "protocol_nmra_sm_write_cvbyte_pom address cv v mode =
     (let cv = cv - 1 in
      if address < 1 \<or> address > 10239 \<or> cv < 0 \<or> cv > 1023 \<or> v < 0 \<or> v > 255 \<or>
         (address > 127 \<and> mode = 1)
      then Some ([], 1)
      else let (addrstream, addrerrbyte) = calc_address_stream address mode
           in pom_send address mode (addrstream @ calc_byte_program_stream addrerrbyte cv v False True))"

definition protocol_nmra_sm_write_cvbit_pom ::
    "int \<Rightarrow> int \<Rightarrow> int \<Rightarrow> int \<Rightarrow> int \<Rightarrow> (dcc_effect list \<times> int) option" where
  "protocol_nmra_sm_write_cvbit_pom address cv bitnr v mode =
     (let cv = cv - 1 in
      if address < 1 \<or> address > 10239 \<or> cv < 1 \<or> cv > 1023 \<or> bitnr < 0 \<or> bitnr > 7 \<or>
         v < 0 \<or> v > 1 \<or> (address > 127 \<and> mode = 1)
      then Some ([], 1)
      else let (addrstream, addrerrbyte) = calc_address_stream address mode
           in pom_send address mode (addrstream @ calc_bit_program_stream addrerrbyte cv bitnr v False True))"

subsection \<open>A decoder of packets\<close>

datatype rx = Preamble nat | Byte "bits list" bits

fun packets_from :: "rx \<Rightarrow> bits \<Rightarrow> bits list list" where
  "packets_from _ [] = []"
| "packets_from (Preamble n) (b # bs) =
     (if b then packets_from (Preamble (n + 1)) bs
      else if 10 \<le> n then packets_from (Byte [] []) bs else packets_from (Preamble 0) bs)"
| "packets_from (Byte done cur) (b # bs) =
     (if length cur < 8 then packets_from (Byte done (cur @ [b])) bs
      else if b then (done @ [cur]) # packets_from (Preamble 1) bs
      else packets_from (Byte (done @ [cur]) []) bs)"

definition dcc_packets :: "nat list \<Rightarrow> bits list list option" where
  "dcc_packets out = map_option (packets_from (Preamble 0)) (dcc_receive (wave out))"

text \<open>The decoder discards a packet whose error detection byte is not the exclusive or of the
  others.\<close>

definition checked :: "bits list \<Rightarrow> bits list option" where
  "checked p = (if 2 \<le> length p \<and> last p = foldl xor_two_bytes (hd p) (tl (butlast p))
                then Some (butlast p) else None)"

definition bits_val :: "bits \<Rightarrow> int" where
  "bits_val bs = horner_sum of_bool 2 (rev bs)"

text \<open>The bytes of a packet on the line.\<close>

fun frame :: "bits list \<Rightarrow> bits" where
  "frame [] = []"
| "frame [b] = b @ [True]"
| "frame (b # c # bs) = b @ [False] @ frame (c # bs)"

lemma length_calc_single_byte [simp]: "length (calc_single_byte v) = 8"
  by (simp add: calc_single_byte_def)

lemma length_xor_two_bytes [simp]: "length (xor_two_bytes a b) = min (length a) (length b)"
  by (simp add: xor_two_bytes_def)

lemma packets_bits:
  "length cur + length b \<le> 8 \<Longrightarrow>
   packets_from (Byte done cur) (b @ rest) = packets_from (Byte done (cur @ b)) rest"
  by (induction b arbitrary: cur) auto

lemma packets_frame:
  "\<forall>b\<in>set bytes. length b = 8 \<Longrightarrow> bytes \<noteq> [] \<Longrightarrow>
   packets_from (Byte done []) (frame bytes @ rest) = (done @ bytes) # packets_from (Preamble 1) rest"
  by (induction bytes arbitrary: "done" rule: frame.induct) (simp_all add: packets_bits)

lemma packets_ones: "packets_from (Preamble n) (replicate k True @ rest) = packets_from (Preamble (n + k)) rest"
  by (induction k arbitrary: n) auto

lemma packets_stream:
  assumes "10 \<le> n + k" and "\<forall>b\<in>set bytes. length b = 8" and "bytes \<noteq> []"
  shows "packets_from (Preamble n) (replicate k True @ False # frame bytes @ rest)
    = bytes # packets_from (Preamble 1) rest"
  using assms by (simp add: packets_ones packets_frame)

lemma packets_end [simp]: "packets_from (Preamble n) (replicate k True) = []"
  using packets_ones [of n k "[]"] by simp

lemma bits_val_take: "bits_val (rev (map (bit v) [0..<n])) = take_bit n v"
  by (simp add: bits_val_def horner_sum_bit_eq_take_bit)

lemma bits_val_byte [simp]: "bits_val (calc_single_byte v) = v mod 256"
  by (simp add: calc_single_byte_def bits_val_take take_bit_eq_mod)

text \<open>Bytes that carry packets, also after and before other such bytes.\<close>

definition carries :: "nat list \<Rightarrow> bits list list \<Rightarrow> bool" where
  "carries out ps \<longleftrightarrow> (\<exists>X. sends out X \<and>
     (\<forall>n rest. \<exists>n'. packets_from (Preamble n) (X @ rest) = ps @ packets_from (Preamble n') rest))"

lemma carriesI:
  assumes "sends out (True # X @ replicate m True)"
    and "\<And>n rest. \<exists>n'. packets_from (Preamble n) (True # X @ rest) = ps @ packets_from (Preamble n') rest"
  shows "carries out ps"
  unfolding carries_def
proof (intro exI [of _ "True # X @ replicate m True"] conjI allI assms(1))
  fix n rest
  obtain n' where "packets_from (Preamble n) (True # X @ replicate m True @ rest)
      = ps @ packets_from (Preamble n') (replicate m True @ rest)" using assms(2) by blast
  then show "\<exists>n'. packets_from (Preamble n) ((True # X @ replicate m True) @ rest)
      = ps @ packets_from (Preamble n') rest"
    by (simp add: packets_ones) blast
qed

lemma carries_append:
  assumes "carries a ps" and "carries b qs"
  shows "carries (a @ b) (ps @ qs)"
proof -
  obtain X where X: "sends a X"
    "\<forall>n rest. \<exists>n'. packets_from (Preamble n) (X @ rest) = ps @ packets_from (Preamble n') rest"
    using assms(1) by (auto simp: carries_def)
  obtain Y where Y: "sends b Y"
    "\<forall>n rest. \<exists>n'. packets_from (Preamble n) (Y @ rest) = qs @ packets_from (Preamble n') rest"
    using assms(2) by (auto simp: carries_def)
  have "\<exists>n'. packets_from (Preamble n) ((X @ True # Y) @ rest) = (ps @ qs) @ packets_from (Preamble n') rest"
    for n rest
  proof -
    obtain n1 where "packets_from (Preamble n) (X @ True # Y @ rest)
        = ps @ packets_from (Preamble n1) (True # Y @ rest)" using X(2) by blast
    moreover obtain n2 where "packets_from (Preamble (n1 + 1)) (Y @ rest) = qs @ packets_from (Preamble n2) rest"
      using Y(2) by blast
    ultimately show ?thesis by auto
  qed
  with sends_append [OF X(1) Y(1)] show ?thesis unfolding carries_def by blast
qed

lemma carries_replicate:
  "carries a ps \<Longrightarrow> 0 < n \<Longrightarrow> carries (concat (replicate n a)) (concat (replicate n ps))"
proof (induction n)
  case (Suc n)
  then show ?case by (cases "n = 0") (simp_all add: carries_append)
qed simp

lemma carries_packets: "carries out ps \<Longrightarrow> dcc_packets out = Some ps"
  unfolding carries_def dcc_packets_def
  by (metis append.right_neutral map_option_eq_Some packets_from.simps(1) sends_receive)

text \<open>A stream of one packet arrives as that packet.\<close>

lemma translate_one:
  assumes "k = 15 \<or> k = 30" and "bs = replicate k True @ False # frame bytes"
    and "\<forall>b\<in>set bytes. length b = 8" and "bytes \<noteq> []" and "length bs \<le> 72"
  shows "\<exists>out. translateBitstream2Packetstream_v3 bs = Some out \<and> length out > 0 \<and> length out < PKTSIZE \<and>
    carries out [bytes]"
proof -
  have k: "(k + 2) mod 5 \<noteq> 0" using assms(1) by auto
  have len: "length bs \<le> 999" using assms(5) by simp
  obtain out m where out: "translateBitstream2Packetstream_v3 bs = Some out" "length out < PKTSIZE"
    "sends out (True # bs @ replicate m True)"
    using v3_sends [OF k assms(2) len] assms(5) by force
  have "\<exists>n'. packets_from (Preamble n) (True # bs @ rest) = [bytes] @ packets_from (Preamble n') rest"
    for n rest
  proof -
    have "True # bs @ rest = replicate (Suc k) True @ False # frame bytes @ rest"
      by (simp add: assms(2))
    moreover have "packets_from (Preamble n) (replicate (Suc k) True @ False # frame bytes @ rest)
        = bytes # packets_from (Preamble 1) rest"
      using assms(1,3,4) by (intro packets_stream) auto
    ultimately show ?thesis by (metis append_Cons append_Nil)
  qed
  with out(3) have "carries out [bytes]" by (rule carriesI)
  moreover have "out \<noteq> []" using out(3) by (auto simp: wave_def sends_def)
  ultimately show ?thesis using out(1,2) by auto
qed

subsection \<open>Commands as packets\<close>

definition addr_bytes :: "int \<Rightarrow> int \<Rightarrow> bits list" where
  "addr_bytes address mode =
     (if mode = 1 then [calc_single_byte (address AND 0x7f)]
      else [calc_single_byte (0xc0 OR drop_bit 8 address), calc_single_byte address])"

definition addr_err :: "int \<Rightarrow> int \<Rightarrow> bits" where
  "addr_err address mode = foldl xor_two_bytes (hd (addr_bytes address mode)) (tl (addr_bytes address mode))"

definition packet_of :: "bits list \<Rightarrow> bits list" where
  "packet_of bytes = bytes @ [foldl xor_two_bytes (hd bytes) (tl bytes)]"

lemma checked_packet_of: "bytes \<noteq> [] \<Longrightarrow> checked (packet_of bytes) = Some bytes"
  by (cases bytes) (auto simp: checked_def packet_of_def)

lemma addr_bytes_length [simp]:
  "length (addr_bytes address mode) = (if mode = 1 then 1 else 2)"
  by (simp add: addr_bytes_def)

lemma addr_bytes_8: "b \<in> set (addr_bytes address mode) \<Longrightarrow> length b = 8"
  by (auto simp: addr_bytes_def split: if_splits)

lemma addr_bytes_nonempty [simp]: "addr_bytes address mode \<noteq> []"
  by (simp add: addr_bytes_def)

lemma frame_Cons: "bs \<noteq> [] \<Longrightarrow> frame (b # bs) = b @ [False] @ frame bs"
  by (cases bs) auto

lemma calc_address_stream_err [simp]: "snd (calc_address_stream address mode) = addr_err address mode"
  by (simp add: calc_address_stream_def addr_err_def addr_bytes_def calc_14bit_address_byte_def Let_def
      split_beta)

text \<open>With a mode of 1 or 2 the address stream is the start of the frame of its bytes.\<close>

lemma calc_address_stream_frame:
  assumes "mode = 1 \<or> mode = 2" and "ins \<noteq> []"
  shows "fst (calc_address_stream address mode) @ frame ins
    = preamble @ False # frame (addr_bytes address mode @ ins)"
  using assms
  by (auto simp: calc_address_stream_def addr_bytes_def calc_14bit_address_byte_def Let_def frame_Cons)

lemma foldl_xor_append: "bs \<noteq> [] \<Longrightarrow> foldl xor_two_bytes (hd (bs @ xs)) (tl (bs @ xs))
    = foldl xor_two_bytes (foldl xor_two_bytes (hd bs) (tl bs)) xs"
  by (cases bs) simp_all

definition addrstream :: "int \<Rightarrow> int \<Rightarrow> bits" where
  "addrstream address mode = fst (calc_address_stream address mode)"

lemma command1_frame:
  assumes "mode = 1 \<or> mode = 2"
  shows "command1 (addr_err address mode) (addrstream address mode) b
    = preamble @ False # frame (packet_of (addr_bytes address mode @ [b]))"
  using calc_address_stream_frame [OF assms, of "[b, xor_two_bytes (addr_err address mode) b]" address]
  by (simp add: command1_def packet_of_def addrstream_def addr_err_def foldl_xor_append)

lemma command2_frame:
  assumes "mode = 1 \<or> mode = 2"
  shows "command2 (addr_err address mode) (addrstream address mode) b1 b2
    = preamble @ False # frame (packet_of (addr_bytes address mode @ [b1, b2]))"
  using calc_address_stream_frame [OF assms, of
      "[b1, b2, xor_two_bytes (xor_two_bytes (addr_err address mode) b1) b2]" address]
  by (simp add: command2_def packet_of_def addrstream_def addr_err_def foldl_xor_append)

lemma program_frame:
  assumes "mode = 1 \<or> mode = 2"
  shows "addrstream address mode @ b2 @ [False] @ b3 @ [False] @ b4 @ [False] @
      xor_two_bytes (xor_two_bytes (xor_two_bytes (addr_err address mode) b2) b3) b4 @ [True]
    = preamble @ False # frame (packet_of (addr_bytes address mode @ [b2, b3, b4]))"
  using calc_address_stream_frame [OF assms, of "[b2, b3, b4,
      xor_two_bytes (xor_two_bytes (xor_two_bytes (addr_err address mode) b2) b3) b4]" address]
  by (simp add: packet_of_def addrstream_def addr_err_def foldl_xor_append)

lemma packet_of_8:
  assumes "\<forall>b\<in>set bytes. length b = 8" and "bytes \<noteq> []"
  shows "\<forall>b\<in>set (packet_of bytes). length b = 8"
proof -
  have "length a = 8 \<Longrightarrow> \<forall>b\<in>set bs. length b = 8 \<Longrightarrow> length (foldl xor_two_bytes a bs) = 8" for a bs
    by (induction bs arbitrary: a) auto
  with assms show ?thesis by (cases bytes) (auto simp: packet_of_def)
qed

lemma length_frame: "\<forall>b\<in>set bytes. length b = 8 \<Longrightarrow> length (frame bytes) = 9 * length bytes"
  by (induction bytes rule: frame.induct) auto

lemma translate_length:
  assumes "translateBitstream2Packetstream_v3 bs = Some out"
  shows "length out \<le> PKTSIZE"
proof -
  obtain s where s: "while_option (\<lambda>s. generate_packet s < PKTSIZE \<and> read_ptr s < v3_end bs)
          (v3_step (v3_buffer bs)) v3_init = Some s" "out = take (generate_packet s) (packetstream s)"
    using assms by (auto simp: translateBitstream2Packetstream_v3_def)
  have "length (packetstream s) = PKTSIZE"
    by (rule while_option_rule [OF _ s(1), where P = "\<lambda>s. length (packetstream s) = PKTSIZE"])
      (auto simp: v3_step_def v3_emit_def v3_init_def Let_def split: prod.split)
  then show ?thesis using s(2) by simp
qed

subsection \<open>Accessory decoders\<close>

text \<open>The reading of an accessory packet: 10AAAAAA 1aaaCDDO, where the upper three address
  bits are inverted.\<close>

definition accessory_command :: "bits list \<Rightarrow> (int \<times> int \<times> int \<times> int) option" where
  "accessory_command p =
     (case checked p of
        Some [b1, b2] \<Rightarrow>
          if take 2 b1 = [True, False] \<and> b2 ! 0
          then Some (bits_val (map Not (take 3 (drop 1 b2)) @ drop 2 b1),
                     bits_val (take 2 (drop 5 b2)), of_bool (b2 ! 7), of_bool (b2 ! 4))
          else None
      | _ \<Rightarrow> None)"

lemma xor_two_bytes_commute: "xor_two_bytes a b = xor_two_bytes b a"
  unfolding xor_two_bytes_def by (induction a arbitrary: b; case_tac b) auto

lemma accessory_stream_frame:
  "accessory_stream address pairnr output activate =
     replicate 15 True @ False # frame (packet_of
       [calc_single_byte (0x80 OR (address AND 0x3f)),
        calc_single_byte (0x80 OR drop_bit 2 ((NOT address) AND 0x1c0) OR
          push_bit 3 activate OR push_bit 1 pairnr OR output)])"
  by (simp add: accessory_stream_def packet_of_def preamble_def Let_def
      xor_two_bytes_commute [of "calc_single_byte (0x80 OR (address AND 0x3f))"])

lemma byte_bits:
  "calc_single_byte v = [bit v 7, bit v 6, bit v 5, bit v 4, bit v 3, bit v 2, bit v 1, bit v 0]"
  by (simp add: calc_single_byte_def upt_rec numeral_eq_Suc)

lemma accessory_byte1:
  "calc_single_byte (0x80 OR (a AND 0x3f))
     = [True, False, bit a 5, bit a 4, bit a 3, bit a 2, bit a 1, bit a 0]"
  by (simp add: byte_bits bit_or_iff bit_and_iff)

lemma accessory_byte2:
  assumes "activate \<in> {0, 1}" and "pairnr \<in> {0, 1, 2, 3}" and "output \<in> {0, 1}"
  shows "calc_single_byte (0x80 OR drop_bit 2 ((NOT a) AND 0x1c0) OR push_bit 3 activate OR
      push_bit 1 pairnr OR output)
    = [True, \<not> bit a 8, \<not> bit a 7, \<not> bit a 6, activate = 1, pairnr \<in> {2, 3}, pairnr \<in> {1, 3}, output = 1]"
  using assms
  by (auto simp: byte_bits bit_or_iff bit_and_iff bit_drop_bit_eq bit_push_bit_iff bit_not_iff)

lemma accessory_command_stream:
  assumes "0 \<le> a" and "a < 512" and "0 \<le> pairnr" "pairnr < 4"
    and "output \<in> {0, 1}" and "activate \<in> {0, 1}"
  shows "accessory_command (packet_of
       [calc_single_byte (0x80 OR (a AND 0x3f)),
        calc_single_byte (0x80 OR drop_bit 2 ((NOT a) AND 0x1c0) OR
          push_bit 3 activate OR push_bit 1 pairnr OR output)]) = Some (a, pairnr, output, activate)"
proof -
  have p: "pairnr \<in> {0, 1, 2, 3}" using assms(3,4) by auto
  have "bits_val [bit a 8, bit a 7, bit a 6, bit a 5, bit a 4, bit a 3, bit a 2, bit a 1, bit a 0]
      = bits_val (rev (map (bit a) [0..<9]))"
    by (simp add: upt_rec numeral_eq_Suc)
  then have v: "bits_val [bit a 8, bit a 7, bit a 6, bit a 5, bit a 4, bit a 3, bit a 2, bit a 1, bit a 0] = a"
    using assms(1,2) unfolding bits_val_take by (simp add: take_bit_eq_mod)
  have "bits_val [pairnr \<in> {2, 3}, pairnr \<in> {1, 3}] = pairnr"
    using p by (auto simp: bits_val_def)
  then show ?thesis
    using v assms(5,6) unfolding accessory_byte1 accessory_byte2 [OF assms(6) p assms(5)]
    by (auto simp: accessory_command_def checked_packet_of)
qed

text \<open>C8: The bytes queued for an accessory command, sent over the serial line and decoded by the
  NMRA packet format, are one packet with a correct error byte that carries decoder address,
  pair, output and activation.\<close>

theorem accessory_end_to_end:
  assumes "1 \<le> nr" and "nr \<le> 2044" and "output \<in> {0, 1}" and "activate \<in> {0, 1}"
    and "0 \<le> nr + offset" and "nr + offset < 2048"
  shows "\<exists>out p. comp_nmra_accessory nr output activate offset
        = Some ([Queue_add ((nr + offset) div 4) out QNBACCPKT], 0) \<and>
      dcc_packets out = Some [p] \<and>
      accessory_command p = Some ((nr + offset) div 4, (nr + offset) mod 4, output, activate)"
proof -
  define a where "a = (nr + offset) div 4"
  define q where "q = (nr + offset) mod 4"
  let ?bytes = "[calc_single_byte (0x80 OR (a AND 0x3f)),
        calc_single_byte (0x80 OR drop_bit 2 ((NOT a) AND 0x1c0) OR
          push_bit 3 activate OR push_bit 1 q OR output)]"
  have a: "0 \<le> a" "a < 512" using assms(5,6) by (auto simp: a_def)
  have q: "0 \<le> q" "q < 4" "nr + offset - 4 * a = q" by (simp_all add: a_def q_def minus_mult_div_eq_mod)
  have b8: "\<forall>b\<in>set (packet_of ?bytes). length b = 8" by (rule packet_of_8) simp_all
  have len: "length (replicate 15 True @ False # frame (packet_of ?bytes)) \<le> 72"
    using length_frame [OF b8] by (simp add: packet_of_def)
  have ne: "packet_of ?bytes \<noteq> []" by (simp add: packet_of_def)
  obtain out where out: "translateBitstream2Packetstream_v3 (accessory_stream a q output activate) = Some out"
    "length out > 0" "dcc_packets out = Some [packet_of ?bytes]"
    using translate_one [OF _ refl b8 ne len] carries_packets unfolding accessory_stream_frame by blast
  have ca: "c_div (nr + offset) 4 = a" using assms(5) by (simp add: a_def)
  have g: "\<not> (nr < 1 \<or> nr > 2044 \<or> output < 0 \<or> output > 1 \<or> activate < 0 \<or> activate > 1)"
    using assms(1-4) by auto
  have "comp_nmra_accessory nr output activate offset = Some ([Queue_add a out QNBACCPKT], 0)"
    using g out(1,2) unfolding comp_nmra_accessory_def ca Let_def q(3) by simp
  then show ?thesis
    using out(3) accessory_command_stream [OF a q(1,2) assms(3,4)]
    unfolding a_def [symmetric] q_def [symmetric] by blast
qed

theorem accessory_end_to_end_witness:
  "\<exists>out p. comp_nmra_accessory 12 0 1 0 = Some ([Queue_add 3 out QNBACCPKT], 0) \<and>
     dcc_packets out = Some [p] \<and> accessory_command p = Some (3, 0, 0, 1)"
  using accessory_end_to_end [of 12 0 1 0] by simp

subsection \<open>Multi function decoders\<close>

text \<open>A stream of packets for one decoder, with the ones that keep them apart.\<close>

fun stream_of :: "bits list list \<Rightarrow> bits" where
  "stream_of [] = []"
| "stream_of [p] = preamble @ False # frame p"
| "stream_of (p # q # ps) = (preamble @ False # frame p) @ wait_stream @ stream_of (q # ps)"

lemma packets_stream_of:
  assumes "\<forall>p\<in>set ps. p \<noteq> [] \<and> (\<forall>b\<in>set p. length b = 8)" and "ps \<noteq> []"
  shows "packets_from (Preamble n) (stream_of ps @ replicate m True) = ps"
  using assms
proof (induction ps arbitrary: n rule: stream_of.induct)
  case (2 p)
  then show ?case using packets_stream [of n 15 p "replicate m True"] by (simp add: preamble_def)
next
  case (3 p q ps)
  have "packets_from (Preamble 36) (stream_of (q # ps) @ replicate m True) = q # ps"
    using 3 by simp
  then have "packets_from (Preamble 1) (wait_stream @ stream_of (q # ps) @ replicate m True) = q # ps"
    using packets_ones [of 1 35 "stream_of (q # ps) @ replicate m True"] by (simp add: wait_stream_def)
  with 3(2) packets_stream [of n 15 p "wait_stream @ stream_of (q # ps) @ replicate m True"]
  show ?case by (simp add: preamble_def)
qed simp

lemma translate_stream_of:
  assumes "\<forall>p\<in>set ps. p \<noteq> [] \<and> (\<forall>b\<in>set p. length b = 8)" and "ps \<noteq> []"
    and "length (stream_of ps) \<le> 999"
  shows "\<exists>out. translateBitstream2Packetstream_v3 (stream_of ps) = Some out \<and> length out > 0 \<and>
    (length out < PKTSIZE \<longrightarrow> dcc_packets out = Some ps) \<and>
    (length (stream_of ps) \<le> 72 \<longrightarrow> length out < PKTSIZE)"
proof -
  obtain p qs where ps: "ps = p # qs" using assms(2) by (cases ps) auto
  obtain r where r: "stream_of ps = replicate 15 True @ False # r"
    by (cases qs) (simp_all add: ps preamble_def)
  obtain out where out: "translateBitstream2Packetstream_v3 (stream_of ps) = Some out"
    "length out \<le> PKTSIZE" "length out = PKTSIZE \<longrightarrow> 72 < length (stream_of ps)"
    "length out < PKTSIZE \<longrightarrow> (\<exists>m\<le>4. sends out (True # stream_of ps @ replicate m True))"
    using v3_sends [OF _ r assms(3)] by auto
  have "packets_from (Preamble 0) (True # stream_of ps @ replicate m True) = ps" for m
    using packets_stream_of [OF assms(1,2), of 1 m] by simp
  then have "length out < PKTSIZE \<longrightarrow> dcc_packets out = Some ps"
    using out(4) sends_receive by (fastforce simp: dcc_packets_def)
  moreover have "length out > 0"
  proof (rule ccontr)
    assume "\<not> length out > 0"
    then have "out = []" by simp
    then show False using out(4) by (auto simp: PKTSIZE_def wave_def sends_def)
  qed
  ultimately show ?thesis using out(1-3) by auto
qed

text \<open>The instruction bytes of the packets.\<close>

definition speed_ins :: "int \<Rightarrow> int \<Rightarrow> int \<Rightarrow> int \<Rightarrow> bits list" where
  "speed_ins direction speed func nspeed =
     (if speed < 2 \<or> nspeed < 15 then [calc_baseline_speed_byte direction speed func]
      else if nspeed > 29
      then [fst (calc_128spst_adv_op_bytes direction speed), snd (calc_128spst_adv_op_bytes direction speed)]
      else [calc_28spst_speed_byte direction speed])"

definition function_ext :: "bool \<Rightarrow> bits" where
  "function_ext high = [True, True, False, True, True, True, True, high]"

definition function_ins1 :: "int \<Rightarrow> int \<Rightarrow> bits list list" where
  "function_ins1 func nfuncs =
     (if nfuncs > 5 then [calc_function_group_two_byte func True] #
        (if nfuncs > 12 then [[function_ext False, calc_single_byte (drop_bit 13 func)]] else [])
      else [])"

definition function_ins2 :: "int \<Rightarrow> int \<Rightarrow> bits list list" where
  "function_ins2 func nfuncs =
     [calc_function_group_one_byte func] #
       (if nfuncs > 8 then [calc_function_group_two_byte func False] #
         (if nfuncs > 20 then [[function_ext True, calc_single_byte (drop_bit 21 func)]] else [])
        else [])"

definition command_packets :: "int \<Rightarrow> int \<Rightarrow> bits list list \<Rightarrow> bits list list" where
  "command_packets address mode = map (\<lambda>ins. packet_of (addr_bytes address mode @ ins))"

lemma ins_8:
  "b \<in> set (speed_ins direction speed func nspeed) \<Longrightarrow> length b = 8"
  "ins \<in> set (function_ins1 func nfuncs) \<Longrightarrow> b \<in> set ins \<Longrightarrow> length b = 8"
  "ins \<in> set (function_ins2 func nfuncs) \<Longrightarrow> b \<in> set ins \<Longrightarrow> length b = 8"
  by (auto simp: speed_ins_def calc_baseline_speed_byte_def calc_128spst_adv_op_bytes_def
      calc_28spst_speed_byte_def function_ins1_def function_ins2_def function_ext_def
      calc_function_group_one_byte_def calc_function_group_two_byte_def Let_def split: if_splits)

lemma command_packets_8:
  assumes "\<forall>ins\<in>set is. \<forall>b\<in>set ins. length b = 8"
  shows "\<forall>p\<in>set (command_packets address mode is). p \<noteq> [] \<and> (\<forall>b\<in>set p. length b = 8)"
proof
  fix p assume "p \<in> set (command_packets address mode is)"
  then obtain ins where ins: "ins \<in> set is" "p = packet_of (addr_bytes address mode @ ins)"
    by (auto simp: command_packets_def)
  then have "\<forall>b\<in>set (addr_bytes address mode @ ins). length b = 8"
    using assms addr_bytes_8 by auto
  then have "\<forall>b\<in>set p. length b = 8" unfolding ins(2) by (rule packet_of_8) simp
  then show "p \<noteq> [] \<and> (\<forall>b\<in>set p. length b = 8)" using ins(2) by (simp add: packet_of_def)
qed

lemma speed_stream_frame:
  assumes "mode = 1 \<or> mode = 2"
  shows "speed_stream (addr_err address mode) (addrstream address mode) direction speed func nspeed
    = preamble @ False # frame (packet_of (addr_bytes address mode @ speed_ins direction speed func nspeed))"
  using assms
  by (simp add: speed_stream_def speed_ins_def command1_frame command2_frame split_beta)

lemma calc_function_stream_frames:
  assumes "mode = 1 \<or> mode = 2"
  shows "calc_function_stream
      (speed_stream (addr_err address mode) (addrstream address mode) direction speed func nspeed)
      (addr_err address mode) (addrstream address mode) func nfuncs
    = (stream_of (command_packets address mode
         (speed_ins direction speed func nspeed # function_ins1 func nfuncs)),
       stream_of (command_packets address mode (function_ins2 func nfuncs)))"
  using assms
  by (simp add: calc_function_stream_def speed_stream_frame command1_frame command2_frame
      command_packets_def function_ins1_def function_ins2_def function_ext_def)

lemma length_stream_of:
  "\<forall>p\<in>set ps. length (frame p) \<le> n \<Longrightarrow> length (stream_of ps) \<le> (51 + n) * length ps"
  by (induction ps rule: stream_of.induct) (auto simp: preamble_def wait_stream_def)

lemma command_packets_nonempty [simp]: "command_packets address mode is = [] \<longleftrightarrow> is = []"
  by (simp add: command_packets_def)

lemma command_packets_length:
  assumes "\<forall>ins\<in>set is. length ins \<le> 2 \<and> (\<forall>b\<in>set ins. length b = 8)"
  shows "length (stream_of (command_packets address mode is)) \<le> 96 * length is"
proof -
  have "length (frame p) \<le> 45" if "p \<in> set (command_packets address mode is)" for p
  proof -
    obtain ins where ins: "ins \<in> set is" "p = packet_of (addr_bytes address mode @ ins)"
      using \<open>p \<in> _\<close> by (auto simp: command_packets_def)
    have "\<forall>b\<in>set p. length b = 8"
      using command_packets_8 [of "is" address mode] assms \<open>p \<in> _\<close> by blast
    then have "length (frame p) = 9 * length p" by (rule length_frame)
    moreover have "length p \<le> 5" using assms ins by (auto simp: packet_of_def split: if_splits)
    ultimately show ?thesis by simp
  qed
  then show ?thesis
    using length_stream_of [of "command_packets address mode is" 45] by (simp add: command_packets_def)
qed

text \<open>What a decoder set to \<open>nspeed\<close> speed steps reads from speed instructions, as the forward
  flag and the speed in the numbering of the function's argument: 0 is stop, 1 emergency stop,
  n + 1 the step n.\<close>

definition speed_command :: "int \<Rightarrow> bits list \<Rightarrow> (bool \<times> int) option" where
  "speed_command nspeed ins =
     (case ins of
        [b] \<Rightarrow>
          if take 2 b = [False, True]
          then Some (b ! 2, if nspeed < 15 then bits_val (drop 4 b)
                            else let c = 2 * bits_val (drop 4 b) + of_bool (b ! 3)
                                 in if c < 4 then c div 2 else c - 2)
          else None
      | [b1, b2] \<Rightarrow>
          if b1 = [False, False, True, True, True, True, True, True]
          then Some (b2 ! 0, bits_val (drop 1 b2)) else None
      | _ \<Rightarrow> None)"

text \<open>The functions a decoder switches on a function instruction.\<close>

definition function_command :: "(nat \<Rightarrow> bool) \<Rightarrow> bits list \<Rightarrow> nat \<Rightarrow> bool" where
  "function_command F ins i =
     (case ins of
        [b] \<Rightarrow>
          if take 3 b = [True, False, False] then
            if i = 0 then b ! 3 else if i < 5 then b ! (8 - i) else F i
          else if take 4 b = [True, False, True, True] \<and> 5 \<le> i \<and> i < 9 then b ! (12 - i)
          else if take 4 b = [True, False, True, False] \<and> 9 \<le> i \<and> i < 13 then b ! (16 - i)
          else F i
      | [b1, b2] \<Rightarrow>
          if b1 = function_ext False \<and> 13 \<le> i \<and> i < 21 then b2 ! (20 - i)
          else if b1 = function_ext True \<and> 21 \<le> i \<and> i < 29 then b2 ! (28 - i)
          else F i
      | _ \<Rightarrow> F i)"

lemma group_one_bits:
  "calc_function_group_one_byte func = [True, False, False, bit func 0, bit func 4, bit func 3, bit func 2, bit func 1]"
  by (simp add: calc_function_group_one_byte_def byte_bits Let_def bit_simps
      and_one_eq odd_iff_mod_2_eq_one [symmetric] bit_0 even_and_iff even_or_iff
      even_drop_bit_iff_not_bit eval_nat_numeral)

lemma group_two_bits:
  "calc_function_group_two_byte func True = [True, False, True, True, bit func 8, bit func 7, bit func 6, bit func 5]"
  "calc_function_group_two_byte func False = [True, False, True, False, bit func 12, bit func 11, bit func 10, bit func 9]"
  by (simp_all add: calc_function_group_two_byte_def byte_bits bit_simps)

lemma function_command_effects:
  "function_command F [calc_function_group_one_byte func] = (\<lambda>i. if i < 5 then bit func i else F i)"
  "function_command F [calc_function_group_two_byte func True] = (\<lambda>i. if 5 \<le> i \<and> i < 9 then bit func i else F i)"
  "function_command F [calc_function_group_two_byte func False] = (\<lambda>i. if 9 \<le> i \<and> i < 13 then bit func i else F i)"
  "function_command F [function_ext False, calc_single_byte (drop_bit 13 func)] = (\<lambda>i. if 13 \<le> i \<and> i < 21 then bit func i else F i)"
  "function_command F [function_ext True, calc_single_byte (drop_bit 21 func)] = (\<lambda>i. if 21 \<le> i \<and> i < 29 then bit func i else F i)"
proof -
  have five: "i < 5 \<Longrightarrow> i = 0 \<or> i = 1 \<or> i = 2 \<or> i = 3 \<or> i = 4" for i :: nat by linarith
  have four: "a \<le> i \<Longrightarrow> i < a + 4 \<Longrightarrow> i = a \<or> i = a + 1 \<or> i = a + 2 \<or> i = a + 3" for a i :: nat by linarith
  have byte: "calc_single_byte v ! (7 - n) = bit v n" if "n < 8" for v n
  proof -
    have "n = 0 \<or> n = 1 \<or> n = 2 \<or> n = 3 \<or> n = 4 \<or> n = 5 \<or> n = 6 \<or> n = 7" using that by linarith
    then show ?thesis by (elim disjE) (simp_all add: byte_bits bit_simps)
  qed
  show "function_command F [calc_function_group_one_byte func] = (\<lambda>i. if i < 5 then bit func i else F i)"
    by (rule ext) (auto simp: function_command_def group_one_bits dest!: five)
  show "function_command F [calc_function_group_two_byte func True] = (\<lambda>i. if 5 \<le> i \<and> i < 9 then bit func i else F i)"
    using four [of 5] by (intro ext) (force simp: function_command_def group_two_bits)
  show "function_command F [calc_function_group_two_byte func False] = (\<lambda>i. if 9 \<le> i \<and> i < 13 then bit func i else F i)"
    using four [of 9] by (intro ext) (force simp: function_command_def group_two_bits)
  show "function_command F [function_ext False, calc_single_byte (drop_bit 13 func)] = (\<lambda>i. if 13 \<le> i \<and> i < 21 then bit func i else F i)"
  proof (rule ext)
    fix i
    have "calc_single_byte (drop_bit 13 func) ! (20 - i) = bit func i" if "13 \<le> i" "i < 21"
      using byte [of "i - 13" "drop_bit 13 func"] that by (simp add: bit_drop_bit_eq)
    then show "function_command F [function_ext False, calc_single_byte (drop_bit 13 func)] i = (if 13 \<le> i \<and> i < 21 then bit func i else F i)"
      by (auto simp: function_command_def function_ext_def)
  qed
  show "function_command F [function_ext True, calc_single_byte (drop_bit 21 func)] = (\<lambda>i. if 21 \<le> i \<and> i < 29 then bit func i else F i)"
  proof (rule ext)
    fix i
    have "calc_single_byte (drop_bit 21 func) ! (28 - i) = bit func i" if "21 \<le> i" "i < 29"
      using byte [of "i - 21" "drop_bit 21 func"] that by (simp add: bit_drop_bit_eq)
    then show "function_command F [function_ext True, calc_single_byte (drop_bit 21 func)] i = (if 21 \<le> i \<and> i < 29 then bit func i else F i)"
      by (auto simp: function_command_def function_ext_def)
  qed
qed

lemma function_commands:
  fixes i :: nat
  assumes "int i < nfuncs" and "i < 29"
  shows "foldl function_command F (function_ins1 func nfuncs @ function_ins2 func nfuncs) i = bit func i"
  using assms by (auto simp: function_ins1_def function_ins2_def function_command_effects)

lemma bits_val_4: "0 \<le> s \<Longrightarrow> s < 16 \<Longrightarrow> bits_val [bit s 3, bit s 2, bit s 1, bit s 0] = s"
  using bits_val_take [of s 4] by (simp add: upt_rec numeral_eq_Suc take_bit_eq_mod)

lemma bits_val_7:
  "0 \<le> s \<Longrightarrow> s < 128 \<Longrightarrow>
   bits_val [bit s 6, bit s 5, bit s 4, bit s 3, bit s 2, bit s 1, bit s 0] = s"
  using bits_val_take [of s 7] by (simp add: upt_rec numeral_eq_Suc take_bit_eq_mod)

lemma small_bits:
  fixes s :: int
  assumes "0 \<le> s" and "s < 2 ^ m" and "m \<le> n"
  shows "\<not> bit s n"
proof -
  have "s < 2 ^ n" using assms(2,3) power_increasing [of m n "2::int"] by linarith
  then show ?thesis using assms(1) by (simp add: bit_iff_odd)
qed

lemma speed_byte_bits:
  assumes "direction \<in> {0, 1}" and "0 \<le> s" and "s < 16"
  shows "calc_single_byte (0x40 OR push_bit 5 direction OR s)
    = [False, True, direction = 1, False, bit s 3, bit s 2, bit s 1, bit s 0]"
  using assms small_bits [of s 4] by (auto simp: byte_bits bit_simps bit_0 even_or_iff)

lemma baseline_bits:
  assumes "direction \<in> {0, 1}" and "0 \<le> s" and "s < 16"
  shows "calc_baseline_speed_byte direction s func
    = [False, True, direction = 1, odd func, bit s 3, bit s 2, bit s 1, bit s 0]"
  unfolding calc_baseline_speed_byte_def speed_byte_bits [OF assms] Let_def
  by (simp add: and_one_eq odd_iff_mod_2_eq_one [symmetric])

lemma speed28_bits:
  assumes "direction \<in> {0, 1}" and "2 \<le> s" and "s \<le> 29"
  defines "h \<equiv> (s + 2) div 2"
  shows "calc_28spst_speed_byte direction s
    = [False, True, direction = 1, odd s, bit h 3, bit h 2, bit h 1, bit h 0]"
proof -
  have h: "0 \<le> h" "h < 16" "drop_bit 1 (s + 2) = h"
    using assms(2,3) by (auto simp: h_def drop_bit_eq_div)
  have "calc_single_byte (0x40 OR push_bit 5 direction OR drop_bit 1 (s + 2))
      = [False, True, direction = 1, False, bit h 3, bit h 2, bit h 1, bit h 0]"
    unfolding h(3) by (rule speed_byte_bits [OF assms(1) h(1,2)])
  then show ?thesis
    using assms(2) unfolding calc_28spst_speed_byte_def Let_def
    by (simp add: and_one_eq odd_iff_mod_2_eq_one [symmetric])
qed

lemma speed128_bits:
  assumes "direction \<in> {0, 1}" and "0 \<le> s" and "s < 128"
  shows "snd (calc_128spst_adv_op_bytes direction s)
    = [direction = 1, bit s 6, bit s 5, bit s 4, bit s 3, bit s 2, bit s 1, bit s 0]"
  using assms small_bits [of s 7 7] by (auto simp: calc_128spst_adv_op_bytes_def byte_bits Let_def)

lemma speed_commands:
  assumes dir: "direction \<in> {0, 1}" and s: "0 \<le> s" "s \<le> 127" "s \<le> nspeed + 1"
    and n: "nspeed \<le> 28 \<or> 30 \<le> nspeed"
  shows "speed_command nspeed (speed_ins direction s func nspeed) = Some (direction = 1, s)"
proof -
  consider "s < 2 \<or> nspeed < 15" | "2 \<le> s" "15 \<le> nspeed" "30 \<le> nspeed"
    | "2 \<le> s" "15 \<le> nspeed" "nspeed \<le> 28" using n by linarith
  then show ?thesis
  proof cases
    case 1
    then have s16: "s < 16" using s(3) by linarith
    show ?thesis
      using 1 s(1) bits_val_4 [OF s(1) s16]
      by (auto simp: speed_ins_def speed_command_def baseline_bits [OF dir s(1) s16] Let_def)
  next
    case 2
    have s128: "s < 128" using s(2) by simp
    have "speed_ins direction s func nspeed = [[False, False, True, True, True, True, True, True],
        [direction = 1, bit s 6, bit s 5, bit s 4, bit s 3, bit s 2, bit s 1, bit s 0]]"
      using 2 speed128_bits [OF dir s(1) s128]
      by (simp add: speed_ins_def calc_128spst_adv_op_bytes_def)
    then show ?thesis using bits_val_7 [OF s(1) s128] by (simp add: speed_command_def)
  next
    case 3
    then have s29: "s \<le> 29" using s(3) by simp
    have h: "0 \<le> (s + 2) div 2" "(s + 2) div 2 < 16" using 3(1) s29 by auto
    have c: "2 * ((s + 2) div 2) + (if odd s then 1 else 0) = s + 2" by (simp add: odd_two_times_div_two_succ)
    have "speed_ins direction s func nspeed = [[False, True, direction = 1, odd s,
        bit ((s + 2) div 2) 3, bit ((s + 2) div 2) 2, bit ((s + 2) div 2) 1, bit ((s + 2) div 2) 0]]"
      using 3 speed28_bits [OF dir 3(1) s29] by (simp add: speed_ins_def)
    then show ?thesis
      using 3 c bits_val_4 [OF h] by (simp add: speed_command_def Let_def of_bool_def)
  qed
qed

text \<open>The address of a packet, with the flag of a long one, and what follows it.\<close>

definition loco_address :: "bits list \<Rightarrow> ((bool \<times> int) \<times> bits list) option" where
  "loco_address p =
     (case p of
        b1 # rest \<Rightarrow>
          if \<not> b1 ! 0 then Some ((False, bits_val (drop 1 b1)), rest)
          else if b1 ! 1 then
            (case rest of b2 # rest' \<Rightarrow> Some ((True, bits_val (drop 2 b1 @ b2)), rest') | [] \<Rightarrow> None)
          else None
      | [] \<Rightarrow> None)"

definition loco_commands :: "nat list \<Rightarrow> ((bool \<times> int) \<times> bits list) list option" where
  "loco_commands out =
     do { ps \<leftarrow> dcc_packets out; those (map (\<lambda>p. do { bytes \<leftarrow> checked p; loco_address bytes }) ps) }"

lemma loco_address_bytes:
  assumes "mode = 1 \<and> address \<le> 127 \<or> mode = 2 \<and> address < 16384" and "0 \<le> address"
  shows "loco_address (addr_bytes address mode @ ins) = Some ((mode = 2, address), ins)"
  using assms(1)
proof
  assume m: "mode = 1 \<and> address \<le> 127"
  then show ?thesis
    using bits_val_7 [of address] assms(2)
    by (simp add: addr_bytes_def loco_address_def byte_bits bit_simps bit_0 even_and_iff)
next
  assume m: "mode = 2 \<and> address < 16384"
  have "bits_val [bit address 13, bit address 12, bit address 11, bit address 10, bit address 9,
      bit address 8, bit address 7, bit address 6, bit address 5, bit address 4, bit address 3,
      bit address 2, bit address 1, bit address 0] = address"
    using bits_val_take [of address 14] m assms(2) by (simp add: upt_rec numeral_eq_Suc take_bit_eq_mod)
  with m show ?thesis
    by (simp add: addr_bytes_def loco_address_def byte_bits bit_simps bit_0 even_or_iff
        even_drop_bit_iff_not_bit)
qed

lemma loco_commands_packets:
  assumes "dcc_packets out = Some (command_packets address mode is)"
    and "mode = 1 \<and> address \<le> 127 \<or> mode = 2 \<and> address < 16384" and "0 \<le> address"
  shows "loco_commands out = Some (map (Pair (mode = 2, address)) is)"
proof -
  have "those (map (\<lambda>p. do { bytes \<leftarrow> checked p; loco_address bytes }) (command_packets address mode is))
      = Some (map (Pair (mode = 2, address)) is)"
    by (induction "is") (simp_all add: command_packets_def checked_packet_of loco_address_bytes [OF assms(2,3)])
  with assms(1) show ?thesis by (simp add: loco_commands_def)
qed

lemma translate_commands:
  assumes "is \<noteq> []" and "\<forall>ins\<in>set is. length ins \<le> 2 \<and> (\<forall>b\<in>set ins. length b = 8)" and "length is \<le> 10"
    and "mode = 1 \<and> address \<le> 127 \<or> mode = 2 \<and> address < 16384" and "0 \<le> address"
  shows "\<exists>out. translateBitstream2Packetstream_v3 (stream_of (command_packets address mode is)) = Some out \<and>
    length out > 0 \<and>
    (length out < PKTSIZE \<longrightarrow> loco_commands out = Some (map (Pair (mode = 2, address)) is)) \<and>
    (length (stream_of (command_packets address mode is)) \<le> 72 \<longrightarrow> length out < PKTSIZE)"
proof -
  have "length (stream_of (command_packets address mode is)) \<le> 999"
    using command_packets_length [OF assms(2), of address mode] assms(3) by simp
  moreover have "\<forall>p\<in>set (command_packets address mode is). p \<noteq> [] \<and> (\<forall>b\<in>set p. length b = 8)"
    using assms(2) by (intro command_packets_8) blast
  moreover have "command_packets address mode is \<noteq> []" using assms(1) by simp
  ultimately show ?thesis
    using translate_stream_of [of "command_packets address mode is"] loco_commands_packets [OF _ assms(4,5)]
    by blast
qed

lemma length_one_command:
  assumes "length ins \<le> 2" and "\<forall>b\<in>set ins. length b = 8"
  shows "length (stream_of (command_packets address mode [ins])) \<le> 72"
proof -
  have "\<forall>b\<in>set (packet_of (addr_bytes address mode @ ins)). length b = 8"
    using assms(2) addr_bytes_8 by (intro packet_of_8) auto
  from length_frame [OF this] assms(1) show ?thesis
    by (simp add: command_packets_def preamble_def packet_of_def)
qed

lemma ins_length:
  "length (speed_ins direction speed func nspeed) \<le> 2"
  "ins \<in> set (function_ins1 func nfuncs) \<Longrightarrow> length ins \<le> 2"
  "ins \<in> set (function_ins2 func nfuncs) \<Longrightarrow> length ins \<le> 2"
  "length (function_ins1 func nfuncs) \<le> 2" "length (function_ins2 func nfuncs) \<le> 3"
  by (auto simp: speed_ins_def function_ins1_def function_ins2_def split: if_splits)

lemma function_ins2_nonempty [simp]: "function_ins2 func nfuncs \<noteq> []"
  by (simp add: function_ins2_def)

lemma comp_nmra_multi_func_ok:
  assumes "1 \<le> address" "address \<le> 10239" "direction \<in> {0, 1}" "0 \<le> speed" "speed \<le> nspeed + 1"
    and mode: "mode = 1 \<and> address \<le> 127 \<or> mode = 2"
  shows "comp_nmra_multi_func address direction speed func nspeed nfuncs mode =
    (let two = (nfuncs \<noteq> 0 \<and> nspeed > 14);
         sp = speed_ins direction (min speed 127) func nspeed;
         adr = (if mode = 2 then address + ADDR14BIT_OFFSET else address);
         s1 = stream_of (command_packets address mode (sp # (if two then function_ins1 func nfuncs else [])));
         s2 = (if two then stream_of (command_packets address mode (function_ins2 func nfuncs)) else s1) in
     do { o1 \<leftarrow> translateBitstream2Packetstream_v3 s1; o2 \<leftarrow> translateBitstream2Packetstream_v3 s2;
          if length o1 > 0 \<and> length o2 > 0
          then Some ([Update_NMRAPacketPool adr o1 o2, Queue_add adr o1 QNBLOCOPKT] @
                     (if two then [Queue_add adr o2 QNBLOCOPKT] else []), 0)
          else Some ([], 1) })"
proof -
  have m: "mode = 1 \<or> mode = 2" using mode by auto
  have g: "\<not> (address < 1 \<or> address > 10239 \<or> direction < 0 \<or> direction > 1 \<or>
         speed < 0 \<or> speed > nspeed + 1 \<or> (address > 127 \<and> mode = 1))"
    using assms by auto
  have ca: "calc_address_stream address mode = (addrstream address mode, addr_err address mode)"
    by (simp add: addrstream_def prod_eq_iff)
  have s: "(if speed > 127 then 127 else speed) = min speed 127" by simp
  have one: "stream_of (command_packets address mode [ins])
      = preamble @ False # frame (packet_of (addr_bytes address mode @ ins))" for ins
    by (simp add: command_packets_def)
  show ?thesis
    unfolding comp_nmra_multi_func_def s ca Let_def if_not_P [OF g]
    by (simp add: calc_function_stream_frames [OF m, unfolded speed_stream_frame [OF m]]
        speed_stream_frame [OF m] one del: One_nat_def)
qed

lemma multi_func_sends:
  fixes nfuncs :: int
  assumes "1 \<le> address" "address \<le> 10239" "direction \<in> {0, 1}" "0 \<le> speed" "speed \<le> nspeed + 1"
    and "mode = 1 \<and> address \<le> 127 \<or> mode = 2" and "nspeed \<le> 28 \<or> 30 \<le> nspeed"
  defines "two \<equiv> nfuncs \<noteq> 0 \<and> nspeed > 14"
    and "adr \<equiv> (if mode = 2 then address + ADDR14BIT_OFFSET else address)"
  shows "\<exists>o1 o2 sp f1 f2.
    comp_nmra_multi_func address direction speed func nspeed nfuncs mode =
      Some ([Update_NMRAPacketPool adr o1 o2, Queue_add adr o1 QNBLOCOPKT] @
            (if two then [Queue_add adr o2 QNBLOCOPKT] else []), 0) \<and>
    (length o1 < PKTSIZE \<longrightarrow> loco_commands o1 = Some (map (Pair (mode = 2, address)) (sp # f1))) \<and>
    (two \<and> length o2 < PKTSIZE \<longrightarrow> loco_commands o2 = Some (map (Pair (mode = 2, address)) f2)) \<and>
    speed_command nspeed sp = Some (direction = 1, min speed 127) \<and>
    (\<forall>i F. two \<and> int i < nfuncs \<and> i < 29 \<longrightarrow> foldl function_command F (f1 @ f2) i = bit func i) \<and>
    (nfuncs \<le> 5 \<longrightarrow> length o1 < PKTSIZE \<and> length o2 < PKTSIZE)"
proof -
  let ?sp = "speed_ins direction (min speed 127) func nspeed"
  define f1 where "f1 = (if two then function_ins1 func nfuncs else [])"
  define f2 where "f2 = (if two then function_ins2 func nfuncs else ?sp # f1)"
  have mode: "mode = 1 \<and> address \<le> 127 \<or> mode = 2 \<and> address < 16384" using assms(2,6) by auto
  have a0: "0 \<le> address" using assms(1) by simp
  have ins1: "\<forall>ins\<in>set (?sp # f1). length ins \<le> 2 \<and> (\<forall>b\<in>set ins. length b = 8)" "length (?sp # f1) \<le> 10"
    using ins_8(1,2) ins_length(1,2) ins_length(4) [of func nfuncs]
    by (auto simp: f1_def split: if_splits)
  have ins2: "\<forall>ins\<in>set f2. length ins \<le> 2 \<and> (\<forall>b\<in>set ins. length b = 8)" "length f2 \<le> 10" "f2 \<noteq> []"
    using ins1 ins_8(3) ins_length(3) ins_length(5) [of func nfuncs] by (auto simp: f2_def split: if_splits)
  obtain o1 where o1: "translateBitstream2Packetstream_v3
        (stream_of (command_packets address mode (?sp # f1))) = Some o1" "length o1 > 0"
      "length o1 < PKTSIZE \<longrightarrow> loco_commands o1 = Some (map (Pair (mode = 2, address)) (?sp # f1))"
      "length (stream_of (command_packets address mode (?sp # f1))) \<le> 72 \<longrightarrow> length o1 < PKTSIZE"
    using translate_commands [OF _ ins1 mode a0] by blast
  obtain o2 where o2: "translateBitstream2Packetstream_v3
        (stream_of (command_packets address mode f2)) = Some o2" "length o2 > 0"
      "length o2 < PKTSIZE \<longrightarrow> loco_commands o2 = Some (map (Pair (mode = 2, address)) f2)"
      "length (stream_of (command_packets address mode f2)) \<le> 72 \<longrightarrow> length o2 < PKTSIZE"
    using translate_commands [OF ins2(3,1,2) mode a0] by blast
  have s2: "(if two then stream_of (command_packets address mode (function_ins2 func nfuncs))
      else stream_of (command_packets address mode (?sp # f1))) = stream_of (command_packets address mode f2)"
    by (simp add: f2_def)
  have eq: "comp_nmra_multi_func address direction speed func nspeed nfuncs mode =
      Some ([Update_NMRAPacketPool adr o1 o2, Queue_add adr o1 QNBLOCOPKT] @
            (if two then [Queue_add adr o2 QNBLOCOPKT] else []), 0)"
    unfolding comp_nmra_multi_func_ok [OF assms(1-6)] Let_def two_def [symmetric] f1_def [symmetric]
      s2 adr_def [symmetric]
    using o1(1,2) o2(1,2) by simp
  have sp: "speed_command nspeed ?sp = Some (direction = 1, min speed 127)"
    using assms(3-5,7) by (intro speed_commands) auto
  have fs: "two \<and> int i < nfuncs \<and> i < 29 \<longrightarrow> foldl function_command F (f1 @ f2) i = bit func i" for i F
    using function_commands by (simp add: f1_def f2_def)
  have small: "nfuncs \<le> 5 \<longrightarrow> length o1 < PKTSIZE \<and> length o2 < PKTSIZE"
  proof
    assume "nfuncs \<le> 5"
    then have "f1 = []" "\<exists>x. f2 = [x]"
      by (auto simp: f1_def f2_def function_ins1_def function_ins2_def)
    then show "length o1 < PKTSIZE \<and> length o2 < PKTSIZE"
      using o1(4) o2(4) ins1(1) ins2(1) length_one_command by fastforce
  qed
  show ?thesis
    using eq o1(3) o2(3) sp fs small
    by (intro exI [of _ o1] exI [of _ o2] exI [of _ ?sp] exI [of _ f1] exI [of _ f2]) blast
qed

text \<open>C9: The two byte streams queued for a locomotive command decode to packets for its short or
  long address whose speed instruction gives direction and speed and whose function
  instructions set every function below the number of functions to its bit; up to five
  functions the streams fit the packet size.\<close>

theorem multi_func_end_to_end:
  fixes nfuncs :: int
  assumes "1 \<le> address" "address \<le> 10239" "direction \<in> {0, 1}" "0 \<le> speed" "speed \<le> nspeed + 1"
    and "mode = 1 \<and> address \<le> 127 \<or> mode = 2" and "nspeed \<le> 28 \<or> 30 \<le> nspeed"
  defines "two \<equiv> nfuncs \<noteq> 0 \<and> nspeed > 14"
    and "adr \<equiv> (if mode = 2 then address + ADDR14BIT_OFFSET else address)"
  shows "\<exists>o1 o2 sp f1 f2.
    comp_nmra_multi_func address direction speed func nspeed nfuncs mode =
      Some ([Update_NMRAPacketPool adr o1 o2, Queue_add adr o1 QNBLOCOPKT] @
            (if two then [Queue_add adr o2 QNBLOCOPKT] else []), 0) \<and>
    (length o1 < PKTSIZE \<longrightarrow> loco_commands o1 = Some (map (Pair (mode = 2, address)) (sp # f1))) \<and>
    (two \<and> length o2 < PKTSIZE \<longrightarrow> loco_commands o2 = Some (map (Pair (mode = 2, address)) f2)) \<and>
    speed_command nspeed sp = Some (direction = 1, min speed 127) \<and>
    (\<forall>i F. two \<and> int i < nfuncs \<and> i < 29 \<longrightarrow> foldl function_command F (f1 @ f2) i = bit func i) \<and>
    (nfuncs \<le> 5 \<longrightarrow> length o1 < PKTSIZE \<and> length o2 < PKTSIZE)"
  unfolding two_def adr_def
  by (rule multi_func_sends [OF assms(1-7)])

theorem multi_func_end_to_end_witness:
  "\<exists>o1 o2 sp f1 f2.
    comp_nmra_multi_func 3000 1 20 21 28 4 2 =
      Some ([Update_NMRAPacketPool (3000 + ADDR14BIT_OFFSET) o1 o2,
             Queue_add (3000 + ADDR14BIT_OFFSET) o1 QNBLOCOPKT,
             Queue_add (3000 + ADDR14BIT_OFFSET) o2 QNBLOCOPKT], 0) \<and>
    loco_commands o1 = Some (map (Pair (True, 3000)) (sp # f1)) \<and>
    loco_commands o2 = Some (map (Pair (True, 3000)) f2) \<and>
    speed_command 28 sp = Some (True, 20) \<and>
    foldl function_command (\<lambda>_. False) (f1 @ f2) 2"
proof -
  obtain o1 o2 sp f1 f2 where *: "comp_nmra_multi_func 3000 1 20 21 28 4 2 =
      Some ([Update_NMRAPacketPool (3000 + ADDR14BIT_OFFSET) o1 o2,
             Queue_add (3000 + ADDR14BIT_OFFSET) o1 QNBLOCOPKT,
             Queue_add (3000 + ADDR14BIT_OFFSET) o2 QNBLOCOPKT], 0)"
    "loco_commands o1 = Some (map (Pair (True, 3000)) (sp # f1))"
    "loco_commands o2 = Some (map (Pair (True, 3000)) f2)" "speed_command 28 sp = Some (True, 20)"
    "\<forall>i F. int i < 4 \<and> i < 29 \<longrightarrow> foldl function_command F (f1 @ f2) i = bit (21::int) i"
    using multi_func_end_to_end [where address = 3000 and direction = 1 and speed = 20 and nspeed = 28 and mode = 2
        and func = 21 and nfuncs = 4] by auto
  moreover have "foldl function_command (\<lambda>_. False) (f1 @ f2) 2"
    using *(5) [rule_format, of 2 "\<lambda>_. False"] by simp
  ultimately show ?thesis by blast
qed

end
