(* ===== verification/Ddl_State.thy ===== *)
theory Ddl_State
  imports Ring_Queue Dcc_Packet
begin

text \<open>
  The data of a DDL bus (\<open>ddl.h\<close>) and the operations that the protocol files call on it
  (\<open>ddl.c\<close>): the ring of \<open>QSIZE\<close> packets waiting to be sent and the two pools with the last
  packets of every locomotive, from which the refresh cycle repeats them.

  \<open>None\<close> is, as everywhere, a call that has no defined result; here an index outside of an
  array or a packet that is longer than its slot. The structure comes from \<open>malloc\<close>, so the
  contents that nothing has written yet are arbitrary: they are whatever the given record
  holds. Memory for a pool entry is assumed to be granted.

  A packet is the list of its bytes. Of the arrays in the NMRA pool only the first
  \<open>packet_size\<close> bytes are kept, the code never reads the others.

  What the driver does to the serial line is recorded in \<open>line_out\<close>, in order. The results of
  the system calls that can fail, and the modem lines that are read, come from two arbitrary
  sequences, one element per call.
\<close>

unbundle bit_operations_syntax

definition QSIZE :: nat where "QSIZE = 2000"
definition MAXDATA :: nat where "MAXDATA = 20"
definition MAX_MARKLIN_ADDRESS :: int where "MAX_MARKLIN_ADDRESS = 256"
definition MAX_NMRA_ADDRESS :: int where "MAX_NMRA_ADDRESS = 10367"

definition EP_MAERKLIN :: int where "EP_MAERKLIN = 1"
definition EP_NMRADCC :: int where "EP_NMRADCC = 2"

definition SDM_NOTINITIALIZED :: int where "SDM_NOTINITIALIZED = -1"
definition SDM_MAERKLIN :: int where "SDM_MAERKLIN = 0"
definition SDM_NMRA :: int where "SDM_NMRA = 1"
definition SDM_DEFAULT :: int where "SDM_DEFAULT = 1"

text \<open>The two levels of a Maerklin signal, as the bytes that produce them.\<close>

definition HI :: nat where "HI = 0"
definition LO :: nat where "LO = 63"

record tQData =
  packet_type :: pkt_type
  packet_size :: nat
  packet :: "nat list"
  q_addr :: int

record tMaerklinPacket =
  sd_packet :: "nat list"
  f_packets :: "nat list list"

record tMaerklinPacketPool =
  mm_packets :: "int \<Rightarrow> tMaerklinPacket"
  mm_known :: "nat \<Rightarrow> int"
  mm_nr :: nat

record tNMRAPacket =
  n_packet :: "nat list"
  fx_packet :: "nat list"

record tNMRAPacketPool =
  nmra_packets :: "int \<Rightarrow> tNMRAPacket option"
  nmra_known :: "nat \<Rightarrow> int"
  nmra_nr :: nat

datatype serial =
    Set_mode int
  | Set_divisor int
  | Write "nat list"
  | Flush_output
  | Flow bool
  | Set_lines int

record ddl =
  serial_device_mode :: int
  ri_check :: bool
  checkshort :: bool
  dsr_inverse :: bool
  shortcutdelay :: int
  enabled_protocols :: int
  improve_nmradcc_timing :: bool
  nmra_ga_offset :: int
  program_track :: bool
  queue_initialized :: bool
  packets_q :: "tQData ring"
  short_detected :: int
  idle_data :: "nat list"
  nmra_idle_data :: "nat list"
  last_refreshed_maerklin_loco :: nat
  last_refreshed_maerklin_fx :: int
  last_refreshed_nmra_loco :: nat
  last_refreshed_nmra_fx :: int
  maerklin_refresh :: bool
  mm_pool :: tMaerklinPacketPool
  nmra_pool :: tNMRAPacketPool
  sys_results :: "nat \<Rightarrow> bool"
  modem_bits :: "nat \<Rightarrow> int option"
  line_out :: "serial list"

definition emit :: "serial list \<Rightarrow> ddl \<Rightarrow> ddl" where
  "emit es d = d\<lparr>line_out := line_out d @ es\<rparr>"

definition syscall :: "ddl \<Rightarrow> bool \<times> ddl" where
  "syscall d = (sys_results d 0, d\<lparr>sys_results := (\<lambda>i. sys_results d (Suc i))\<rparr>)"

subsection \<open>The packet queue\<close>

definition padded :: "nat list \<Rightarrow> nat list" where
  "padded p = p @ replicate (PKTSIZE - length p) 0"

definition queue_init :: "ddl \<Rightarrow> ddl" where
  "queue_init d = d\<lparr>packets_q :=
       \<lparr>slots = map (\<lambda>q. q\<lparr>packet_type := QNOVALIDPKT, packet := replicate PKTSIZE 0, q_addr := 0\<rparr>)
                  (slots (packets_q d)), wr = 0, rd = 0\<rparr>,
     queue_initialized := True\<rparr>"

definition queue_empty :: "ddl \<Rightarrow> bool" where
  "queue_empty d \<longleftrightarrow> wr (packets_q d) = rd (packets_q d)"

text \<open>There is no check for a full queue.\<close>

definition queue_add :: "int \<Rightarrow> nat list \<Rightarrow> pkt_type \<Rightarrow> ddl \<Rightarrow> ddl option" where
  "queue_add addr p type d =
     (if PKTSIZE < length p then None
      else Some (d\<lparr>packets_q := ring_push
             \<lparr>packet_type = type, packet_size = length p, packet = padded p, q_addr = addr\<rparr>
             (packets_q d)\<rparr>))"

text \<open>The slot is marked as empty when it has been read.\<close>

definition take_packet :: "tQData ring \<Rightarrow> (tQData \<times> tQData ring) option" where
  "take_packet q =
     (if wr q = rd q then None
      else let e = slots q ! rd q
           in Some (e, q\<lparr>slots := (slots q)[rd q := e\<lparr>packet_type := QNOVALIDPKT\<rparr>],
                          rd := ring_next q (rd q)\<rparr>))"

text \<open>The type of the packet taken, its address, its bytes and its size; the last three are
  not written when there is none.\<close>

definition queue_get :: "ddl \<Rightarrow> (pkt_type \<times> (int \<times> nat list \<times> nat) option) \<times> ddl" where
  "queue_get d =
     (if \<not> queue_initialized d then ((QEMPTY, None), d)
      else case take_packet (packets_q d) of
             None \<Rightarrow> ((QEMPTY, None), d)
           | Some (e, q) \<Rightarrow> ((packet_type e, Some (q_addr e, packet e, packet_size e)), d\<lparr>packets_q := q\<rparr>))"

subsection \<open>The pool of Maerklin packets\<close>

definition mm_idle_packet :: "nat list" where
  "mm_idle_packet = concat (replicate 4 [HI, LO]) @ replicate 10 LO"

text \<open>Address 81 stands for the idle packet until the first locomotive is used.\<close>

definition init_MaerklinPacketPool :: "ddl \<Rightarrow> ddl" where
  "init_MaerklinPacketPool d =
     (let pool = mm_pool d
      in d\<lparr>mm_pool := pool\<lparr>
        mm_known := (\<lambda>i. if int i \<le> MAX_MARKLIN_ADDRESS then if i = 0 then 81 else 0 else mm_known pool i),
        mm_nr := 1,
        mm_packets := (mm_packets pool)(81 := \<lparr>sd_packet = mm_idle_packet,
          f_packets = replicate 4 mm_idle_packet\<rparr>)\<rparr>\<rparr>)"

definition get_maerklin_packet :: "int \<Rightarrow> nat \<Rightarrow> ddl \<Rightarrow> nat list" where
  "get_maerklin_packet adr fx d = f_packets (mm_packets (mm_pool d) adr) ! fx"

definition update_MaerklinPacketPool ::
    "int \<Rightarrow> nat list \<Rightarrow> nat list \<Rightarrow> nat list \<Rightarrow> nat list \<Rightarrow> nat list \<Rightarrow> ddl \<Rightarrow> ddl option" where
  "update_MaerklinPacketPool adr sd f1 f2 f3 f4 d =
     (let pool = mm_pool d;
          found = (\<exists>i\<in>{..<mm_nr pool}. mm_known pool i = adr);
          pool = pool\<lparr>mm_packets := (mm_packets pool)(adr := \<lparr>sd_packet = sd, f_packets = [f1, f2, f3, f4]\<rparr>)\<rparr>;
          pool = (if mm_nr pool = 1 \<and> mm_known pool 0 = 81 then pool\<lparr>mm_nr := 0\<rparr> else pool)
      in if adr < 0 \<or> adr > MAX_MARKLIN_ADDRESS then None
         else if found then Some (d\<lparr>mm_pool := pool\<rparr>)
         else if int (mm_nr pool) > MAX_MARKLIN_ADDRESS then None
         else Some (d\<lparr>mm_pool := pool\<lparr>mm_known := (mm_known pool)(mm_nr pool := adr),
                                      mm_nr := mm_nr pool + 1\<rparr>\<rparr>))"

subsection \<open>The pool of NMRA packets\<close>

text \<open>The search goes one entry too far, \<open>i <= NrOfKnownAddresses\<close>. Address 128, which no
  locomotive has, stands for the idle packet.\<close>

definition update_NMRAPacketPool :: "int \<Rightarrow> nat list \<Rightarrow> nat list \<Rightarrow> ddl \<Rightarrow> ddl option" where
  "update_NMRAPacketPool adr p fx d =
     (let pool = nmra_pool d;
          found = (\<exists>i\<in>{..nmra_nr pool}. nmra_known pool i = adr);
          pool = pool\<lparr>nmra_packets := (nmra_packets pool)(adr := Some \<lparr>n_packet = p, fx_packet = fx\<rparr>)\<rparr>;
          pool = (if nmra_nr pool = 1 \<and> nmra_known pool 0 = 128 then pool\<lparr>nmra_nr := 0\<rparr> else pool);
          beyond = (int (nmra_nr (nmra_pool d)) > MAX_NMRA_ADDRESS \<and>
            \<not> (\<exists>i\<in>{..<nmra_nr (nmra_pool d)}. nmra_known (nmra_pool d) i = adr))
      in if adr < 0 \<or> adr > MAX_NMRA_ADDRESS \<or> PKTSIZE < length p \<or> PKTSIZE < length fx \<or> beyond
         then None
         else if found then Some (d\<lparr>nmra_pool := pool\<rparr>)
         else Some (d\<lparr>nmra_pool := pool\<lparr>nmra_known := (nmra_known pool)(nmra_nr pool := adr),
                                        nmra_nr := nmra_nr pool + 1\<rparr>\<rparr>))"

text \<open>When the bus ends: the entries of the known addresses are freed, and the idle entry if it
  is not known any more.\<close>

definition reset_NMRAPacketPool :: "ddl \<Rightarrow> ddl" where
  "reset_NMRAPacketPool d =
     (let pool = nmra_pool d
      in d\<lparr>nmra_pool := pool\<lparr>nmra_packets := (\<lambda>a.
           if a \<in> nmra_known pool ` {..<nmra_nr pool} \<or> a = 128 then None else nmra_packets pool a)\<rparr>\<rparr>)"

definition nmra_idle_stream :: bits where
  "nmra_idle_stream = replicate 15 True @ [False] @ replicate 8 True @ [False] @ replicate 8 False @
     [False] @ replicate 9 True"

definition init_NMRAPacketPool :: "ddl \<Rightarrow> ddl option" where
  "init_NMRAPacketPool d = do {
     let pool = nmra_pool d;
     let d = d\<lparr>nmra_pool := pool\<lparr>nmra_known := (\<lambda>i. if int i \<le> MAX_NMRA_ADDRESS then 0 else nmra_known pool i),
                nmra_packets := (\<lambda>i. if 0 \<le> i \<and> i \<le> MAX_NMRA_ADDRESS then None else nmra_packets pool i),
                nmra_nr := 0\<rparr>\<rparr>;
     idle \<leftarrow> translateBitstream2Packetstream_v3 nmra_idle_stream;
     let j = length idle;
     d \<leftarrow> update_NMRAPacketPool 128 idle idle d;
     if j = 0 then None
     else let n = (MAXDATA div j) * j
          in Some (d\<lparr>idle_data := map (\<lambda>i. idle ! (i mod j)) [0..<n] @ drop n (idle_data d),
                    nmra_idle_data := idle\<rparr>) }"

text \<open>What \<open>ddl_nmra.c\<close> asks for, see \<open>dcc_effect\<close>.\<close>

fun apply_effect :: "dcc_effect \<Rightarrow> ddl \<Rightarrow> ddl option" where
  "apply_effect (Queue_add addr p type) d = queue_add addr p type d"
| "apply_effect (Update_NMRAPacketPool adr p fx) d = update_NMRAPacketPool adr p fx d"

fun apply_effects :: "dcc_effect list \<Rightarrow> ddl \<Rightarrow> ddl option" where
  "apply_effects [] d = Some d"
| "apply_effects (e # es) d = do { d1 \<leftarrow> apply_effect e d; apply_effects es d1 }"

subsection \<open>The packet queue is first in, first out\<close>

lemma ring_list_dead_slot:
  assumes "\<And>i. i < ring_len q \<Longrightarrow> (rd q + i) mod length (slots q) \<noteq> k"
  shows "ring_list (q\<lparr>slots := (slots q)[k := y]\<rparr>) = ring_list q"
proof (rule nth_equalityI)
  have len: "ring_len (q\<lparr>slots := (slots q)[k := y]\<rparr>) = ring_len q" by (simp add: ring_len_def)
  show "length (ring_list (q\<lparr>slots := (slots q)[k := y]\<rparr>)) = length (ring_list q)"
    by (simp add: len)
  fix i assume "i < length (ring_list (q\<lparr>slots := (slots q)[k := y]\<rparr>))"
  then have i: "i < ring_len q" by (simp add: len)
  then show "ring_list (q\<lparr>slots := (slots q)[k := y]\<rparr>) ! i = ring_list q ! i"
    using assms [OF i, symmetric] by (simp add: ring_list_nth len)
qed

lemma take_packet_get:
  "take_packet q = Some (e, q') \<longleftrightarrow>
     (\<exists>q1. ring_get q = Some (e, q1) \<and> q' = q1\<lparr>slots := (slots q1)[rd q := e\<lparr>packet_type := QNOVALIDPKT\<rparr>]\<rparr>)"
  by (auto simp: take_packet_def ring_get_def Let_def)

lemma take_packet_inv:
  "ring_inv n q \<Longrightarrow> take_packet q = Some (e, q') \<Longrightarrow> ring_inv n q'"
  by (auto simp: take_packet_get ring_inv_def ring_get_def ring_next_def split: if_splits)

lemma take_packet_list:
  assumes inv: "ring_inv n q" and t: "take_packet q = Some (e, q')"
  shows "ring_list q = e # ring_list q'"
proof -
  obtain q1 where g: "ring_get q = Some (e, q1)"
    and q': "q' = q1\<lparr>slots := (slots q1)[rd q := e\<lparr>packet_type := QNOVALIDPKT\<rparr>]\<rparr>"
    using t by (auto simp: take_packet_get)
  have n: "length (slots q1) = n" "rd q1 = ring_next q (rd q)" "length (slots q) = n" "rd q < n"
    using g inv by (auto simp: ring_get_def ring_inv_def split: if_splits)
  have "ring_list q' = ring_list q1"
    unfolding q'
  proof (rule ring_list_dead_slot)
    fix i assume "i < ring_len q1"
    then have "Suc i < n" using ring_len_get [OF inv g] ring_len_bound [OF inv] by simp
    then show "(rd q1 + i) mod length (slots q1) \<noteq> rd q"
      using n by (auto simp: ring_next_def mod_if split: if_splits)
  qed
  then show ?thesis using ring_list_get [OF inv g] by simp
qed

interpretation packet_fifo: fifo "ring_inv n" ring_list ring_isfull ring_push take_packet for n
  by unfold_locales
    (auto intro: ring_push_inv ring_list_push take_packet_inv take_packet_list
      simp: take_packet_def ring_list_empty_iff ring_isempty_def Let_def split: if_splits)

text \<open>A packet that is put into a full queue turns it into an empty one.\<close>

lemma ring_push_full: "ring_inv n q \<Longrightarrow> ring_isfull q \<Longrightarrow> ring_list (ring_push x q) = []"
  using ring_list_empty_iff [OF ring_push_inv, of n q x]
  by (auto simp: ring_inv_def ring_isfull_def ring_isempty_def ring_len_def ring_push_def ring_put_def
      ring_next_def split: if_splits)

lemma take_packet_nonempty:
  "ring_inv n q \<Longrightarrow> ring_list q = e # es \<Longrightarrow> \<exists>q'. take_packet q = Some (e, q') \<and> ring_list q' = es"
  using packet_fifo.get_some by blast

lemma take_packet_empty: "ring_inv n q \<Longrightarrow> ring_list q = [] \<Longrightarrow> take_packet q = None"
  by (metis list.distinct(1) not_None_eq prod.exhaust take_packet_list)

text \<open>The packets of a list of requests, as slots of the queue.\<close>

definition pkt :: "int \<Rightarrow> nat list \<Rightarrow> pkt_type \<Rightarrow> tQData" where
  "pkt addr p type = \<lparr>packet_type = type, packet_size = length p, packet = padded p, q_addr = addr\<rparr>"

fun queue_adds :: "(int \<times> nat list \<times> pkt_type) list \<Rightarrow> ddl \<Rightarrow> ddl option" where
  "queue_adds [] d = Some d"
| "queue_adds ((a, p, ty) # ps) d = do { d1 \<leftarrow> queue_add a p ty d; queue_adds ps d1 }"

definition pending :: "ddl \<Rightarrow> tQData list" where
  "pending d = ring_list (packets_q d)"

definition queue_ok :: "ddl \<Rightarrow> bool" where
  "queue_ok d \<longleftrightarrow> ring_inv QSIZE (packets_q d) \<and> queue_initialized d"

lemma queue_init_ok:
  "length (slots (packets_q d)) = QSIZE \<Longrightarrow> queue_ok (queue_init d) \<and> pending (queue_init d) = []"
  by (simp add: queue_ok_def queue_init_def ring_inv_def QSIZE_def pending_def ring_list_def ring_len_def)

lemma queue_add_pending:
  assumes "queue_ok d" and "length p \<le> PKTSIZE"
  shows "\<exists>d'. queue_add a p ty d = Some d' \<and> queue_ok d' \<and>
    pending d' = (if length (pending d) < QSIZE - 1 then pending d @ [pkt a p ty] else [])"
proof -
  have inv: "ring_inv QSIZE (packets_q d)" using assms(1) by (simp add: queue_ok_def)
  have full: "ring_isfull (packets_q d) \<longleftrightarrow> \<not> length (pending d) < QSIZE - 1"
    using ring_isfull_len [OF inv] by (simp add: pending_def not_less)
  show ?thesis
    using assms ring_push_inv [OF inv] packet_fifo.put_contents [OF inv] ring_push_full [OF inv] full
    by (simp add: queue_add_def queue_ok_def pending_def pkt_def)
qed

lemma queue_get_pending:
  assumes "queue_ok d"
  shows "queue_get d = (case pending d of
      [] \<Rightarrow> ((QEMPTY, None), d)
    | e # es \<Rightarrow> ((packet_type e, Some (q_addr e, packet e, packet_size e)),
                d\<lparr>packets_q := snd (the (take_packet (packets_q d)))\<rparr>))"
    and "queue_ok (snd (queue_get d))" and "pending (snd (queue_get d)) = tl (pending d)"
proof -
  have inv: "ring_inv QSIZE (packets_q d)" using assms by (simp add: queue_ok_def)
  show "queue_get d = (case pending d of
      [] \<Rightarrow> ((QEMPTY, None), d)
    | e # es \<Rightarrow> ((packet_type e, Some (q_addr e, packet e, packet_size e)),
                d\<lparr>packets_q := snd (the (take_packet (packets_q d)))\<rparr>))"
  proof (cases "pending d")
    case Nil
    with assms take_packet_empty [OF inv] show ?thesis by (simp add: queue_get_def queue_ok_def pending_def)
  next
    case (Cons e es)
    then obtain q' where "take_packet (packets_q d) = Some (e, q')"
      using take_packet_nonempty [OF inv] by (auto simp: pending_def)
    with assms Cons show ?thesis by (simp add: queue_get_def queue_ok_def)
  qed
  show "queue_ok (snd (queue_get d))" "pending (snd (queue_get d)) = tl (pending d)"
  proof -
    have "queue_ok (snd (queue_get d)) \<and> pending (snd (queue_get d)) = tl (pending d)"
    proof (cases "take_packet (packets_q d)")
      case None
      with assms packet_fifo.get_none [OF inv] show ?thesis by (simp add: queue_get_def pending_def)
    next
      case (Some r)
      obtain e q' where "r = (e, q')" by (cases r)
      with Some have t: "take_packet (packets_q d) = Some (e, q')" by simp
      show ?thesis
        using assms t take_packet_inv [OF inv t] take_packet_list [OF inv t]
        by (simp add: queue_get_def queue_ok_def pending_def)
    qed
    then show "queue_ok (snd (queue_get d))" "pending (snd (queue_get d)) = tl (pending d)" by simp_all
  qed
qed


text \<open>Calls of \<open>queue_get\<close>, and what they return for a request that was queued.\<close>

fun queue_gets :: "nat \<Rightarrow> ddl \<Rightarrow> (pkt_type \<times> (int \<times> nat list \<times> nat) option) list" where
  "queue_gets 0 d = []"
| "queue_gets (Suc n) d = (let (r, d1) = queue_get d in r # queue_gets n d1)"

definition got :: "int \<times> nat list \<times> pkt_type \<Rightarrow> pkt_type \<times> (int \<times> nat list \<times> nat) option" where
  "got = (\<lambda>(a, p, ty). (ty, Some (a, padded p, length p)))"

lemma queue_adds_pending:
  assumes "queue_ok d" and "\<forall>(a, p, ty)\<in>set ps. length p \<le> PKTSIZE"
    and "length (pending d) + length ps \<le> QSIZE - 1"
  shows "\<exists>d'. queue_adds ps d = Some d' \<and> queue_ok d' \<and>
    pending d' = pending d @ map (\<lambda>(a, p, ty). pkt a p ty) ps"
  using assms
proof (induction ps arbitrary: d)
  case (Cons x ps)
  obtain a p ty where x: "x = (a, p, ty)" by (cases x)
  obtain d1 where d1: "queue_add a p ty d = Some d1" "queue_ok d1" "pending d1 = pending d @ [pkt a p ty]"
    using queue_add_pending [OF Cons.prems(1), of p a ty] Cons.prems(2,3) x by auto
  show ?case using Cons.IH [OF d1(2)] Cons.prems d1 x by auto
qed simp

lemma queue_adds_append:
  "queue_adds (ps @ qs) d = do { d1 \<leftarrow> queue_adds ps d; queue_adds qs d1 }"
  by (induction ps d rule: queue_adds.induct) (auto simp: Option.bind_assoc intro: bind_option_cong)

lemma queue_gets_pending:
  "queue_ok d \<Longrightarrow> queue_gets n d =
     map (\<lambda>e. (packet_type e, Some (q_addr e, packet e, packet_size e))) (take n (pending d)) @
     replicate (n - length (pending d)) (QEMPTY, None)"
proof (induction n arbitrary: d)
  case (Suc n)
  note s = queue_get_pending [OF Suc.prems]
  obtain r d1 where g: "queue_get d = (r, d1)" by (cases "queue_get d")
  then have r: "r = (case pending d of [] \<Rightarrow> (QEMPTY, None)
      | e # es \<Rightarrow> (packet_type e, Some (q_addr e, packet e, packet_size e)))"
    using s(1) by (auto split: list.splits)
  show ?case
    using Suc.IH [of d1] s(2,3) g r by (cases "pending d") simp_all
qed simp

text \<open>C33: Packets come out of the queue in the order they were put in, with type, address and
  contents, as long as fewer than QSIZE are waiting; the request that makes them QSIZE loses
  all of them.\<close>

theorem packet_queue_order:
  assumes "queue_ok d" and "pending d = []" and "\<forall>(a, p, ty)\<in>set ps. length p \<le> PKTSIZE"
    and "length ps \<le> QSIZE"
  shows "\<exists>d'. queue_adds ps d = Some d' \<and>
    queue_gets (length ps) d' =
      (if length ps < QSIZE then map got ps else replicate (length ps) (QEMPTY, None))"
proof (cases "length ps < QSIZE")
  case True
  then obtain d' where d': "queue_adds ps d = Some d'" "queue_ok d'"
      "pending d' = map (\<lambda>(a, p, ty). pkt a p ty) ps"
    using queue_adds_pending [OF assms(1,3)] assms(2) by (force simp: QSIZE_def)
  then show ?thesis
    using True queue_gets_pending [OF d'(2)] by (auto simp: got_def pkt_def)
next
  case False
  then obtain qs a p ty where ps: "ps = qs @ [(a, p, ty)]" "length qs = QSIZE - 1"
    using assms(4) by (cases ps rule: rev_cases) (auto simp: QSIZE_def)
  obtain d1 where d1: "queue_adds qs d = Some d1" "queue_ok d1"
      "pending d1 = map (\<lambda>(a, p, ty). pkt a p ty) qs"
    using queue_adds_pending [OF assms(1), of qs] assms(2,3) ps by auto
  obtain d' where d': "queue_add a p ty d1 = Some d'" "queue_ok d'" "pending d' = []"
    using queue_add_pending [OF d1(2), of p a ty] d1(3) ps assms(3) by auto
  then have "queue_adds ps d = Some d'" using d1(1) ps by (simp add: queue_adds_append)
  then show ?thesis
    using False queue_gets_pending [OF d'(2), of "length ps"] d'(3) by (intro exI [of _ d']) simp
qed

subsection \<open>The pools hold the last packets of every locomotive\<close>

definition nmra_list :: "ddl \<Rightarrow> int list" where
  "nmra_list d = map (nmra_known (nmra_pool d)) [0..<nmra_nr (nmra_pool d)]"

text \<open>The locomotives whose packets are repeated; the idle entry is none.\<close>

definition nmra_locos :: "ddl \<Rightarrow> int list" where
  "nmra_locos d = (if nmra_list d = [128] then [] else nmra_list d)"

definition nmra_ok :: "ddl \<Rightarrow> bool" where
  "nmra_ok d \<longleftrightarrow>
     (nmra_list d = [128] \<or> nmra_list d \<noteq> [] \<and> distinct (nmra_list d) \<and>
        set (nmra_list d) \<subseteq> {1..MAX_NMRA_ADDRESS} - {128}) \<and>
     (\<forall>a\<in>set (nmra_list d). nmra_packets (nmra_pool d) a \<noteq> None) \<and>
     (\<forall>i. nmra_nr (nmra_pool d) \<le> i \<longrightarrow> int i \<le> MAX_NMRA_ADDRESS \<longrightarrow> nmra_known (nmra_pool d) i = 0)"

lemma nmra_list_length: "length (nmra_list d) = nmra_nr (nmra_pool d)"
  by (simp add: nmra_list_def)

lemma nmra_nr_bound:
  assumes "nmra_ok d" shows "int (nmra_nr (nmra_pool d)) < MAX_NMRA_ADDRESS"
proof (cases "nmra_list d = [128]")
  case True
  then show ?thesis using nmra_list_length [of d] by (simp add: MAX_NMRA_ADDRESS_def)
next
  case False
  with assms have "distinct (nmra_list d)" and s: "set (nmra_list d) \<subseteq> {1..MAX_NMRA_ADDRESS} - {128}"
    by (auto simp: nmra_ok_def)
  then have "nmra_nr (nmra_pool d) = card (set (nmra_list d))"
    by (simp add: distinct_card nmra_list_length)
  also have "\<dots> \<le> card ({1..MAX_NMRA_ADDRESS} - {128})" using s by (intro card_mono) auto
  also have "\<dots> = 10366" by (simp add: MAX_NMRA_ADDRESS_def)
  finally show ?thesis by (simp add: MAX_NMRA_ADDRESS_def)
qed

lemma update_NMRAPacketPool_ok:
  assumes ok: "nmra_ok d" and adr: "1 \<le> adr" "adr \<le> MAX_NMRA_ADDRESS" "adr \<noteq> 128"
    and len: "length p \<le> PKTSIZE" "length fx \<le> PKTSIZE"
  shows "\<exists>pool. update_NMRAPacketPool adr p fx d = Some (d\<lparr>nmra_pool := pool\<rparr>) \<and>
    nmra_ok (d\<lparr>nmra_pool := pool\<rparr>) \<and>
    nmra_locos (d\<lparr>nmra_pool := pool\<rparr>) = (if adr \<in> set (nmra_locos d) then nmra_locos d else nmra_locos d @ [adr]) \<and>
    nmra_packets pool = (nmra_packets (nmra_pool d))(adr := Some \<lparr>n_packet = p, fx_packet = fx\<rparr>)"
proof -
  let ?P = "nmra_pool d"
  have nr: "int (nmra_nr ?P) < MAX_NMRA_ADDRESS" by (rule nmra_nr_bound [OF ok])
  have stale: "nmra_known ?P (nmra_nr ?P) = 0" using ok nr by (auto simp: nmra_ok_def)
  have split: "{..nmra_nr ?P} = insert (nmra_nr ?P) {..<nmra_nr ?P}" by auto
  have found: "(\<exists>i\<in>{..nmra_nr ?P}. nmra_known ?P i = adr) \<longleftrightarrow> adr \<in> set (nmra_list d)"
    unfolding split using stale adr(1) by (auto simp: nmra_list_def atLeast0LessThan)
  have idle: "nmra_nr ?P = 1 \<and> nmra_known ?P 0 = 128 \<longleftrightarrow> nmra_list d = [128]"
    by (cases "nmra_nr ?P") (auto simp: nmra_list_def upt_conv_Cons simp del: upt_Suc)
  show ?thesis
  proof (cases "nmra_list d = [128]")
    case True
    then have k: "nmra_nr ?P = 1" "nmra_known ?P 0 = 128" using idle by auto
    define pool where "pool = ?P\<lparr>nmra_packets := (nmra_packets ?P)(adr := Some \<lparr>n_packet = p, fx_packet = fx\<rparr>),
       nmra_nr := 1, nmra_known := (nmra_known ?P)(0 := adr)\<rparr>"
    have "update_NMRAPacketPool adr p fx d = Some (d\<lparr>nmra_pool := pool\<rparr>)"
      using found True adr len nr k stale
      by (auto simp: update_NMRAPacketPool_def Let_def pool_def MAX_NMRA_ADDRESS_def)
    moreover have l: "nmra_list (d\<lparr>nmra_pool := pool\<rparr>) = [adr]" by (simp add: nmra_list_def pool_def)
    moreover have "nmra_ok (d\<lparr>nmra_pool := pool\<rparr>)"
      using ok adr k unfolding nmra_ok_def l by (auto simp: pool_def)
    moreover have "nmra_packets pool = (nmra_packets ?P)(adr := Some \<lparr>n_packet = p, fx_packet = fx\<rparr>)"
      by (simp add: pool_def)
    ultimately show ?thesis using True adr by (intro exI [of _ pool]) (simp add: nmra_locos_def)
  next
    case False
    define pool where "pool = (let q = ?P\<lparr>nmra_packets := (nmra_packets ?P)(adr := Some \<lparr>n_packet = p, fx_packet = fx\<rparr>)\<rparr>
      in if adr \<in> set (nmra_list d) then q
         else q\<lparr>nmra_known := (nmra_known ?P)(nmra_nr ?P := adr), nmra_nr := nmra_nr ?P + 1\<rparr>)"
    have "update_NMRAPacketPool adr p fx d = Some (d\<lparr>nmra_pool := pool\<rparr>)"
      using found False idle adr len nr
      by (auto simp: update_NMRAPacketPool_def Let_def pool_def)
    moreover have l: "nmra_list (d\<lparr>nmra_pool := pool\<rparr>)
        = (if adr \<in> set (nmra_list d) then nmra_list d else nmra_list d @ [adr])"
      by (auto simp: nmra_list_def pool_def Let_def)
    moreover have "nmra_ok (d\<lparr>nmra_pool := pool\<rparr>)"
      using ok adr False unfolding nmra_ok_def l by (auto simp: pool_def Let_def)
    moreover have "nmra_packets pool = (nmra_packets ?P)(adr := Some \<lparr>n_packet = p, fx_packet = fx\<rparr>)"
      by (simp add: pool_def Let_def)
    ultimately show ?thesis using False adr by (intro exI [of _ pool]) (auto simp: nmra_locos_def)
  qed
qed

lemma nmra_idle_frame:
  "nmra_idle_stream = replicate 15 True @ False # frame
     [replicate 8 True, replicate 8 False, replicate 8 True]"
  by (simp add: nmra_idle_stream_def eval_nat_numeral)

lemma init_NMRAPacketPool_ok:
  "\<exists>d' idle. init_NMRAPacketPool d = Some d' \<and> nmra_ok d' \<and> nmra_locos d' = [] \<and>
     nmra_idle_data d' = idle \<and> length idle < PKTSIZE \<and>
     carries idle [[replicate 8 True, replicate 8 False, replicate 8 True]]"
proof -
  obtain idle where idle: "translateBitstream2Packetstream_v3 nmra_idle_stream = Some idle"
    "length idle > 0" "length idle < PKTSIZE"
    "carries idle [[replicate 8 True, replicate 8 False, replicate 8 True]]"
    using translate_one [of 15 nmra_idle_stream, OF _ nmra_idle_frame]
    by (auto simp: nmra_idle_stream_def)
  let ?P = "nmra_pool d"
  define d1 where "d1 = d\<lparr>nmra_pool := ?P\<lparr>
      nmra_known := (\<lambda>i. if int i \<le> MAX_NMRA_ADDRESS then 0 else nmra_known ?P i),
      nmra_packets := (\<lambda>i. if 0 \<le> i \<and> i \<le> MAX_NMRA_ADDRESS then None else nmra_packets ?P i),
      nmra_nr := 0\<rparr>\<rparr>"
  define d2 where "d2 = d1\<lparr>nmra_pool := (nmra_pool d1)\<lparr>
      nmra_packets := (nmra_packets (nmra_pool d1))(128 := Some \<lparr>n_packet = idle, fx_packet = idle\<rparr>),
      nmra_known := (nmra_known (nmra_pool d1))(0 := 128), nmra_nr := 1\<rparr>\<rparr>"
  have "update_NMRAPacketPool 128 idle idle d1 = Some d2"
    using idle(3) by (simp add: update_NMRAPacketPool_def d1_def d2_def MAX_NMRA_ADDRESS_def)
  then obtain d' where d': "init_NMRAPacketPool d = Some d'" "nmra_pool d' = nmra_pool d2"
      "nmra_idle_data d' = idle"
    using idle(1,2) by (auto simp: init_NMRAPacketPool_def d1_def Let_def)
  have l: "nmra_list d' = [128]" by (simp add: nmra_list_def d' d2_def)
  have "nmra_ok d'" unfolding nmra_ok_def l by (simp add: d' d2_def d1_def)
  with d' l idle show ?thesis by (auto simp: nmra_locos_def)
qed

fun nmra_updates :: "(int \<times> nat list \<times> nat list) list \<Rightarrow> ddl \<Rightarrow> ddl option" where
  "nmra_updates [] d = Some d"
| "nmra_updates ((adr, p, fx) # us) d = do { d1 \<leftarrow> update_NMRAPacketPool adr p fx d; nmra_updates us d1 }"

text \<open>The addresses in the order of their first use.\<close>

fun first_uses :: "int list \<Rightarrow> int list \<Rightarrow> int list" where
  "first_uses known [] = known"
| "first_uses known (a # as) = first_uses (if a \<in> set known then known else known @ [a]) as"

lemma nmra_updates_ok:
  assumes "nmra_ok d"
    and "\<forall>(a, p, fx)\<in>set us. 1 \<le> a \<and> a \<le> MAX_NMRA_ADDRESS \<and> a \<noteq> 128 \<and>
      length p \<le> PKTSIZE \<and> length fx \<le> PKTSIZE"
  shows "\<exists>d'. nmra_updates us d = Some d' \<and> nmra_ok d' \<and>
    nmra_locos d' = first_uses (nmra_locos d) (map fst us) \<and>
    nmra_packets (nmra_pool d') = nmra_packets (nmra_pool d) ++
      map_of (rev (map (\<lambda>(a, p, fx). (a, \<lparr>n_packet = p, fx_packet = fx\<rparr>)) us))"
  using assms
proof (induction us arbitrary: d)
  case (Cons u us)
  obtain a p fx where u: "u = (a, p, fx)" by (cases u)
  obtain pool where pool: "update_NMRAPacketPool a p fx d = Some (d\<lparr>nmra_pool := pool\<rparr>)"
    "nmra_ok (d\<lparr>nmra_pool := pool\<rparr>)"
    "nmra_locos (d\<lparr>nmra_pool := pool\<rparr>) = (if a \<in> set (nmra_locos d) then nmra_locos d else nmra_locos d @ [a])"
    "nmra_packets pool = (nmra_packets (nmra_pool d))(a := Some \<lparr>n_packet = p, fx_packet = fx\<rparr>)"
    using update_NMRAPacketPool_ok [OF Cons.prems(1), of a p fx] Cons.prems(2) u by auto
  obtain d' where "nmra_updates us (d\<lparr>nmra_pool := pool\<rparr>) = Some d'" "nmra_ok d'"
    "nmra_locos d' = first_uses (nmra_locos (d\<lparr>nmra_pool := pool\<rparr>)) (map fst us)"
    "nmra_packets (nmra_pool d') = nmra_packets pool ++
      map_of (rev (map (\<lambda>(a, p, fx). (a, \<lparr>n_packet = p, fx_packet = fx\<rparr>)) us))"
    using Cons.IH [OF pool(2)] Cons.prems(2) by auto
  then show ?case by (intro exI [of _ d']) (simp add: u pool(1,3,4))
qed simp

text \<open>After its initialisation and any commands, the pool of DCC packets knows the addresses
  in the order of their first use, each once, and holds for each the packets of its last
  command.\<close>

theorem nmra_pool_contents:
  assumes "\<forall>(a, p, fx)\<in>set us. 1 \<le> a \<and> a \<le> MAX_NMRA_ADDRESS \<and> a \<noteq> 128 \<and>
      length p \<le> PKTSIZE \<and> length fx \<le> PKTSIZE"
    and "(a, p, fx) \<in> set us"
  shows "\<exists>d1 d2 p' fx'. init_NMRAPacketPool d = Some d1 \<and> nmra_updates us d1 = Some d2 \<and>
    nmra_locos d2 = first_uses [] (map fst us) \<and> a \<in> set (nmra_locos d2) \<and> distinct (nmra_locos d2) \<and>
    nmra_packets (nmra_pool d2) a = Some \<lparr>n_packet = p', fx_packet = fx'\<rparr> \<and>
    map_of (rev us) a = Some (p', fx')"
proof -
  obtain d1 where d1: "init_NMRAPacketPool d = Some d1" "nmra_ok d1" "nmra_locos d1 = []"
    using init_NMRAPacketPool_ok [of d] by auto
  obtain d2 where d2: "nmra_updates us d1 = Some d2" "nmra_ok d2"
    "nmra_locos d2 = first_uses [] (map fst us)"
    "nmra_packets (nmra_pool d2) = nmra_packets (nmra_pool d1) ++
      map_of (rev (map (\<lambda>(a, p, fx). (a, \<lparr>n_packet = p, fx_packet = fx\<rparr>)) us))"
    using nmra_updates_ok [OF d1(2) assms(1)] d1(3) by auto
  have keep: "set known \<subseteq> set (first_uses known as) \<and> set as \<subseteq> set (first_uses known as)" for known as
    by (induction known as rule: first_uses.induct) (auto split: if_splits)
  have "distinct (nmra_locos d2)" using d2(2) by (auto simp: nmra_ok_def nmra_locos_def)
  moreover have "a \<in> set (nmra_locos d2)"
  proof -
    have "a \<in> set (map fst us)" using assms(2) by force
    then show ?thesis using keep [of "[]" "map fst us"] unfolding d2(3) by blast
  qed
  moreover obtain p' fx' where l: "map_of (rev us) a = Some (p', fx')"
  proof (cases "map_of (rev us) a")
    case None
    with assms(2) show ?thesis by (force simp: map_of_eq_None_iff)
  qed (auto intro: that)
  moreover have "map_of (rev (map (\<lambda>(a, p, fx). (a, \<lparr>n_packet = p, fx_packet = fx\<rparr>)) us)) a
      = Some \<lparr>n_packet = p', fx_packet = fx'\<rparr>"
  proof -
    have "rev (map (\<lambda>(a, p, fx). (a, \<lparr>n_packet = p, fx_packet = fx\<rparr>)) us)
        = map (\<lambda>(a, q). (a, (\<lambda>(p, fx). \<lparr>n_packet = p, fx_packet = fx\<rparr>) q)) (rev us)"
      by (simp add: rev_map case_prod_unfold)
    then show ?thesis using l by (simp add: map_of_map)
  qed
  ultimately show ?thesis using d1(1) d2 by (auto simp: map_add_Some_iff)
qed

text \<open>A bus as \<open>malloc\<close> may return it, for the examples.\<close>

definition sample_ddl :: ddl where
  "sample_ddl = \<lparr>serial_device_mode = SDM_NOTINITIALIZED, ri_check = False, checkshort = False,
     dsr_inverse = False, shortcutdelay = 0, enabled_protocols = 3, improve_nmradcc_timing = False,
     nmra_ga_offset = 0, program_track = True, queue_initialized = False,
     packets_q = ring_new QSIZE \<lparr>packet_type = QEMPTY, packet_size = 7, packet = replicate PKTSIZE 170, q_addr = 9\<rparr>,
     short_detected = 0, idle_data = replicate MAXDATA 85, nmra_idle_data = replicate PKTSIZE 85,
     last_refreshed_maerklin_loco = 0, last_refreshed_maerklin_fx = -1,
     last_refreshed_nmra_loco = 0, last_refreshed_nmra_fx = -1, maerklin_refresh = True,
     mm_pool = \<lparr>mm_packets = (\<lambda>_. \<lparr>sd_packet = replicate 18 170, f_packets = replicate 4 (replicate 18 170)\<rparr>),
       mm_known = (\<lambda>_. 170), mm_nr = 0\<rparr>,
     nmra_pool = \<lparr>nmra_packets = (\<lambda>_. None), nmra_known = (\<lambda>_. 170), nmra_nr = 0\<rparr>,
     sys_results = (\<lambda>_. True), modem_bits = (\<lambda>_. Some 0), line_out = []\<rparr>"

lemma sample_queue_ok:
  "queue_ok (queue_init sample_ddl)" "pending (queue_init sample_ddl) = []"
  using queue_init_ok [of sample_ddl] by (simp_all add: sample_ddl_def ring_new_def)

theorem packet_queue_order_witness:
  "\<exists>d'. queue_adds [(5, [1, 2], QNBLOCOPKT), (81, replicate 18 63, QM2LOCOPKT)] (queue_init sample_ddl) = Some d' \<and>
    queue_gets 2 d' = [(QNBLOCOPKT, Some (5, padded [1, 2], 2)),
                       (QM2LOCOPKT, Some (81, padded (replicate 18 63), 18))]"
  using packet_queue_order [OF sample_queue_ok,
      of "[(5, [1, 2], QNBLOCOPKT), (81, replicate 18 63, QM2LOCOPKT)]"]
  by (simp add: PKTSIZE_def QSIZE_def got_def numeral_2_eq_2)

theorem nmra_pool_contents_witness:
  "\<exists>d1 d2. init_NMRAPacketPool sample_ddl = Some d1 \<and>
    nmra_updates [(3, [1], [2]), (131, [3], [4]), (3, [5], [6])] d1 = Some d2 \<and>
    nmra_locos d2 = [3, 131] \<and>
    nmra_packets (nmra_pool d2) 3 = Some \<lparr>n_packet = [5], fx_packet = [6]\<rparr>"
  using nmra_pool_contents [of "[(3, [1], [2]), (131, [3], [4]), (3, [5], [6])]" 3 "[5]" "[6]" sample_ddl]
  by (auto simp: PKTSIZE_def MAX_NMRA_ADDRESS_def)

subsection \<open>The pool of Maerklin packets\<close>

text \<open>The addresses the refresh cycle goes through: when the first locomotive has address 81, the
  pool has none but its first entry is still 81.\<close>

definition mm_cycle :: "ddl \<Rightarrow> int list" where
  "mm_cycle d = map (mm_known (mm_pool d)) [0..<max 1 (mm_nr (mm_pool d))]"

definition mm_shape :: "(int \<Rightarrow> tMaerklinPacket) \<Rightarrow> bool" where
  "mm_shape P \<longleftrightarrow> (\<forall>a. length (sd_packet (P a)) = 18 \<and> length (f_packets (P a)) = 4 \<and>
     (\<forall>f\<in>set (f_packets (P a)). length f = 18))"

definition mm_ok :: "ddl \<Rightarrow> bool" where
  "mm_ok d \<longleftrightarrow>
     distinct (mm_cycle d) \<and> set (mm_cycle d) \<subseteq> {0..MAX_MARKLIN_ADDRESS} \<and>
     (mm_nr (mm_pool d) = 0 \<longrightarrow> mm_cycle d = [81]) \<and>
     mm_shape (mm_packets (mm_pool d))"

lemma mm_cycle_length: "length (mm_cycle d) = max 1 (mm_nr (mm_pool d))"
  by (simp add: mm_cycle_def)

lemma mm_nr_bound:
  assumes "mm_ok d" shows "mm_nr (mm_pool d) \<le> 257"
proof -
  have "length (mm_cycle d) = card (set (mm_cycle d))"
    using assms by (simp add: mm_ok_def distinct_card)
  also have "\<dots> \<le> card {0..MAX_MARKLIN_ADDRESS}"
    using assms by (intro card_mono) (auto simp: mm_ok_def)
  finally show ?thesis by (simp add: MAX_MARKLIN_ADDRESS_def mm_cycle_length)
qed

lemma update_MaerklinPacketPool_ok:
  assumes ok: "mm_ok d" and adr: "0 \<le> adr" "adr \<le> MAX_MARKLIN_ADDRESS"
    and len: "length sd = 18" "length f1 = 18" "length f2 = 18" "length f3 = 18" "length f4 = 18"
  shows "\<exists>pool. update_MaerklinPacketPool adr sd f1 f2 f3 f4 d = Some (d\<lparr>mm_pool := pool\<rparr>) \<and>
    mm_ok (d\<lparr>mm_pool := pool\<rparr>) \<and>
    mm_cycle (d\<lparr>mm_pool := pool\<rparr>) =
      (if mm_cycle d = [81] then [adr] else if adr \<in> set (mm_cycle d) then mm_cycle d else mm_cycle d @ [adr]) \<and>
    mm_packets pool = (mm_packets (mm_pool d))(adr := \<lparr>sd_packet = sd, f_packets = [f1, f2, f3, f4]\<rparr>)"
proof -
  let ?P = "mm_pool d"
  let ?Q = "?P\<lparr>mm_packets := (mm_packets ?P)(adr := \<lparr>sd_packet = sd, f_packets = [f1, f2, f3, f4]\<rparr>)\<rparr>"
  have shape: "mm_shape (mm_packets ?Q)"
    using ok len by (auto simp: mm_ok_def mm_shape_def)
  have bound: "mm_nr ?P \<le> 256 \<or> adr \<in> set (mm_cycle d)"
  proof (rule ccontr)
    assume n: "\<not> (mm_nr ?P \<le> 256 \<or> adr \<in> set (mm_cycle d))"
    then have "card (set (mm_cycle d)) = 257"
      using mm_nr_bound [OF ok] ok mm_cycle_length [of d] by (simp add: mm_ok_def distinct_card)
    then have "set (mm_cycle d) = {0..MAX_MARKLIN_ADDRESS}"
      using ok by (intro card_subset_eq) (auto simp: mm_ok_def MAX_MARKLIN_ADDRESS_def)
    with n adr show False by auto
  qed
  consider (idle) "mm_nr ?P = 1" "mm_known ?P 0 = 81" | (none) "mm_nr ?P = 0" "mm_known ?P 0 = 81"
    | (some) "1 \<le> mm_nr ?P" "\<not> (mm_nr ?P = 1 \<and> mm_known ?P 0 = 81)"
    using ok by (cases "mm_nr ?P") (auto simp: mm_ok_def mm_cycle_def)
  then show ?thesis
  proof cases
    case idle
    then have c: "mm_cycle d = [81]" by (simp add: mm_cycle_def)
    define pool where "pool = (if adr = 81 then ?Q\<lparr>mm_nr := 0\<rparr>
      else ?Q\<lparr>mm_nr := 1, mm_known := (mm_known ?P)(0 := adr)\<rparr>)"
    have "update_MaerklinPacketPool adr sd f1 f2 f3 f4 d = Some (d\<lparr>mm_pool := pool\<rparr>)"
      using idle adr by (auto simp: update_MaerklinPacketPool_def Let_def pool_def MAX_MARKLIN_ADDRESS_def)
    moreover have c': "mm_cycle (d\<lparr>mm_pool := pool\<rparr>) = [adr]"
      using idle by (simp add: mm_cycle_def pool_def)
    moreover have pk: "mm_packets pool = mm_packets ?Q" by (simp add: pool_def)
    moreover have "mm_ok (d\<lparr>mm_pool := pool\<rparr>)"
      using adr shape pk unfolding mm_ok_def c' by (simp add: pool_def)
    ultimately show ?thesis using c by (intro exI [of _ pool]) simp
  next
    case none
    then have c: "mm_cycle d = [81]" by (simp add: mm_cycle_def)
    define pool where "pool = ?Q\<lparr>mm_nr := 1, mm_known := (mm_known ?P)(0 := adr)\<rparr>"
    have "update_MaerklinPacketPool adr sd f1 f2 f3 f4 d = Some (d\<lparr>mm_pool := pool\<rparr>)"
      using none adr by (auto simp: update_MaerklinPacketPool_def Let_def pool_def MAX_MARKLIN_ADDRESS_def)
    moreover have c': "mm_cycle (d\<lparr>mm_pool := pool\<rparr>) = [adr]"
      by (simp add: mm_cycle_def pool_def)
    moreover have pk: "mm_packets pool = mm_packets ?Q" by (simp add: pool_def)
    moreover have "mm_ok (d\<lparr>mm_pool := pool\<rparr>)"
      using adr shape pk unfolding mm_ok_def c' by (simp add: pool_def)
    ultimately show ?thesis using c by (intro exI [of _ pool]) simp
  next
    case some
    have c2: "mm_cycle d = map (mm_known ?P) [0..<mm_nr ?P]" using some(1) by (simp add: mm_cycle_def)
    have "mm_cycle d \<noteq> [81]"
    proof
      assume c1: "mm_cycle d = [81]"
      then have "mm_nr ?P = 1" using some(1) mm_cycle_length [of d] by simp
      with c1 c2 some(2) show False by simp
    qed
    note c = this c2
    have found: "(\<exists>i\<in>{..<mm_nr ?P}. mm_known ?P i = adr) \<longleftrightarrow> adr \<in> set (mm_cycle d)"
      by (auto simp: c(2) atLeast0LessThan)
    define pool where "pool = (if adr \<in> set (mm_cycle d) then ?Q
      else ?Q\<lparr>mm_nr := mm_nr ?P + 1, mm_known := (mm_known ?P)(mm_nr ?P := adr)\<rparr>)"
    have "update_MaerklinPacketPool adr sd f1 f2 f3 f4 d = Some (d\<lparr>mm_pool := pool\<rparr>)"
    proof -
      have i: "(mm_nr ?Q = 1 \<and> mm_known ?Q 0 = 81) = False" using some(2) by auto
      have m: "(adr < 0 \<or> MAX_MARKLIN_ADDRESS < adr) = False" using adr by auto
      have b: "adr \<notin> set (mm_cycle d) \<Longrightarrow> (MAX_MARKLIN_ADDRESS < int (mm_nr ?Q)) = False"
        using bound by (auto simp: MAX_MARKLIN_ADDRESS_def)
      show ?thesis
        unfolding update_MaerklinPacketPool_def Let_def found i m if_False pool_def
        using b by (cases "adr \<in> set (mm_cycle d)") simp_all
    qed
    moreover have c': "mm_cycle (d\<lparr>mm_pool := pool\<rparr>)
        = (if adr \<in> set (mm_cycle d) then mm_cycle d else mm_cycle d @ [adr])"
      using some(1) c(2) by (auto simp: mm_cycle_def pool_def max_def)
    moreover have pk: "mm_packets pool = mm_packets ?Q" by (simp add: pool_def)
    moreover have "mm_ok (d\<lparr>mm_pool := pool\<rparr>)"
      using ok adr some(1) shape pk unfolding mm_ok_def c' by (auto simp: pool_def)
    ultimately show ?thesis using c(1) by (intro exI [of _ pool]) simp
  qed
qed

lemma init_MaerklinPacketPool_ok:
  assumes "mm_shape (mm_packets (mm_pool d))"
  shows "mm_ok (init_MaerklinPacketPool d) \<and> mm_cycle (init_MaerklinPacketPool d) = [81]"
proof -
  have c: "mm_cycle (init_MaerklinPacketPool d) = [81]"
    by (simp add: mm_cycle_def init_MaerklinPacketPool_def Let_def MAX_MARKLIN_ADDRESS_def)
  have "length mm_idle_packet = 18" by (simp add: mm_idle_packet_def eval_nat_numeral)
  then show ?thesis
    using assms unfolding mm_ok_def c
    by (simp add: init_MaerklinPacketPool_def Let_def MAX_MARKLIN_ADDRESS_def mm_shape_def)
qed

subsection \<open>What an update leaves alone\<close>

lemma ddl_frames [frame_simps]:
  "pending (d\<lparr>mm_pool := mp\<rparr>) = pending d" "pending (d\<lparr>nmra_pool := np\<rparr>) = pending d"
  "queue_ok (d\<lparr>mm_pool := mp\<rparr>) = queue_ok d" "queue_ok (d\<lparr>nmra_pool := np\<rparr>) = queue_ok d"
  "mm_ok (d\<lparr>packets_q := q\<rparr>) = mm_ok d" "mm_ok (d\<lparr>nmra_pool := np\<rparr>) = mm_ok d"
  "mm_cycle (d\<lparr>packets_q := q\<rparr>) = mm_cycle d" "mm_cycle (d\<lparr>nmra_pool := np\<rparr>) = mm_cycle d"
  "nmra_ok (d\<lparr>packets_q := q\<rparr>) = nmra_ok d" "nmra_ok (d\<lparr>mm_pool := mp\<rparr>) = nmra_ok d"
  "nmra_locos (d\<lparr>packets_q := q\<rparr>) = nmra_locos d" "nmra_locos (d\<lparr>mm_pool := mp\<rparr>) = nmra_locos d"
  by (simp_all add: pending_def queue_ok_def mm_ok_def mm_cycle_def nmra_ok_def nmra_locos_def nmra_list_def)

text \<open>The waiting packets after one more; \<open>QSIZE\<close> of them are none.\<close>

definition one_more :: "ddl \<Rightarrow> tQData \<Rightarrow> tQData list" where
  "one_more d e = (if length (pending d) < QSIZE - 1 then pending d @ [e] else [])"

lemma queue_add_one_more:
  assumes "queue_ok d" and "length p \<le> PKTSIZE"
  shows "\<exists>q. queue_add a p ty d = Some (d\<lparr>packets_q := q\<rparr>) \<and> queue_ok (d\<lparr>packets_q := q\<rparr>) \<and>
    pending (d\<lparr>packets_q := q\<rparr>) = one_more d (pkt a p ty)"
  using queue_add_pending [OF assms, of a ty] assms(2)
  by (auto simp: queue_add_def one_more_def split: if_splits)

end
