(* ===== verification/Ddl_Maerklin.thy ===== *)
theory Ddl_Maerklin
  imports Ddl_State Srcp_GL
begin

text \<open>
  The Maerklin/Motorola packets, \<open>ddl_maerklin.c\<close>. A packet is nine trits; the code writes
  them as characters: \<open>'L'\<close> and \<open>'H'\<close> (both halves low or high), \<open>'O'\<close> (high, low) and
  \<open>'U'\<close> (low, high). Four trits are the address, one is the function of the locomotive, four
  carry the speed in their first halves and, in the newer protocol, the direction or one of
  the functions f1 to f4 in their second halves.

  \<open>stale\<close> is the contents of the local variable \<open>loco\<close> before the call, which the code reads
  when the locomotive is not in the table.

  \<open>m2_decode\<close> and \<open>solenoid_decode\<close> are decoders written from the description of the format;
  the lemmas say that they read back what the commands asked for.
\<close>

subsection \<open>Addresses\<close>

definition MotorolaCodes :: "(int \<times> int \<times> string) list" where
  "MotorolaCodes = [
     (0, 85, ''OOOO''), (1, 3, ''HLLL''), (2, 1, ''OLLL''), (3, 12, ''LHLL''), (4, 15, ''HHLL''),
     (5, 13, ''OHLL''), (6, 4, ''LOLL''), (7, 7, ''HOLL''), (8, 5, ''OOLL''), (9, 48, ''LLHL''),
     (10, 51, ''HLHL''), (11, 49, ''OLHL''), (12, 60, ''LHHL''), (13, 63, ''HHHL''),
     (14, 61, ''OHHL''), (15, 52, ''LOHL''), (16, 55, ''HOHL''), (17, 53, ''OOHL''),
     (18, 16, ''LLOL''), (19, 19, ''HLOL''), (20, 17, ''OLOL''), (21, 28, ''LHOL''),
     (22, 31, ''HHOL''), (23, 29, ''OHOL''), (24, 20, ''LOOL''), (25, 23, ''HOOL''),
     (26, 21, ''OOOL''), (27, 192, ''LLLH''), (28, 195, ''HLLH''), (29, 193, ''OLLH''),
     (30, 204, ''LHLH''), (31, 207, ''HHLH''), (32, 205, ''OHLH''), (33, 196, ''LOLH''),
     (34, 199, ''HOLH''), (35, 197, ''OOLH''), (36, 240, ''LLHH''), (37, 243, ''HLHH''),
     (38, 241, ''OLHH''), (39, 252, ''LHHH''), (40, 255, ''HHHH''), (41, 253, ''OHHH''),
     (42, 244, ''LOHH''), (43, 247, ''HOHH''), (44, 245, ''OOHH''), (45, 208, ''LLOH''),
     (46, 211, ''HLOH''), (47, 209, ''OLOH''), (48, 220, ''LHOH''), (49, 223, ''HHOH''),
     (50, 221, ''OHOH''), (51, 212, ''LOOH''), (52, 215, ''HOOH''), (53, 213, ''OOOH''),
     (54, 64, ''LLLO''), (55, 67, ''HLLO''), (56, 65, ''OLLO''), (57, 76, ''LHLO''),
     (58, 79, ''HHLO''), (59, 77, ''OHLO''), (60, 68, ''LOLO''), (61, 71, ''HOLO''),
     (62, 69, ''OOLO''), (63, 112, ''LLHO''), (64, 115, ''HLHO''), (65, 113, ''OLHO''),
     (66, 124, ''LHHO''), (67, 127, ''HHHO''), (68, 125, ''OHHO''), (69, 116, ''LOHO''),
     (70, 119, ''HOHO''), (71, 117, ''OOHO''), (72, 80, ''LLOO''), (73, 83, ''HLOO''),
     (74, 81, ''OLOO''), (75, 92, ''LHOO''), (76, 95, ''HHOO''), (77, 93, ''OHOO''),
     (78, 84, ''LOOO''), (79, 87, ''HOOO''), (80, 0, ''LLLL''), (81, 2, ''ULLL''),
     (82, 6, ''UOLL''), (83, 233, ''OUUH''), (84, 14, ''UHLL''), (85, 18, ''ULOL''),
     (86, 22, ''UOOL''), (87, 26, ''UUOL''), (88, 30, ''UHOL''), (89, 34, ''ULUL''),
     (90, 38, ''UOUL''), (91, 42, ''UUUL''), (92, 46, ''UHUL''), (93, 50, ''ULHL''),
     (94, 54, ''UOHL''), (95, 58, ''UUHL''), (96, 62, ''UHHL''), (97, 66, ''ULLO''),
     (98, 70, ''UOLO''), (99, 74, ''UULO''), (100, 78, ''UHLO''), (101, 82, ''ULOO''),
     (102, 86, ''UOOO''), (103, 90, ''UUOO''), (104, 94, ''UHOO''), (105, 98, ''ULUO''),
     (106, 102, ''UOUO''), (107, 106, ''UUUO''), (108, 110, ''UHUO''), (109, 114, ''ULHO''),
     (110, 118, ''UOHO''), (111, 122, ''UUHO''), (112, 126, ''UHHO''), (113, 130, ''ULLU''),
     (114, 134, ''UOLU''), (115, 138, ''UULU''), (116, 142, ''UHLU''), (117, 146, ''ULOU''),
     (118, 150, ''UOOU''), (119, 154, ''UUOU''), (120, 158, ''UHOU''), (121, 162, ''ULUU''),
     (122, 166, ''UOUU''), (123, 249, ''OUHH''), (124, 174, ''UHUU''), (125, 178, ''ULHU''),
     (126, 182, ''UOHU''), (127, 186, ''UUHU''), (128, 190, ''UHHU''), (129, 194, ''ULLH''),
     (130, 198, ''UOLH''), (131, 202, ''UULH''), (132, 206, ''UHLH''), (133, 210, ''ULOH''),
     (134, 214, ''UOOH''), (135, 218, ''UUOH''), (136, 222, ''UHOH''), (137, 226, ''ULUH''),
     (138, 230, ''UOUH''), (139, 234, ''UUUH''), (140, 238, ''UHUH''), (141, 242, ''ULHH''),
     (142, 146, ''UOHH''), (143, 250, ''UUHH''), (144, 254, ''UHHH''), (145, 8, ''LULL''),
     (146, 24, ''LUOL''), (147, 40, ''LUUL''), (148, 56, ''LUHL''), (149, 72, ''LULO''),
     (150, 88, ''LUOO''), (151, 104, ''LUUO''), (152, 120, ''LUHO''), (153, 136, ''LULU''),
     (154, 152, ''LUOU''), (155, 168, ''LUUU''), (156, 184, ''LUHU''), (157, 200, ''LULH''),
     (158, 216, ''LUOH''), (159, 232, ''LUUH''), (160, 248, ''LUHH''), (161, 11, ''HULL''),
     (162, 27, ''HUOL''), (163, 43, ''HUUL''), (164, 59, ''HUHL''), (165, 75, ''HULO''),
     (166, 91, ''HUOO''), (167, 107, ''HUUO''), (168, 123, ''HUHO''), (169, 139, ''HULU''),
     (170, 155, ''HUOU''), (171, 171, ''HUUU''), (172, 187, ''HUHU''), (173, 203, ''HULH''),
     (174, 219, ''HUOH''), (175, 235, ''HUUH''), (176, 251, ''HUHH''), (177, 9, ''OULL''),
     (178, 25, ''OUOL''), (179, 41, ''OUUL''), (180, 57, ''OUHL''), (181, 73, ''OULO''),
     (182, 89, ''OUOO''), (183, 105, ''OUUO''), (184, 121, ''OUHO''), (185, 137, ''OULU''),
     (186, 153, ''OUOU''), (187, 169, ''OUUU''), (188, 185, ''OUHU''), (189, 201, ''OULH''),
     (190, 217, ''OUOH''), (191, 10, ''UULL''), (192, 170, ''UUUU''), (193, 32, ''LLUL''),
     (194, 96, ''LLUO''), (195, 160, ''LLUU''), (196, 224, ''LLUH''), (197, 35, ''HLUL''),
     (198, 99, ''HLUO''), (199, 163, ''HLUU''), (200, 227, ''HLUH''), (201, 33, ''OLUL''),
     (202, 97, ''OLUO''), (203, 161, ''OLUU''), (204, 225, ''OLUH''), (205, 44, ''LHUL''),
     (206, 108, ''LHUO''), (207, 172, ''LHUU''), (208, 236, ''LHUH''), (209, 47, ''HHUL''),
     (210, 111, ''HHUO''), (211, 175, ''HHUU''), (212, 239, ''HHUH''), (213, 45, ''OHUL''),
     (214, 109, ''OHUO''), (215, 173, ''OHUU''), (216, 237, ''OHUH''), (217, 36, ''LOUL''),
     (218, 100, ''LOUO''), (219, 164, ''LOUU''), (220, 228, ''LOUH''), (221, 39, ''HOUL''),
     (222, 103, ''HOUO''), (223, 167, ''HOUU''), (224, 231, ''HOUH''), (225, 37, ''OOUL''),
     (226, 101, ''OOUO''), (227, 165, ''OOUU''), (228, 229, ''OOUH''), (229, 128, ''LLLU''),
     (230, 131, ''HLLU''), (231, 129, ''OLLU''), (232, 140, ''LHLU''), (233, 143, ''HHLU''),
     (234, 141, ''OHLU''), (235, 132, ''LOLU''), (236, 135, ''HOLU''), (237, 133, ''OOLU''),
     (238, 176, ''LLHU''), (239, 179, ''HLHU''), (240, 177, ''OLHU''), (241, 188, ''LHHU''),
     (242, 191, ''HHHU''), (243, 189, ''OHHU''), (244, 180, ''LOHU''), (245, 183, ''HOHU''),
     (246, 181, ''OOHU''), (247, 144, ''LLOU''), (248, 147, ''HLOU''), (249, 145, ''OLOU''),
     (250, 156, ''LHOU''), (251, 159, ''HHOU''), (252, 157, ''OHOU''), (253, 148, ''LOOU''),
     (254, 151, ''HOOU''), (255, 149, ''OOOU'')]"

definition motorola_code :: "int \<Rightarrow> string" where
  "motorola_code address = snd (snd (MotorolaCodes ! nat address))"

subsection \<open>Trits and bytes\<close>

text \<open>A character that no case of the \<open>switch\<close> handles leaves its bytes unwritten.\<close>

definition trit_bytes :: "char \<Rightarrow> nat list option" where
  "trit_bytes c =
     (if c = CHR ''L'' then Some [LO, LO]
      else if c = CHR ''H'' then Some [HI, HI]
      else if c = CHR ''O'' then Some [HI, LO]
      else None)"

definition trit_bytes2 :: "char \<Rightarrow> nat list option" where
  "trit_bytes2 c = (if c = CHR ''U'' then Some [LO, HI] else trit_bytes c)"

definition packet_bytes :: "(char \<Rightarrow> nat list option) \<Rightarrow> string \<Rightarrow> nat list option" where
  "packet_bytes f trits = map_option concat (those (map f trits))"

fun speed_trits :: "nat \<Rightarrow> int \<Rightarrow> string" where
  "speed_trits 0 speed = []"
| "speed_trits (Suc n) speed = (if speed mod 2 = 0 then CHR ''L'' else CHR ''H'') # speed_trits n (speed div 2)"

definition masked :: "char \<Rightarrow> char \<Rightarrow> char" where
  "masked t m =
     (if t = CHR ''H'' \<and> m = CHR ''L'' then CHR ''O''
      else if t = CHR ''L'' \<and> m = CHR ''H'' then CHR ''U'' else t)"

text \<open>The direction and the range of the speed, for a speed with sign; \<open>None\<close> where \<open>mask\<close> is
  not written.\<close>

definition m2_mask :: "int \<Rightarrow> int \<Rightarrow> string option" where
  "m2_mask direction speed =
     (if speed > 7 then Some ''LHLL''
      else if speed \<ge> 0 \<and> speed \<le> 7 \<and> direction = 1 then Some ''LHLH''
      else if speed \<le> 0 \<and> speed \<ge> -7 \<and> direction = -1 then Some ''HLHH''
      else if speed < -7 then Some ''HLHL''
      else None)"

subsection \<open>Protocol 1\<close>

definition comp_maerklin_1 ::
    "gl_state \<Rightarrow> nat \<Rightarrow> int \<Rightarrow> int \<Rightarrow> int \<Rightarrow> int \<Rightarrow> world \<Rightarrow> ddl \<Rightarrow> (int \<times> ddl) option" where
  "comp_maerklin_1 stale b address direction speed func w d =
     (if address < 0 \<or> address > 80 \<or> func < 0 \<or> func > 1 \<or> speed < 0 \<or> speed > 15 \<or>
         direction < 0 \<or> direction > 1
      then Some (1, d)
      else do {
        let loco = (case cacheGetGL b address w of Some l \<Rightarrow> l | None \<Rightarrow> stale);
        let speed = (if direction \<noteq> l_direction loco then 1 else speed);
        pack \<leftarrow> packet_bytes trit_bytes
          (motorola_code address @ [if func \<noteq> 0 then CHR ''H'' else CHR ''L''] @ speed_trits 4 speed);
        d1 \<leftarrow> update_MaerklinPacketPool address pack pack pack pack pack d;
        d2 \<leftarrow> queue_add address pack QM1LOCOPKT d1;
        Some (0, d2) })"

subsection \<open>Protocol 2 and its variants\<close>

text \<open>The packet of function \<open>j + 1\<close>: the second halves of the speed trits are replaced. If they
  became equal to the first halves, the packet could be taken for one of protocol 1; then
  another code is used.\<close>

definition f_packet :: "nat list \<Rightarrow> int \<Rightarrow> nat \<Rightarrow> int \<Rightarrow> nat list" where
  "f_packet pack mspeed j f =
     (let p = (if j = 0 then pack[11 := HI, 13 := HI, 15 := LO]
               else if j = 1 then pack[11 := LO, 13 := LO, 15 := HI]
               else if j = 2 then pack[11 := LO, 13 := HI, 15 := HI]
               else pack[11 := HI, 13 := HI, 15 := HI]);
          p = p[17 := if f \<noteq> 0 then HI else LO];
          p = (if f = 0 \<and> mspeed = [3, 4, 6, 7] ! j then p[11 := HI, 13 := LO, 15 := HI] else p)
      in if f \<noteq> 0 \<and> mspeed = [11, 12, 14, 15] ! j then p[11 := LO, 13 := HI, 15 := LO] else p)"

definition m2_f_packets :: "nat list \<Rightarrow> int \<Rightarrow> int list \<Rightarrow> nat list list" where
  "m2_f_packets pack mspeed fs = map (\<lambda>j. f_packet pack mspeed j (fs ! j)) [0..<4]"

text \<open>The first function whose last half differs from the packet in the pool is sent; when there
  is none, the speed.\<close>

definition m2_send :: "int \<Rightarrow> nat list \<Rightarrow> nat list list \<Rightarrow> ddl \<Rightarrow> (int \<times> ddl) option" where
  "m2_send adr pack fp d = do {
     let changed = find (\<lambda>i. get_maerklin_packet adr i d ! 17 \<noteq> fp ! i ! 17) [0..<4];
     d1 \<leftarrow> update_MaerklinPacketPool adr pack (fp ! 0) (fp ! 1) (fp ! 2) (fp ! 3) d;
     d2 \<leftarrow> (case changed of
              None \<Rightarrow> queue_add adr pack QM2LOCOPKT d1
            | Some fx \<Rightarrow> queue_add adr (fp ! fx) QM2FXPKT d1);
     Some (0, d2) }"

definition m2_command ::
    "int \<Rightarrow> char \<Rightarrow> int \<Rightarrow> int \<Rightarrow> bool \<Rightarrow> int list \<Rightarrow> ddl \<Rightarrow> (int \<times> ddl) option" where
  "m2_command address functrit direction speed obsolete fs d = do {
     mask \<leftarrow> m2_mask direction speed;
     let mspeed = \<bar>speed\<bar>;
     let sent = (if obsolete \<and> mspeed = 1 then 0 else mspeed);
     pack \<leftarrow> packet_bytes trit_bytes2
       (motorola_code address @ [functrit] @ map2 masked (speed_trits 4 sent) mask);
     m2_send address pack (m2_f_packets pack mspeed fs) d }"

definition bad_flag :: "int \<Rightarrow> bool" where
  "bad_flag f \<longleftrightarrow> f < 0 \<or> f > 1"

definition comp_maerklin_2 ::
    "int \<Rightarrow> int \<Rightarrow> int \<Rightarrow> int \<Rightarrow> int \<Rightarrow> int \<Rightarrow> int \<Rightarrow> int \<Rightarrow> ddl \<Rightarrow> (int \<times> ddl) option" where
  "comp_maerklin_2 address direction speed func f1 f2 f3 f4 d =
     (let direction = (if direction = 0 then -1 else 1); speed = direction * speed
      in if address < 0 \<or> address > 80 \<or> bad_flag func \<or> speed < -15 \<or> speed > 15 \<or>
            bad_flag f1 \<or> bad_flag f2 \<or> bad_flag f3 \<or> bad_flag f4
         then Some (1, d)
         else m2_command address (if func \<noteq> 0 then CHR ''H'' else CHR ''L'') direction speed True
                [f1, f2, f3, f4] d)"

text \<open>28 steps of the Wikinger decoder: the half step is in the function trit.\<close>

definition comp_maerklin_3 ::
    "int \<Rightarrow> int \<Rightarrow> int \<Rightarrow> int \<Rightarrow> int \<Rightarrow> int \<Rightarrow> int \<Rightarrow> int \<Rightarrow> ddl \<Rightarrow> (int \<times> ddl) option" where
  "comp_maerklin_3 address direction speed func f1 f2 f3 f4 d =
     (let direction = (if direction = 0 then -1 else 1); speed = direction * speed
      in if address < 0 \<or> address > 255 \<or> bad_flag func \<or> speed < -28 \<or> speed > 28 \<or>
            bad_flag f1 \<or> bad_flag f2 \<or> bad_flag f3 \<or> bad_flag f4
         then Some (1, d)
         else let halfstep = (\<bar>speed\<bar> mod 2 = 0);
                  speed = (if speed > 0 then c_div (speed + 1) 2 + 1 else c_div (speed - 1) 2 - 1);
                  functrit = (if \<not> halfstep then if func \<noteq> 0 then CHR ''H'' else CHR ''L''
                              else if func \<noteq> 0 then CHR ''O'' else CHR ''U'')
              in m2_command address functrit direction speed True [f1, f2, f3, f4] d)"

text \<open>256 addresses; the speed 1 is sent.\<close>

definition comp_maerklin_4 ::
    "int \<Rightarrow> int \<Rightarrow> int \<Rightarrow> int \<Rightarrow> int \<Rightarrow> int \<Rightarrow> int \<Rightarrow> int \<Rightarrow> ddl \<Rightarrow> (int \<times> ddl) option" where
  "comp_maerklin_4 address direction speed func f1 f2 f3 f4 d =
     (let direction = (if direction = 0 then -1 else 1); speed = direction * speed
      in if address < 0 \<or> address > 255 \<or> bad_flag func \<or> speed < -15 \<or> speed > 15 \<or>
            bad_flag f1 \<or> bad_flag f2 \<or> bad_flag f3 \<or> bad_flag f4
         then Some (1, d)
         else m2_command address (if func \<noteq> 0 then CHR ''H'' else CHR ''L'') direction speed False
                [f1, f2, f3, f4] d)"

text \<open>27 steps: every second one is reached through two commands, 50 ms apart. The two speeds,
  the second one 0 when there is only one command.\<close>

definition m5_steps :: "int \<Rightarrow> int \<Rightarrow> int \<times> int" where
  "m5_steps speed_old speed =
     (let acceleration = (speed_old < speed);
          two_commands = (acceleration \<and> speed mod 2 \<noteq> 0 \<or> \<not> acceleration \<and> speed mod 2 = 0)
      in if speed > 0 then
           if two_commands then
             if speed mod 2 \<noteq> 0 then (speed div 2 + 2, speed div 2 + 1)
             else (if speed div 2 = 1 then 0 else speed div 2, speed div 2 + 1)
           else (speed div 2 + 1, 0)
         else (0, 0))"

definition comp_maerklin_5 ::
    "gl_state \<Rightarrow> nat \<Rightarrow> int \<Rightarrow> int \<Rightarrow> int \<Rightarrow> int \<Rightarrow> int \<Rightarrow> int \<Rightarrow> int \<Rightarrow> int \<Rightarrow> world \<Rightarrow> ddl \<Rightarrow> (int \<times> ddl) option"
where
  "comp_maerklin_5 stale b address direction speed func f1 f2 f3 f4 w d =
     (if speed < 0 \<or> speed > 28 then Some (1, d)
      else do {
        let loco = (case cacheGetGL b address w of Some l \<Rightarrow> l | None \<Rightarrow> stale);
        let (sFS1, sFS2) = m5_steps (l_speed loco) speed;
        (rtc, d1) \<leftarrow> comp_maerklin_2 address direction sFS1 func f1 f2 f3 f4 d;
        if sFS2 > 0 \<and> rtc = 0
        then comp_maerklin_2 address direction sFS2 func f1 f2 f3 f4 d1
        else Some (rtc, d1) })"

subsection \<open>Solenoids and function decoders\<close>

text \<open>\<open>LO_38K\<close>, \<open>HI_38K\<close> and \<open>OP_38K\<close>: one byte for a whole trit.\<close>

definition trit_38K :: "char \<Rightarrow> nat option" where
  "trit_38K c =
     (if c = CHR ''L'' then Some 55
      else if c = CHR ''H'' then Some 4
      else if c = CHR ''O'' then Some 52
      else None)"

fun base3_trits :: "nat \<Rightarrow> int \<Rightarrow> string" where
  "base3_trits 0 v = []"
| "base3_trits (Suc n) v = ''LHO'' ! nat (v mod 3) # base3_trits n (v div 3)"

definition comp_maerklin_ms :: "int \<Rightarrow> int \<Rightarrow> int \<Rightarrow> ddl \<Rightarrow> (int \<times> ddl) option" where
  "comp_maerklin_ms address port action d =
     (if address < 1 \<or> address > 324 \<or> action < 0 \<or> action > 1 \<or> port < 0 \<or> port > 1 then Some (1, d)
      else do {
        let sub = ((address - 1) mod 4) * 2 + port;
        pack \<leftarrow> those (map trit_38K
          (base3_trits 4 ((address - 1) div 4) @ ''L'' @ speed_trits 3 sub @
           [if action \<noteq> 0 then CHR ''H'' else CHR ''L'']));
        d1 \<leftarrow> queue_add address pack QM1SOLEPKT d;
        Some (0, d1) })"

definition comp_maerklin_mf :: "int \<Rightarrow> int \<Rightarrow> int \<Rightarrow> int \<Rightarrow> int \<Rightarrow> ddl \<Rightarrow> (int \<times> ddl) option" where
  "comp_maerklin_mf address f1 f2 f3 f4 d =
     (if address < 0 \<or> address > 80 \<or> bad_flag f1 \<or> bad_flag f2 \<or> bad_flag f3 \<or> bad_flag f4 then Some (1, d)
      else do {
        pack \<leftarrow> those (map trit_38K
          (motorola_code address @ ''H'' @ map (\<lambda>f. if f \<noteq> 0 then CHR ''H'' else CHR ''L'') [f1, f2, f3, f4]));
        d1 \<leftarrow> queue_add address pack QM1FUNCPKT d;
        Some (0, d1) })"

subsection \<open>The address codes\<close>

definition code_value :: "string \<Rightarrow> int" where
  "code_value s = foldr (\<lambda>c v. 4 * v + (if c = CHR ''L'' then 0 else if c = CHR ''O'' then 1
     else if c = CHR ''U'' then 2 else 3)) s 0"

lemma MotorolaCodes_length: "length MotorolaCodes = 256"
  by (simp add: MotorolaCodes_def)

lemma MotorolaCodes_values: "sort (map (code_value \<circ> snd \<circ> snd) MotorolaCodes) = [0..255]"
  by code_simp

lemma MotorolaCodes_chars:
  "list_all (\<lambda>(r, b, c). length c = 4 \<and> set c \<subseteq> set ''LHOU'') MotorolaCodes"
  by (simp add: MotorolaCodes_def)

lemma MotorolaCodes_basic:
  "list_all (\<lambda>(r, b, c). set c \<subseteq> set ''LHO'') (take 81 MotorolaCodes)"
  "map (snd \<circ> snd) (take 81 MotorolaCodes) = ''OOOO'' # map (base3_trits 4) [1..79] @ [''LLLL'']"
  by code_simp+

lemma motorola_code_mem:
  assumes "0 \<le> a" and "a \<le> 255"
  shows "\<exists>r b. (r, b, motorola_code a) \<in> set MotorolaCodes"
proof -
  have "MotorolaCodes ! nat a \<in> set MotorolaCodes" using assms by (simp add: MotorolaCodes_length)
  then show ?thesis
    unfolding motorola_code_def by (metis prod.collapse)
qed

lemma motorola_code_chars:
  assumes "0 \<le> a" and "a \<le> 255"
  shows "length (motorola_code a) = 4" and "set (motorola_code a) \<subseteq> set ''LHOU''"
  using motorola_code_mem [OF assms] MotorolaCodes_chars by (fastforce simp: list_all_iff)+

lemma motorola_code_basic:
  assumes "0 \<le> a" and "a \<le> 80"
  shows "set (motorola_code a) \<subseteq> set ''LHO''"
    and "1 \<le> a \<Longrightarrow> a \<le> 79 \<Longrightarrow> motorola_code a = base3_trits 4 a"
proof -
  have t: "take 81 MotorolaCodes ! nat a = MotorolaCodes ! nat a"
    "nat a < length (take 81 MotorolaCodes)" using assms by (simp_all add: MotorolaCodes_length)
  obtain r b where m: "MotorolaCodes ! nat a = (r, b, motorola_code a)"
    unfolding motorola_code_def by (cases "MotorolaCodes ! nat a") auto
  have "(r, b, motorola_code a) \<in> set (take 81 MotorolaCodes)"
    using nth_mem [OF t(2)] unfolding t(1) m .
  then show "set (motorola_code a) \<subseteq> set ''LHO''"
    using MotorolaCodes_basic(1) by (fastforce simp: list_all_iff)
  show "motorola_code a = base3_trits 4 a" if "1 \<le> a" "a \<le> 79"
  proof -
    have "motorola_code a = map (snd \<circ> snd) (take 81 MotorolaCodes) ! nat a"
      unfolding nth_map [OF t(2)] t(1) by (simp add: motorola_code_def)
    also have "\<dots> = map (base3_trits 4) [1..79] ! (nat a - 1)"
    proof -
      have n: "nat a = Suc (nat (a - 1))" "nat (a - 1) < 79" using that by linarith+
      then show ?thesis unfolding MotorolaCodes_basic(2) n(1) by (simp add: nth_append)
    qed
    also have "\<dots> = base3_trits 4 a" using that by simp
    finally show ?thesis .
  qed
qed

text \<open>The 256 Motorola addresses have pairwise different codes, and the codes of the addresses
  1 to 79 are their ternary digits, the lowest first.\<close>

theorem motorola_codes_unique:
  assumes "0 \<le> a" and "a \<le> 255" and "0 \<le> b" and "b \<le> 255"
  shows "(motorola_code a = motorola_code b \<longleftrightarrow> a = b) \<and>
    (1 \<le> a \<and> a \<le> 79 \<longrightarrow> motorola_code a = base3_trits 4 a)"
proof -
  let ?vs = "map (code_value \<circ> snd \<circ> snd) MotorolaCodes"
  have "distinct (sort ?vs)" unfolding MotorolaCodes_values by simp
  then have d: "distinct ?vs" by simp
  have v: "code_value (motorola_code c) = ?vs ! nat c" "nat c < length ?vs" if "0 \<le> c" "c \<le> 255" for c
    using that by (simp_all add: motorola_code_def MotorolaCodes_length)
  have "motorola_code a = motorola_code b \<Longrightarrow> nat a = nat b"
    using nth_eq_iff_index_eq [OF d v(2) v(2)] v(1) assms by metis
  then show ?thesis using assms motorola_code_basic(2) [of a] by auto
qed

theorem motorola_codes_unique_witness:
  "motorola_code 142 \<noteq> motorola_code 5 \<and> motorola_code 5 = ''OHLL''"
  using motorola_codes_unique [of 5 142] by (auto simp: eval_nat_numeral)

subsection \<open>A decoder of the packets\<close>

definition trit_of :: "nat \<Rightarrow> nat \<Rightarrow> char option" where
  "trit_of x y =
     (if x = LO \<and> y = LO then Some (CHR ''L'') else if x = HI \<and> y = HI then Some (CHR ''H'')
      else if x = HI \<and> y = LO then Some (CHR ''O'') else if x = LO \<and> y = HI then Some (CHR ''U'')
      else None)"

fun read_trits :: "nat list \<Rightarrow> string option" where
  "read_trits (x # y # p) = do { t \<leftarrow> trit_of x y; ts \<leftarrow> read_trits p; Some (t # ts) }"
| "read_trits [] = Some []"
| "read_trits [_] = None"

text \<open>A packet of the newer protocol sets the direction and the speed, or one function. It is told
  from one of the older protocol by second halves that differ from the first.\<close>

datatype mm_command = Drive bool int | Switch nat bool

definition speed_of :: "string \<Rightarrow> int" where
  "speed_of ts = foldr (\<lambda>t s. 2 * s + (if t = CHR ''H'' \<or> t = CHR ''O'' then 1 else 0)) ts 0"

definition second_halves :: "string \<Rightarrow> bool list" where
  "second_halves ts = map (\<lambda>t. t = CHR ''H'' \<or> t = CHR ''U'') ts"

definition old_protocol :: "string \<Rightarrow> bool" where
  "old_protocol ts \<longleftrightarrow> set ts \<subseteq> set ''LH''"

definition mm_second :: "int \<Rightarrow> bool list \<Rightarrow> mm_command option" where
  "mm_second s bs =
     (let b = bs ! 3; number = (\<lambda>s. if s = 3 then 1 else if s = 4 then 2 else if s = 6 then 3 else 4) in
      if take 3 bs = [True, False, True] then
        if b = (s \<le> 7) then Some (Drive False s)
        else if s \<in> {3, 4, 6, 7} then Some (Switch (number s) False) else None
      else if take 3 bs = [False, True, False] then
        if b = (s \<le> 7) then Some (Drive True s)
        else if s \<in> {11, 12, 14, 15} then Some (Switch (number (s - 8)) True) else None
      else if take 3 bs = [True, True, False] then Some (Switch 1 b)
      else if take 3 bs = [False, False, True] then Some (Switch 2 b)
      else if take 3 bs = [False, True, True] then Some (Switch 3 b)
      else if take 3 bs = [True, True, True] then Some (Switch 4 b)
      else None)"

definition m2_decode :: "nat list \<Rightarrow> (string \<times> char \<times> mm_command) option" where
  "m2_decode p = do {
     ts \<leftarrow> read_trits p;
     if length ts \<noteq> 9 \<or> old_protocol (drop 5 ts) then None
     else do { cmd \<leftarrow> mm_second (speed_of (drop 5 ts)) (second_halves (drop 5 ts));
               Some (take 4 ts, ts ! 4, cmd) } }"

subsection \<open>The commands of protocol 2\<close>

lemma trit_bytes2_cases:
  "c \<in> set ''LHOU'' \<Longrightarrow> \<exists>x y. trit_bytes2 c = Some [x, y] \<and> trit_of x y = Some c"
  by (auto simp: trit_bytes2_def trit_bytes_def trit_of_def HI_def LO_def)

lemma packet_bytes_Cons:
  "packet_bytes f (c # cs) = do { b \<leftarrow> f c; p \<leftarrow> packet_bytes f cs; Some (b @ p) }"
  by (cases "f c"; cases "those (map f cs)") (simp_all add: packet_bytes_def)

lemma packet_bytes_Nil: "packet_bytes f [] = Some []"
  by (simp add: packet_bytes_def)

lemma packet_bytes_read:
  "set cs \<subseteq> set ''LHOU'' \<Longrightarrow>
   \<exists>p. packet_bytes trit_bytes2 cs = Some p \<and> length p = 2 * length cs \<and> read_trits p = Some cs"
proof (induction cs)
  case (Cons c cs)
  obtain x y where "trit_bytes2 c = Some [x, y]" "trit_of x y = Some c"
    using trit_bytes2_cases [of c] Cons.prems by auto
  moreover obtain p where "packet_bytes trit_bytes2 cs = Some p" "length p = 2 * length cs" "read_trits p = Some cs"
    using Cons by auto
  ultimately show ?case by (simp add: packet_bytes_Cons)
qed (simp add: packet_bytes_Nil)

lemma packet_bytes_append:
  "packet_bytes f (xs @ ys) = do { p \<leftarrow> packet_bytes f xs; q \<leftarrow> packet_bytes f ys; Some (p @ q) }"
  by (induction xs) (auto simp: packet_bytes_Nil packet_bytes_Cons Option.bind_assoc intro!: bind_option_cong
      split: bind_splits)

lemma read_trits_append:
  "read_trits p = Some ts \<Longrightarrow> read_trits q = Some us \<Longrightarrow> read_trits (p @ q) = Some (ts @ us)"
  by (induction p arbitrary: ts rule: read_trits.induct) (auto simp: bind_eq_Some_conv)

text \<open>The last eight bytes, which carry the command.\<close>

definition body_decode :: "nat list \<Rightarrow> mm_command option" where
  "body_decode B = do {
     ts \<leftarrow> read_trits B;
     if length ts \<noteq> 4 \<or> old_protocol ts then None else mm_second (speed_of ts) (second_halves ts) }"

lemma m2_decode_body:
  assumes "read_trits P = Some (code @ [t])" and "length code = 4" and "body_decode B = Some cmd"
  shows "m2_decode (P @ B) = Some (code, t, cmd)"
proof -
  obtain ts where "read_trits B = Some ts" "length ts = 4" "\<not> old_protocol ts"
    "mm_second (speed_of ts) (second_halves ts) = Some cmd"
    using assms(3) by (auto simp: body_decode_def bind_eq_Some_conv split: if_splits)
  then show ?thesis
    using read_trits_append [OF assms(1)] assms(2) by (simp add: m2_decode_def nth_append)
qed

definition f_body :: "nat list \<Rightarrow> int \<Rightarrow> nat \<Rightarrow> int \<Rightarrow> nat list" where
  "f_body B mspeed j f = drop 10 (f_packet (replicate 10 0 @ B) mspeed j f)"

lemma f_packet_body:
  assumes "length P = 10"
  shows "f_packet (P @ B) mspeed j f = P @ f_body B mspeed j f"
  using assms by (simp add: f_body_def f_packet_def Let_def list_update_append)

text \<open>All speeds, directions and functions: what the packet of the speed carries, and what the
  packets of the functions carry.\<close>

definition body_check :: "int \<Rightarrow> bool \<Rightarrow> bool \<Rightarrow> bool" where
  "body_check sp fwd obsolete =
     (let sent = (if obsolete \<and> sp = 1 then 0 else sp) in
      case m2_mask (if fwd then 1 else -1) (if fwd then sp else - sp) of
        None \<Rightarrow> False
      | Some m \<Rightarrow>
         (case packet_bytes trit_bytes2 (map2 masked (speed_trits 4 sent) m) of
            None \<Rightarrow> False
          | Some B \<Rightarrow>
              length B = 8 \<and> body_decode B = Some (Drive fwd sent) \<and>
              list_all (\<lambda>(j, f). length (f_body B sp j f) = 8 \<and>
                  body_decode (f_body B sp j f) = Some (Switch (j + 1) (f \<noteq> 0)))
                [(0, 0), (0, 1), (1, 0), (1, 1), (2, 0), (2, 1), (3, 0), (3, 1)]))"

lemma body_checks:
  "list_all (\<lambda>sp. body_check sp True True \<and> body_check sp True False \<and>
     body_check sp False True \<and> body_check sp False False) [0..15]"
  by code_simp

lemma f_packet_17:
  "length p = 18 \<Longrightarrow> f_packet p mspeed j f ! 17 = (if f \<noteq> 0 then HI else LO)"
  by (simp add: f_packet_def Let_def)

lemma length_f_packet [simp]: "length (f_packet p mspeed j f) = length p"
  by (simp add: f_packet_def Let_def)

definition sent_speed :: "bool \<Rightarrow> int \<Rightarrow> int" where
  "sent_speed obsolete sp = (if obsolete \<and> sp = 1 then 0 else sp)"

text \<open>The packets of a command.\<close>

lemma m2_packets:
  assumes a: "0 \<le> address" "address \<le> 255" and t: "t \<in> set ''LHOU''"
    and sp: "0 \<le> sp" "sp \<le> 15"
  shows "\<exists>m p. m2_mask (if fwd then 1 else -1) (if fwd then sp else - sp) = Some m \<and>
    packet_bytes trit_bytes2 (motorola_code address @ [t] @
      map2 masked (speed_trits 4 (sent_speed obsolete sp)) m) = Some p \<and> length p = 18 \<and>
    m2_decode p = Some (motorola_code address, t, Drive fwd (sent_speed obsolete sp)) \<and>
    (\<forall>j<4. \<forall>f\<in>{0, 1}. m2_decode (f_packet p sp j f) = Some (motorola_code address, t, Switch (j + 1) (f \<noteq> 0)))"
proof -
  have "sp \<in> set [0..15]" using sp by simp
  then have "body_check sp fwd obsolete"
    using body_checks by (cases fwd; cases obsolete) (auto simp: list_all_iff)
  then obtain m B where m: "m2_mask (if fwd then 1 else -1) (if fwd then sp else - sp) = Some m"
    "packet_bytes trit_bytes2 (map2 masked (speed_trits 4 (sent_speed obsolete sp)) m) = Some B"
    "length B = 8" "body_decode B = Some (Drive fwd (sent_speed obsolete sp))"
    and fs: "list_all (\<lambda>(j, f). length (f_body B sp j f) = 8 \<and>
                  body_decode (f_body B sp j f) = Some (Switch (j + 1) (f \<noteq> 0)))
                [(0, 0), (0, 1), (1, 0), (1, 1), (2, 0), (2, 1), (3, 0), (3, 1)]"
    unfolding body_check_def sent_speed_def Let_def by (auto split: option.splits)
  obtain P where P: "packet_bytes trit_bytes2 (motorola_code address @ [t]) = Some P"
    "length P = 10" "read_trits P = Some (motorola_code address @ [t])"
    using packet_bytes_read [of "motorola_code address @ [t]"] motorola_code_chars [OF a] t by auto
  have p: "packet_bytes trit_bytes2 (motorola_code address @ [t] @
      map2 masked (speed_trits 4 (sent_speed obsolete sp)) m) = Some (P @ B)"
    using packet_bytes_append [of trit_bytes2 "motorola_code address @ [t]"] P(1) m(2) by simp
  have "m2_decode (P @ B) = Some (motorola_code address, t, Drive fwd (sent_speed obsolete sp))"
    by (rule m2_decode_body [OF P(3) motorola_code_chars(1) [OF a] m(4)])
  moreover have "m2_decode (f_packet (P @ B) sp j f) = Some (motorola_code address, t, Switch (j + 1) (f \<noteq> 0))"
    if j: "j < 4" "f \<in> {0, 1}" for j f
  proof -
    have "j \<in> {0, 1, 2, 3}" using j(1) by auto
    then have "body_decode (f_body B sp j f) = Some (Switch (j + 1) (f \<noteq> 0))"
      using fs j(2) by auto
    then show ?thesis
      unfolding f_packet_body [OF P(2)] by (rule m2_decode_body [OF P(3) motorola_code_chars(1) [OF a]])
  qed
  ultimately show ?thesis using m(1,3) P(2) p by auto
qed

text \<open>What a command asks for is in the pool, and the packet that is sent first is the one of the
  first function whose last byte in the pool is another, or of the speed.\<close>

definition changed_function :: "int \<Rightarrow> int list \<Rightarrow> ddl \<Rightarrow> nat option" where
  "changed_function address fs d =
     find (\<lambda>j. get_maerklin_packet address j d ! 17 \<noteq> (if fs ! j \<noteq> 0 then HI else LO)) [0..<4]"

definition m2_done ::
    "int \<Rightarrow> char \<Rightarrow> bool \<Rightarrow> int \<Rightarrow> int list \<Rightarrow> ddl \<Rightarrow> ddl \<Rightarrow> bool" where
  "m2_done address t fwd step fs d d' \<longleftrightarrow>
     (\<exists>p fp. mm_packets (mm_pool d') address = \<lparr>sd_packet = p, f_packets = fp\<rparr> \<and>
        m2_decode p = Some (motorola_code address, t, Drive fwd step) \<and>
        (\<forall>j<4. m2_decode (fp ! j) = Some (motorola_code address, t, Switch (j + 1) (fs ! j \<noteq> 0))) \<and>
        pending d' = one_more d
          (case changed_function address fs d of
             None \<Rightarrow> pkt address p QM2LOCOPKT
           | Some j \<Rightarrow> pkt address (fp ! j) QM2FXPKT))"

lemma m2_command_done:
  assumes ok: "mm_ok d" "queue_ok d" and a: "0 \<le> address" "address \<le> 255" and t: "t \<in> set ''LHOU''"
    and sp: "0 \<le> sp" "sp \<le> 15" and fs: "length fs = 4" "set fs \<subseteq> {0, 1}"
  shows "\<exists>d'. m2_command address t (if fwd then 1 else -1) (if fwd then sp else - sp) obsolete fs d = Some (0, d') \<and>
    mm_ok d' \<and> queue_ok d' \<and> (\<exists>mp q. d' = d\<lparr>mm_pool := mp, packets_q := q\<rparr>) \<and>
    m2_done address t fwd (sent_speed obsolete sp) fs d d'"
proof -
  obtain m p where m: "m2_mask (if fwd then 1 else -1) (if fwd then sp else - sp) = Some m"
    and p: "packet_bytes trit_bytes2 (motorola_code address @ [t] @
      map2 masked (speed_trits 4 (sent_speed obsolete sp)) m) = Some p" "length p = 18"
      "m2_decode p = Some (motorola_code address, t, Drive fwd (sent_speed obsolete sp))"
    and f: "\<And>j f. j < 4 \<Longrightarrow> f \<in> {0, 1} \<Longrightarrow>
      m2_decode (f_packet p sp j f) = Some (motorola_code address, t, Switch (j + 1) (f \<noteq> 0))"
    using m2_packets [OF a t sp, of fwd obsolete] by blast
  define fp where "fp = m2_f_packets p sp fs"
  have fsj: "fs ! j \<in> {0, 1}" if "j < 4" for j using that fs(1) by (intro subsetD [OF fs(2)] nth_mem) simp
  have fp: "fp ! j = f_packet p sp j (fs ! j)" if "j < 4" for j
    using that by (simp add: fp_def m2_f_packets_def)
  have lfp: "length (fp ! j) = 18" if "j < 4" for j using fp [OF that] p(2) by simp
  have fpl: "fp = [fp ! 0, fp ! 1, fp ! 2, fp ! 3]"
    by (simp add: fp_def m2_f_packets_def upt_rec)
  have A: "address \<le> MAX_MARKLIN_ADDRESS" using a by (simp add: MAX_MARKLIN_ADDRESS_def)
  have l4: "length (fp ! 0) = 18" "length (fp ! 1) = 18" "length (fp ! 2) = 18" "length (fp ! 3) = 18"
    by (simp_all add: lfp)
  obtain mp where mp: "update_MaerklinPacketPool address p (fp ! 0) (fp ! 1) (fp ! 2) (fp ! 3) d
      = Some (d\<lparr>mm_pool := mp\<rparr>)" "mm_ok (d\<lparr>mm_pool := mp\<rparr>)"
      "mm_packets mp = (mm_packets (mm_pool d))(address :=
         \<lparr>sd_packet = p, f_packets = [fp ! 0, fp ! 1, fp ! 2, fp ! 3]\<rparr>)"
    using update_MaerklinPacketPool_ok [OF ok(1) a(1) A p(2) l4] by blast
  have mpa: "mm_packets mp address = \<lparr>sd_packet = p, f_packets = fp\<rparr>"
    unfolding mp(3) fpl [symmetric] by simp
  have ch: "find (\<lambda>i. get_maerklin_packet address i d ! 17 \<noteq> fp ! i ! 17) [0..<4] = changed_function address fs d"
    unfolding changed_function_def using fp f_packet_17 [OF p(2)] by (intro find_cong) auto
  define x where "x = (case changed_function address fs d of None \<Rightarrow> (p, QM2LOCOPKT) | Some j \<Rightarrow> (fp ! j, QM2FXPKT))"
  have "length (fst x) = 18"
    using p(2) lfp by (auto simp: x_def changed_function_def find_Some_iff split: option.split)
  then obtain q where q: "queue_add address (fst x) (snd x) (d\<lparr>mm_pool := mp\<rparr>)
      = Some (d\<lparr>mm_pool := mp, packets_q := q\<rparr>)" "queue_ok (d\<lparr>mm_pool := mp, packets_q := q\<rparr>)"
      "pending (d\<lparr>mm_pool := mp, packets_q := q\<rparr>) = one_more d (pkt address (fst x) (snd x))"
    using queue_add_one_more [of "d\<lparr>mm_pool := mp\<rparr>" "fst x" address "snd x"] ok(2)
    by (auto simp: frame_simps one_more_def PKTSIZE_def)
  have "m2_send address p fp d = Some (0, d\<lparr>mm_pool := mp, packets_q := q\<rparr>)"
    using mp(1) q(1) by (auto simp: m2_send_def ch x_def split: option.splits)
  then have "m2_command address t (if fwd then 1 else -1) (if fwd then sp else - sp) obsolete fs d
      = Some (0, d\<lparr>mm_pool := mp, packets_q := q\<rparr>)"
    using m p(1) sp by (simp add: m2_command_def sent_speed_def fp_def split: if_splits)
  moreover have "m2_done address t fwd (sent_speed obsolete sp) fs d (d\<lparr>mm_pool := mp, packets_q := q\<rparr>)"
    unfolding m2_done_def
    using mpa p(3) fp fsj f q(3) by (auto simp: x_def intro!: exI [of _ p] exI [of _ fp] split: option.splits)
  ultimately show ?thesis using mp(2) q(2) by (fastforce simp: frame_simps)
qed

lemma bad_flag_iff: "bad_flag f \<longleftrightarrow> f \<notin> {0, 1}"
  by (auto simp: bad_flag_def)

definition function_trit :: "int \<Rightarrow> char" where
  "function_trit func = (if func \<noteq> 0 then CHR ''H'' else CHR ''L'')"

lemma function_trit_ok: "function_trit func \<in> set ''LHOU''"
  by (simp add: function_trit_def)

lemma comp_maerklin_24_command:
  assumes "0 \<le> speed" and "speed \<le> 15" and "set [func, f1, f2, f3, f4] \<subseteq> {0, 1}"
  shows "0 \<le> address \<Longrightarrow> address \<le> 80 \<Longrightarrow> comp_maerklin_2 address direction speed func f1 f2 f3 f4 d
      = m2_command address (function_trit func) (if direction \<noteq> 0 then 1 else -1)
          (if direction \<noteq> 0 then speed else - speed) True [f1, f2, f3, f4] d"
    and "0 \<le> address \<Longrightarrow> address \<le> 255 \<Longrightarrow> comp_maerklin_4 address direction speed func f1 f2 f3 f4 d
      = m2_command address (function_trit func) (if direction \<noteq> 0 then 1 else -1)
          (if direction \<noteq> 0 then speed else - speed) False [f1, f2, f3, f4] d"
proof -
  have b: "\<not> bad_flag func" "\<not> bad_flag f1" "\<not> bad_flag f2" "\<not> bad_flag f3" "\<not> bad_flag f4"
    using assms(3) by (simp_all add: bad_flag_iff)
  show "0 \<le> address \<Longrightarrow> address \<le> 80 \<Longrightarrow> comp_maerklin_2 address direction speed func f1 f2 f3 f4 d
      = m2_command address (function_trit func) (if direction \<noteq> 0 then 1 else -1)
          (if direction \<noteq> 0 then speed else - speed) True [f1, f2, f3, f4] d"
    using assms(1,2) b by (cases "direction = 0") (simp_all add: comp_maerklin_2_def function_trit_def)
  show "0 \<le> address \<Longrightarrow> address \<le> 255 \<Longrightarrow> comp_maerklin_4 address direction speed func f1 f2 f3 f4 d
      = m2_command address (function_trit func) (if direction \<noteq> 0 then 1 else -1)
          (if direction \<noteq> 0 then speed else - speed) False [f1, f2, f3, f4] d"
    using assms(1,2) b by (cases "direction = 0") (simp_all add: comp_maerklin_4_def function_trit_def)
qed

lemma comp_maerklin_4_done:
  assumes "mm_ok d" and "queue_ok d" and "0 \<le> address" and "address \<le> 255"
    and "0 \<le> speed" and "speed \<le> 15" and "set [func, f1, f2, f3, f4] \<subseteq> {0, 1}"
  shows "\<exists>d'. comp_maerklin_4 address direction speed func f1 f2 f3 f4 d = Some (0, d') \<and>
    mm_ok d' \<and> queue_ok d' \<and> (\<exists>mp q. d' = d\<lparr>mm_pool := mp, packets_q := q\<rparr>) \<and>
    m2_done address (function_trit func) (direction \<noteq> 0) speed [f1, f2, f3, f4] d d'"
proof -
  have fs: "length [f1, f2, f3, f4] = 4" "set [f1, f2, f3, f4] \<subseteq> {0, 1}" using assms(7) by auto
  show ?thesis
    using m2_command_done [OF assms(1-4) function_trit_ok assms(5,6) fs, of func "direction \<noteq> 0" False]
    unfolding comp_maerklin_24_command(2) [OF assms(5,6,7,3,4)] sent_speed_def by simp
qed

lemma comp_maerklin_2_done:
  assumes "mm_ok d" and "queue_ok d" and "0 \<le> address" and "address \<le> 80"
    and "0 \<le> speed" and "speed \<le> 15" and "set [func, f1, f2, f3, f4] \<subseteq> {0, 1}"
  shows "\<exists>d'. comp_maerklin_2 address direction speed func f1 f2 f3 f4 d = Some (0, d') \<and>
    mm_ok d' \<and> queue_ok d' \<and> (\<exists>mp q. d' = d\<lparr>mm_pool := mp, packets_q := q\<rparr>) \<and>
    m2_done address (function_trit func) (direction \<noteq> 0) (if speed = 1 then 0 else speed) [f1, f2, f3, f4] d d'"
proof -
  have fs: "length [f1, f2, f3, f4] = 4" "set [f1, f2, f3, f4] \<subseteq> {0, 1}" using assms(7) by auto
  have a: "address \<le> 255" using assms(4) by simp
  show ?thesis
    using m2_command_done [OF assms(1-3) a function_trit_ok assms(5,6) fs, of func "direction \<noteq> 0" True]
    unfolding comp_maerklin_24_command(1) [OF assms(5,6,7,3,4)] sent_speed_def by simp
qed

text \<open>C23: For every speed, direction and setting of the five functions, the packets that
  comp_maerklin_2 puts in the pool are read as the locomotive's address code, its function
  trit, and the direction and the speed, or the state of the functions f1 to f4; the packet
  that is queued is the one of the first function that has changed, or of the speed.\<close>

theorem maerklin_2_decodes:
  assumes "mm_ok d" and "queue_ok d" and "0 \<le> address" and "address \<le> 80"
    and "0 \<le> speed" and "speed \<le> 15" and "set [func, f1, f2, f3, f4] \<subseteq> {0, 1}"
  shows "\<exists>d'. comp_maerklin_2 address direction speed func f1 f2 f3 f4 d = Some (0, d') \<and>
    mm_ok d' \<and> queue_ok d' \<and>
    m2_done address (if func = 1 then CHR ''H'' else CHR ''L'') (direction \<noteq> 0)
      (if speed = 1 then 0 else speed) [f1, f2, f3, f4] d d'"
proof -
  have t: "(if func = 1 then CHR ''H'' else CHR ''L'') = function_trit func"
    using assms(7) by (auto simp: function_trit_def)
  show ?thesis unfolding t using comp_maerklin_2_done [OF assms, of direction] by blast
qed

text \<open>The pool as it is after \<open>init_MaerklinPacketPool\<close>, and the queue after \<open>queue_init\<close>.\<close>

definition sample_started :: ddl where
  "sample_started = init_MaerklinPacketPool (queue_init sample_ddl)"

lemma sample_started_ok: "mm_ok sample_started" "queue_ok sample_started" "pending sample_started = []"
proof -
  have "mm_shape (mm_packets (mm_pool (queue_init sample_ddl)))"
    by (simp add: mm_shape_def queue_init_def sample_ddl_def)
  then show "mm_ok sample_started"
    unfolding sample_started_def by (rule init_MaerklinPacketPool_ok [THEN conjunct1])
  show "queue_ok sample_started" "pending sample_started = []"
    using sample_queue_ok by (simp_all add: sample_started_def init_MaerklinPacketPool_def Let_def frame_simps)
qed

theorem maerklin_2_decodes_witness:
  "\<exists>d'. comp_maerklin_2 24 1 9 1 0 1 0 0 sample_started = Some (0, d') \<and>
    m2_done 24 (CHR ''H'') True 9 [0, 1, 0, 0] sample_started d'"
  using maerklin_2_decodes [OF sample_started_ok(1,2), of 24 9 1 0 1 0 0 1] by auto

text \<open>A command for one of 27 steps ends with the protocol 2 speed of half that step; the two
  halves differ in the side it is reached from: an odd step comes from the speed above, an
  even one from the speed below.\<close>

theorem maerklin_5_steps:
  assumes "mm_ok d" and "queue_ok d" and "0 \<le> address" and "address \<le> 80"
    and "2 \<le> speed" and "speed \<le> 28" and "set [func, f1, f2, f3, f4] \<subseteq> {0, 1}"
    and "cacheGetGL b address w = Some loco"
  shows "\<exists>d' first second. comp_maerklin_5 stale b address direction speed func f1 f2 f3 f4 w d = Some (0, d') \<and>
    (let t = if func = 1 then CHR ''H'' else CHR ''L''; fs = [f1, f2, f3, f4]; fwd = (direction \<noteq> 0);
         half = speed div 2 + 1; up = (l_speed loco < speed) in
      if up = odd speed
      then first = (if odd speed then half + 1 else if half = 2 then 0 else half - 1) \<and>
        m2_done address t fwd first fs d second \<and> m2_done address t fwd half fs second d'
      else m2_done address t fwd half fs d d')"
proof -
  let ?t = "function_trit func"
  let ?c = "\<lambda>s. comp_maerklin_2 address direction s func f1 f2 f3 f4"
  have t: "(if func = 1 then CHR ''H'' else CHR ''L'') = ?t"
    using assms(7) by (auto simp: function_trit_def)
  have one: "\<exists>d'. ?c s d = Some (0, d') \<and> mm_ok d' \<and> queue_ok d' \<and>
      m2_done address ?t (direction \<noteq> 0) s [f1, f2, f3, f4] d d'"
    if s: "mm_ok d" "queue_ok d" "s = 0 \<or> 2 \<le> s" "s \<le> 15" for s d
  proof -
    have s0: "0 \<le> s" and s1: "(if s = 1 then 0 else s) = s" using s(3) by auto
    show ?thesis
      using comp_maerklin_2_done [OF s(1,2) assms(3,4) s0 s(4) assms(7), of direction] unfolding s1 by blast
  qed
  define half where "half = speed div 2 + 1"
  have half: "2 \<le> half" "half \<le> 15" using assms(5,6) by (auto simp: half_def)
  show ?thesis
  proof (cases "(l_speed loco < speed) = odd speed")
    case True
    define first where "first = (if odd speed then half + 1 else if half = 2 then 0 else half - 1)"
    have st: "m5_steps (l_speed loco) speed = (first, half)"
      using True assms(5) by (auto simp: m5_steps_def Let_def first_def half_def odd_iff_mod_2_eq_one)
    have f: "first = 0 \<or> 2 \<le> first" "first \<le> 15"
      using half assms(6) by (auto simp: first_def half_def elim!: oddE)
    obtain d1 where d1: "?c first d = Some (0, d1)" "mm_ok d1" "queue_ok d1"
      "m2_done address ?t (direction \<noteq> 0) first [f1, f2, f3, f4] d d1"
      using one [OF assms(1,2) f] by blast
    obtain d2 where d2: "?c half d1 = Some (0, d2)"
      "m2_done address ?t (direction \<noteq> 0) half [f1, f2, f3, f4] d1 d2"
      using one [OF d1(2,3) _ half(2)] half(1) by blast
    have "comp_maerklin_5 stale b address direction speed func f1 f2 f3 f4 w d = Some (0, d2)"
      using assms(5,6,8) st d1(1) d2(1) half(1) by (simp add: comp_maerklin_5_def)
    then show ?thesis
      using True d1(4) d2(2) unfolding Let_def t half_def [symmetric]
      by (intro exI [of _ d2] exI [of _ first] exI [of _ d1]) (simp add: first_def)
  next
    case False
    have st: "m5_steps (l_speed loco) speed = (half, 0)"
      using False assms(5) by (auto simp: m5_steps_def Let_def half_def odd_iff_mod_2_eq_one)
    obtain d1 where d1: "?c half d = Some (0, d1)"
      "m2_done address ?t (direction \<noteq> 0) half [f1, f2, f3, f4] d d1"
      using one [OF assms(1,2) _ half(2)] half(1) by blast
    have "comp_maerklin_5 stale b address direction speed func f1 f2 f3 f4 w d = Some (0, d1)"
      using assms(5,6,8) st d1(1) by (simp add: comp_maerklin_5_def)
    then show ?thesis
      using False d1(2) unfolding Let_def t half_def [symmetric] by auto
  qed
qed

definition sample_loco :: gl_state where
  "sample_loco = zero_gl\<lparr>l_state := 1, l_protocol := CHR ''M'', l_speed := 4, l_n_fs := 28, l_n_func := 5\<rparr>"

definition sample_bus_world :: "gl_state \<Rightarrow> world" where
  "sample_bus_world l = sample_world\<lparr>num_buses := 1,
     gl := (\<lambda>_. \<lparr>numberOfGl = 81, glstate = replicate 82 l, gl_locktime = tv_zero, gl_lockduration = 0,
                 gl_locked_by = 0\<rparr>)\<rparr>"

theorem maerklin_5_steps_witness:
  "\<exists>d' second. comp_maerklin_5 zero_gl 1 24 1 9 1 0 1 0 0 (sample_bus_world sample_loco) sample_started = Some (0, d') \<and>
    m2_done 24 (CHR ''H'') True 6 [0, 1, 0, 0] sample_started second \<and>
    m2_done 24 (CHR ''H'') True 5 [0, 1, 0, 0] second d'"
proof -
  have "cacheGetGL 1 24 (sample_bus_world sample_loco) = Some sample_loco"
    by (simp add: cacheGetGL_def isInitializedGL_def isValidGL_def sample_bus_world_def sample_loco_def)
  then show ?thesis
    using maerklin_5_steps [OF sample_started_ok(1,2), of 24 9 1 0 1 0 0 1 "sample_bus_world sample_loco"
        sample_loco zero_gl 1]
    by (auto simp: sample_loco_def Let_def)
qed

subsection \<open>Solenoid decoders\<close>

definition sol_trit :: "nat \<Rightarrow> char option" where
  "sol_trit b = (if b = 55 then Some (CHR ''L'') else if b = 4 then Some (CHR ''H'')
     else if b = 52 then Some (CHR ''O'') else None)"

definition base3_value :: "string \<Rightarrow> int" where
  "base3_value ts = foldr (\<lambda>t v. 3 * v + (if t = CHR ''H'' then 1 else if t = CHR ''O'' then 2 else 0)) ts 0"

text \<open>Four ternary digits select one of 81 decoders with four pairs of outlets each.\<close>

definition solenoid_decode :: "nat list \<Rightarrow> (int \<times> int \<times> bool) option" where
  "solenoid_decode p = do {
     ts \<leftarrow> those (map sol_trit p);
     if length ts \<noteq> 9 then None
     else let out = speed_of (take 3 (drop 5 ts))
          in Some (4 * base3_value (take 4 ts) + out div 2 + 1, out mod 2, ts ! 8 = CHR ''H'') }"

lemma sol_trits_read:
  "set cs \<subseteq> set ''LHO'' \<Longrightarrow>
   \<exists>p. those (map trit_38K cs) = Some p \<and> length p = length cs \<and> those (map sol_trit p) = Some cs"
  by (induction cs) (auto simp: trit_38K_def sol_trit_def)

lemma base3_trits_chars: "0 \<le> v \<Longrightarrow> set (base3_trits n v) \<subseteq> set ''LHO'' \<and> length (base3_trits n v) = n"
proof (induction n arbitrary: v)
  case (Suc n)
  have "v mod 3 \<in> {0, 1, 2}" by auto
  with Suc.IH [of "v div 3"] Suc.prems show ?case by auto
qed simp

lemma base3_value_trits: "0 \<le> v \<Longrightarrow> base3_value (base3_trits n v) = v mod 3 ^ n"
proof (induction n arbitrary: v)
  case (Suc n)
  have m: "v mod 3 \<in> {0, 1, 2}" by auto
  have "base3_value (base3_trits (Suc n) v) = 3 * ((v div 3) mod 3 ^ n) + v mod 3"
    using Suc.IH [of "v div 3"] Suc.prems m by (auto simp: base3_value_def)
  then show ?case by (simp add: zmod_zmult2_eq)
qed (simp add: base3_value_def)

lemma speed_trits_chars: "set (speed_trits n v) \<subseteq> set ''LH'' \<and> length (speed_trits n v) = n"
  by (induction n arbitrary: v) auto

lemma speed_of_trits: "0 \<le> v \<Longrightarrow> speed_of (speed_trits n v) = v mod 2 ^ n"
proof (induction n arbitrary: v)
  case (Suc n)
  have "speed_of (speed_trits (Suc n) v) = 2 * ((v div 2) mod 2 ^ n) + v mod 2"
    using Suc.IH [of "v div 2"] Suc.prems by (auto simp: speed_of_def)
  then show ?case by (simp add: zmod_zmult2_eq)
qed (simp add: speed_of_def)

lemma solenoid_sends:
  assumes "queue_ok d" and "1 \<le> address" and "address \<le> 324" and "port \<in> {0, 1}" and "action \<in> {0, 1}"
  shows "\<exists>d' p. comp_maerklin_ms address port action d = Some (0, d') \<and> queue_ok d' \<and>
    pending d' = one_more d (pkt address p QM1SOLEPKT) \<and> length p = 9 \<and>
    solenoid_decode p = Some (address, port, action = 1)"
proof -
  define a where "a = (address - 1) div 4"
  define out where "out = (address - 1) mod 4 * 2 + port"
  have a: "0 \<le> a" "a < 81" using assms(2,3) by (auto simp: a_def)
  have o: "0 \<le> out" "out < 8" using assms(4) by (auto simp: out_def)
  let ?act = "if action \<noteq> 0 then CHR ''H'' else CHR ''L''"
  let ?cs = "base3_trits 4 a @ ''L'' @ speed_trits 3 out @ [?act]"
  have chars: "set ?cs \<subseteq> set ''LHO''"
    using base3_trits_chars [OF a(1), of 4] speed_trits_chars [of 3 out] by auto
  obtain p where p: "those (map trit_38K ?cs) = Some p" "length p = length ?cs"
      "those (map sol_trit p) = Some ?cs"
    using sol_trits_read [OF chars] by blast
  have l: "length (base3_trits 4 a) = 4" "length (speed_trits 3 out) = 3"
    using base3_trits_chars [OF a(1), of 4] speed_trits_chars [of 3 out] by auto
  have len: "length p = 9" using p(2) l by simp
  obtain q where q: "queue_add address p QM1SOLEPKT d = Some (d\<lparr>packets_q := q\<rparr>)"
      "queue_ok (d\<lparr>packets_q := q\<rparr>)"
      "pending (d\<lparr>packets_q := q\<rparr>) = one_more d (pkt address p QM1SOLEPKT)"
    using queue_add_one_more [OF assms(1), of p address QM1SOLEPKT] len by (auto simp: PKTSIZE_def)
  have "comp_maerklin_ms address port action d = Some (0, d\<lparr>packets_q := q\<rparr>)"
    using assms(2-5) p(1) q(1) by (auto simp: comp_maerklin_ms_def a_def out_def)
  moreover have "solenoid_decode p = Some (4 * a + out div 2 + 1, out mod 2, ?act = CHR ''H'')"
    unfolding solenoid_decode_def p(3)
    using base3_value_trits [OF a(1), of 4] speed_of_trits [OF o(1), of 3] a o l
    by (simp add: nth_append Let_def)
  moreover have "4 * a + out div 2 + 1 = address" "out mod 2 = port" "(?act = CHR ''H'') = (action = 1)"
    using assms(4,5) by (auto simp: a_def out_def)
  ultimately show ?thesis using q(2,3) len by auto
qed

text \<open>The packet queued for a solenoid is read as the address, the port and the action of the
  command.\<close>

theorem solenoid_decodes:
  assumes "queue_ok d" and "1 \<le> address" and "address \<le> 324" and "port \<in> {0, 1}" and "action \<in> {0, 1}"
  shows "\<exists>d' p. comp_maerklin_ms address port action d = Some (0, d') \<and>
    pending d' = one_more d (pkt address p QM1SOLEPKT) \<and> length p = 9 \<and>
    solenoid_decode p = Some (address, port, action = 1)"
  using solenoid_sends [OF assms] by blast

theorem solenoid_decodes_witness:
  "\<exists>d' p. comp_maerklin_ms 215 1 0 sample_started = Some (0, d') \<and>
    pending d' = [pkt 215 p QM1SOLEPKT] \<and> solenoid_decode p = Some (215, 1, False)"
  using solenoid_decodes [OF sample_started_ok(2), of 215 1 0] sample_started_ok(3)
  by (auto simp: one_more_def QSIZE_def)

end
