(* ===== verification/Dcc_Program.thy ===== *)
theory Dcc_Program
  imports Dcc_Packet
begin

text \<open>
  Programming decoders over DCC (\<open>ddl_nmra.c\<close>): on the main track, where the packet carries
  the decoder's address, and in service mode on the programming track, where every decoder
  answers a command it confirms with an acknowledgement, a pulse of current.

  The programming track is not code of the program: it is the parameter \<open>track\<close>, from its
  state and the bytes written to the serial line to its next state, whether an acknowledgement
  was seen while the line drained, and whether it was still seen 5 ms later.
\<close>

unbundle bit_operations_syntax

type_synonym 'd track = "'d \<Rightarrow> nat list \<Rightarrow> 'd \<times> bool \<times> bool"

subsection \<open>Service mode streams\<close>

definition bits_of :: "string \<Rightarrow> bits" where
  "bits_of s = map (\<lambda>c. c \<noteq> CHR ''0'') s"

definition reset_packet :: bits where
  "reset_packet = bits_of ''1111111111111111111111111111110000000000000000000000000001''"

definition page_preset_packet :: bits where
  "page_preset_packet = bits_of ''1111111111111111111111111111110011111010000000010011111001''"

definition idle_packet :: bits where
  "idle_packet = bits_of ''1111111111111111111111111111110111111110000000000111111111''"

text \<open>\<open>sm_init\<close>, whose results the code keeps in static variables: the bytes of the reset, the
  idle and the page preset packet.\<close>

definition sm_init :: "(nat list \<times> nat list \<times> nat list) option" where
  "sm_init =
     do { resetstream \<leftarrow> translateBitstream2Packetstream_v3 reset_packet;
          idlestream \<leftarrow> translateBitstream2Packetstream_v3 idle_packet;
          pagepresetstream \<leftarrow> translateBitstream2Packetstream_v3 page_preset_packet;
          Some (resetstream, idlestream, pagepresetstream) }"

text \<open>An acknowledgement that does not end is a line that is permanently active.\<close>

definition handleACK :: "int \<Rightarrow> bool \<Rightarrow> int" where
  "handleACK ack still = (if ack = 1 \<and> still then 0 else ack)"

definition repeated :: "nat \<Rightarrow> nat list \<Rightarrow> nat list" where
  "repeated n stream = concat (replicate n stream)"

definition sm_write :: "'d track \<Rightarrow> 'd \<Rightarrow> nat list \<Rightarrow> int \<times> 'd" where
  "sm_write track d stream =
     (let (d', ack, still) = track d stream in (handleACK (of_bool ack) still, d'))"

subsection \<open>Register and paged mode\<close>

definition protocol_nmra_sm_phregister ::
    "'d track \<Rightarrow> 'd \<Rightarrow> int \<Rightarrow> int \<Rightarrow> bool \<Rightarrow> (int \<times> 'd) option" where
  "protocol_nmra_sm_phregister track d reg v verify =
     (if reg < 1 \<or> reg > 8 \<or> v < 0 \<or> v > 255 then Some (-1, d)
      else do { (rs, is, ps) \<leftarrow> sm_init;
                pkt \<leftarrow> translateBitstream2Packetstream_v3 (calc_reg_bitstream (reg - 1) v verify);
                Some (sm_write track d
                  (if \<not> verify
                   then repeated 50 is @ repeated 6 rs @ repeated 10 ps @ repeated 12 rs @ repeated 12 rs @
                        repeated 20 pkt @ repeated 24 pkt @ repeated 24 rs
                   else repeated 30 is @ repeated 5 rs @ repeated 20 pkt)) })"

definition protocol_nmra_sm_page ::
    "'d track \<Rightarrow> 'd \<Rightarrow> int \<Rightarrow> int \<Rightarrow> int \<Rightarrow> bool \<Rightarrow> (int \<times> 'd) option" where
  "protocol_nmra_sm_page track d page reg v verify =
     (if reg < 0 \<or> reg > 3 \<or> page < 0 \<or> page > 255 \<or> v < 0 \<or> v > 255 then Some (-1, d)
      else do { (rs, is, ps) \<leftarrow> sm_init;
                pkt \<leftarrow> translateBitstream2Packetstream_v3 (calc_reg_bitstream reg v verify);
                pagepkt \<leftarrow> translateBitstream2Packetstream_v3 (calc_reg_bitstream 5 page False);
                Some (sm_write track d
                  (repeated 50 is @ repeated 6 rs @ repeated 10 pagepkt @ repeated 12 rs @ repeated 12 rs @
                   repeated 15 pkt @ repeated 15 pkt @ repeated 24 rs)) })"

definition protocol_nmra_sm_write_phregister :: "'d track \<Rightarrow> 'd \<Rightarrow> int \<Rightarrow> int \<Rightarrow> (int \<times> 'd) option" where
  "protocol_nmra_sm_write_phregister track d reg v = protocol_nmra_sm_phregister track d reg v False"

definition protocol_nmra_sm_verify_phregister :: "'d track \<Rightarrow> 'd \<Rightarrow> int \<Rightarrow> int \<Rightarrow> (int \<times> 'd) option" where
  "protocol_nmra_sm_verify_phregister track d reg v = protocol_nmra_sm_phregister track d reg v True"

text \<open>The search for a value: the first one that is acknowledged, or 256.\<close>

fun search_value :: "('d \<Rightarrow> int \<Rightarrow> (int \<times> 'd) option) \<Rightarrow> 'd \<Rightarrow> nat \<Rightarrow> nat \<Rightarrow> (int \<times> 'd) option" where
  "search_value probe d i 0 = Some (int i, d)"
| "search_value probe d i (Suc n) =
     do { (rc, d') \<leftarrow> probe d (int i);
          if rc \<noteq> 0 then Some (int i, d') else search_value probe d' (Suc i) n }"

definition protocol_nmra_sm_get_phregister :: "'d track \<Rightarrow> 'd \<Rightarrow> int \<Rightarrow> (int \<times> 'd) option" where
  "protocol_nmra_sm_get_phregister track d reg =
     search_value (\<lambda>d i. protocol_nmra_sm_phregister track d reg i True) d 0 256"

subsection \<open>Direct mode\<close>

definition protocol_nmra_sm_direct_cvbyte ::
    "'d track \<Rightarrow> 'd \<Rightarrow> int \<Rightarrow> int \<Rightarrow> bool \<Rightarrow> (int \<times> 'd) option" where
  "protocol_nmra_sm_direct_cvbyte track d cv v verify =
     (let cv = cv - 1 in
      if cv < 0 \<or> cv > 1024 \<or> v < 0 \<or> v > 255 then Some (-1, d)
      else if cv = 0 \<and> v < 128 then protocol_nmra_sm_phregister track d 1 v verify
      else do { (rs, is, ps) \<leftarrow> sm_init;
                pkt \<leftarrow> translateBitstream2Packetstream_v3
                  (longpreamble @ [False] @ calc_byte_program_stream (replicate 8 False) cv v verify False);
                Some (sm_write track d
                  (repeated 30 is @ repeated (if verify then 5 else 15) rs @ repeated 20 pkt)) })"

definition protocol_nmra_sm_write_cvbyte :: "'d track \<Rightarrow> 'd \<Rightarrow> int \<Rightarrow> int \<Rightarrow> (int \<times> 'd) option" where
  "protocol_nmra_sm_write_cvbyte track d cv v = protocol_nmra_sm_direct_cvbyte track d cv v False"

definition protocol_nmra_sm_verify_cvbyte :: "'d track \<Rightarrow> 'd \<Rightarrow> int \<Rightarrow> int \<Rightarrow> (int \<times> 'd) option" where
  "protocol_nmra_sm_verify_cvbyte track d cv v = protocol_nmra_sm_direct_cvbyte track d cv v True"

definition protocol_nmra_sm_direct_cvbit ::
    "'d track \<Rightarrow> 'd \<Rightarrow> int \<Rightarrow> int \<Rightarrow> int \<Rightarrow> bool \<Rightarrow> (int \<times> 'd) option" where
  "protocol_nmra_sm_direct_cvbit track d cv bitnr v verify =
     (let cv = cv - 1 in
      if cv < 0 \<or> cv > 1023 \<or> bitnr < 0 \<or> bitnr > 7 \<or> v < 0 \<or> v > 1 then Some (-1, d)
      else do { (rs, is, ps) \<leftarrow> sm_init;
                pkt \<leftarrow> translateBitstream2Packetstream_v3
                  (longpreamble @ [False] @ calc_bit_program_stream (replicate 8 False) cv bitnr v verify False);
                Some (sm_write track d (repeated 30 is @ repeated 15 rs @ repeated 20 pkt)) })"

definition protocol_nmra_sm_write_cvbit :: "'d track \<Rightarrow> 'd \<Rightarrow> int \<Rightarrow> int \<Rightarrow> int \<Rightarrow> (int \<times> 'd) option" where
  "protocol_nmra_sm_write_cvbit track d cv bitnr v = protocol_nmra_sm_direct_cvbit track d cv bitnr v False"

definition protocol_nmra_sm_verify_cvbit :: "'d track \<Rightarrow> 'd \<Rightarrow> int \<Rightarrow> int \<Rightarrow> int \<Rightarrow> (int \<times> 'd) option" where
  "protocol_nmra_sm_verify_cvbit track d cv bitnr v = protocol_nmra_sm_direct_cvbit track d cv bitnr v True"

text \<open>The loop of \<open>protocol_nmra_sm_get_cvbyte\<close> over the bits from \<open>n - 1\<close> down to 0.\<close>

fun get_cvbits :: "'d track \<Rightarrow> 'd \<Rightarrow> int \<Rightarrow> int \<Rightarrow> nat \<Rightarrow> (int \<times> 'd) option" where
  "get_cvbits track d cv rc 0 = Some (rc, d)"
| "get_cvbits track d cv rc (Suc n) =
     do { (r, d') \<leftarrow> protocol_nmra_sm_direct_cvbit track d cv (int n) 1 True;
          get_cvbits track d' cv (2 * rc + r) n }"

definition protocol_nmra_sm_get_cvbyte :: "'d track \<Rightarrow> 'd \<Rightarrow> int \<Rightarrow> (int \<times> 'd) option" where
  "protocol_nmra_sm_get_cvbyte track d cv = get_cvbits track d cv 0 8"

definition calc_page :: "int \<Rightarrow> int" where
  "calc_page cv = c_div (cv - 1) 4 + 1"

definition protocol_nmra_sm_write_page :: "'d track \<Rightarrow> 'd \<Rightarrow> int \<Rightarrow> int \<Rightarrow> (int \<times> 'd) option" where
  "protocol_nmra_sm_write_page track d cv v =
     protocol_nmra_sm_page track d (calc_page cv) ((cv - 1) AND 3) v False"

definition protocol_nmra_sm_verify_page :: "'d track \<Rightarrow> 'd \<Rightarrow> int \<Rightarrow> int \<Rightarrow> (int \<times> 'd) option" where
  "protocol_nmra_sm_verify_page track d cv v =
     protocol_nmra_sm_page track d (calc_page cv) ((cv - 1) AND 3) v True"

definition protocol_nmra_sm_get_page :: "'d track \<Rightarrow> 'd \<Rightarrow> int \<Rightarrow> (int \<times> 'd) option" where
  "protocol_nmra_sm_get_page track d cv =
     search_value (\<lambda>d i. protocol_nmra_sm_page track d (calc_page cv) ((cv - 1) AND 3) i True) d 0 256"

subsection \<open>The packets on the programming track\<close>

definition reset_bytes :: "bits list" where
  "reset_bytes = replicate 3 (replicate 8 False)"

definition idle_bytes :: "bits list" where
  "idle_bytes = [replicate 8 True, replicate 8 False, replicate 8 True]"

definition page_preset_bytes :: "bits list" where
  "page_preset_bytes = map calc_single_byte [0x7d, 1, 0x7c]"

lemma bits_of_simps [simp]: "bits_of [] = []" "bits_of (c # s) = (c \<noteq> CHR ''0'') # bits_of s"
  by (simp_all add: bits_of_def)

lemma service_frames:
  "reset_packet = replicate 30 True @ False # frame reset_bytes"
  "idle_packet = replicate 30 True @ False # frame idle_bytes"
  "page_preset_packet = replicate 30 True @ False # frame page_preset_bytes"
  by (simp_all add: reset_packet_def idle_packet_def page_preset_packet_def reset_bytes_def idle_bytes_def
      page_preset_bytes_def byte_bits eval_nat_numeral)

lemma translate_service:
  assumes "bytes \<noteq> []" and "length bytes \<le> 3" and "\<forall>b\<in>set bytes. length b = 8"
  shows "\<exists>out. translateBitstream2Packetstream_v3 (replicate 30 True @ False # frame (packet_of bytes)) = Some out \<and>
    carries out [packet_of bytes]"
proof -
  have b8: "\<forall>b\<in>set (packet_of bytes). length b = 8" using assms(3,1) by (rule packet_of_8)
  have "length (replicate 30 True @ False # frame (packet_of bytes)) \<le> 72"
    using length_frame [OF b8] assms(2) by (simp add: packet_of_def)
  from translate_one [OF _ refl b8 _ this] show ?thesis by (auto simp: packet_of_def)
qed

lemma service_packets:
  "reset_bytes = packet_of (replicate 2 (replicate 8 False))"
  "idle_bytes = packet_of [replicate 8 True, replicate 8 False]"
  "page_preset_bytes = packet_of (map calc_single_byte [0x7d, 1])"
  by (simp_all add: reset_bytes_def idle_bytes_def page_preset_bytes_def packet_of_def byte_bits
      xor_two_bytes_def eval_nat_numeral)

lemma sm_init_carries:
  "\<exists>rs is ps. sm_init = Some (rs, is, ps) \<and> carries rs [reset_bytes] \<and> carries is [idle_bytes] \<and>
    carries ps [page_preset_bytes]"
proof -
  obtain rs where rs: "translateBitstream2Packetstream_v3 reset_packet = Some rs" "carries rs [reset_bytes]"
    using translate_service [of "replicate 2 (replicate 8 False)"]
    unfolding service_frames service_packets by auto
  obtain "is" where "is": "translateBitstream2Packetstream_v3 idle_packet = Some is" "carries is [idle_bytes]"
    using translate_service [of "[replicate 8 True, replicate 8 False]"]
    unfolding service_frames service_packets by auto
  obtain ps where ps: "translateBitstream2Packetstream_v3 page_preset_packet = Some ps"
      "carries ps [page_preset_bytes]"
    using translate_service [of "map calc_single_byte [0x7d, 1]"]
    unfolding service_frames service_packets by auto
  show ?thesis using rs "is" ps by (simp add: sm_init_def)
qed

lemma carries_repeated: "carries a [p] \<Longrightarrow> 0 < n \<Longrightarrow> carries (repeated n a) (replicate n p)"
proof -
  have "concat (replicate n [p]) = replicate n p" by (induction n) auto
  then show "carries a [p] \<Longrightarrow> 0 < n \<Longrightarrow> carries (repeated n a) (replicate n p)"
    using carries_replicate [of a "[p]" n] by (simp add: repeated_def)
qed

lemma xor_zero: "length b = 8 \<Longrightarrow> xor_two_bytes (replicate 8 False) b = b"
  unfolding xor_two_bytes_def by (rule nth_equalityI) auto

subsection \<open>A decoder in service mode\<close>

text \<open>A decoder obeys a command that arrives at least five times in a row after at least three
  reset packets.\<close>

definition service_command :: "bits list list \<Rightarrow> bits list option" where
  "service_command ps =
     (case rev ps of
        [] \<Rightarrow> None
      | p # _ \<Rightarrow>
          if 5 \<le> length (takeWhile ((=) p) (rev ps)) \<and>
             take 3 (dropWhile ((=) p) (rev ps)) = replicate 3 reset_bytes
          then checked p else None)"

text \<open>It acknowledges the verification of a bit, 011110AA AAAAAAAA 1110DBBB, if the bit has the
  value D.\<close>

definition acknowledges :: "(int \<Rightarrow> int) \<Rightarrow> bits list list \<Rightarrow> bool" where
  "acknowledges mem ps =
     (case service_command ps of
        Some [b1, b2, b3] \<Rightarrow>
          take 6 b1 = [False, True, True, True, True, False] \<and> take 4 b3 = [True, True, True, False] \<and>
          bit (mem (bits_val (drop 6 b1 @ b2))) (nat (bits_val (drop 5 b3))) = b3 ! 4
      | _ \<Rightarrow> False)"

lemma service_command_stream:
  assumes "p \<noteq> reset_bytes" and "5 \<le> n" and "3 \<le> m"
  shows "service_command (xs @ replicate m reset_bytes @ replicate n p) = checked p"
proof -
  have r: "rev (xs @ replicate m reset_bytes @ replicate n p)
      = replicate n p @ replicate m reset_bytes @ rev xs" by simp
  obtain m' where m: "m = Suc m'" using assms(3) by (cases m) auto
  have tw: "takeWhile ((=) p) (replicate n p @ replicate m reset_bytes @ rev xs) = replicate n p"
    using assms(1) by (subst takeWhile_append2) (auto simp: m)
  have dw: "dropWhile ((=) p) (replicate n p @ replicate m reset_bytes @ rev xs)
      = replicate m reset_bytes @ rev xs"
    using assms(1) by (subst dropWhile_append2) (auto simp: m)
  have t3: "take 3 (replicate m reset_bytes @ rev xs) = replicate 3 reset_bytes"
    using assms(3) by simp
  obtain n' where n: "n = Suc n'" using assms(2) by (cases n) auto
  have "(case replicate n p @ replicate m reset_bytes @ rev xs of
      [] \<Rightarrow> None
    | q # _ \<Rightarrow>
        if 5 \<le> length (takeWhile ((=) q) (replicate n p @ replicate m reset_bytes @ rev xs)) \<and>
           take 3 (dropWhile ((=) q) (replicate n p @ replicate m reset_bytes @ rev xs))
             = replicate 3 reset_bytes
        then checked q else None) = checked p"
    using tw dw t3 assms(2) by (simp add: n)
  then show ?thesis unfolding service_command_def r .
qed

lemma bits_val_10:
  "0 \<le> cv \<Longrightarrow> cv < 1024 \<Longrightarrow> bits_val [bit cv 9, bit cv 8, bit cv 7, bit cv 6, bit cv 5, bit cv 4,
     bit cv 3, bit cv 2, bit cv 1, bit cv 0] = cv"
  using bits_val_take [of cv 10] by (simp add: upt_rec numeral_eq_Suc take_bit_eq_mod)

lemma bits_val_3: "0 \<le> n \<Longrightarrow> n < 8 \<Longrightarrow> bits_val [bit n 2, bit n 1, bit n 0] = n"
  using bits_val_take [of n 3] by (simp add: upt_rec numeral_eq_Suc take_bit_eq_mod)

lemma bit_instruction_bits:
  assumes "0 \<le> cv" and "cv < 1024"
  shows "calc_single_byte (0x78 OR drop_bit 8 cv) = [False, True, True, True, True, False, bit cv 9, bit cv 8]"
  using small_bits [of cv 10] assms
  by (simp add: byte_bits bit_simps bit_0 even_or_iff even_drop_bit_iff_not_bit)

lemma bit_data_bits:
  assumes "0 \<le> n" and "n < 8"
  shows "(calc_single_byte (0xf0 OR push_bit 3 1 OR n))[3 := False]
    = [True, True, True, False, True, bit n 2, bit n 1, bit n 0]"
  using small_bits [of n 3] assms
  by (auto simp: byte_bits bit_simps bit_0 even_or_iff)

lemma bit_program_frame:
  "longpreamble @ [False] @ calc_bit_program_stream (replicate 8 False) cv bitnr v verify False
   = replicate 30 True @ False # frame (packet_of
       [calc_single_byte (0x78 OR drop_bit 8 cv), calc_single_byte cv,
        (if verify then (calc_single_byte (0xf0 OR push_bit 3 v OR bitnr))[3 := False]
         else calc_single_byte (0xf0 OR push_bit 3 v OR bitnr))])"
  by (simp add: calc_bit_program_stream_def longpreamble_def packet_of_def Let_def xor_zero
      del: replicate.simps replicate_Suc)

lemma acknowledges_bit:
  assumes cv: "0 \<le> cv" "cv < 1024" and n: "n < 8" and "3 \<le> m" and "5 \<le> k"
  shows "acknowledges mem (xs @ replicate m reset_bytes @ replicate k (packet_of
      [calc_single_byte (0x78 OR drop_bit 8 cv), calc_single_byte cv,
       (calc_single_byte (0xf0 OR push_bit 3 1 OR int n))[3 := False]])) = bit (mem cv) n"
proof -
  have n': "0 \<le> int n" "int n < 8" using n by simp_all
  let ?p = "packet_of [calc_single_byte (0x78 OR drop_bit 8 cv), calc_single_byte cv,
       (calc_single_byte (0xf0 OR push_bit 3 1 OR int n))[3 := False]]"
  have "?p \<noteq> reset_bytes"
    by (simp add: packet_of_def bit_instruction_bits [OF cv] reset_bytes_def eval_nat_numeral)
  from service_command_stream [OF this assms(5,4), of xs]
  have "service_command (xs @ replicate m reset_bytes @ replicate k ?p)
      = Some [calc_single_byte (0x78 OR drop_bit 8 cv), calc_single_byte cv,
       (calc_single_byte (0xf0 OR push_bit 3 1 OR int n))[3 := False]]"
    by (simp add: checked_packet_of)
  then show ?thesis
    unfolding acknowledges_def bit_instruction_bits [OF cv] bit_data_bits [OF n'] byte_bits [of cv]
    using bits_val_10 [OF cv] bits_val_3 [OF n'] by simp
qed

lemma verify_cvbit_ack:
  assumes track: "\<And>d bytes ps. dcc_packets bytes = Some ps \<Longrightarrow> track d bytes = (d, acknowledges mem ps, False)"
    and cv: "1 \<le> cv" "cv \<le> 1024" and n: "n < 8"
  shows "protocol_nmra_sm_direct_cvbit track d cv (int n) 1 True = Some (of_bool (bit (mem (cv - 1)) n), d)"
proof -
  have cv': "0 \<le> cv - 1" "cv - 1 < 1024" using cv by simp_all
  let ?bytes = "[calc_single_byte (0x78 OR drop_bit 8 (cv - 1)), calc_single_byte (cv - 1),
       (calc_single_byte (0xf0 OR push_bit 3 1 OR int n))[3 := False]]"
  obtain rs "is" ps where init: "sm_init = Some (rs, is, ps)" "carries rs [reset_bytes]" "carries is [idle_bytes]"
    using sm_init_carries by blast
  obtain pkt where pkt: "translateBitstream2Packetstream_v3 (longpreamble @ [False] @
        calc_bit_program_stream (replicate 8 False) (cv - 1) (int n) 1 True False) = Some pkt"
      "carries pkt [packet_of ?bytes]"
    using translate_service [of ?bytes] unfolding bit_program_frame by auto
  let ?stream = "repeated 30 is @ repeated 15 rs @ repeated 20 pkt"
  have "carries ?stream (replicate 30 idle_bytes @ replicate 15 reset_bytes @ replicate 20 (packet_of ?bytes))"
    by (intro carries_append carries_repeated init(2,3) pkt(2)) simp_all
  then have "track d ?stream = (d, bit (mem (cv - 1)) n, False)"
    using track [OF carries_packets, of ?stream] acknowledges_bit [OF cv' n, of 15 20 mem] by simp
  then have w: "sm_write track d ?stream = (of_bool (bit (mem (cv - 1)) n), d)"
    by (simp add: sm_write_def handleACK_def)
  have g: "\<not> (cv - 1 < 0 \<or> cv - 1 > 1023 \<or> int n < 0 \<or> int n > 7 \<or> (1::int) < 0 \<or> (1::int) > 1)"
    using cv n by simp
  show ?thesis
    unfolding protocol_nmra_sm_direct_cvbit_def Let_def if_not_P [OF g] init(1) pkt(1)
      bind.bind_lunit prod.case w ..
qed

lemma get_cvbits_value:
  assumes track: "\<And>d bytes ps. dcc_packets bytes = Some ps \<Longrightarrow> track d bytes = (d, acknowledges mem ps, False)"
    and cv: "1 \<le> cv" "cv \<le> 1024" and "n \<le> 8"
  shows "get_cvbits track d cv rc n = Some (rc * 2 ^ n + take_bit n (mem (cv - 1)), d)"
  using assms(4)
proof (induction n arbitrary: rc)
  case (Suc n)
  have "n < 8" using Suc.prems by simp
  note ack = verify_cvbit_ack [where track = track, OF track cv this, of d]
  have "take_bit (Suc n) (mem (cv - 1)) = of_bool (bit (mem (cv - 1)) n) * 2 ^ n + take_bit n (mem (cv - 1))"
    by (simp add: take_bit_Suc_from_most)
  then show ?case using ack Suc by (simp add: algebra_simps)
qed simp

text \<open>C24: Reading a configuration variable bit by bit with direct-mode verify packets returns the
  decoder's value, for every decoder on the programming track that acknowledges exactly the
  verify commands that match its memory.\<close>

theorem get_cvbyte_reads_decoder:
  assumes "\<And>d bytes ps. dcc_packets bytes = Some ps \<Longrightarrow> track d bytes = (d, acknowledges mem ps, False)"
    and "1 \<le> cv" and "cv \<le> 1024" and "0 \<le> mem (cv - 1)" and "mem (cv - 1) < 256"
  shows "protocol_nmra_sm_get_cvbyte track d cv = Some (mem (cv - 1), d)"
  using get_cvbits_value [where track = track, OF assms(1-3), of 8] assms(4,5)
  by (simp add: protocol_nmra_sm_get_cvbyte_def take_bit_eq_mod)

theorem get_cvbyte_reads_decoder_witness:
  "protocol_nmra_sm_get_cvbyte
     (\<lambda>d bytes. (d, (case dcc_packets bytes of Some ps \<Rightarrow> acknowledges (\<lambda>a. a mod 7) ps | None \<Rightarrow> False), False))
     () 6 = Some (5, ())"
  by (subst get_cvbyte_reads_decoder [where mem = "\<lambda>a. a mod 7"]) simp_all

subsection \<open>Programming on the main track\<close>

text \<open>The long form of a configuration variable access on the main track, 111011AA AAAAAAAA
  DDDDDDDD, as the decoder reads it.\<close>

definition pom_command :: "bits list \<Rightarrow> (int \<times> int) option" where
  "pom_command ins =
     (case ins of
        [b2, b3, b4] \<Rightarrow>
          if take 6 b2 = [True, True, True, False, True, True]
          then Some (bits_val (drop 6 b2 @ b3), bits_val b4) else None
      | _ \<Rightarrow> None)"

lemma pom_instruction_bits:
  assumes "0 \<le> cv" and "cv < 1024"
  shows "calc_single_byte (0xec OR drop_bit 8 cv) = [True, True, True, False, True, True, bit cv 9, bit cv 8]"
  using small_bits [of cv 10] assms
  by (simp add: byte_bits bit_simps bit_0 even_or_iff even_drop_bit_iff_not_bit)

lemma pom_stream:
  assumes "mode = 1 \<or> mode = 2"
  shows "addrstream address mode @ calc_byte_program_stream (addr_err address mode) cv v False True
    = stream_of (command_packets address mode
        [[calc_single_byte (0xec OR drop_bit 8 cv), calc_single_byte cv, calc_single_byte v]])"
  using program_frame [OF assms, of address "calc_single_byte (0xec OR drop_bit 8 cv)"
      "calc_single_byte cv" "calc_single_byte v"]
  by (simp add: calc_byte_program_stream_def command_packets_def Let_def)

text \<open>Programming on the main sends one packet to the locomotive's address whose instruction
  writes the value to the variable.\<close>

theorem pom_write_end_to_end:
  assumes "1 \<le> address" and "address \<le> 10239" and "mode = 1 \<and> address \<le> 127 \<or> mode = 2"
    and "1 \<le> cv" and "cv \<le> 1024" and "0 \<le> v" and "v \<le> 255"
  shows "\<exists>out ins. protocol_nmra_sm_write_cvbyte_pom address cv v mode
      = Some ([Queue_add (if mode = 2 then address + ADDR14BIT_OFFSET else address) out QNBLOCOPKT], 0) \<and>
    loco_commands out = Some [((mode = 2, address), ins)] \<and> pom_command ins = Some (cv - 1, v)"
proof -
  have cv': "0 \<le> cv - 1" "cv - 1 < 1024" using assms(4,5) by simp_all
  have m: "mode = 1 \<or> mode = 2" using assms(3) by auto
  have am: "mode = 1 \<and> address \<le> 127 \<or> mode = 2 \<and> address < 16384" and a0: "0 \<le> address"
    using assms(1-3) by auto
  let ?ins = "[calc_single_byte (0xec OR drop_bit 8 (cv - 1)), calc_single_byte (cv - 1), calc_single_byte v]"
  let ?bytes = "packet_of (addr_bytes address mode @ ?ins)"
  have b8: "\<forall>b\<in>set ?bytes. length b = 8" using addr_bytes_8 by (intro packet_of_8) auto
  have len: "length (replicate 15 True @ False # frame ?bytes) \<le> 72"
    using length_frame [OF b8] by (simp add: packet_of_def)
  have str: "addrstream address mode @ calc_byte_program_stream (addr_err address mode) (cv - 1) v False True
      = replicate 15 True @ False # frame ?bytes"
    unfolding pom_stream [OF m] by (simp add: command_packets_def preamble_def)
  obtain out where out: "translateBitstream2Packetstream_v3 (replicate 15 True @ False # frame ?bytes) = Some out"
      "length out > 0" "carries out [?bytes]"
    using translate_one [OF _ refl b8 _ len] by (auto simp: packet_of_def)
  have g: "\<not> (address < 1 \<or> address > 10239 \<or> cv - 1 < 0 \<or> cv - 1 > 1023 \<or> v < 0 \<or> v > 255 \<or>
      (address > 127 \<and> mode = 1))"
    using assms by auto
  have ca: "calc_address_stream address mode = (addrstream address mode, addr_err address mode)"
    by (simp add: addrstream_def prod_eq_iff)
  have "protocol_nmra_sm_write_cvbyte_pom address cv v mode
      = Some ([Queue_add (if mode = 2 then address + ADDR14BIT_OFFSET else address) out QNBLOCOPKT], 0)"
    unfolding protocol_nmra_sm_write_cvbyte_pom_def Let_def if_not_P [OF g] ca prod.case str pom_send_def
    using out(1,2) by simp
  moreover have "loco_commands out = Some [((mode = 2, address), ?ins)]"
    using loco_commands_packets [of out address mode "[?ins]"] carries_packets [OF out(3)] am a0
    by (simp add: command_packets_def)
  moreover have "pom_command ?ins = Some (cv - 1, v)"
    unfolding pom_command_def pom_instruction_bits [OF cv'] byte_bits [of "cv - 1"]
    using bits_val_10 [OF cv'] assms(6,7) by simp
  ultimately show ?thesis by blast
qed

theorem pom_write_end_to_end_witness:
  "\<exists>out ins. protocol_nmra_sm_write_cvbyte_pom 3000 29 34 2
      = Some ([Queue_add (3000 + ADDR14BIT_OFFSET) out QNBLOCOPKT], 0) \<and>
    loco_commands out = Some [((True, 3000), ins)] \<and> pom_command ins = Some (28, 34)"
  using pom_write_end_to_end [of 3000 2 29 34] by simp

subsection \<open>Paged mode\<close>

text \<open>A decoder in paged mode has a page register, register 6, and reaches configuration
  variable 4 (page - 1) + register through register 1 to 4. A write to a register is
  0111CRRR DDDDDDDD with C set.\<close>

definition register_command :: "bits list \<Rightarrow> (int \<times> bool \<times> int) option" where
  "register_command p =
     (case checked p of
        Some [b1, b2] \<Rightarrow>
          if take 4 b1 = [False, True, True, True]
          then Some (bits_val (drop 5 b1), b1 ! 4, bits_val b2) else None
      | _ \<Rightarrow> None)"

definition reg_bytes :: "int \<Rightarrow> int \<Rightarrow> bool \<Rightarrow> bits list" where
  "reg_bytes reg v verify =
     packet_of [if verify then (calc_single_byte (0x78 OR reg))[4 := False] else calc_single_byte (0x78 OR reg),
       calc_single_byte v]"

lemma register_command_bytes:
  assumes "0 \<le> reg" and "reg < 8" and "0 \<le> v" and "v \<le> 255"
  shows "register_command (reg_bytes reg v verify) = Some (reg, \<not> verify, v)"
proof -
  have "(if verify then (calc_single_byte (0x78 OR reg))[4 := False] else calc_single_byte (0x78 OR reg))
      = [False, True, True, True, \<not> verify, bit reg 2, bit reg 1, bit reg 0]"
    using small_bits [of reg 3] assms(1,2) by (simp add: byte_bits bit_simps bit_0 even_or_iff)
  then show ?thesis
    using bits_val_3 [OF assms(1,2)] assms(3,4)
    by (simp add: register_command_def reg_bytes_def checked_packet_of)
qed

lemma reg_bitstream_frame:
  "calc_reg_bitstream reg v verify = replicate 30 True @ False # frame (reg_bytes reg v verify)"
  by (simp add: calc_reg_bitstream_def reg_bytes_def packet_of_def longpreamble_def Let_def)

lemma reg_carries:
  "\<exists>out. translateBitstream2Packetstream_v3 (calc_reg_bitstream reg v verify) = Some out \<and>
    carries out [reg_bytes reg v verify]"
  unfolding reg_bitstream_frame reg_bytes_def by (rule translate_service) auto

text \<open>Paged mode writing sends idle, reset, page-register, reset, write and reset packets in
  that order, and the page and register they address together give the variable asked for.\<close>

theorem write_page_programs_cv:
  assumes "1 \<le> cv" and "cv \<le> 1020" and "0 \<le> v" and "v \<le> 255"
  shows "\<exists>bytes page reg p q.
    protocol_nmra_sm_write_page track d cv v = Some (sm_write track d bytes) \<and>
    dcc_packets bytes = Some (replicate 50 idle_bytes @ replicate 6 reset_bytes @ replicate 10 p @
      replicate 24 reset_bytes @ replicate 30 q @ replicate 24 reset_bytes) \<and>
    register_command p = Some (5, True, page) \<and> register_command q = Some (reg, True, v) \<and>
    0 \<le> reg \<and> reg < 4 \<and> cv = 4 * (page - 1) + reg + 1"
proof -
  define page where "page = calc_page cv"
  define reg where "reg = (cv - 1) AND 3"
  have reg: "reg = (cv - 1) mod 4" using take_bit_eq_mask [of 2 "cv - 1"]
    by (simp add: reg_def mask_eq_exp_minus_1 take_bit_eq_mod)
  have page: "page = (cv - 1) div 4 + 1" using assms(1) by (simp add: page_def calc_page_def)
  have r: "0 \<le> reg" "reg < 4" and pg: "0 \<le> page" "page \<le> 255" using assms(1,2) by (auto simp: reg page)
  have cv: "cv = 4 * (page - 1) + reg + 1" by (simp add: reg page)
  obtain rs "is" ps where init: "sm_init = Some (rs, is, ps)" "carries rs [reset_bytes]" "carries is [idle_bytes]"
    using sm_init_carries by blast
  obtain pkt where pkt: "translateBitstream2Packetstream_v3 (calc_reg_bitstream reg v False) = Some pkt"
      "carries pkt [reg_bytes reg v False]" using reg_carries by blast
  obtain pp where pp: "translateBitstream2Packetstream_v3 (calc_reg_bitstream 5 page False) = Some pp"
      "carries pp [reg_bytes 5 page False]" using reg_carries by blast
  let ?bytes = "repeated 50 is @ repeated 6 rs @ repeated 10 pp @ repeated 12 rs @ repeated 12 rs @
     repeated 15 pkt @ repeated 15 pkt @ repeated 24 rs"
  have g: "\<not> (reg < 0 \<or> reg > 3 \<or> page < 0 \<or> page > 255 \<or> v < 0 \<or> v > 255)"
    using r pg assms(3,4) by auto
  have w: "protocol_nmra_sm_write_page track d cv v = Some (sm_write track d ?bytes)"
    unfolding protocol_nmra_sm_write_page_def page_def [symmetric] reg_def [symmetric]
      protocol_nmra_sm_page_def if_not_P [OF g] init(1) pkt(1) pp(1) bind.bind_lunit prod.case ..
  have "carries ?bytes (replicate 50 idle_bytes @ replicate 6 reset_bytes @ replicate 10 (reg_bytes 5 page False) @
      replicate 12 reset_bytes @ replicate 12 reset_bytes @ replicate 15 (reg_bytes reg v False) @
      replicate 15 (reg_bytes reg v False) @ replicate 24 reset_bytes)"
    by (intro carries_append carries_repeated init(2,3) pkt(2) pp(2)) simp_all
  then have c: "dcc_packets ?bytes = Some (replicate 50 idle_bytes @ replicate 6 reset_bytes @
      replicate 10 (reg_bytes 5 page False) @ replicate 24 reset_bytes @ replicate 30 (reg_bytes reg v False) @
      replicate 24 reset_bytes)"
    using replicate_add [of 12 12 reset_bytes] replicate_add [of 15 15 "reg_bytes reg v False"]
    by (simp add: carries_packets del: replicate.simps replicate_Suc)
  show ?thesis
    using w c register_command_bytes [of reg v False] register_command_bytes [of 5 page False] r pg assms(3,4) cv
    by (intro exI [of _ ?bytes] exI [of _ page] exI [of _ reg] exI [of _ "reg_bytes 5 page False"]
        exI [of _ "reg_bytes reg v False"]) simp
qed

theorem write_page_programs_cv_witness:
  "\<exists>bytes page reg p q.
    protocol_nmra_sm_write_page (\<lambda>d bytes. (bytes, True, False)) [] 29 34
      = Some (sm_write (\<lambda>d bytes. (bytes, True, False)) [] bytes) \<and>
    dcc_packets bytes = Some (replicate 50 idle_bytes @ replicate 6 reset_bytes @ replicate 10 p @
      replicate 24 reset_bytes @ replicate 30 q @ replicate 24 reset_bytes) \<and>
    register_command p = Some (5, True, page) \<and> register_command q = Some (reg, True, 34) \<and>
    0 \<le> reg \<and> reg < 4 \<and> 29 = 4 * (page - 1) + reg + 1"
  by (rule write_page_programs_cv) simp_all

end
