(* ===== verification/Ddl_Bus.thy ===== *)
theory Ddl_Bus
  imports Ddl_Maerklin Dcc_Program Srcp_GA Srcp_SM Srcp_Bus
begin

text \<open>
  The DDL driver, \<open>ddl.c\<close>, which produces the track signal itself on a serial line. Two
  threads share the bus: \<open>thr_sendrec_DDL\<close> takes the commands from the queues of the server,
  translates them and leaves the packets in the packet queue and the pools;
  \<open>thr_refresh_cycle\<close> sends the packets of the queue and, when there are none, repeats the
  packets of the pools in turn.

  A turn of either loop is a function; \<open>b\<close> is the number of the bus, \<open>w\<close> the server and
  \<open>d\<close> the driver's data. The waits for the UART and between the packets have no part in the
  model. A call of \<open>write\<close> that fails is only logged by the code; \<open>Write\<close> is the call. The
  process ends when the line cannot be initialised, which is the result \<open>None\<close> here.
\<close>

unbundle bit_operations_syntax

subsection \<open>The mode of the line\<close>

definition setSerialMode :: "int \<Rightarrow> ddl \<Rightarrow> int \<times> ddl" where
  "setSerialMode mode d =
     (if mode = SDM_MAERKLIN \<or> mode = SDM_NMRA then
        if serial_device_mode d = mode then (0, d)
        else let (ok, d) = syscall d in
          if \<not> ok then (-1, d)
          else let d = emit [Set_mode mode] d in
            if improve_nmradcc_timing d then
              let (ok, d) = syscall d in
              if \<not> ok then (-1, d)
              else (0, (emit [Set_divisor (if mode = SDM_MAERKLIN then 3 else 7)] d)\<lparr>serial_device_mode := mode\<rparr>)
            else (0, d\<lparr>serial_device_mode := mode\<rparr>)
      else (-1, d))"

text \<open>Output is suspended until the refresh cycle starts.\<close>

definition init_lineDDL :: "ddl \<Rightarrow> ddl option" where
  "init_lineDDL d =
     (let (rc, d) = setSerialMode SDM_DEFAULT (emit [Flush_output, Flow False] d)
      in if rc = 0 then Some d else None)"

subsection \<open>The modem lines\<close>

text \<open>The bits of \<open>TIOCMGET\<close> on Linux.\<close>

definition TIOCM_DTR :: int where "TIOCM_DTR = 0x002"
definition TIOCM_RTS :: int where "TIOCM_RTS = 0x004"
definition TIOCM_CTS :: int where "TIOCM_CTS = 0x020"
definition TIOCM_RI :: int where "TIOCM_RI = 0x080"
definition TIOCM_DSR :: int where "TIOCM_DSR = 0x100"

definition SL_RTS :: int where "SL_RTS = 4"
definition SL_CTS :: int where "SL_CTS = 5"
definition SL_DSR :: int where "SL_DSR = 6"
definition SL_DTR :: int where "SL_DTR = 20"
definition SL_RI :: int where "SL_RI = 22"

definition tiocmget :: "ddl \<Rightarrow> int option \<times> ddl" where
  "tiocmget d = (modem_bits d 0, d\<lparr>modem_bits := (\<lambda>i. modem_bits d (Suc i))\<rparr>)"

definition line_bit :: "int \<Rightarrow> int" where
  "line_bit line =
     (if line = SL_DTR then TIOCM_DTR else if line = SL_DSR then TIOCM_DSR
      else if line = SL_RI then TIOCM_RI else if line = SL_RTS then TIOCM_RTS
      else if line = SL_CTS then TIOCM_CTS else 0)"

definition set_SerialLine :: "int \<Rightarrow> bool \<Rightarrow> ddl \<Rightarrow> ddl" where
  "set_SerialLine line on d =
     (case tiocmget d of
        (None, d) \<Rightarrow> d
      | (Some arg, d) \<Rightarrow> emit [Set_lines (if on then arg OR line_bit line else arg AND NOT (line_bit line))] d)"

definition set_lines_on :: "ddl \<Rightarrow> ddl" where
  "set_lines_on d = emit [Flow True] (set_SerialLine SL_DTR True d)"

definition set_lines_off :: "ddl \<Rightarrow> ddl" where
  "set_lines_off d = set_SerialLine SL_DTR False (emit [Flush_output, Flow False] d)"

definition checkRingIndicator :: "ddl \<Rightarrow> int \<times> ddl" where
  "checkRingIndicator d =
     (case tiocmget d of
        (Some arg, d) \<Rightarrow> (if arg AND TIOCM_RI \<noteq> 0 then 1 else 0, d)
      | (None, d) \<Rightarrow> (1, d))"

definition usecs :: "timeval \<Rightarrow> int" where
  "usecs t = tv_sec t * 1000000 + tv_usec t"

text \<open>A short circuit has to last for \<open>SHORTCUTDELAY\<close> microseconds; the clock is read once or
  twice.\<close>

definition checkShortcut :: "world \<Rightarrow> ddl \<Rightarrow> int \<times> world \<times> ddl" where
  "checkShortcut w d =
     (case tiocmget d of
        (Some arg, d) \<Rightarrow>
          if (arg AND TIOCM_DSR \<noteq> 0 \<and> \<not> dsr_inverse d) \<or> (NOT arg AND TIOCM_DSR \<noteq> 0 \<and> dsr_inverse d) then
            let (w, d) = (if short_detected d = 0 then (tick w, d\<lparr>short_detected := usecs (now w)\<rparr>) else (w, d))
            in (if shortcutdelay d \<le> usecs (now w) - short_detected d then 1 else 0, tick w, d)
          else (0, w, d\<lparr>short_detected := 0\<rparr>)
      | (None, d) \<Rightarrow> (1, w, d))"

subsection \<open>Power\<close>

definition power_lost :: "nat \<Rightarrow> string \<Rightarrow> world \<Rightarrow> world option" where
  "power_lost b cause w =
     power_info b (w\<lparr>buses := upd (\<lambda>s. s\<lparr>power_state := 0, power_changed := 1, power_msg := cause\<rparr>) b (buses w)\<rparr>)"

text \<open>The three parts of \<open>power_is_off\<close>.\<close>

definition check_short_power :: "nat \<Rightarrow> world \<Rightarrow> ddl \<Rightarrow> (world \<times> ddl) option" where
  "check_short_power b w d =
     (if checkshort d then
        let (r, w, d) = checkShortcut w d in
        if r = 1 then map_option (\<lambda>w. (w, d)) (power_lost b ''SHORTCUT DETECTED'' w) else Some (w, d)
      else Some (w, d))"

definition check_ri_power :: "nat \<Rightarrow> world \<Rightarrow> ddl \<Rightarrow> (world \<times> ddl) option" where
  "check_ri_power b w d =
     (if ri_check d then
        let (r, d) = checkRingIndicator d in
        if r = 1 then map_option (\<lambda>w. (w, d)) (power_lost b ''RINGINDICATOR DETECTED'' w) else Some (w, d)
      else Some (w, d))"

definition apply_power :: "nat \<Rightarrow> world \<Rightarrow> ddl \<Rightarrow> (world \<times> ddl) option" where
  "apply_power b w d =
     (if power_changed (buses w b) = 1 then
        let d = (if power_state (buses w b) = 0 then set_lines_off d else d);
            d = (if power_state (buses w b) = 1 then set_lines_on d else d)
        in map_option (\<lambda>w. (w, d)) (power_info b (w\<lparr>buses := upd (\<lambda>s. s\<lparr>power_changed := 0\<rparr>) b (buses w)\<rparr>))
      else Some (w, d))"

definition power_is_off :: "nat \<Rightarrow> world \<Rightarrow> ddl \<Rightarrow> (bool \<times> world \<times> ddl) option" where
  "power_is_off b w d = do {
     (w, d) \<leftarrow> check_short_power b w d;
     (w, d) \<leftarrow> check_ri_power b w d;
     (w, d) \<leftarrow> apply_power b w d;
     Some (power_state (buses w b) = 0, w, d) }"

subsection \<open>Sending\<close>

text \<open>A packet is repeated, less often when it is only refreshed.\<close>

definition packet_writes :: "nat list \<Rightarrow> nat list \<Rightarrow> nat \<Rightarrow> pkt_type \<Rightarrow> bool \<Rightarrow> serial list" where
  "packet_writes idle bytes len type refresh =
     (if type = QM1LOCOPKT \<or> type = QM2LOCOPKT
      then replicate (2 * (if refresh then 2 else 4)) (Write (take 18 bytes))
      else if type = QM2FXPKT then replicate (2 * (if refresh then 2 else 3)) (Write (take 18 bytes))
      else if type = QM1FUNCPKT \<or> type = QM1SOLEPKT then replicate (2 * 2) (Write (take 9 bytes))
      else if type = QNBLOCOPKT \<or> type = QNBACCPKT
      then [Write (take len bytes), Write idle, Write (take len bytes)]
      else [])"

definition packet_mode :: "pkt_type \<Rightarrow> int option" where
  "packet_mode type =
     (if type \<in> {QM1LOCOPKT, QM2LOCOPKT, QM2FXPKT, QM1FUNCPKT, QM1SOLEPKT} then Some SDM_MAERKLIN
      else if type = QNBLOCOPKT \<or> type = QNBACCPKT then Some SDM_NMRA else None)"

definition send_packet :: "nat list \<Rightarrow> nat \<Rightarrow> pkt_type \<Rightarrow> bool \<Rightarrow> ddl \<Rightarrow> ddl" where
  "send_packet bytes len type refresh d =
     (case packet_mode type of
        None \<Rightarrow> snd (setSerialMode SDM_DEFAULT d)
      | Some mode \<Rightarrow>
          let (rc, d) = setSerialMode mode d in
          if rc < 0 then d
          else snd (setSerialMode SDM_DEFAULT
                 (emit (packet_writes (nmra_idle_data d) bytes len type refresh) d)))"

text \<open>The pools are repeated in turn: of every Maerklin locomotive the packet of the speed and the
  four of the functions, of every DCC locomotive its two packets.\<close>

definition refresh_maerklin :: "ddl \<Rightarrow> ddl option" where
  "refresh_maerklin d =
     (let adr = mm_known (mm_pool d) (last_refreshed_maerklin_loco d);
          fx = last_refreshed_maerklin_fx d; p = mm_packets (mm_pool d) adr;
          d = emit [Flush_output] d;
          d = (if fx < 0 then send_packet (sd_packet p) 18 QM2LOCOPKT True d
               else send_packet (f_packets p ! nat fx) 18 QM2FXPKT True d)
      in if adr < 0 \<or> adr > MAX_MARKLIN_ADDRESS then None
         else if fx + 1 = 4 then
           let loco = last_refreshed_maerklin_loco d + 1
           in Some (d\<lparr>last_refreshed_maerklin_fx := -1,
                last_refreshed_maerklin_loco := (if mm_nr (mm_pool d) \<le> loco then 0 else loco)\<rparr>)
         else Some (d\<lparr>last_refreshed_maerklin_fx := fx + 1\<rparr>))"

definition refresh_nmra :: "ddl \<Rightarrow> ddl option" where
  "refresh_nmra d = do {
     let adr = nmra_known (nmra_pool d) (last_refreshed_nmra_loco d);
     d \<leftarrow> (if adr \<ge> 0 then
             case nmra_packets (nmra_pool d) adr of
               None \<Rightarrow> None
             | Some p \<Rightarrow>
                 if last_refreshed_nmra_fx d < 0
                 then Some ((send_packet (n_packet p) (length (n_packet p)) QNBLOCOPKT True d)
                        \<lparr>last_refreshed_nmra_fx := 0\<rparr>)
                 else Some ((send_packet (fx_packet p) (length (fx_packet p)) QNBLOCOPKT True d)
                        \<lparr>last_refreshed_nmra_fx := 1\<rparr>)
           else Some d);
     Some (if last_refreshed_nmra_fx d = 1 then
             let loco = last_refreshed_nmra_loco d + 1
             in d\<lparr>last_refreshed_nmra_fx := -1,
                  last_refreshed_nmra_loco := (if nmra_nr (nmra_pool d) \<le> loco then 0 else loco)\<rparr>
           else d) }"

definition refresh_loco :: "ddl \<Rightarrow> ddl option" where
  "refresh_loco d = do {
     d \<leftarrow> (if maerklin_refresh d then refresh_maerklin d else refresh_nmra d);
     Some (if enabled_protocols d = (EP_MAERKLIN OR EP_NMRADCC)
           then d\<lparr>maerklin_refresh := \<not> maerklin_refresh d\<rparr> else d) }"

definition compute_delta :: "timeval \<Rightarrow> timeval \<Rightarrow> int" where
  "compute_delta tv1 tv2 =
     (let delta_sec = tv_sec tv2 - tv_sec tv1 in
      if delta_sec = 0 then tv_usec tv2 - tv_usec tv1
      else if delta_sec = 1 then tv_usec tv2 + (1000000 - tv_usec tv1)
      else 1000000 * (delta_sec - 1) + tv_usec tv2 + (1000000 - tv_usec tv1))"

text \<open>The refresh cycle before its loop: the line is switched on, a text is written and discarded,
  and the serial lines get their levels. The result is the time it starts.\<close>

definition refresh_cycle_start :: "world \<Rightarrow> ddl \<Rightarrow> timeval \<times> world \<times> ddl" where
  "refresh_cycle_start w d =
     (let d = set_SerialLine SL_DTR True (emit [Flow True] d);
          d = emit [Write (map (\<lambda>c. of_char c) ''SRCP-DAEMON''), Flush_output, Flow False] d;
          d = set_SerialLine SL_DTR False (set_SerialLine SL_CTS False (set_SerialLine SL_RTS True d));
          d = set_SerialLine SL_DTR True (emit [Flow True] d)
      in (now w, tick w, d))"

text \<open>One pass of the loop. \<open>current\<close> is the packet that the inner loop is about to send, with
  its type and size; while it waits for power, a pass changes nothing else. In between, the other
  thread may add packets.\<close>

record cycle =
  tv1 :: timeval
  current :: "(pkt_type \<times> nat list \<times> nat) option"

definition fetched :: "pkt_type \<times> (int \<times> nat list \<times> nat) option \<Rightarrow> (pkt_type \<times> nat list \<times> nat) option" where
  "fetched r =
     (case r of
        (type, Some (_, bytes, len)) \<Rightarrow>
          if type = QEMPTY \<or> type = QNOVALIDPKT then None else Some (type, bytes, len)
      | (_, None) \<Rightarrow> None)"

definition refresh_step :: "nat \<Rightarrow> cycle \<Rightarrow> world \<Rightarrow> ddl \<Rightarrow> (cycle \<times> world \<times> ddl) option" where
  "refresh_step b c w d =
     (case current c of
        Some (type, bytes, len) \<Rightarrow> do {
          (off, w, d) \<leftarrow> power_is_off b w d;
          if off then Some (c, w, d)
          else
            let d = send_packet bytes len type False d;
                d = (if enabled_protocols d = (EP_MAERKLIN OR EP_NMRADCC)
                     then emit [Write (nmra_idle_data d)] d else d);
                (r, d) = queue_get d
            in Some (c\<lparr>current := fetched r\<rparr>, w, d) }
      | None \<Rightarrow> do {
          (off, w, d) \<leftarrow> power_is_off b w d;
          if off then Some (c, w, d)
          else do {
            let (r, d) = queue_get (emit [Write (idle_data d)] d);
            if fetched r \<noteq> None then Some (c\<lparr>current := fetched r\<rparr>, w, emit [Flush_output] d)
            else do {
              (off, w, d) \<leftarrow> power_is_off b w d;
              if off then Some (c, w, d)
              else let (tv2, w) = (now w, tick w) in
                if compute_delta (tv1 c) tv2 > 100000
                then do { d \<leftarrow> refresh_loco d; Some (c\<lparr>tv1 := now w\<rparr>, tick w, d) }
                else Some (c, w, d) } } })"

subsection \<open>Protocol checks and initialisation\<close>

definition init_gl_DDL :: "gl_state \<Rightarrow> int \<times> gl_state" where
  "init_gl_DDL g =
     (let chk = (\<lambda>ok. if ok then SRCP_OK else SRCP_WRONGVALUE); v = l_protocolversion g in
      (if l_protocol g = CHR ''M'' then
         if l_n_func g < 0 \<or> l_n_func g > 5 then SRCP_WRONGVALUE
         else if v = 1 then chk (l_id g \<ge> 0 \<and> l_id g < 80 \<and> l_n_fs g = 14 \<and> l_n_func g = 1)
         else if v = 2 then chk (l_id g \<ge> 0 \<and> l_id g \<le> 255 \<and> (l_n_fs g = 14 \<or> l_n_fs g = 28) \<and>
                                  l_n_func g \<ge> 0 \<and> l_n_func g \<le> 5)
         else SRCP_WRONGVALUE
       else if l_protocol g = CHR ''N'' then
         if l_n_func g < 0 \<or> l_n_func g > 32 then SRCP_WRONGVALUE
         else if v = 1 then chk (l_id g \<ge> 0 \<and> l_id g < 128 \<and> (l_n_fs g = 28 \<or> l_n_fs g = 128))
         else if v = 2 then chk (l_id g \<ge> 0 \<and> l_id g < 10240 \<and> (l_n_fs g = 28 \<or> l_n_fs g = 128))
         else SRCP_WRONGVALUE
       else SRCP_UNSUPPORTEDDEVICEPROTOCOL, g))"

definition init_ga_DDL :: "ga_state \<Rightarrow> int \<times> ga_state" where
  "init_ga_DDL g =
     (if a_protocol g = CHR ''M'' \<or> a_protocol g = CHR ''N'' then SRCP_OK
      else SRCP_UNSUPPORTEDDEVICEPROTOCOL, g)"

text \<open>\<open>protocols\<close> is a static array, so a second DDL bus would change the text of the first; here
  it is the text of the bus initialised last.\<close>

definition init_bus_DDL :: "nat \<Rightarrow> world \<Rightarrow> ddl \<Rightarrow> (int \<times> world \<times> ddl) option" where
  "init_bus_DDL b w d = do {
     d \<leftarrow> init_lineDDL d;
     let d = queue_init (d\<lparr>short_detected := 0, queue_initialized := False\<rparr>);
     let d = d\<lparr>idle_data := replicate MAXDATA 0x55, nmra_idle_data := replicate PKTSIZE 0x55,
               last_refreshed_maerklin_loco := 0, last_refreshed_maerklin_fx := -1,
               last_refreshed_nmra_loco := 0, last_refreshed_nmra_fx := -1\<rparr>;
     let m = (enabled_protocols d AND EP_MAERKLIN \<noteq> 0);
     let n = (enabled_protocols d AND EP_NMRADCC \<noteq> 0);
     let d = (if m then (init_MaerklinPacketPool d)\<lparr>maerklin_refresh := True\<rparr>
              else d\<lparr>maerklin_refresh := False, mm_pool := (mm_pool d)\<lparr>mm_nr := 0\<rparr>\<rparr>);
     d \<leftarrow> (if n then init_NMRAPacketPool d else Some d);
     let ps = (if m then ''M'' else []) @ (if n then ''N'' else []);
     Some (0, w\<lparr>buses := upd (\<lambda>s. s\<lparr>protocols := Some ps\<rparr>) b (buses w)\<rparr>, d) }"

subsection \<open>The commands\<close>

definition run_effects :: "(dcc_effect list \<times> int) option \<Rightarrow> ddl \<Rightarrow> (int \<times> ddl) option" where
  "run_effects r d = do { (es, rc) \<leftarrow> r; d \<leftarrow> apply_effects es d; Some (rc, d) }"

text \<open>The bits \<open>funcs & 1\<close>, \<open>(funcs >> 1) & 1\<close> and so on.\<close>

definition func_bit :: "gl_state \<Rightarrow> nat \<Rightarrow> int" where
  "func_bit g i = (if bit (l_funcs g) i then 1 else 0)"

definition ddl_gl_maerklin :: "gl_state \<Rightarrow> nat \<Rightarrow> int \<Rightarrow> int \<Rightarrow> gl_state \<Rightarrow> world \<Rightarrow> ddl \<Rightarrow> ddl option" where
  "ddl_gl_maerklin stale b pv addr g w d =
     (let speed = (if l_speed g = 1 then 2 else l_speed g);
          speed = (if l_direction g = 2 then 0 else speed); f = func_bit g
      in if pv = 1 then map_option snd (comp_maerklin_1 stale b addr (l_direction g) speed (f 0) w d)
         else if pv = 2 then do {
           d \<leftarrow> (if l_n_fs g = 14 then
                   if addr \<le> 80
                   then map_option snd (comp_maerklin_2 addr (l_direction g) speed (f 0) (f 1) (f 2) (f 3) (f 4) d)
                   else map_option snd (comp_maerklin_4 addr (l_direction g) speed (f 0) (f 1) (f 2) (f 3) (f 4) d)
                 else Some d);
           if l_n_fs g = 28 \<and> addr \<le> 80
           then map_option snd (comp_maerklin_5 stale b addr (l_direction g) speed (f 0) (f 1) (f 2) (f 3) (f 4) w d)
           else Some d }
         else Some d)"

text \<open>Direction 2 is the emergency stop.\<close>

definition ddl_gl_nmra :: "int \<Rightarrow> int \<Rightarrow> gl_state \<Rightarrow> ddl \<Rightarrow> ddl option" where
  "ddl_gl_nmra pv addr g d =
     (let speed = (if l_speed g \<noteq> 0 then l_speed g + 1 else l_speed g); funcs = sint (l_funcs g)
      in map_option snd (run_effects
           (if l_direction g \<noteq> 2
            then comp_nmra_multi_func addr (l_direction g) speed funcs (l_n_fs g) (l_n_func g) pv
            else comp_nmra_multi_func addr 0 1 funcs (l_n_fs g) (l_n_func g) pv) d))"

definition ddl_gl_command :: "gl_state \<Rightarrow> nat \<Rightarrow> world \<Rightarrow> ddl \<Rightarrow> (world \<times> ddl) option" where
  "ddl_gl_command stale b w d = do {
     (g, w) \<leftarrow> dequeueNextGL b w;
     let addr = l_id g;
     let pv = (if addr > 127 then 2 else l_protocolversion g);
     d \<leftarrow> (if l_protocol g = CHR ''M'' then ddl_gl_maerklin stale b pv addr g w d
            else if l_protocol g = CHR ''N'' then ddl_gl_nmra pv addr g d
            else Some d);
     (_, w) \<leftarrow> cacheSetGL b addr g w;
     Some (w, d) }"

text \<open>Service mode. \<open>track\<close> and \<open>t\<close> are the programming track, see \<open>Dcc_Program\<close>.\<close>

definition ddl_sm_set :: "'t track \<Rightarrow> sm_t \<Rightarrow> 't \<Rightarrow> ddl \<Rightarrow> (int \<times> 't \<times> ddl) option" where
  "ddl_sm_set track s t d =
     (let a = s_typeaddr s; v = s_value s in
      if s_addr s \<le> 0 \<and> program_track d then
        map_option (\<lambda>(rc, t). (rc, t, d))
          (case s_type s of
             REGISTER \<Rightarrow> protocol_nmra_sm_write_phregister track t a v
           | CV \<Rightarrow> protocol_nmra_sm_write_cvbyte track t a v
           | CV_BIT \<Rightarrow> protocol_nmra_sm_write_cvbit track t a (s_bit s) v
           | PAGE \<Rightarrow> protocol_nmra_sm_write_page track t a v)
      else
        let mode = (if s_addr s > 127 then 2 else 1)
        in map_option (\<lambda>(rc, d). (rc, t, d))
             (case s_type s of
                CV \<Rightarrow> run_effects (protocol_nmra_sm_write_cvbyte_pom (s_addr s) a v mode) d
              | CV_BIT \<Rightarrow> run_effects (protocol_nmra_sm_write_cvbit_pom (s_addr s) a (s_bit s) v mode) d
              | _ \<Rightarrow> Some (-1, d)))"

definition ddl_sm_get :: "'t track \<Rightarrow> sm_t \<Rightarrow> 't \<Rightarrow> (int \<times> 't) option" where
  "ddl_sm_get track s t =
     (let a = s_typeaddr s in
      if s_addr s \<le> 0 then
        (case s_type s of
           REGISTER \<Rightarrow> protocol_nmra_sm_get_phregister track t a
         | CV \<Rightarrow> protocol_nmra_sm_get_cvbyte track t a
         | CV_BIT \<Rightarrow> protocol_nmra_sm_verify_cvbit track t a (s_bit s) 1
         | PAGE \<Rightarrow> protocol_nmra_sm_get_page track t a)
      else Some (-1, t))"

definition ddl_sm_verify :: "'t track \<Rightarrow> sm_t \<Rightarrow> 't \<Rightarrow> (int \<times> 't) option" where
  "ddl_sm_verify track s t =
     (let a = s_typeaddr s; v = s_value s in
      if s_addr s \<le> 0 then
        map_option (\<lambda>(my_rc, t). (if my_rc = 1 then v else -1, t))
          (case s_type s of
             REGISTER \<Rightarrow> protocol_nmra_sm_verify_phregister track t a v
           | CV \<Rightarrow> protocol_nmra_sm_verify_cvbyte track t a v
           | CV_BIT \<Rightarrow> protocol_nmra_sm_verify_cvbit track t a (s_bit s) v
           | PAGE \<Rightarrow> protocol_nmra_sm_verify_page track t a v)
      else Some (-1, t))"

definition ddl_sm_command :: "'t track \<Rightarrow> nat \<Rightarrow> 't \<Rightarrow> world \<Rightarrow> ddl \<Rightarrow> ('t \<times> world \<times> ddl) option" where
  "ddl_sm_command track b t w d = do {
     (s, w) \<leftarrow> dequeueNextSM b w;
     (rc, t, d) \<leftarrow>
       (if take 4 (s_protocol s) = ''NMRA'' then
          (case s_command s of
             SM_SET \<Rightarrow> ddl_sm_set track s t d
           | SM_GET \<Rightarrow> map_option (\<lambda>(rc, t). (rc, t, d)) (ddl_sm_get track s t)
           | SM_VERIFY \<Rightarrow> map_option (\<lambda>(rc, t). (rc, t, d)) (ddl_sm_verify track s t)
           | SM_TERM \<Rightarrow> Some (0, t, d)
           | SM_INIT \<Rightarrow> Some (0, t, d))
        else Some (-1, t, d));
     Some (t, session_endwait b rc w, d) }"

text \<open>Accessories. \<open>gatmp\<close> is the local variable of the thread. A command whose active time is a
  second or more is reset by a thread of its own, which is given the address of \<open>gatmp\<close>:
  \<open>sleepers\<close> are the times those threads sleep for.\<close>

record ddl_thread =
  gatmp :: ga_state
  sleepers :: "int list"

definition ga_output :: "ga_state \<Rightarrow> ddl \<Rightarrow> ddl option" where
  "ga_output g d =
     (if a_protocol g = CHR ''M''
      then map_option snd (comp_maerklin_ms (a_id g) (a_port g) (a_action g) d)
      else if a_protocol g = CHR ''N''
      then map_option snd (run_effects
             (comp_nmra_accessory (a_id g) (a_port g) (a_action g) (nmra_ga_offset d)) d)
      else Some d)"

definition ddl_ga_command :: "nat \<Rightarrow> ddl_thread \<Rightarrow> world \<Rightarrow> ddl \<Rightarrow> (ddl_thread \<times> world \<times> ddl) option" where
  "ddl_ga_command b th w d = do {
     (g, w) \<leftarrow> dequeueNextGA b w;
     d \<leftarrow> ga_output g d;
     (_, w) \<leftarrow> setGA b (a_id g) g w;
     let w = set_watchdog 5 b w;
     let th = th\<lparr>gatmp := g\<rparr>;
     if a_activetime g < 0 then Some (th, w, d)
     else if a_activetime g < 1000 then do {
       let g = g\<lparr>a_action := 0\<rparr>;
       d \<leftarrow> ga_output g d;
       (_, w) \<leftarrow> setGA b (a_id g) g w;
       Some (th\<lparr>gatmp := g\<rparr>, w, d) }
     else Some (th\<lparr>sleepers := sleepers th @ [a_activetime g]\<rparr>, w, d) }"

text \<open>The thread of the reset when its time is over.\<close>

definition thr_delayedGAResetCmd :: "nat \<Rightarrow> ddl_thread \<Rightarrow> world \<Rightarrow> ddl \<Rightarrow> (ddl_thread \<times> world \<times> ddl) option" where
  "thr_delayedGAResetCmd b th w d = do {
     let g = (gatmp th)\<lparr>a_action := 0\<rparr>;
     d \<leftarrow> ga_output g d;
     (_, w) \<leftarrow> setGA b (a_id g) g w;
     Some (th\<lparr>gatmp := g\<rparr>, w, d) }"

definition ddl_turn ::
    "'t track \<Rightarrow> gl_state \<Rightarrow> nat \<Rightarrow> 't \<Rightarrow> ddl_thread \<Rightarrow> world \<Rightarrow> ddl \<Rightarrow>
     ('t \<times> ddl_thread \<times> world \<times> ddl) option" where
  "ddl_turn track stale b t th w d = do {
     (w, d) \<leftarrow> (if queue_GL_isempty b w then Some (w, d) else ddl_gl_command stale b w d);
     (t, w, d) \<leftarrow> (if queue_SM_isempty b w then Some (t, w, d) else ddl_sm_command track b t w d);
     let w = set_watchdog 4 b w;
     (th, w, d) \<leftarrow> (if queue_GA_isempty b w then Some (th, w, d) else ddl_ga_command b th w d);
     Some (t, th, w, d) }"

subsection \<open>What is written to the track\<close>

fun writes :: "serial list \<Rightarrow> nat list list" where
  "writes [] = []"
| "writes (Write bs # es) = bs # writes es"
| "writes (_ # es) = writes es"

lemma writes_append [simp]: "writes (xs @ ys) = writes xs @ writes ys"
  by (induction xs rule: writes.induct) auto

lemma writes_replicate: "writes (replicate n (Write bs)) = replicate n bs"
  by (induction n) auto

text \<open>\<open>extends d d'\<close>: \<open>d'\<close> has written to the track what \<open>d\<close> has, and nothing more, and both
  have the same packets.\<close>

definition silent :: "ddl \<Rightarrow> ddl \<Rightarrow> bool" where
  "silent d d' \<longleftrightarrow> writes (line_out d') = writes (line_out d) \<and> packets_q d' = packets_q d \<and>
     queue_initialized d' = queue_initialized d \<and> nmra_pool d' = nmra_pool d \<and> mm_pool d' = mm_pool d"

lemma silent_refl [simp]: "silent d d" by (simp add: silent_def)

lemma silent_trans: "silent d1 d2 \<Longrightarrow> silent d2 d3 \<Longrightarrow> silent d1 d3" by (simp add: silent_def)

lemma set_SerialLine_silent [simp]: "silent d (set_SerialLine line on d)"
  by (simp add: silent_def set_SerialLine_def tiocmget_def emit_def split: option.split)

lemma set_lines_silent [simp]: "silent d (set_lines_on d)" "silent d (set_lines_off d)"
proof -
  show "silent d (set_lines_on d)"
    using set_SerialLine_silent [of d SL_DTR True] by (simp add: silent_def set_lines_on_def emit_def)
  show "silent d (set_lines_off d)"
    using set_SerialLine_silent [of "emit [Flush_output, Flow False] d" SL_DTR False]
    by (simp add: silent_def set_lines_off_def emit_def)
qed

lemma checkShortcut_silent: "checkShortcut w d = (r, w', d') \<Longrightarrow> silent d d' \<and> buses w' = buses w"
  by (auto simp: checkShortcut_def tiocmget_def silent_def tick_def Let_def split: option.splits if_splits)

lemma checkRingIndicator_silent: "checkRingIndicator d = (r, d') \<Longrightarrow> silent d d'"
  by (auto simp: checkRingIndicator_def tiocmget_def silent_def split: option.splits)

lemma power_lost_off: "power_lost b cause w = Some w' \<Longrightarrow> power_state (buses w' b) = 0"
  by (auto simp: power_lost_def upd_def dest!: power_info_buses)

text \<open>The check for power writes nothing and never switches power on.\<close>

lemma check_short_silent:
  "check_short_power b w d = Some (w', d') \<Longrightarrow>
   silent d d' \<and> (power_state (buses w b) = 0 \<longrightarrow> power_state (buses w' b) = 0)"
  by (auto simp: check_short_power_def dest: checkShortcut_silent power_lost_off split: if_splits prod.splits)

lemma check_ri_silent:
  "check_ri_power b w d = Some (w', d') \<Longrightarrow>
   silent d d' \<and> (power_state (buses w b) = 0 \<longrightarrow> power_state (buses w' b) = 0)"
  by (auto simp: check_ri_power_def dest: checkRingIndicator_silent power_lost_off split: if_splits prod.splits)

lemma apply_power_silent:
  "apply_power b w d = Some (w', d') \<Longrightarrow> silent d d' \<and> power_state (buses w' b) = power_state (buses w b)"
  by (auto simp: apply_power_def upd_def Let_def dest!: power_info_buses split: if_splits)

lemma power_is_off_silent:
  assumes "power_is_off b w d = Some (off, w', d')"
  shows "silent d d'" and "off \<longleftrightarrow> power_state (buses w' b) = 0"
    and "power_state (buses w b) = 0 \<Longrightarrow> off"
proof -
  obtain w1 d1 w2 d2 where s: "check_short_power b w d = Some (w1, d1)"
    "check_ri_power b w1 d1 = Some (w2, d2)" "apply_power b w2 d2 = Some (w', d')"
    and off: "off \<longleftrightarrow> power_state (buses w' b) = 0"
    using assms by (auto simp: power_is_off_def bind_eq_Some_conv)
  note f = check_short_silent [OF s(1)] check_ri_silent [OF s(2)] apply_power_silent [OF s(3)]
  show "silent d d'" using f silent_trans by blast
  show "off \<longleftrightarrow> power_state (buses w' b) = 0" by (rule off)
  show "power_state (buses w b) = 0 \<Longrightarrow> off" using f off by simp
qed

lemma power_quiet:
  "\<not> checkshort d \<Longrightarrow> \<not> ri_check d \<Longrightarrow> power_changed (buses w b) \<noteq> 1 \<Longrightarrow>
   power_is_off b w d = Some (power_state (buses w b) = 0, w, d)"
  by (simp add: power_is_off_def check_short_power_def check_ri_power_def apply_power_def)

lemma sample_started_fields:
  "checkshort sample_started = False" "ri_check sample_started = False" "line_out sample_started = []"
  "enabled_protocols sample_started = 3" "sys_results sample_started = (\<lambda>_. True)"
  by (simp_all add: sample_started_def init_MaerklinPacketPool_def queue_init_def sample_ddl_def Let_def)

text \<open>C29: While the power of the bus is off, a pass of the refresh cycle writes nothing to the
  track, keeps the packet it was about to send and every packet that waits, and leaves the
  power off.\<close>

theorem power_off_silent:
  assumes "power_state (buses w b) = 0" and "refresh_step b c w d = Some (c', w', d')"
  shows "c' = c \<and> writes (line_out d') = writes (line_out d) \<and> pending d' = pending d \<and>
    power_state (buses w' b) = 0"
proof -
  obtain off w1 d1 where p: "power_is_off b w d = Some (off, w1, d1)"
    using assms(2) by (cases "power_is_off b w d") (auto simp: refresh_step_def split: option.splits)
  have o: "off" by (rule power_is_off_silent(3) [OF p assms(1)])
  then have "c' = c" "w' = w1" "d' = d1"
    using assms(2) p by (auto simp: refresh_step_def split: option.splits)
  then show ?thesis
    using power_is_off_silent(1,2) [OF p] o by (simp add: silent_def pending_def)
qed

theorem power_off_silent_witness:
  "\<exists>c' w' d'. refresh_step 1 \<lparr>tv1 = tv_zero, current = Some (QM2LOCOPKT, replicate 18 63, 18)\<rparr>
       (sample_world\<lparr>buses := (\<lambda>_. zero_bus)\<rparr>) sample_started = Some (c', w', d') \<and>
     current c' = Some (QM2LOCOPKT, replicate 18 63, 18) \<and> writes (line_out d') = []"
proof -
  let ?w = "sample_world\<lparr>buses := (\<lambda>_. zero_bus)\<rparr>"
  let ?c = "\<lparr>tv1 = tv_zero, current = Some (QM2LOCOPKT, replicate 18 63, 18)\<rparr>"
  have z: "power_state (buses ?w 1) = 0" "power_changed (buses ?w 1) = 0" by (simp_all add: zero_bus_def)
  have q: "power_is_off 1 ?w sample_started = Some (True, ?w, sample_started)"
    using power_quiet [of sample_started ?w 1] z sample_started_fields(1,2) by simp
  have r: "refresh_step 1 ?c ?w sample_started = Some (?c, ?w, sample_started)"
    unfolding refresh_step_def q by simp
  show ?thesis using power_off_silent [OF z(1) r] r sample_started_fields(3) by auto
qed

subsection \<open>Sending a packet\<close>

text \<open>The configuration that sending leaves alone.\<close>

definition same_config :: "ddl \<Rightarrow> ddl \<Rightarrow> bool" where
  "same_config d d' \<longleftrightarrow> checkshort d' = checkshort d \<and> ri_check d' = ri_check d \<and>
     enabled_protocols d' = enabled_protocols d \<and> nmra_idle_data d' = nmra_idle_data d \<and>
     idle_data d' = idle_data d \<and> nmra_pool d' = nmra_pool d \<and> mm_pool d' = mm_pool d \<and>
     packets_q d' = packets_q d \<and> queue_initialized d' = queue_initialized d \<and>
     last_refreshed_maerklin_loco d' = last_refreshed_maerklin_loco d \<and>
     last_refreshed_maerklin_fx d' = last_refreshed_maerklin_fx d \<and>
     last_refreshed_nmra_loco d' = last_refreshed_nmra_loco d \<and>
     last_refreshed_nmra_fx d' = last_refreshed_nmra_fx d \<and> maerklin_refresh d' = maerklin_refresh d"

text \<open>As long as the line accepts its modes, every packet is written.\<close>

definition line_works :: "ddl \<Rightarrow> bool" where
  "line_works d \<longleftrightarrow> sys_results d = (\<lambda>_. True)"

lemma setSerialMode_works:
  assumes "line_works d" and "mode = SDM_MAERKLIN \<or> mode = SDM_NMRA"
  shows "\<exists>d'. setSerialMode mode d = (0, d') \<and> same_config d d' \<and> line_works d' \<and>
    writes (line_out d') = writes (line_out d)"
  using assms by (cases "improve_nmradcc_timing d")
    (simp_all add: setSerialMode_def syscall_def emit_def Let_def line_works_def same_config_def)

lemma send_packet_works:
  assumes "line_works d" and "type \<noteq> QEMPTY" and "type \<noteq> QNOVALIDPKT"
  shows "same_config d (send_packet bytes len type refresh d)"
    and "line_works (send_packet bytes len type refresh d)"
    and "writes (line_out (send_packet bytes len type refresh d)) =
      writes (line_out d) @ writes (packet_writes (nmra_idle_data d) bytes len type refresh)"
proof -
  obtain mode where m: "packet_mode type = Some mode" "mode = SDM_MAERKLIN \<or> mode = SDM_NMRA"
    using assms(2,3) by (cases type) (auto simp: packet_mode_def)
  obtain d1 where d1: "setSerialMode mode d = (0, d1)" "same_config d d1" "line_works d1"
      "writes (line_out d1) = writes (line_out d)"
    using setSerialMode_works [OF assms(1) m(2)] by blast
  let ?d2 = "emit (packet_writes (nmra_idle_data d1) bytes len type refresh) d1"
  have "line_works ?d2" using d1(3) by (simp add: line_works_def emit_def)
  then obtain d3 where d3: "setSerialMode SDM_DEFAULT ?d2 = (0, d3)" "same_config ?d2 d3" "line_works d3"
      "writes (line_out d3) = writes (line_out ?d2)"
    using setSerialMode_works [of ?d2 SDM_DEFAULT] by (auto simp: SDM_DEFAULT_def SDM_NMRA_def)
  have s: "send_packet bytes len type refresh d = d3"
    using m(1) d1(1) d3(1) by (simp add: send_packet_def)
  have n: "nmra_idle_data d1 = nmra_idle_data d" using d1(2) by (simp add: same_config_def)
  show "same_config d (send_packet bytes len type refresh d)"
    using d1(2) d3(2) unfolding s by (simp add: same_config_def emit_def)
  show "line_works (send_packet bytes len type refresh d)" unfolding s by (rule d3(3))
  show "writes (line_out (send_packet bytes len type refresh d)) =
      writes (line_out d) @ writes (packet_writes (nmra_idle_data d) bytes len type refresh)"
    unfolding s d3(4) n [symmetric] by (simp add: emit_def d1(4))
qed

subsection \<open>The queue is sent in order\<close>

fun refresh_steps :: "nat \<Rightarrow> nat \<Rightarrow> cycle \<Rightarrow> world \<Rightarrow> ddl \<Rightarrow> (cycle \<times> world \<times> ddl) option" where
  "refresh_steps 0 b c w d = Some (c, w, d)"
| "refresh_steps (Suc n) b c w d = do { (c, w, d) \<leftarrow> refresh_step b c w d; refresh_steps n b c w d }"

text \<open>What is written for a packet of the queue: the packet with its repetitions and, when both
  protocols are enabled, the idle packet.\<close>

definition slot_writes :: "ddl \<Rightarrow> tQData \<Rightarrow> nat list list" where
  "slot_writes d e =
     writes (packet_writes (nmra_idle_data d) (packet e) (packet_size e) (packet_type e) False) @
     (if enabled_protocols d = (EP_MAERKLIN OR EP_NMRADCC) then [nmra_idle_data d] else [])"

definition valid_slot :: "tQData \<Rightarrow> bool" where
  "valid_slot e \<longleftrightarrow> packet_type e \<noteq> QEMPTY \<and> packet_type e \<noteq> QNOVALIDPKT"

definition slot_fetched :: "tQData list \<Rightarrow> (pkt_type \<times> nat list \<times> nat) option" where
  "slot_fetched es = (case es of [] \<Rightarrow> None | e # _ \<Rightarrow> Some (packet_type e, packet e, packet_size e))"

lemma queue_get_fetched:
  assumes "queue_ok d" and "\<forall>e\<in>set (pending d). valid_slot e"
  shows "\<exists>r q. queue_get d = (r, d\<lparr>packets_q := q\<rparr>) \<and> fetched r = slot_fetched (pending d) \<and>
    queue_ok (d\<lparr>packets_q := q\<rparr>) \<and> pending (d\<lparr>packets_q := q\<rparr>) = tl (pending d)"
proof (cases "pending d")
  case Nil
  then have g: "queue_get d = ((QEMPTY, None), d\<lparr>packets_q := packets_q d\<rparr>)"
    using queue_get_pending(1) [OF assms(1)] by simp
  show ?thesis
    unfolding g
  proof (intro exI conjI)
    show "((QEMPTY, None), d\<lparr>packets_q := packets_q d\<rparr>) = ((QEMPTY, None), d\<lparr>packets_q := packets_q d\<rparr>)" ..
  qed (use queue_get_pending(2,3) [OF assms(1)] Nil in
      \<open>simp_all add: g fetched_def slot_fetched_def\<close>)
next
  case (Cons e es)
  then have g: "queue_get d = ((packet_type e, Some (q_addr e, packet e, packet_size e)),
      d\<lparr>packets_q := snd (the (take_packet (packets_q d)))\<rparr>)"
    using queue_get_pending(1) [OF assms(1)] by simp
  let ?q = "snd (the (take_packet (packets_q d)))"
  show ?thesis
    unfolding g
  proof (intro exI conjI)
    show "((packet_type e, Some (q_addr e, packet e, packet_size e)), d\<lparr>packets_q := ?q\<rparr>)
      = ((packet_type e, Some (q_addr e, packet e, packet_size e)), d\<lparr>packets_q := ?q\<rparr>)" ..
  qed (use queue_get_pending(2,3) [OF assms(1)] Cons assms(2) in
      \<open>simp_all add: g fetched_def slot_fetched_def valid_slot_def\<close>)
qed

definition power_steady :: "nat \<Rightarrow> world \<Rightarrow> ddl \<Rightarrow> bool" where
  "power_steady b w d \<longleftrightarrow> \<not> checkshort d \<and> \<not> ri_check d \<and> power_changed (buses w b) \<noteq> 1 \<and>
     power_state (buses w b) \<noteq> 0"

lemma refresh_send_step:
  assumes "power_steady b w d" and "line_works d" and "queue_ok d"
    and "valid_slot e" and "\<forall>e\<in>set (pending d). valid_slot e"
    and "current c = Some (packet_type e, packet e, packet_size e)"
  shows "\<exists>c' d'. refresh_step b c w d = Some (c', w, d') \<and> current c' = slot_fetched (pending d) \<and>
    pending d' = tl (pending d) \<and> power_steady b w d' \<and> line_works d' \<and> queue_ok d' \<and>
    writes (line_out d') = writes (line_out d) @ slot_writes d e \<and> slot_writes d' = slot_writes d"
proof -
  let ?both = "enabled_protocols d = (EP_MAERKLIN OR EP_NMRADCC)"
  define d1 where "d1 = send_packet (packet e) (packet_size e) (packet_type e) False d"
  have d1: "same_config d d1" "line_works d1" "writes (line_out d1) = writes (line_out d) @
      writes (packet_writes (nmra_idle_data d) (packet e) (packet_size e) (packet_type e) False)"
    using send_packet_works [OF assms(2)] assms(4) by (simp_all add: d1_def valid_slot_def)
  define d2 where "d2 = (if enabled_protocols d1 = (EP_MAERKLIN OR EP_NMRADCC)
                     then emit [Write (nmra_idle_data d1)] d1 else d1)"
  have d2: "same_config d d2" "line_works d2" "writes (line_out d2) = writes (line_out d) @ slot_writes d e"
    using d1 by (auto simp: d2_def same_config_def line_works_def emit_def slot_writes_def)
  have p: "pending d2 = pending d" "queue_ok d2"
    using d2(1) assms(3) by (simp_all add: same_config_def pending_def queue_ok_def)
  obtain r q where q: "queue_get d2 = (r, d2\<lparr>packets_q := q\<rparr>)" "fetched r = slot_fetched (pending d)"
      "queue_ok (d2\<lparr>packets_q := q\<rparr>)" "pending (d2\<lparr>packets_q := q\<rparr>) = tl (pending d)"
    using queue_get_fetched [OF p(2)] assms(5) unfolding p(1) by blast
  have on: "power_is_off b w d = Some (False, w, d)"
    using power_quiet assms(1) by (simp add: power_steady_def)
  have "refresh_step b c w d = (let (r, d) = queue_get d2 in Some (c\<lparr>current := fetched r\<rparr>, w, d))"
    unfolding refresh_step_def assms(6) on d2_def d1_def
    by (simp only: option.case prod.case bind.bind_lunit Let_def if_False)
  then have "refresh_step b c w d = Some (c\<lparr>current := slot_fetched (pending d)\<rparr>, w, d2\<lparr>packets_q := q\<rparr>)"
    using q(1,2) by simp
  moreover have "slot_writes (d2\<lparr>packets_q := q\<rparr>) = slot_writes d"
    using d2(1) by (simp add: slot_writes_def same_config_def fun_eq_iff)
  moreover have "power_steady b w (d2\<lparr>packets_q := q\<rparr>)"
    using assms(1) d2(1) by (simp add: power_steady_def same_config_def)
  ultimately show ?thesis
    using q(3,4) d2(2,3)
    by (intro exI [of _ "c\<lparr>current := slot_fetched (pending d)\<rparr>"] exI [of _ "d2\<lparr>packets_q := q\<rparr>"])
      (simp add: line_works_def)
qed

lemma refresh_steps_Suc:
  "refresh_step b c w d = Some (c1, w1, d1) \<Longrightarrow> refresh_steps (Suc n) b c w d = refresh_steps n b c1 w1 d1"
  by simp

lemma refresh_sends_rest:
  assumes "power_steady b w d" and "line_works d" and "queue_ok d"
    and "valid_slot e" and "\<forall>e\<in>set (pending d). valid_slot e"
    and "current c = Some (packet_type e, packet e, packet_size e)"
  shows "\<exists>c' d'. refresh_steps (Suc (length (pending d))) b c w d = Some (c', w, d') \<and>
    current c' = None \<and> pending d' = [] \<and>
    writes (line_out d') = writes (line_out d) @ concat (map (slot_writes d) (e # pending d))"
  using assms
proof (induction "pending d" arbitrary: e c d)
  case Nil
  obtain c' d' where "refresh_step b c w d = Some (c', w, d')" "current c' = slot_fetched (pending d)"
      "pending d' = tl (pending d)" "writes (line_out d') = writes (line_out d) @ slot_writes d e"
    using refresh_send_step [OF Nil.prems] by blast
  then show ?case unfolding Nil.hyps [symmetric] by (simp add: slot_fetched_def)
next
  case (Cons e1 es)
  obtain c1 d1 where 1: "refresh_step b c w d = Some (c1, w, d1)" "current c1 = slot_fetched (pending d)"
      "pending d1 = tl (pending d)" "power_steady b w d1" "line_works d1" "queue_ok d1"
      "writes (line_out d1) = writes (line_out d) @ slot_writes d e" "slot_writes d1 = slot_writes d"
    using refresh_send_step [OF Cons.prems] by blast
  have es: "pending d = e1 # es" "pending d1 = es" using Cons.hyps(2) 1(3) by (metis list.sel(3))+
  have cur: "current c1 = Some (packet_type e1, packet e1, packet_size e1)"
    using 1(2) es(1) by (simp add: slot_fetched_def)
  have v: "valid_slot e1" "\<forall>e\<in>set (pending d1). valid_slot e" using Cons.prems(5) es by auto
  obtain c' d' where "refresh_steps (Suc (length (pending d1))) b c1 w d1 = Some (c', w, d')"
    "current c' = None" "pending d' = []"
    "writes (line_out d') = writes (line_out d1) @ concat (map (slot_writes d1) (e1 # pending d1))"
    using Cons.hyps(1) [OF es(2) [symmetric] 1(4-6) v cur] by blast
  then show ?case
    using 1(7,8) es refresh_steps_Suc [OF 1(1), of "Suc (length es)"] by (simp del: refresh_steps.simps(2))
qed



subsection \<open>Every locomotive is refreshed\<close>

definition refresh_ok :: "ddl \<Rightarrow> bool" where
  "refresh_ok d \<longleftrightarrow> nmra_ok d \<and> mm_ok d \<and> line_works d \<and>
     last_refreshed_maerklin_loco d < length (mm_cycle d) \<and>
     -1 \<le> last_refreshed_maerklin_fx d \<and> last_refreshed_maerklin_fx d \<le> 3 \<and>
     last_refreshed_nmra_loco d < length (nmra_list d) \<and>
     (last_refreshed_nmra_fx d = -1 \<or> last_refreshed_nmra_fx d = 0)"

text \<open>The places of the two rounds, and the packets that are due there.\<close>

definition mm_pos :: "ddl \<Rightarrow> nat" where
  "mm_pos d = 5 * last_refreshed_maerklin_loco d + nat (last_refreshed_maerklin_fx d + 1)"

definition nm_pos :: "ddl \<Rightarrow> nat" where
  "nm_pos d = 2 * last_refreshed_nmra_loco d + nat (last_refreshed_nmra_fx d + 1)"

definition mm_due :: "ddl \<Rightarrow> nat \<Rightarrow> nat list" where
  "mm_due d i =
     (let p = mm_packets (mm_pool d) (mm_cycle d ! (i div 5))
      in if i mod 5 = 0 then sd_packet p else f_packets p ! (i mod 5 - 1))"

definition nm_due :: "ddl \<Rightarrow> nat \<Rightarrow> nat list" where
  "nm_due d i =
     (let p = the (nmra_packets (nmra_pool d) (nmra_list d ! (i div 2)))
      in if i mod 2 = 0 then n_packet p else fx_packet p)"

definition same_pools :: "ddl \<Rightarrow> ddl \<Rightarrow> bool" where
  "same_pools d d' \<longleftrightarrow> mm_pool d' = mm_pool d \<and> nmra_pool d' = nmra_pool d \<and>
     enabled_protocols d' = enabled_protocols d"

lemma same_pools_due:
  assumes "same_pools d d'"
  shows "mm_due d' = mm_due d" "nm_due d' = nm_due d" "mm_cycle d' = mm_cycle d" "nmra_list d' = nmra_list d"
    "mm_ok d' = mm_ok d" "nmra_ok d' = nmra_ok d"
  using assms
  by (auto simp: same_pools_def mm_due_def nm_due_def mm_cycle_def nmra_list_def mm_ok_def nmra_ok_def fun_eq_iff)

lemma refresh_maerklin_step:
  assumes "refresh_ok d"
  shows "\<exists>d'. refresh_maerklin d = Some d' \<and> refresh_ok d' \<and> same_pools d d' \<and> nm_pos d' = nm_pos d \<and>
    maerklin_refresh d' = maerklin_refresh d \<and>
    mm_pos d' = (mm_pos d + 1) mod (5 * length (mm_cycle d)) \<and>
    writes (line_out d') = writes (line_out d) @ replicate 4 (mm_due d (mm_pos d))"
proof -
  let ?i = "last_refreshed_maerklin_loco d" and ?fx = "last_refreshed_maerklin_fx d"
  define adr where "adr = mm_known (mm_pool d) ?i"
  define p where "p = mm_packets (mm_pool d) adr"
  have ok: "mm_ok d" "line_works d" "?i < length (mm_cycle d)" "-1 \<le> ?fx" "?fx \<le> 3"
    using assms by (auto simp: refresh_ok_def)
  have at: "mm_cycle d ! ?i = adr" using ok(3) by (simp add: mm_cycle_def adr_def)
  have range: "0 \<le> adr" "adr \<le> MAX_MARKLIN_ADDRESS"
    using ok(1) nth_mem [OF ok(3)] unfolding at by (auto simp: mm_ok_def)
  have shape: "length (sd_packet p) = 18" "length (f_packets p) = 4" "\<forall>f\<in>set (f_packets p). length f = 18"
    using ok(1) by (auto simp: mm_ok_def mm_shape_def p_def)
  define d1 where "d1 = emit [Flush_output] d"
  define d2 where "d2 = (if ?fx < 0 then send_packet (sd_packet p) 18 QM2LOCOPKT True d1
     else send_packet (f_packets p ! nat ?fx) 18 QM2FXPKT True d1)"
  have d1: "line_works d1" "same_config d d1" "writes (line_out d1) = writes (line_out d)"
    using ok(2) by (simp_all add: d1_def emit_def line_works_def same_config_def)
  have due: "mm_due d (mm_pos d) = (if ?fx < 0 then sd_packet p else f_packets p ! nat ?fx)"
  proof -
    have "mm_pos d div 5 = ?i" "mm_pos d mod 5 = nat (?fx + 1)"
      using ok(4,5) by (auto simp: mm_pos_def)
    then show ?thesis using ok(4,5) by (auto simp: mm_due_def at p_def Let_def nat_add_distrib)
  qed
  have len: "length (mm_due d (mm_pos d)) = 18"
    using shape ok(4,5) by (auto simp: due intro!: nth_mem [THEN shape(3) [rule_format]])
  have d2: "same_config d d2" "line_works d2"
    "writes (line_out d2) = writes (line_out d) @ replicate 4 (mm_due d (mm_pos d))"
  proof -
    define ty where "ty = (if ?fx < 0 then QM2LOCOPKT else QM2FXPKT)"
    have ty: "ty \<noteq> QEMPTY" "ty \<noteq> QNOVALIDPKT" by (simp_all add: ty_def)
    have e: "d2 = send_packet (mm_due d (mm_pos d)) 18 ty True d1" by (simp add: d2_def due ty_def)
    note w = send_packet_works [OF d1(1) ty, of "mm_due d (mm_pos d)" 18 True, folded e]
    show "line_works d2" by (rule w(2))
    show "same_config d d2" using w(1) d1(2) by (simp add: same_config_def)
    have "writes (packet_writes idle (mm_due d (mm_pos d)) 18 ty True) = replicate 4 (mm_due d (mm_pos d))" for idle
      using len by (simp add: packet_writes_def ty_def writes_replicate del: replicate.simps replicate_Suc)
    then show "writes (line_out d2) = writes (line_out d) @ replicate 4 (mm_due d (mm_pos d))"
      using w(3) d1(3) by simp
  qed
  have nr: "length (mm_cycle d) = max 1 (mm_nr (mm_pool d))" by (rule mm_cycle_length)
  define d' where "d' = (if ?fx = 3
      then d2\<lparr>last_refreshed_maerklin_fx := -1,
              last_refreshed_maerklin_loco := (if length (mm_cycle d) \<le> ?i + 1 then 0 else ?i + 1)\<rparr>
      else d2\<lparr>last_refreshed_maerklin_fx := ?fx + 1\<rparr>)"
  have "refresh_maerklin d = (if adr < 0 \<or> adr > MAX_MARKLIN_ADDRESS then None
      else if ?fx + 1 = 4 then Some (d2\<lparr>last_refreshed_maerklin_fx := -1,
        last_refreshed_maerklin_loco := (if mm_nr (mm_pool d2) \<le> last_refreshed_maerklin_loco d2 + 1 then 0
          else last_refreshed_maerklin_loco d2 + 1)\<rparr>)
      else Some (d2\<lparr>last_refreshed_maerklin_fx := ?fx + 1\<rparr>))"
    by (simp only: refresh_maerklin_def Let_def adr_def p_def d1_def d2_def)
  moreover have "mm_pool d2 = mm_pool d" "last_refreshed_maerklin_loco d2 = ?i"
    using d2(1) by (simp_all add: same_config_def)
  ultimately have "refresh_maerklin d = Some d'"
    using range nr by (cases "?fx = 3") (simp_all add: d'_def)
  moreover have "same_pools d d'" "nm_pos d' = nm_pos d" "maerklin_refresh d' = maerklin_refresh d"
    using d2(1) by (auto simp: d'_def same_pools_def nm_pos_def same_config_def)
  moreover have "refresh_ok d'"
    using assms d2(1,2) same_pools_due [OF calculation(2)]
    by (auto simp: refresh_ok_def d'_def same_config_def line_works_def)
  moreover have "mm_pos d' = (mm_pos d + 1) mod (5 * length (mm_cycle d))"
    using ok(3-5) d2(1) by (auto simp: mm_pos_def d'_def mod_if nat_add_distrib same_config_def)
  ultimately show ?thesis using d2(3) by (auto simp: d'_def)
qed

lemma refresh_nmra_step:
  assumes "refresh_ok d"
  shows "\<exists>d'. refresh_nmra d = Some d' \<and> refresh_ok d' \<and> same_pools d d' \<and> mm_pos d' = mm_pos d \<and>
    maerklin_refresh d' = maerklin_refresh d \<and>
    nm_pos d' = (nm_pos d + 1) mod (2 * length (nmra_list d)) \<and>
    writes (line_out d') = writes (line_out d) @ [nm_due d (nm_pos d), nmra_idle_data d, nm_due d (nm_pos d)]"
proof -
  let ?i = "last_refreshed_nmra_loco d" and ?fx = "last_refreshed_nmra_fx d"
  define adr where "adr = nmra_known (nmra_pool d) ?i"
  have ok: "nmra_ok d" "line_works d" "?i < length (nmra_list d)" "?fx = -1 \<or> ?fx = 0"
    using assms by (auto simp: refresh_ok_def)
  have at: "nmra_list d ! ?i = adr" using ok(3) by (simp add: nmra_list_def adr_def)
  have mem: "adr \<in> set (nmra_list d)" using nth_mem [OF ok(3)] unfolding at .
  have range: "0 \<le> adr" using ok(1) mem by (auto simp: nmra_ok_def)
  obtain p where p: "nmra_packets (nmra_pool d) adr = Some p" using ok(1) mem by (auto simp: nmra_ok_def)
  define q where "q = (if ?fx < 0 then n_packet p else fx_packet p)"
  have due: "nm_due d (nm_pos d) = q"
    using ok(4) by (auto simp: nm_pos_def nm_due_def at p q_def)
  define d2 where "d2 = send_packet q (length q) QNBLOCOPKT True d"
  have ty: "QNBLOCOPKT \<noteq> QEMPTY" "QNBLOCOPKT \<noteq> QNOVALIDPKT" by simp_all
  note w = send_packet_works [OF ok(2) ty, of q "length q" True, folded d2_def]
  have d2: "same_config d d2" "line_works d2" "writes (line_out d2) = writes (line_out d) @ [q, nmra_idle_data d, q]"
    using w by (simp_all add: packet_writes_def)
  have nr: "length (nmra_list d) = nmra_nr (nmra_pool d)" by (rule nmra_list_length)
  define d' where "d' = (if ?fx = 0
      then d2\<lparr>last_refreshed_nmra_fx := -1,
              last_refreshed_nmra_loco := (if length (nmra_list d) \<le> ?i + 1 then 0 else ?i + 1)\<rparr>
      else d2\<lparr>last_refreshed_nmra_fx := 0\<rparr>)"
  have c: "nmra_pool d2 = nmra_pool d" "last_refreshed_nmra_loco d2 = ?i"
    using d2(1) by (simp_all add: same_config_def)
  have "refresh_nmra d = Some d'"
    using ok(4)
  proof
    assume fx: "?fx = -1"
    show ?thesis
      unfolding refresh_nmra_def Let_def adr_def [symmetric] p
      using range fx by (simp add: d'_def d2_def q_def)
  next
    assume fx: "?fx = 0"
    have "send_packet (fx_packet p) (length (fx_packet p)) QNBLOCOPKT True d = d2"
      using fx by (simp add: d2_def q_def)
    then show ?thesis
      unfolding refresh_nmra_def Let_def adr_def [symmetric] p
      using range fx c nr by (simp add: d'_def)
  qed
  moreover have "same_pools d d'" "mm_pos d' = mm_pos d" "maerklin_refresh d' = maerklin_refresh d"
    using d2(1) by (auto simp: d'_def same_pools_def mm_pos_def same_config_def)
  moreover have "refresh_ok d'"
    using assms d2(1,2) same_pools_due [OF calculation(2)]
    by (auto simp: refresh_ok_def d'_def same_config_def line_works_def)
  moreover have "nm_pos d' = (nm_pos d + 1) mod (2 * length (nmra_list d))"
    using ok(4)
  proof
    assume fx: "?fx = -1"
    then show ?thesis using ok(3) c(2) by (simp add: nm_pos_def d'_def)
  next
    assume fx: "?fx = 0"
    then have a: "nm_pos d + 1 = 2 * (?i + 1)" by (simp add: nm_pos_def)
    have b: "nm_pos d' = (if length (nmra_list d) \<le> ?i + 1 then 0 else 2 * (?i + 1))"
      using fx by (simp add: nm_pos_def d'_def)
    show ?thesis
    proof (cases "?i + 1 = length (nmra_list d)")
      case True
      then show ?thesis unfolding a b by simp
    next
      case False
      then show ?thesis unfolding a b using ok(3) by simp
    qed
  qed
  moreover have "writes (line_out d') = writes (line_out d) @ [nm_due d (nm_pos d), nmra_idle_data d, nm_due d (nm_pos d)]"
    using d2(3) unfolding due by (simp add: d'_def)
  ultimately show ?thesis by blast
qed

fun refreshes :: "nat \<Rightarrow> ddl \<Rightarrow> ddl option" where
  "refreshes 0 d = Some d"
| "refreshes (Suc n) d = do { d \<leftarrow> refresh_loco d; refreshes n d }"

text \<open>With both protocols enabled, two calls refresh one packet of each.\<close>

lemma refresh_pair:
  assumes "refresh_ok d" and "enabled_protocols d = (EP_MAERKLIN OR EP_NMRADCC)"
  shows "\<exists>d'. refreshes 2 d = Some d' \<and> refresh_ok d' \<and> same_pools d d' \<and>
    mm_pos d' = (mm_pos d + 1) mod (5 * length (mm_cycle d)) \<and>
    nm_pos d' = (nm_pos d + 1) mod (2 * length (nmra_list d)) \<and>
    (\<exists>ws. writes (line_out d') = writes (line_out d) @ ws \<and> mm_due d (mm_pos d) \<in> set ws \<and>
       nm_due d (nm_pos d) \<in> set ws)"
proof -
  have flip: "refresh_ok (d\<lparr>maerklin_refresh := x\<rparr>) = refresh_ok d" "same_pools e (d\<lparr>maerklin_refresh := x\<rparr>) = same_pools e d"
    "mm_pos (d\<lparr>maerklin_refresh := x\<rparr>) = mm_pos d" "nm_pos (d\<lparr>maerklin_refresh := x\<rparr>) = nm_pos d" for d e x
    by (simp_all add: refresh_ok_def same_pools_def mm_pos_def nm_pos_def mm_ok_def nmra_ok_def mm_cycle_def
        nmra_list_def line_works_def)
  have trans: "same_pools a c" if "same_pools a b" "same_pools b c" for a b c
    using that by (simp add: same_pools_def)
  have ep: "enabled_protocols e = (EP_MAERKLIN OR EP_NMRADCC)" if "same_pools d e" for e
    using that assms(2) by (simp add: same_pools_def)
  show ?thesis
  proof (cases "maerklin_refresh d")
    case True
    obtain d1 where d1: "refresh_maerklin d = Some d1" "refresh_ok d1" "same_pools d d1" "nm_pos d1 = nm_pos d"
        "maerklin_refresh d1" "mm_pos d1 = (mm_pos d + 1) mod (5 * length (mm_cycle d))"
        "writes (line_out d1) = writes (line_out d) @ replicate 4 (mm_due d (mm_pos d))"
      using refresh_maerklin_step [OF assms(1)] True by auto
    define e where "e = d1\<lparr>maerklin_refresh := False\<rparr>"
    have e: "refresh_ok e" "same_pools d e" "nm_pos e = nm_pos d" "mm_pos e = mm_pos d1"
      "writes (line_out e) = writes (line_out d1)" using d1 by (simp_all add: e_def flip)
    obtain d2 where d2: "refresh_nmra e = Some d2" "refresh_ok d2" "same_pools e d2" "mm_pos d2 = mm_pos e"
        "maerklin_refresh d2 = maerklin_refresh e" "nm_pos d2 = (nm_pos e + 1) mod (2 * length (nmra_list e))"
        "writes (line_out d2) = writes (line_out e) @ [nm_due e (nm_pos e), nmra_idle_data e, nm_due e (nm_pos e)]"
      using refresh_nmra_step [OF e(1)] by blast
    have sp: "same_pools d d2" by (rule trans [OF e(2) d2(3)])
    have "refreshes 2 d = Some (d2\<lparr>maerklin_refresh := True\<rparr>)"
      using True d1(1,5) d2(1,5) ep [OF d1(3)] ep [OF sp]
      by (simp add: numeral_2_eq_2 refresh_loco_def e_def)
    then show ?thesis
      using d1(6,7) d2 e sp same_pools_due [OF e(2)]
      by (intro exI [of _ "d2\<lparr>maerklin_refresh := True\<rparr>"]) (simp add: flip)
  next
    case False
    obtain d1 where d1: "refresh_nmra d = Some d1" "refresh_ok d1" "same_pools d d1" "mm_pos d1 = mm_pos d"
        "\<not> maerklin_refresh d1" "nm_pos d1 = (nm_pos d + 1) mod (2 * length (nmra_list d))"
        "writes (line_out d1) = writes (line_out d) @ [nm_due d (nm_pos d), nmra_idle_data d, nm_due d (nm_pos d)]"
      using refresh_nmra_step [OF assms(1)] False by auto
    define e where "e = d1\<lparr>maerklin_refresh := True\<rparr>"
    have e: "refresh_ok e" "same_pools d e" "mm_pos e = mm_pos d" "nm_pos e = nm_pos d1"
      "writes (line_out e) = writes (line_out d1)" using d1 by (simp_all add: e_def flip)
    obtain d2 where d2: "refresh_maerklin e = Some d2" "refresh_ok d2" "same_pools e d2" "nm_pos d2 = nm_pos e"
        "maerklin_refresh d2 = maerklin_refresh e" "mm_pos d2 = (mm_pos e + 1) mod (5 * length (mm_cycle e))"
        "writes (line_out d2) = writes (line_out e) @ replicate 4 (mm_due e (mm_pos e))"
      using refresh_maerklin_step [OF e(1)] by blast
    have sp: "same_pools d d2" by (rule trans [OF e(2) d2(3)])
    have "refreshes 2 d = Some (d2\<lparr>maerklin_refresh := False\<rparr>)"
      using False d1(1,5) d2(1,5) ep [OF d1(3)] ep [OF sp]
      by (simp add: numeral_2_eq_2 refresh_loco_def e_def)
    then show ?thesis
      using d1(6,7) d2 e sp same_pools_due [OF e(2)]
      by (intro exI [of _ "d2\<lparr>maerklin_refresh := False\<rparr>"]) (simp add: flip)
  qed
qed

lemma refreshes_add: "refreshes (m + n) d = do { d \<leftarrow> refreshes m d; refreshes n d }"
  by (induction m arbitrary: d) (auto simp: Option.bind_assoc intro: bind_option_cong)

lemma refresh_positions:
  assumes "refresh_ok d"
  shows "mm_pos d < 5 * length (mm_cycle d)" and "nm_pos d < 2 * length (nmra_list d)"
  using assms by (auto simp: refresh_ok_def mm_pos_def nm_pos_def)

lemma refresh_rounds:
  assumes "refresh_ok d" and "enabled_protocols d = (EP_MAERKLIN OR EP_NMRADCC)"
  shows "\<exists>d' ws. refreshes (2 * n) d = Some d' \<and> refresh_ok d' \<and> same_pools d d' \<and>
    writes (line_out d') = writes (line_out d) @ ws \<and>
    (\<forall>k<n. mm_due d ((mm_pos d + k) mod (5 * length (mm_cycle d))) \<in> set ws \<and>
           nm_due d ((nm_pos d + k) mod (2 * length (nmra_list d))) \<in> set ws)"
  using assms
proof (induction n arbitrary: d)
  case 0
  then show ?case by (auto simp: same_pools_def)
next
  case (Suc n)
  let ?M = "5 * length (mm_cycle d)" and ?N = "2 * length (nmra_list d)"
  obtain d1 v where d1: "refreshes 2 d = Some d1" "refresh_ok d1" "same_pools d d1"
      "mm_pos d1 = (mm_pos d + 1) mod ?M" "nm_pos d1 = (nm_pos d + 1) mod ?N"
      "writes (line_out d1) = writes (line_out d) @ v" "mm_due d (mm_pos d) \<in> set v" "nm_due d (nm_pos d) \<in> set v"
    using refresh_pair [OF Suc.prems] by blast
  have ep: "enabled_protocols d1 = (EP_MAERKLIN OR EP_NMRADCC)"
    using d1(3) Suc.prems(2) by (simp add: same_pools_def)
  obtain d' ws where d': "refreshes (2 * n) d1 = Some d'" "refresh_ok d'" "same_pools d1 d'"
      "writes (line_out d') = writes (line_out d1) @ ws"
      "\<forall>k<n. mm_due d1 ((mm_pos d1 + k) mod (5 * length (mm_cycle d1))) \<in> set ws \<and>
           nm_due d1 ((nm_pos d1 + k) mod (2 * length (nmra_list d1))) \<in> set ws"
    using Suc.IH [OF d1(2) ep] by blast
  have rest: "mm_due d ((mm_pos d + Suc k) mod ?M) \<in> set ws \<and> nm_due d ((nm_pos d + Suc k) mod ?N) \<in> set ws"
    if "k < n" for k
  proof -
    have m: "((mm_pos d + 1) mod ?M + k) mod ?M = (mm_pos d + Suc k) mod ?M"
      "((nm_pos d + 1) mod ?N + k) mod ?N = (nm_pos d + Suc k) mod ?N"
      by (simp_all add: mod_add_left_eq)
    show ?thesis
      using d'(5) [rule_format, OF that] unfolding same_pools_due(1-4) [OF d1(3)] d1(4,5) m .
  qed
  have all: "mm_due d ((mm_pos d + k) mod ?M) \<in> set (v @ ws) \<and> nm_due d ((nm_pos d + k) mod ?N) \<in> set (v @ ws)"
    if "k < Suc n" for k
  proof (cases k)
    case 0
    then show ?thesis using d1(7,8) refresh_positions [OF Suc.prems(1)] by simp
  next
    case (Suc j)
    then show ?thesis using rest [of j] that by simp
  qed
  have "refreshes (2 * Suc n) d = Some d'"
    using refreshes_add [of 2 "2 * n" d] d1(1) d'(1) by simp
  moreover have "same_pools d d'" using d1(3) d'(3) by (simp add: same_pools_def)
  moreover have "writes (line_out d') = writes (line_out d) @ v @ ws" using d1(6) d'(4) by simp
  ultimately show ?case using d'(2) all by blast
qed

lemma round_visits:
  fixes p t m n :: nat
  assumes "p < m" and "t < m" and "m \<le> n"
  shows "\<exists>k<n. (p + k) mod m = t"
proof (cases "p \<le> t")
  case True
  then show ?thesis using assms by (intro exI [of _ "t - p"]) auto
next
  case False
  with assms(1) have "p + (m + t - p) = t + m" by simp
  then have "(p + (m + t - p)) mod m = t" using assms(2) by simp
  then show ?thesis using False assms by (intro exI [of _ "m + t - p"]) auto
qed

text \<open>C21: With both protocols enabled and n at least five times the number of Maerklin and twice
  the number of DCC locomotives, any 2 n calls of refresh_loco send every packet of every
  locomotive in the pools at least once.\<close>

theorem refresh_visits_all:
  assumes "refresh_ok d" and "enabled_protocols d = (EP_MAERKLIN OR EP_NMRADCC)"
    and "5 * length (mm_cycle d) \<le> n" and "2 * length (nmra_list d) \<le> n"
  shows "\<exists>d' ws. refreshes (2 * n) d = Some d' \<and> refresh_ok d' \<and>
    writes (line_out d') = writes (line_out d) @ ws \<and>
    (\<forall>a\<in>set (mm_cycle d). sd_packet (mm_packets (mm_pool d) a) \<in> set ws \<and>
       set (f_packets (mm_packets (mm_pool d) a)) \<subseteq> set ws) \<and>
    (\<forall>a\<in>set (nmra_list d). \<exists>p. nmra_packets (nmra_pool d) a = Some p \<and>
       n_packet p \<in> set ws \<and> fx_packet p \<in> set ws)"
proof -
  obtain d' ws where d': "refreshes (2 * n) d = Some d'" "refresh_ok d'"
      "writes (line_out d') = writes (line_out d) @ ws"
      "\<forall>k<n. mm_due d ((mm_pos d + k) mod (5 * length (mm_cycle d))) \<in> set ws \<and>
           nm_due d ((nm_pos d + k) mod (2 * length (nmra_list d))) \<in> set ws"
    using refresh_rounds [OF assms(1,2), of n] by blast
  have mm: "mm_due d t \<in> set ws" if "t < 5 * length (mm_cycle d)" for t
    using round_visits [OF refresh_positions(1) [OF assms(1)] that assms(3)] d'(4) by blast
  have nm: "nm_due d t \<in> set ws" if "t < 2 * length (nmra_list d)" for t
    using round_visits [OF refresh_positions(2) [OF assms(1)] that assms(4)] d'(4) by blast
  have shape: "length (f_packets (mm_packets (mm_pool d) a)) = 4" for a
    using assms(1) by (simp add: refresh_ok_def mm_ok_def mm_shape_def)
  have M: "sd_packet (mm_packets (mm_pool d) a) \<in> set ws \<and>
       set (f_packets (mm_packets (mm_pool d) a)) \<subseteq> set ws" if a: "a \<in> set (mm_cycle d)" for a
  proof -
    obtain i where i: "i < length (mm_cycle d)" "mm_cycle d ! i = a" using a by (auto simp: in_set_conv_nth)
    have "mm_due d (5 * i) \<in> set ws" using i(1) by (intro mm) simp
    then have "sd_packet (mm_packets (mm_pool d) a) \<in> set ws" by (simp add: mm_due_def i(2))
    moreover have "f_packets (mm_packets (mm_pool d) a) ! j \<in> set ws" if "j < 4" for j
    proof -
      have "mm_due d (5 * i + (j + 1)) \<in> set ws" using i(1) that by (intro mm) simp
      moreover have "(5 * i + (j + 1)) div 5 = i" "(5 * i + (j + 1)) mod 5 = j + 1" using that by simp_all
      ultimately show ?thesis by (simp add: mm_due_def i(2))
    qed
    ultimately show ?thesis using shape [of a] by (auto simp: in_set_conv_nth)
  qed
  have N: "\<exists>p. nmra_packets (nmra_pool d) a = Some p \<and> n_packet p \<in> set ws \<and> fx_packet p \<in> set ws"
    if a: "a \<in> set (nmra_list d)" for a
  proof -
    obtain i where i: "i < length (nmra_list d)" "nmra_list d ! i = a" using a by (auto simp: in_set_conv_nth)
    obtain p where p: "nmra_packets (nmra_pool d) a = Some p"
      using assms(1) a by (auto simp: refresh_ok_def nmra_ok_def)
    have "nm_due d (2 * i) \<in> set ws" "nm_due d (2 * i + 1) \<in> set ws" using i(1) by (intro nm; simp)+
    then show ?thesis using p by (simp add: nm_due_def i(2))
  qed
  show ?thesis using d'(1-3) M N by blast
qed

lemma init_NMRAPacketPool_frame:
  "init_NMRAPacketPool d = Some d' \<Longrightarrow>
   \<exists>np i n. d' = d\<lparr>nmra_pool := np, idle_data := i, nmra_idle_data := n\<rparr>"
  by (auto simp: init_NMRAPacketPool_def update_NMRAPacketPool_def Let_def bind_eq_Some_conv split: if_splits)

theorem refresh_visits_all_witness:
  "\<exists>d d' ws. init_NMRAPacketPool sample_started = Some d \<and> refreshes 10 d = Some d' \<and>
     writes (line_out d') = writes (line_out d) @ ws \<and> mm_idle_packet \<in> set ws"
proof -
  obtain d idle where d: "init_NMRAPacketPool sample_started = Some d" "nmra_ok d" "nmra_locos d = []"
    using init_NMRAPacketPool_ok [of sample_started] by auto
  obtain np i n where f: "d = sample_started\<lparr>nmra_pool := np, idle_data := i, nmra_idle_data := n\<rparr>"
    using init_NMRAPacketPool_frame [OF d(1)] by auto
  have s: "mm_cycle sample_started = [81]" "sd_packet (mm_packets (mm_pool sample_started) 81) = mm_idle_packet"
    "last_refreshed_maerklin_loco sample_started = 0" "last_refreshed_maerklin_fx sample_started = -1"
    "last_refreshed_nmra_loco sample_started = 0" "last_refreshed_nmra_fx sample_started = -1"
    by (simp_all add: sample_started_def init_MaerklinPacketPool_def queue_init_def sample_ddl_def mm_cycle_def
        MAX_MARKLIN_ADDRESS_def Let_def)
  have m: "mm_cycle d = [81]" "mm_pool d = mm_pool sample_started" using s(1) by (simp_all add: f mm_cycle_def)
  have n: "nmra_list d = [128]" using d(2,3) by (auto simp: nmra_ok_def nmra_locos_def split: if_splits)
  have "mm_ok d" using sample_started_ok(1) by (simp add: f mm_ok_def mm_cycle_def)
  moreover have "line_works d" using sample_started_fields(5) by (simp add: f line_works_def)
  moreover have "last_refreshed_maerklin_loco d = 0" "last_refreshed_maerklin_fx d = -1"
    "last_refreshed_nmra_loco d = 0" "last_refreshed_nmra_fx d = -1"
    using s(3-6) by (simp_all add: f)
  ultimately have "refresh_ok d" using d(2) by (simp add: refresh_ok_def m(1) n)
  moreover have "enabled_protocols d = (EP_MAERKLIN OR EP_NMRADCC)"
    using sample_started_fields(4) by (simp add: f EP_MAERKLIN_def EP_NMRADCC_def)
  ultimately show ?thesis
    using refresh_visits_all [of d 5] d(1) s(2) m n by auto
qed

subsection \<open>Commands on the track\<close>

text \<open>An emergency stop, direction 2, of a locomotive of Maerklin protocol 1 is not sent: the
  packets of the bus are as before.\<close>

theorem maerklin_1_stop_lost:
  assumes "dequeueNextGL b w = Some (g, w1)" and "l_protocol g = CHR ''M''" and "l_protocolversion g = 1"
    and "l_id g \<le> 127" and "l_direction g = 2" and "ddl_gl_command stale b w d = Some (w2, d2)"
  shows "d2 = d"
  using assms
  by (auto simp: ddl_gl_command_def ddl_gl_maerklin_def comp_maerklin_1_def bind_eq_Some_conv Let_def
      split: if_splits)


definition one_loco :: "gl_state \<Rightarrow> world" where
  "one_loco g = sample_world\<lparr>gl_queue := (\<lambda>_. \<lparr>slots = [g, zero_gl], wr = 1, rd = 0\<rparr>)\<rparr>"

definition none_queued :: "gl_state \<Rightarrow> world" where
  "none_queued g = (one_loco g)\<lparr>gl_queue := upd (\<lambda>q. q\<lparr>rd := 1\<rparr>) 1 (gl_queue (one_loco g))\<rparr>"

lemma one_loco_taken: "dequeueNextGL 1 (one_loco g) = Some (g, none_queued g)"
  by (simp add: dequeueNextGL_def one_loco_def none_queued_def ring_get_def ring_next_def upd_def)

lemma one_loco_unknown: "3 < addr \<Longrightarrow> cacheSetGL 1 addr l (none_queued g) = Some (SRCP_WRONGVALUE, none_queued g)"
  by (simp add: cacheSetGL_def isValidGL_def none_queued_def one_loco_def sample_world_def)

definition sample_stop :: gl_state where
  "sample_stop = zero_gl\<lparr>l_protocol := CHR ''M'', l_protocolversion := 1, l_id := 24, l_direction := 2,
     l_n_fs := 14, l_n_func := 1\<rparr>"

theorem maerklin_1_stop_lost_witness:
  "\<exists>w2 d2. ddl_gl_command zero_gl 1 (one_loco sample_stop) sample_started = Some (w2, d2) \<and> d2 = sample_started"
proof -
  have "\<exists>w2 d2. ddl_gl_command zero_gl 1 (one_loco sample_stop) sample_started = Some (w2, d2)"
    unfolding ddl_gl_command_def one_loco_taken
    by (simp del: One_nat_def add: one_loco_unknown sample_stop_def ddl_gl_maerklin_def comp_maerklin_1_def Let_def)
  then obtain w2 d2 where "ddl_gl_command zero_gl 1 (one_loco sample_stop) sample_started = Some (w2, d2)" by blast
  moreover from this have "d2 = sample_started"
    by (rule maerklin_1_stop_lost [OF one_loco_taken, rotated -1]) (simp_all add: sample_stop_def)
  ultimately show ?thesis by blast
qed

definition sample_dcc :: gl_state where
  "sample_dcc = zero_gl\<lparr>l_protocol := CHR ''N'', l_protocolversion := 1, l_id := 57, l_direction := 1, l_speed := 20,
     l_n_fs := 28, l_n_func := 5, l_funcs := 9\<rparr>"


lemma ddl_ga_command_sends:
  assumes "dequeueNextGA b w = Some (g, w1)" and "a_activetime g < 0 \<or> 1000 \<le> a_activetime g"
    and "ddl_ga_command b th w d = Some (th1, w2, d1)"
  shows "ga_output g d = Some d1" and "gatmp th1 = g"
    and "sleepers th1 = (if a_activetime g < 0 then sleepers th else sleepers th @ [a_activetime g])"
proof -
  obtain d' where d': "ga_output g d = Some d'"
    using assms(1,3) by (cases "ga_output g d") (simp_all add: ddl_ga_command_def)
  obtain u where u: "setGA b (a_id g) g w1 = Some u"
    using assms(1,3) d' by (cases "setGA b (a_id g) g w1") (simp_all add: ddl_ga_command_def)
  have "th1 = (if a_activetime g < 0 then th\<lparr>gatmp := g\<rparr>
      else th\<lparr>gatmp := g, sleepers := sleepers th @ [a_activetime g]\<rparr>) \<and> d1 = d'"
    using assms d' u by (cases u) (auto simp: ddl_ga_command_def Let_def split: if_splits)
  then show "ga_output g d = Some d1" "gatmp th1 = g"
    "sleepers th1 = (if a_activetime g < 0 then sleepers th else sleepers th @ [a_activetime g])"
    using d' by simp_all
qed

definition solenoid_command :: "ga_state \<Rightarrow> bool" where
  "solenoid_command g \<longleftrightarrow> a_protocol g = CHR ''M'' \<and> 1 \<le> a_id g \<and> a_id g \<le> 324 \<and>
     a_port g \<in> {0, 1} \<and> a_action g \<in> {0, 1}"

text \<open>\<open>d'\<close> is \<open>d\<close> with a packet more that is read as this address, port and action.\<close>

definition solenoid_sent :: "int \<Rightarrow> int \<Rightarrow> bool \<Rightarrow> ddl \<Rightarrow> ddl \<Rightarrow> bool" where
  "solenoid_sent address port on d d' \<longleftrightarrow> (\<exists>p. pending d' = one_more d (pkt address p QM1SOLEPKT) \<and>
     solenoid_decode p = Some (address, port, on))"

lemma ga_output_sends:
  assumes "queue_ok d" and "solenoid_command g"
  shows "\<exists>d'. ga_output g d = Some d' \<and> queue_ok d' \<and> solenoid_sent (a_id g) (a_port g) (a_action g = 1) d d'"
  using solenoid_sends [OF assms(1), of "a_id g" "a_port g" "a_action g"] assms(2)
  unfolding solenoid_command_def solenoid_sent_def ga_output_def by auto

text \<open>C28: The reset of a switch with a long active time is sent to the switch of the last command
  that came meanwhile: the first one stays on, and the second is reset though its active time
  asks for no reset.\<close>

theorem delayed_reset_hits_last:
  assumes "queue_ok d"
    and g1: "dequeueNextGA b w = Some (g1, w1)" "solenoid_command g1" "a_action g1 = 1" "1000 \<le> a_activetime g1"
    and c1: "ddl_ga_command b th w d = Some (th1, w2, d1)"
    and g2: "dequeueNextGA b w2 = Some (g2, w3)" "solenoid_command g2" "a_action g2 = 1" "a_activetime g2 < 0"
    and c2: "ddl_ga_command b th1 w2 d1 = Some (th2, w4, d2)"
    and r: "thr_delayedGAResetCmd b th2 w4 d2 = Some (th3, w5, d3)"
  shows "sleepers th2 = sleepers th @ [a_activetime g1] \<and>
    solenoid_sent (a_id g1) (a_port g1) True d d1 \<and> solenoid_sent (a_id g2) (a_port g2) True d1 d2 \<and>
    solenoid_sent (a_id g2) (a_port g2) False d2 d3"
proof -
  note s1 = ddl_ga_command_sends [OF g1(1) disjI2 [OF g1(4)] c1]
  note s2 = ddl_ga_command_sends [OF g2(1) disjI1 [OF g2(4)] c2]
  have p1: "queue_ok d1" "solenoid_sent (a_id g1) (a_port g1) True d d1"
    using ga_output_sends [OF assms(1) g1(2)] s1(1) g1(3) by simp_all
  have p2: "queue_ok d2" "solenoid_sent (a_id g2) (a_port g2) True d1 d2"
    using ga_output_sends [OF p1(1) g2(2)] s2(1) g2(3) by simp_all
  let ?g = "g2\<lparr>a_action := 0\<rparr>"
  have "solenoid_command ?g" using g2(2) by (simp add: solenoid_command_def)
  then obtain d' where d': "ga_output ?g d2 = Some d'" "solenoid_sent (a_id g2) (a_port g2) False d2 d'"
    using ga_output_sends [OF p2(1), of ?g] by auto
  have "d3 = d'"
  proof (cases "setGA b (a_id g2) ?g w4")
    case None
    then show ?thesis using r by (simp add: thr_delayedGAResetCmd_def s2(2) d'(1))
  next
    case (Some u)
    then show ?thesis using r by (cases u) (simp add: thr_delayedGAResetCmd_def s2(2) d'(1))
  qed
  then show ?thesis using d'(2) p1(2) p2(2) s1(3) s2(3) g1(4) g2(4) by simp
qed

definition sample_switch :: "int \<Rightarrow> int \<Rightarrow> ga_state" where
  "sample_switch address time = zero_ga\<lparr>a_protocol := CHR ''M'', a_id := address, a_action := 1, a_activetime := time\<rparr>"

definition two_switches :: world where
  "two_switches = sample_world\<lparr>ga_queue := (\<lambda>_. \<lparr>slots = [sample_switch 100 3000, sample_switch 101 (-1), zero_ga],
     wr = 2, rd = 0\<rparr>)\<rparr>"

theorem delayed_reset_hits_last_witness:
  "\<exists>th1 w2 d1 th2 w4 d2 th3 w5 d3.
     ddl_ga_command 1 \<lparr>gatmp = zero_ga, sleepers = []\<rparr> two_switches sample_started = Some (th1, w2, d1) \<and>
     ddl_ga_command 1 th1 w2 d1 = Some (th2, w4, d2) \<and> thr_delayedGAResetCmd 1 th2 w4 d2 = Some (th3, w5, d3) \<and>
     sleepers th2 = [3000] \<and> solenoid_sent 100 0 True sample_started d1 \<and> solenoid_sent 101 0 False d2 d3"
proof -
  let ?g1 = "sample_switch 100 3000" and ?g2 = "sample_switch 101 (-1)"
  let ?g3 = "?g2\<lparr>a_action := 0\<rparr>" and ?th = "\<lparr>gatmp = zero_ga, sleepers = []\<rparr>"
  let ?w1 = "two_switches\<lparr>ga_queue := upd (\<lambda>q. q\<lparr>rd := 1\<rparr>) 1 (ga_queue two_switches)\<rparr>"
  let ?w2 = "set_watchdog 5 1 ?w1"
  let ?w3 = "?w2\<lparr>ga_queue := upd (\<lambda>q. q\<lparr>rd := Suc (Suc 0)\<rparr>) 1 (ga_queue ?w2)\<rparr>"
  let ?w4 = "set_watchdog 5 1 ?w3"
  have g: "solenoid_command ?g1" "solenoid_command ?g2" "solenoid_command ?g3"
    by (simp_all add: solenoid_command_def sample_switch_def zero_ga_def)
  have act: "a_activetime ?g1 = 3000" "a_activetime ?g2 = -1" "a_id ?g1 = 100" "a_id ?g2 = 101" "a_id ?g3 = 101"
    by (simp_all add: sample_switch_def)
  have far: "setGA 1 addr g w = Some (SRCP_NODATA, w)" if "2 < addr" "ga w = ga two_switches" for addr g w
    using that by (simp add: setGA_def get_number_ga_def two_switches_def sample_world_def)
  have s: "setGA 1 (a_id ?g1) ?g1 ?w1 = Some (SRCP_NODATA, ?w1)" "setGA 1 (a_id ?g2) ?g2 ?w3 = Some (SRCP_NODATA, ?w3)"
    "setGA 1 (a_id ?g3) ?g3 ?w4 = Some (SRCP_NODATA, ?w4)"
    by - ((rule far; simp add: act set_watchdog_def; fail)+)
  obtain d1 where d1: "ga_output ?g1 sample_started = Some d1" "queue_ok d1"
    using ga_output_sends [OF sample_started_ok(2) g(1)] by auto
  obtain d2 where d2: "ga_output ?g2 d1 = Some d2" "queue_ok d2" using ga_output_sends [OF d1(2) g(2)] by auto
  obtain d3 where d3: "ga_output ?g3 d2 = Some d3" using ga_output_sends [OF d2(2) g(3)] by auto
  have q1: "dequeueNextGA 1 two_switches = Some (?g1, ?w1)"
    by (simp add: dequeueNextGA_def two_switches_def ring_get_def ring_next_def upd_def)
  have q2: "dequeueNextGA 1 ?w2 = Some (?g2, ?w3)"
    by (simp add: dequeueNextGA_def two_switches_def ring_get_def ring_next_def upd_def set_watchdog_def)
  have c1: "ddl_ga_command 1 ?th two_switches sample_started = Some (\<lparr>gatmp = ?g1, sleepers = [3000]\<rparr>, ?w2, d1)"
    unfolding ddl_ga_command_def q1 by (simp del: One_nat_def add: d1(1) s(1) act(1) Let_def)
  have c2: "ddl_ga_command 1 \<lparr>gatmp = ?g1, sleepers = [3000]\<rparr> ?w2 d1 = Some (\<lparr>gatmp = ?g2, sleepers = [3000]\<rparr>, ?w4, d2)"
    unfolding ddl_ga_command_def q2 by (simp del: One_nat_def add: d2(1) s(2) act(2) Let_def)
  have r: "thr_delayedGAResetCmd 1 \<lparr>gatmp = ?g2, sleepers = [3000]\<rparr> ?w4 d2 =
      Some (\<lparr>gatmp = ?g3, sleepers = [3000]\<rparr>, ?w4, d3)"
    unfolding thr_delayedGAResetCmd_def using s(3) by (simp del: One_nat_def add: d3 Let_def)
  have "sleepers \<lparr>gatmp = ?g2, sleepers = [3000]\<rparr> = sleepers ?th @ [a_activetime ?g1] \<and>
      solenoid_sent (a_id ?g1) (a_port ?g1) True sample_started d1 \<and>
      solenoid_sent (a_id ?g2) (a_port ?g2) True d1 d2 \<and> solenoid_sent (a_id ?g2) (a_port ?g2) False d2 d3"
    by (rule delayed_reset_hits_last [OF sample_started_ok(2) q1 g(1) _ _ c1 q2 g(2) _ _ c2 r])
      (simp_all add: sample_switch_def)
  then show ?thesis using c1 c2 r by (auto simp: sample_switch_def zero_ga_def)
qed

end
