(* ===== verification/Driver_Inv.thy ===== *)
theory Driver_Inv
  imports Srcp_Time Srcp_Bus Srcp_GL Srcp_GA Srcp_FB Srcp_SM
begin

text \<open>
  What the drivers share. \<open>ensures P f r\<close>: if the operation \<open>r\<close> has a result, \<open>P\<close> holds of the
  state in it, which \<open>f\<close> selects; \<open>keeps\<close> is the case that the server state is well formed. The
  rules follow the shape of a definition; the operations of the server core are in
  \<open>keeps_ops\<close>, to which each driver adds its own.
\<close>

definition ensures :: "('s \<Rightarrow> bool) \<Rightarrow> ('a \<Rightarrow> 's) \<Rightarrow> 'a option \<Rightarrow> bool" where
  keeps_def: "ensures P f r \<longleftrightarrow> (\<forall>x. r = Some x \<longrightarrow> P (f x))"

abbreviation keeps :: "('a \<Rightarrow> world) \<Rightarrow> 'a option \<Rightarrow> bool" where
  "keeps \<equiv> ensures world_inv"

named_theorems keeps_ops "operations that keep the server state well formed"

lemma keepsI: "(\<And>x. r = Some x \<Longrightarrow> P (f x)) \<Longrightarrow> ensures P f r"
  by (simp add: keeps_def)

lemma keepsD: "ensures P f r \<Longrightarrow> r = Some x \<Longrightarrow> P (f x)"
  by (simp add: keeps_def)

lemma keeps_Some: "P (f x) \<Longrightarrow> ensures P f (Some x)"
  by (simp add: keeps_def)

lemma keeps_None: "ensures P f None"
  by (simp add: keeps_def)

lemma keeps_bind: "ensures P g m \<Longrightarrow> (\<And>x. P (g x) \<Longrightarrow> ensures P f (k x)) \<Longrightarrow> ensures P f (m \<bind> k)"
  by (auto simp: keeps_def bind_eq_Some_conv)

lemma keeps_bind_snd:
  "ensures P snd m \<Longrightarrow> (\<And>a w. P w \<Longrightarrow> ensures P f (k a w)) \<Longrightarrow> ensures P f (m \<bind> (\<lambda>(a, w). k a w))"
  by (auto simp: keeps_def bind_eq_Some_conv)

lemma keeps_if: "(c \<Longrightarrow> ensures P f a) \<Longrightarrow> (\<not> c \<Longrightarrow> ensures P f b) \<Longrightarrow> ensures P f (if c then a else b)"
  by simp

lemma keeps_prod: "(\<And>a b. x = (a, b) \<Longrightarrow> ensures P f (k a b)) \<Longrightarrow> ensures P f (case x of (a, b) \<Rightarrow> k a b)"
  by (cases x) simp

lemma keeps_option:
  "ensures P f a \<Longrightarrow> (\<And>y. x = Some y \<Longrightarrow> ensures P f (k y)) \<Longrightarrow> ensures P f (case x of None \<Rightarrow> a | Some y \<Rightarrow> k y)"
  by (cases x) simp_all

lemma keeps_let: "ensures P f (k x) \<Longrightarrow> ensures P f (let y = x in k y)"
  by simp

lemma keeps_map: "ensures P (\<lambda>x. f (g x)) m \<Longrightarrow> ensures P f (map_option g m)"
  by (auto simp: keeps_def)

text \<open>A step that does not touch the state.\<close>

lemma keeps_const: "P w \<Longrightarrow> ensures P (\<lambda>_. w) m"
  by (simp add: keeps_def)

text \<open>A loop.\<close>

lemma loopM_keeps:
  assumes "\<And>i s. P (f s) \<Longrightarrow> ensures P f (step i s)" and "P (f s)"
  shows "ensures P f (loopM step xs s)"
  using assms by (auto simp: keeps_def intro: loopM_preserves [where P = "\<lambda>s. P (f s)"])

lemmas keeps_rules = keeps_bind_snd keeps_Some keeps_None keeps_bind keeps_if keeps_prod keeps_option keeps_let keeps_map

lemma keeps_snd: "(\<And>a w'. r = Some (a, w') \<Longrightarrow> world_inv w') \<Longrightarrow> keeps snd r"
  by (auto simp: keeps_def)

lemma info_keeps [keeps_ops]: "world_inv w \<Longrightarrow> keeps (\<lambda>w. w) (enqueueInfoMessage m w)"
  by (simp add: keeps_def info_ok)

lemma power_info_keeps [keeps_ops]: "world_inv w \<Longrightarrow> keeps (\<lambda>w. w) (power_info b w)"
  by (auto simp: keeps_def intro: power_info_inv)

lemma gl_keeps [keeps_ops]:
  "world_inv w \<Longrightarrow> keeps snd (dequeueNextGL b w)" "world_inv w \<Longrightarrow> keeps snd (cacheSetGL b addr g w)"
  "world_inv w \<Longrightarrow> keeps snd (cacheInitGL b addr p v s n w)" "world_inv w \<Longrightarrow> keeps snd (cacheTermGL b addr w)"
  by (auto intro!: keeps_snd intro: dequeueNextGL_inv cacheSetGL_inv cacheInitGL_inv cacheTermGL_inv)

lemma ga_keeps [keeps_ops]:
  "world_inv w \<Longrightarrow> keeps snd (dequeueNextGA b w)" "world_inv w \<Longrightarrow> keeps snd (setGA b addr a w)"
  by (auto intro!: keeps_snd intro: dequeueNextGA_inv setGA_inv)

lemma fb_keeps [keeps_ops]:
  "world_inv w \<Longrightarrow> keeps snd (updateFB b port v w)" "world_inv w \<Longrightarrow> keeps snd (setFBmodul b m v w)"
  by (auto intro!: keeps_snd intro: updateFB_inv setFBmodul_inv)

lemma time_keeps [keeps_ops]:
  "world_inv w \<Longrightarrow> keeps snd (initTIME x y w)" "world_inv w \<Longrightarrow> keeps snd (setTIME d h m s w)"
  by (auto intro!: keeps_snd intro: initTIME_inv setTIME_inv)

lemma power_keeps [keeps_ops]: "world_inv w \<Longrightarrow> keeps snd (setPower b s m w)"
  by (auto intro!: keeps_snd intro: setPower_inv)

lemma sm_keeps [keeps_ops]: "world_inv w \<Longrightarrow> keeps snd (dequeueNextSM b w)"
  by (auto intro!: keeps_snd intro: dequeueNextSM_inv)

lemma setSM_keeps [keeps_ops]: "world_inv w \<Longrightarrow> keeps snd (setSM b ty a ta bt v rc w)"
  by (auto intro!: keeps_snd intro: setSM_inv)

lemma check_reset_keeps [keeps_ops]: "world_inv w \<Longrightarrow> keeps (\<lambda>w. w) (check_reset_fb b w)"
  using check_reset_fb_ok [of w b] by (auto simp: keeps_def)

lemma session_endwait_keeps: "world_inv w \<Longrightarrow> world_inv (session_endwait b v w)"
  by (simp add: session_endwait_def)

lemma set_watchdog_inv [simp]: "world_inv (set_watchdog v b w) = world_inv w"
  by (simp add: set_watchdog_def)

lemma setFB_keeps [keeps_ops]: "world_inv w \<Longrightarrow> keeps snd (setFB b port v w)"
  by (simp add: setFB_def fb_keeps)

text \<open>A loop that may not end: the body says whether to go round again.\<close>

partial_function (option) repeat_while :: "('s \<Rightarrow> (bool \<times> 's) option) \<Rightarrow> 's \<Rightarrow> 's option" where
  "repeat_while body s =
     (case body s of None \<Rightarrow> None | Some (again, s) \<Rightarrow> if again then repeat_while body s else Some s)"

lemma repeat_while_preserves:
  assumes "repeat_while body s = Some s'" and "P s"
    and step: "\<And>s again s'. P s \<Longrightarrow> body s = Some (again, s') \<Longrightarrow> P s'"
  shows "P s'"
proof -
  have "repeat_while f s = Some s' \<Longrightarrow> f = body \<longrightarrow> P s \<longrightarrow> P s'" for f
  proof (erule repeat_while.raw_induct [where P = "\<lambda>f s s'. f = body \<longrightarrow> P s \<longrightarrow> P s'", rotated])
    fix rep f s s'
    assume IH: "\<And>f s s'. rep f s = Some s' \<Longrightarrow> f = body \<longrightarrow> P s \<longrightarrow> P s'"
      and r: "(case f s of None \<Rightarrow> None | Some (again, s) \<Rightarrow> if again then rep f s else Some s) = Some s'"
    obtain again t where t: "f s = Some (again, t)" "if again then rep f t = Some s' else t = s'"
      using r by (auto split: option.splits if_splits)
    show "f = body \<longrightarrow> P s \<longrightarrow> P s'"
      using IH [of f t s'] step [of s again t] t by (cases again) auto
  qed
  then show ?thesis using assms(1,2) by blast
qed

lemma repeat_while_keeps:
  assumes "\<And>s. P (f s) \<Longrightarrow> ensures P (\<lambda>x. f (snd x)) (body s)" and "P (f s)"
  shows "ensures P f (repeat_while body s)"
proof (rule keepsI)
  fix x assume "repeat_while body s = Some x"
  then show "P (f x)"
    using assms(2) by (rule repeat_while_preserves [where P = "\<lambda>s. P (f s)"]) (use keepsD [OF assms(1)] in force)
qed

text \<open>For a table entry inside the table, \<open>cacheSetGL\<close> has a result.\<close>

lemma cacheSetGL_defined:
  assumes "sess_inv w" and "isInitializedGL b addr w" and "nat addr < length (glstate (gl w b))" and "l_n_func l \<le> 32"
  shows "\<exists>rc w'. cacheSetGL b addr l w = Some (rc, w')"
proof -
  define g where "g = (gl_at b addr w)\<lparr>l_direction := l_direction l, l_speed := l_speed l,
    l_funcs := l_funcs l, l_n_fs := l_n_fs l, l_n_func := l_n_func l, l_tv := now w\<rparr>"
  let ?w1 = "set_gl_at b addr g (tick w)"
  have v: "isValidGL b addr w" "l_state (gl_at b addr w) = 1" using assms(2) by (simp_all add: isInitializedGL_def)
  have at: "gl_at b addr ?w1 = g" using assms(3) by simp
  have "isValidGL b addr ?w1" using v(1) by (simp add: isValidGL_def set_gl_at_def upd_def)
  then have "isInitializedGL b addr ?w1" using v(2) by (simp add: isInitializedGL_def at) (simp add: g_def)
  moreover have "sess_inv ?w1" using assms(1) by (simp add: sess_inv_def set_gl_at_def)
  ultimately show ?thesis
    using v assms(4) by (simp add: cacheSetGL_def Let_def g_def [symmetric] cacheInfoGL_def at enqueueInfoMessage_ok) (simp add: g_def)
qed

text \<open>A fact about a byte, checked for each of the 256.\<close>

lemma all_bytesI: "list_all (\<lambda>n. P (word_of_nat n :: 8 word)) [0..<256] \<Longrightarrow> P c"
proof -
  assume "list_all (\<lambda>n. P (word_of_nat n :: 8 word)) [0..<256]"
  moreover have "unat c < 256" using unsigned_less [of c] by simp
  ultimately have "P (word_of_nat (unat c))" unfolding list_all_iff by (metis atLeastLessThan_iff le0 set_upt)
  then show ?thesis by simp
qed

end
