(* ===== verification/Ddl_Inv.thy ===== *)
theory Ddl_Inv
  imports Ddl_Bus Driver_Inv
begin

text \<open>
  The threads of the DDL driver keep the server's data well formed.
\<close>

lemma power_lost_keeps [keeps_ops]: "world_inv w \<Longrightarrow> keeps (\<lambda>w. w) (power_lost b cause w)"
  unfolding power_lost_def by ((rule keeps_ops | rule keeps_rules | clarsimp)+)

lemma checkShortcut_world: "checkShortcut w d = (r, w', d') \<Longrightarrow> world_inv w \<Longrightarrow> world_inv w'"
  by (auto simp: checkShortcut_def Let_def split: prod.splits option.splits if_splits)

lemma check_short_keeps [keeps_ops]: "world_inv w \<Longrightarrow> keeps fst (check_short_power b w d)"
  unfolding check_short_power_def
  by (cases "checkShortcut w d")
    (auto simp: Let_def intro!: keeps_map keeps_Some power_lost_keeps dest: checkShortcut_world)

lemma check_ri_keeps [keeps_ops]: "world_inv w \<Longrightarrow> keeps fst (check_ri_power b w d)"
  unfolding check_ri_power_def by ((rule keeps_ops | rule keeps_rules | clarsimp)+)

lemma apply_power_keeps [keeps_ops]: "world_inv w \<Longrightarrow> keeps fst (apply_power b w d)"
  unfolding apply_power_def by ((rule keeps_ops | rule keeps_rules | clarsimp)+)

lemma power_is_off_keeps [keeps_ops]: "world_inv w \<Longrightarrow> keeps (\<lambda>x. fst (snd x)) (power_is_off b w d)"
  unfolding power_is_off_def
  by ((rule keeps_ops | rule keeps_bind [where g = fst] | rule keeps_Some keeps_prod keeps_let | clarsimp)+)

lemma refresh_step_keeps [keeps_ops]: "world_inv w \<Longrightarrow> keeps (\<lambda>x. fst (snd x)) (refresh_step b c w d)"
  unfolding refresh_step_def
  by ((rule keeps_ops | rule keeps_bind [where g = "\<lambda>x. fst (snd x)"] | rule keeps_if keeps_Some keeps_prod keeps_let keeps_option
      | (rule keeps_bind, rule keeps_const, assumption) | clarsimp)+)

lemma ddl_gl_command_keeps [keeps_ops]: "world_inv w \<Longrightarrow> keeps fst (ddl_gl_command stale b w d)"
  unfolding ddl_gl_command_def
  by ((rule keeps_ops | rule keeps_bind_snd | rule keeps_Some keeps_prod keeps_let
      | (rule keeps_bind, rule keeps_const, assumption) | clarsimp)+)

lemma ddl_sm_command_keeps [keeps_ops]: "world_inv w \<Longrightarrow> keeps (\<lambda>x. fst (snd x)) (ddl_sm_command track b t w d)"
  unfolding ddl_sm_command_def
  by ((rule keeps_ops | rule keeps_bind_snd | rule keeps_Some keeps_prod keeps_let
      | (rule keeps_bind, rule keeps_const, assumption) | clarsimp simp: session_endwait_def)+)

lemma ddl_ga_command_keeps [keeps_ops]: "world_inv w \<Longrightarrow> keeps (\<lambda>x. fst (snd x)) (ddl_ga_command b th w d)"
  unfolding ddl_ga_command_def
  by ((rule keeps_ops | rule keeps_bind_snd | rule keeps_if keeps_Some keeps_prod keeps_let
      | (rule keeps_bind, rule keeps_const, assumption) | clarsimp simp: set_watchdog_def)+)

lemma delayed_reset_keeps [keeps_ops]: "world_inv w \<Longrightarrow> keeps (\<lambda>x. fst (snd x)) (thr_delayedGAResetCmd b th w d)"
  unfolding thr_delayedGAResetCmd_def
  by ((rule keeps_ops | rule keeps_bind_snd | rule keeps_Some keeps_prod keeps_let
      | (rule keeps_bind, rule keeps_const, assumption) | clarsimp)+)

lemma ddl_turn_keeps [keeps_ops]:
  "world_inv w \<Longrightarrow> keeps (\<lambda>x. fst (snd (snd x))) (ddl_turn track stale b t th w d)"
  unfolding ddl_turn_def
proof (rule keeps_bind [where g = fst])
  assume "world_inv w"
  then show "keeps fst (if queue_GL_isempty b w then Some (w, d) else ddl_gl_command stale b w d)"
    by (simp add: keeps_Some ddl_gl_command_keeps)
next
  fix x :: "world \<times> ddl" assume "world_inv (fst x)"
  then have sm: "keeps (\<lambda>x. fst (snd x)) (if queue_SM_isempty b (fst x) then Some (t, fst x, snd x)
      else ddl_sm_command track b t (fst x) (snd x))"
    by (simp add: keeps_Some ddl_sm_command_keeps)
  have ga: "keeps (\<lambda>x. fst (snd x)) (let w = set_watchdog 4 b (fst (snd y)) in if queue_GA_isempty b w then Some (th, w, snd (snd y))
      else ddl_ga_command b th w (snd (snd y)))" if "world_inv (fst (snd y))" for y :: "'a \<times> world \<times> ddl"
    using that by (simp add: Let_def keeps_Some ddl_ga_command_keeps set_watchdog_def)
  show "keeps (\<lambda>x. fst (snd (snd x))) (case x of (w, d) \<Rightarrow>
      (if queue_SM_isempty b w then Some (t, w, d) else ddl_sm_command track b t w d) \<bind>
      (\<lambda>(t, w, d). let w = set_watchdog 4 b w
         in (if queue_GA_isempty b w then Some (th, w, d) else ddl_ga_command b th w d) \<bind>
            (\<lambda>(th, w, d). Some (t, th, w, d))))"
    unfolding case_prod_unfold Let_def
    by (rule keeps_bind [OF sm], rule keeps_bind [OF ga [unfolded Let_def]]) (simp_all add: keeps_Some)
qed

lemma refresh_step_inv [inv_intros]:
  assumes "world_inv w" and "refresh_step b c w d = Some (c', w', d')"
  shows "world_inv w'"
  using keepsD [OF refresh_step_keeps [OF assms(1)] assms(2)] by simp

lemma ddl_turn_inv [inv_intros]:
  assumes "world_inv w" and "ddl_turn track stale b t th w d = Some (t', th', w', d')"
  shows "world_inv w'"
  using keepsD [OF ddl_turn_keeps [OF assms(1)] assms(2)] by simp

lemma delayed_reset_inv [inv_intros]:
  assumes "world_inv w" and "thr_delayedGAResetCmd b th w d = Some (th', w', d')"
  shows "world_inv w'"
  using keepsD [OF delayed_reset_keeps [OF assms(1)] assms(2)] by simp

end
