(* ===== verification/Loopback.thy ===== *)
theory Loopback
  imports Srcp_Command_Inv
begin

text \<open>
  The loopback driver, \<open>loopback.c\<close>: the bus thread that takes commands from the queues and
  stores them in the tables, without any hardware. \<open>loop_cv\<close> is the array \<open>cv\<close> of the
  programming track, which is static and so shared by all loopback buses; \<open>tga\<close> are the
  50 delayed switch-off commands of a bus. \<open>dir0\<close> is the direction the thread reads from
  its uninitialised local when the locomotive is not in the table.
\<close>

definition MAX_CV_NUMBER :: int where "MAX_CV_NUMBER = 255"

subsection \<open>Protocol checks\<close>

definition init_gl_LOOPBACK :: "gl_state \<Rightarrow> int \<times> gl_state" where
  "init_gl_LOOPBACK g =
     (let n = l_n_fs g; p = l_protocol g; v = l_protocolversion g;
          chk = (\<lambda>ok. if ok then SRCP_OK else SRCP_WRONGVALUE)
      in (if p = CHR ''L'' \<or> p = CHR ''S'' then chk (n = 31)
          else if p = CHR ''P'' then SRCP_OK
          else if p = CHR ''M'' then
            (if v = 1 then chk (n = 14)
             else if v = 2 then chk (n = 14 \<or> n = 27 \<or> n = 28)
             else SRCP_WRONGVALUE)
          else if p = CHR ''N'' then
            (if v = 1 \<or> v = 2 then chk (n = 14 \<or> n = 28 \<or> n = 128) else SRCP_WRONGVALUE)
          else SRCP_UNSUPPORTEDDEVICEPROTOCOL, g))"

definition init_ga_LOOPBACK :: "ga_state \<Rightarrow> int \<times> ga_state" where
  "init_ga_LOOPBACK g =
     (if a_protocol g \<in> set ''MNPS'' then SRCP_OK else SRCP_UNSUPPORTEDDEVICEPROTOCOL, g)"

definition init_bus_LOOPBACK :: "nat \<Rightarrow> world \<Rightarrow> int \<times> world" where
  "init_bus_LOOPBACK b w = (0, w\<lparr>buses := upd (\<lambda>d. d\<lparr>protocols := Some ''LSPMN''\<rparr>) b (buses w)\<rparr>)"

definition feed_watchdog :: "nat \<Rightarrow> world \<Rightarrow> world" where
  "feed_watchdog b w = w\<lparr>buses := upd (\<lambda>d. d\<lparr>watchdog := watchdog d + 1\<rparr>) b (buses w)\<rparr>"

subsection \<open>Power\<close>

text \<open>The text goes into an array of 110 bytes.\<close>

definition handle_power_command :: "nat \<Rightarrow> world \<Rightarrow> world option" where
  "handle_power_command b w =
     (let w1 = w\<lparr>buses := upd (\<lambda>d. d\<lparr>power_changed := 0\<rparr>) b (buses w)\<rparr>; msg = snd (infoPower b w1)
      in if 110 \<le> length msg then None
         else map_option (feed_watchdog b) (enqueueInfoMessage msg w1))"

subsection \<open>Service mode\<close>

definition cv_ok :: "int \<Rightarrow> bool" where
  "cv_ok a \<longleftrightarrow> 0 \<le> a \<and> a \<le> MAX_CV_NUMBER"

text \<open>Registers 1 to 4, 7 and 8 are the CVs of that number, register 5 is CV 29; register 6 is
  the local variable \<open>reg6\<close>, which is 1 whenever it is read.\<close>

fun loop_get :: "int list \<Rightarrow> sm_type \<Rightarrow> int \<Rightarrow> int \<Rightarrow> int" where
  "loop_get cv REGISTER a bt =
     (if 0 < a \<and> a < 9 then
        if a < 5 \<or> 6 < a then cv ! nat a else if a = 5 then cv ! 29 else 1
      else -1)"
| "loop_get cv PAGE a bt = (if cv_ok a then cv ! nat a else -1)"
| "loop_get cv CV a bt = (if cv_ok a then cv ! nat a else -1)"
| "loop_get cv CV_BIT a bt =
     (if cv_ok a \<and> 0 \<le> bt \<and> bt < 8 then (if bit (cv ! nat a) (nat bt) then 1 else 0) else -1)"

fun loop_set :: "int list \<Rightarrow> sm_type \<Rightarrow> int \<Rightarrow> int \<Rightarrow> int \<Rightarrow> int list \<times> int" where
  "loop_set cv REGISTER a bt v =
     (if 0 < a \<and> a < 9 then
        (if a < 5 \<or> 6 < a then cv[nat a := v] else if a = 5 then cv[29 := v] else cv, v)
      else (cv, -1))"
| "loop_set cv PAGE a bt v = (if cv_ok a then (cv[nat a := v], v) else (cv, -1))"
| "loop_set cv CV a bt v = (if cv_ok a then (cv[nat a := v], v) else (cv, -1))"
| "loop_set cv CV_BIT a bt v =
     (if cv_ok a \<and> 0 \<le> bt \<and> bt < 8 \<and> 0 \<le> v \<and> v \<le> 1 then
        (cv[nat a := (if v \<noteq> 0 then set_bit (nat bt) (cv ! nat a) else unset_bit (nat bt) (cv ! nat a))], v)
      else (cv, -1))"

fun loop_verify :: "int list \<Rightarrow> sm_type \<Rightarrow> int \<Rightarrow> int \<Rightarrow> int \<Rightarrow> int" where
  "loop_verify cv REGISTER a bt v =
     (if 0 < a \<and> a < 9 then
        if a < 5 \<or> 6 < a then (if v \<noteq> cv ! nat a then -1 else v)
        else if a = 5 then (if cv ! 29 \<noteq> v then -1 else v)
        else (if 1 \<noteq> v then -1 else v)
      else -1)"
| "loop_verify cv PAGE a bt v = (if cv_ok a then (if v \<noteq> cv ! nat a then -1 else v) else -1)"
| "loop_verify cv CV a bt v = (if cv_ok a then (if v \<noteq> cv ! nat a then -1 else v) else -1)"
| "loop_verify cv CV_BIT a bt v =
     (if cv_ok a \<and> 0 \<le> bt \<and> bt < 8 then
        (if v \<noteq> (if bit (cv ! nat a) (nat bt) then 1 else 0) then -1 else v)
      else -1)"

text \<open>\<open>smtmp.value &= 255\<close> comes first, for every command.\<close>

definition handle_sm_command :: "nat \<Rightarrow> world \<Rightarrow> world option" where
  "handle_sm_command b w = do {
     (s, w1) \<leftarrow> dequeueNextSM b w;
     let v = s_value s mod 256;
     (v', w2) \<leftarrow>
       (case s_command s of
          SM_GET \<Rightarrow> Some (loop_get (loop_cv w1) (s_type s) (s_typeaddr s) (s_bit s), w1)
        | SM_SET \<Rightarrow>
            (let (cv', v') = loop_set (loop_cv w1) (s_type s) (s_typeaddr s) (s_bit s) v
             in map_option (\<lambda>(_, w'). (v', w'))
                  (setSM b (s_type s) (s_addr s) (s_typeaddr s) (s_bit s) v' 0 (w1\<lparr>loop_cv := cv'\<rparr>)))
        | SM_VERIFY \<Rightarrow> Some (loop_verify (loop_cv w1) (s_type s) (s_typeaddr s) (s_bit s) v, w1)
        | SM_INIT \<Rightarrow> Some (v, w1)
        | SM_TERM \<Rightarrow> Some (v, w1));
     Some (feed_watchdog b (session_endwait b v' w2)) }"

text \<open>What \<open>infoSM\<close> waits for on a loopback bus: the thread takes one command and reports.\<close>

definition loop_sm_wait :: sm_wait where
  "loop_sm_wait b w = map_option (\<lambda>w'. (Some (cb_data w' b), w')) (handle_sm_command b w)"

subsection \<open>Locomotives and accessories\<close>

definition handle_gl_command :: "int \<Rightarrow> nat \<Rightarrow> world \<Rightarrow> world option" where
  "handle_gl_command dir0 b w = do {
     (g, w1) \<leftarrow> dequeueNextGL b w;
     let akt = (case cacheGetGL b (l_id g) w1 of Some a \<Rightarrow> l_direction a | None \<Rightarrow> dir0);
     let g' = (if l_direction g = 2 then g\<lparr>l_speed := 0, l_direction := (if akt = 0 then 1 else 0)\<rparr> else g);
     (_, w2) \<leftarrow> cacheSetGL b (l_id g) g' w1;
     Some (feed_watchdog b w2) }"

definition handle_ga_command :: "nat \<Rightarrow> world \<Rightarrow> world option" where
  "handle_ga_command b w = do {
     (g0, w1) \<leftarrow> dequeueNextGA b w;
     let t = now w1;
     if a_port g0 < 0 \<or> int MAXGAPORT \<le> a_port g0 then None
     else do {
       let g = g0\<lparr>a_tv := (a_tv g0)(nat (a_port g0) := t)\<rparr>;
       (_, w2) \<leftarrow> setGA b (a_id g) g (tick w1);
       let w3 = (if a_action g \<noteq> 0 \<and> 0 < a_activetime g
                 then w2\<lparr>buses := upd (\<lambda>d. d\<lparr>tga := tga_store (g\<lparr>a_t := tga_due t (a_activetime g)\<rparr>) (tga d)\<rparr>)
                             b (buses w2)\<rparr>
                 else w2);
       Some (feed_watchdog b w3) } }"

subsection \<open>Delayed switching off\<close>

definition tga_step :: "nat \<Rightarrow> timeval \<Rightarrow> nat \<Rightarrow> world \<Rightarrow> world option" where
  "tga_step b akt i w =
     (if i < length (tga (buses w b)) then
        (let g = tga (buses w b) ! i in
         if 0 < a_id g \<and> cmpTime (a_t g) akt then do {
           (_, w1) \<leftarrow> setGA b (a_id g) (g\<lparr>a_action := 0\<rparr>) w;
           Some (w1\<lparr>buses := upd (\<lambda>d. d\<lparr>tga := (tga d)[i := g\<lparr>a_id := 0\<rparr>]\<rparr>) b (buses w1)\<rparr>) }
         else Some w)
      else None)"

definition tga_run :: "nat \<Rightarrow> world \<Rightarrow> world option" where
  "tga_run b w = loopM (tga_step b (now w)) [0..<50] (tick w)"

subsection \<open>The thread\<close>

definition loopback_start :: "nat \<Rightarrow> world \<Rightarrow> world" where
  "loopback_start b w =
     w\<lparr>buses := upd (\<lambda>d. d\<lparr>tga := map (\<lambda>g. g\<lparr>a_id := 0\<rparr>) (tga d)\<rparr>) b (buses w)\<rparr>"

definition loopback_turn :: "int \<Rightarrow> nat \<Rightarrow> world \<Rightarrow> world option" where
  "loopback_turn dir0 b w = do {
     let w1 = w\<lparr>buses := upd (\<lambda>d. d\<lparr>watchdog := 1\<rparr>) b (buses w)\<rparr>;
     w2 \<leftarrow> (if power_changed (buses w1 b) = 1 then handle_power_command b w1 else Some w1);
     w3 \<leftarrow> (if \<not> queue_SM_isempty b w2 then handle_sm_command b w2 else Some w2);
     if power_state (buses w3 b) = 0 then Some w3
     else do {
       w4 \<leftarrow> (if \<not> queue_GL_isempty b w3 then handle_gl_command dir0 b w3 else Some w3);
       w5 \<leftarrow> tga_run b w4;
       w6 \<leftarrow> (if \<not> queue_GA_isempty b w5 then handle_ga_command b w5 else Some w5);
       Some (feed_watchdog b w6) } }"

subsection \<open>The thread keeps the invariant\<close>

lemma feed_watchdog_inv [simp]: "world_inv (feed_watchdog b w) = world_inv w"
  by (simp add: feed_watchdog_def)

lemma session_endwait_inv [simp]: "world_inv (session_endwait b v w) = world_inv w"
  by (simp add: session_endwait_def)

lemma handle_power_command_inv [inv_intros]:
  "world_inv w \<Longrightarrow> handle_power_command b w = Some w' \<Longrightarrow> world_inv w'"
  by (auto simp: handle_power_command_def Let_def info_ok split: if_splits)

lemma handle_sm_command_inv [inv_intros]:
  assumes "world_inv w" and "handle_sm_command b w = Some w'"
  shows "world_inv w'"
proof -
  obtain s w1 where w1: "dequeueNextSM b w = Some (s, w1)"
    using assms(2) by (auto simp: handle_sm_command_def bind_eq_Some_conv)
  have inv: "world_inv w1" by (rule dequeueNextSM_inv [OF assms(1) w1])
  have set: "world_inv w2" if "setSM b ty a ta bt v rc (w1\<lparr>loop_cv := cv\<rparr>) = Some (r, w2)"
    for ty a ta bt v rc cv r w2
    using setSM_inv [OF _ that] inv by simp
  show ?thesis
    using assms(2) inv set
    by (auto simp: handle_sm_command_def w1 bind_eq_Some_conv Let_def split_beta
        split: sm_command.splits)
qed

lemma loop_sm_wait_ok: "sm_wait_ok loop_sm_wait"
  unfolding sm_wait_ok_def loop_sm_wait_def by (auto dest: handle_sm_command_inv)

lemma handle_gl_command_inv [inv_intros]:
  "world_inv w \<Longrightarrow> handle_gl_command d b w = Some w' \<Longrightarrow> world_inv w'"
  by (auto simp: handle_gl_command_def bind_eq_Some_conv Let_def
      dest: cacheSetGL_inv [rotated] dequeueNextGL_inv [rotated])

lemma handle_ga_command_inv [inv_intros]:
  assumes "world_inv w" and "handle_ga_command b w = Some w'"
  shows "world_inv w'"
proof -
  obtain g w1 where w1: "dequeueNextGA b w = Some (g, w1)"
    using assms(2) by (auto simp: handle_ga_command_def bind_eq_Some_conv)
  have inv: "world_inv (tick w1)" using dequeueNextGA_inv [OF assms(1) w1] by simp
  show ?thesis
    using assms(2) setGA_inv [OF inv]
    by (auto simp: handle_ga_command_def w1 bind_eq_Some_conv Let_def split: if_splits)
qed

lemma tga_run_inv [inv_intros]:
  assumes "world_inv w" and "tga_run b w = Some w'"
  shows "world_inv w'"
  using assms(2) unfolding tga_run_def
proof (rule loopM_preserves [where P = world_inv])
  show "world_inv (tick w)" using assms(1) by simp
  fix i s s' assume "world_inv s" "tga_step b (now w) i s = Some s'"
  then show "world_inv s'"
    by (auto simp: tga_step_def Let_def bind_eq_Some_conv dest: setGA_inv [rotated] split: if_splits)
qed

lemma loopback_turn_inv [inv_intros]:
  assumes "world_inv w" and "loopback_turn d b w = Some w'"
  shows "world_inv w'"
proof -
  define w1 where "w1 = w\<lparr>buses := upd (\<lambda>d. d\<lparr>watchdog := 1\<rparr>) b (buses w)\<rparr>"
  have inv1: "world_inv w1" using assms(1) by (simp add: w1_def)
  obtain w2 where w2: "(if power_changed (buses w1 b) = 1 then handle_power_command b w1 else Some w1) = Some w2"
    using assms(2) by (auto simp: loopback_turn_def Let_def bind_eq_Some_conv simp flip: w1_def)
  have inv2: "world_inv w2" using w2 inv1 by (auto dest: handle_power_command_inv [rotated] split: if_splits)
  note rest2 = assms(2) [unfolded loopback_turn_def Let_def, folded w1_def, unfolded w2 bind.bind_lunit]
  obtain w3 where w3: "(if \<not> queue_SM_isempty b w2 then handle_sm_command b w2 else Some w2) = Some w3"
    using rest2 by (auto simp: bind_eq_Some_conv)
  have inv3: "world_inv w3" using w3 inv2 by (auto dest: handle_sm_command_inv [rotated] split: if_splits)
  note rest3 = rest2 [unfolded w3 bind.bind_lunit]
  show ?thesis
  proof (cases "power_state (buses w3 b) = 0")
    case False
    obtain w4 w5 w6 where w4: "(if \<not> queue_GL_isempty b w3 then handle_gl_command d b w3 else Some w3) = Some w4"
      and w5: "tga_run b w4 = Some w5"
      and w6: "(if \<not> queue_GA_isempty b w5 then handle_ga_command b w5 else Some w5) = Some w6"
      and w': "w' = feed_watchdog b w6"
      using rest3 False by (auto simp: bind_eq_Some_conv)
    have "world_inv w4" using w4 inv3 by (auto dest: handle_gl_command_inv [rotated] split: if_splits)
    then have "world_inv w5" using w5 by (rule tga_run_inv)
    then have "world_inv w6" using w6 by (auto dest: handle_ga_command_inv [rotated] split: if_splits)
    then show ?thesis by (simp add: w')
  qed (use rest3 inv3 in simp)
qed

subsection \<open>What is written to a decoder is read back\<close>

text \<open>The parameters of \<open>SET <bus> SM -1 CV a v\<close> and \<open>GET <bus> SM -1 CV a\<close>.\<close>

definition sm_cv_get :: "int \<Rightarrow> string" where
  "sm_cv_get a = ''-1 CV '' @ fmt_d a"

definition sm_cv_set :: "int \<Rightarrow> int \<Rightarrow> string" where
  "sm_cv_set a v = ''-1 CV '' @ fmt_d a @ '' '' @ fmt_d v"

lemma scan_sm_prefix:
  "sscanf_vals (''-1 CV '' @ s) (Ld # Str None # cs) = VI (-1) # VS ''CV'' # sscanf_vals (CHR '' '' # s) cs"
  by (simp add: skip_ws_def is_space_def is_digit_def digit_val_def clamp_def scan_num_def
      read_digits_def Let_def)

lemma sscanf_sm_cv_set:
  assumes "\<bar>a\<bar> < 2 ^ 31" and "\<bar>v\<bar> < 2 ^ 31"
  shows "sscanf (sm_cv_set a v) [Ld, Str None, Ld, Ld, Ld] = (4, [VI (-1), VS ''CV'', VI a, VI v])"
proof -
  have "CHR '' '' # fmt_d v = [] \<or> \<not> is_digit (hd (CHR '' '' # fmt_d v))" by (simp add: is_digit_def)
  note sa = scan_fmt_d_space [OF assms(1) this] and sv = scan_fmt_d_space [OF assms(2) disjI1 [OF refl]]
  have "sscanf_vals (sm_cv_set a v) [Ld, Str None, Ld, Ld, Ld] = [VI (-1), VS ''CV'', VI a, VI v]"
    unfolding sm_cv_set_def scan_sm_prefix
    unfolding append_Cons append_Nil sa
    using sv [of "[Ld]"] by (simp only: append_Nil2 sscanf_vals_Ld_Nil)
  then show ?thesis by (simp add: sscanf_def del: sscanf_vals.simps)
qed

lemma sscanf_sm_cv_get:
  assumes "\<bar>a\<bar> < 2 ^ 31"
  shows "sscanf (sm_cv_get a) [Ld, Str None, Ld, Ld] = (3, [VI (-1), VS ''CV'', VI a])"
proof -
  have "sscanf_vals (sm_cv_get a) [Ld, Str None, Ld, Ld] = [VI (-1), VS ''CV'', VI a]"
    unfolding sm_cv_get_def scan_sm_prefix
    using scan_fmt_d_space [OF assms disjI1 [OF refl], of "[Ld]"] by (simp only: append_Nil2 sscanf_vals_Ld_Nil)
  then show ?thesis by (simp add: sscanf_def del: sscanf_vals.simps)
qed

text \<open>On a bus whose service mode queue is empty, the command that \<open>infoSM\<close> queues is the one
  the bus thread takes.\<close>

lemma enqueueSM_dequeue:
  assumes "world_inv w" and "queue_SM_isempty b w"
  shows "\<exists>w1 w2 s. enqueueSM b c ty a ta bt v w = (SRCP_OK, w1) \<and> dequeueNextSM b w1 = Some (s, w2) \<and>
    s_command s = c \<and> s_type s = ty \<and> s_addr s = a \<and> s_typeaddr s = ta \<and> s_bit s = bt \<and> s_value s = v \<and>
    world_inv w2 \<and> queue_SM_isempty b w2 \<and> loop_cv w2 = loop_cv w \<and> buses w2 = buses w"
proof -
  define q where "q = sm_queue w b"
  have q: "ring_inv SM_QUEUELEN q" using assms(1) by (simp add: world_inv_def sm_inv_def q_def)
  have e: "ring_list q = []" using assms(2) ring_list_empty_iff [OF q] by (simp add: queue_SM_isempty_def q_def)
  have nf: "\<not> ring_isfull q" using ring_isfull_len [OF q] e by (simp add: SM_QUEUELEN_def)
  define s where "s = \<lparr>s_protocol = ''NMRA'', s_type = ty, s_command = c, s_protocolversion = 1, s_addr = a,
    s_typeaddr = ta, s_bit = bt, s_value = v, s_tv = now w\<rparr>"
  define w1 where "w1 = (tick w)\<lparr>sm_queue := upd (ring_put (\<lambda>_. s)) b (sm_queue w)\<rparr>"
  have w1: "enqueueSM b c ty a ta bt v w = (SRCP_OK, w1)"
    using nf by (simp add: enqueueSM_def sm_queue_isfull_def q_def w1_def s_def)
  have "ring_list (ring_push s q) = [s]" using ring_fifo.put_contents [OF q nf, of s] e by simp
  then obtain q' where q': "ring_get (ring_push s q) = Some (s, q')" "ring_list q' = []"
    using ring_fifo.get_some [OF ring_push_inv [OF q]] by blast
  have qi: "ring_inv SM_QUEUELEN q'" by (rule ring_get_inv [OF ring_push_inv [OF q] q'(1)])
  define w2 where "w2 = w1\<lparr>sm_queue := upd (\<lambda>_. q') b (sm_queue w1)\<rparr>"
  have d: "dequeueNextSM b w1 = Some (s, w2)"
    using q'(1) by (simp add: dequeueNextSM_def w1_def w2_def q_def ring_push_def)
  have inv2: "world_inv w2" using dequeueNextSM_inv [OF enqueueSM_inv [OF assms(1) w1] d] .
  have "queue_SM_isempty b w2"
    using ring_list_empty_iff [OF qi] q'(2) by (simp add: queue_SM_isempty_def w2_def)
  then show ?thesis using w1 d inv2 by (auto simp: w2_def w1_def s_def)
qed

text \<open>A write and a read through the command handlers.\<close>

lemma infoSM_loopback_set:
  assumes "world_inv w" and "queue_SM_isempty b w" and "length (loop_cv w) = 256"
    and "0 \<le> a" "a \<le> 255" "0 \<le> v" "v \<le> 255"
  shows "\<exists>m w'. infoSM loop_sm_wait b SM_SET CV (-1) a 0 v w = Some (SRCP_OK, m, w') \<and>
    world_inv w' \<and> queue_SM_isempty b w' \<and> loop_cv w' = (loop_cv w)[nat a := v] \<and>
    description (buses w' b) = description (buses w b)"
proof -
  obtain w1 w2 s where e: "enqueueSM b SM_SET CV (-1) a 0 v w = (SRCP_OK, w1)" "dequeueNextSM b w1 = Some (s, w2)"
    "s_command s = SM_SET" "s_type s = CV" "s_addr s = -1" "s_typeaddr s = a" "s_bit s = 0" "s_value s = v"
    "world_inv w2" "queue_SM_isempty b w2" "loop_cv w2 = loop_cv w" "buses w2 = buses w"
    using enqueueSM_dequeue [OF assms(1,2), of SM_SET CV "-1" a 0 v] by blast
  have cv: "cv_ok a" using assms(4,5) by (simp add: cv_ok_def MAX_CV_NUMBER_def)
  define w3 where "w3 = w2\<lparr>loop_cv := (loop_cv w)[nat a := v]\<rparr>"
  have inv3: "world_inv w3" using e(9) by (simp add: w3_def)
  obtain w4 where w4: "setSM b CV (-1) a 0 v 0 w3 = Some (SRCP_OK, w4)" "world_inv w4"
    "sm_queue w4 = sm_queue w3" "loop_cv w4 = loop_cv w3" "buses w4 = buses w3"
    using info_ok inv3 by (simp add: setSM_def enqueueInfoSM_def sm_info_tail_def)
  have "handle_sm_command b w1 = Some (feed_watchdog b (session_endwait b v w4))"
    using e cv w4(1) assms(6,7) by (simp add: handle_sm_command_def w3_def)
  then have d: "loop_sm_wait b w1 = Some (Some v, feed_watchdog b (session_endwait b v w4))"
    by (simp add: loop_sm_wait_def feed_watchdog_def session_endwait_def)
  show ?thesis
    using e(1,10,12) d w4 assms(6)
    by (simp add: infoSM_def infoSM_reply_def w3_def feed_watchdog_def session_endwait_def
        queue_SM_isempty_def)
qed

lemma infoSM_loopback_get:
  assumes "world_inv w" and "queue_SM_isempty b w" and "length (loop_cv w) = 256"
    and "0 \<le> a" "a \<le> 255" "0 \<le> loop_cv w ! nat a"
  shows "\<exists>t w'. infoSM loop_sm_wait b SM_GET CV (-1) a 0 0 w = Some (SRCP_OK,
      fmt_time t @ '' 100 INFO '' @ fmt_d (int b) @ '' SM '' @ fmt_d (-1) @ '' CV '' @ fmt_d a @ '' ''
        @ fmt_d (loop_cv w ! nat a) @ ''\<newline>'', w')"
proof -
  obtain w1 w2 s where e: "enqueueSM b SM_GET CV (-1) a 0 0 w = (SRCP_OK, w1)" "dequeueNextSM b w1 = Some (s, w2)"
    "s_command s = SM_GET" "s_type s = CV" "s_addr s = -1" "s_typeaddr s = a" "s_bit s = 0" "s_value s = 0"
    "world_inv w2" "queue_SM_isempty b w2" "loop_cv w2 = loop_cv w" "buses w2 = buses w"
    using enqueueSM_dequeue [OF assms(1,2), of SM_GET CV "-1" a 0 0] by blast
  have cv: "cv_ok a" using assms(4,5) by (simp add: cv_ok_def MAX_CV_NUMBER_def)
  let ?v = "loop_cv w ! nat a"
  have "handle_sm_command b w1 = Some (feed_watchdog b (session_endwait b ?v w2))"
    using e cv by (simp add: handle_sm_command_def)
  then have d: "loop_sm_wait b w1 = Some (Some ?v, feed_watchdog b (session_endwait b ?v w2))"
    by (simp add: loop_sm_wait_def feed_watchdog_def session_endwait_def)
  show ?thesis
    using e(1) d assms(6) by (auto simp: infoSM_def infoSM_reply_def)
qed

lemma c_int_minus1: "c_int (-1) = -1"
  by (simp add: c_int_def)

text \<open>C27: On a loopback bus, SET SM of a configuration variable followed by GET SM answers with
  the value written, through the command parser, the service mode queue and the driver.\<close>

theorem loopback_cv_roundtrip:
  assumes "world_inv w" and "queue_SM_isempty b w" and "length (loop_cv w) = 256"
    and "bus_has_devicegroup b DG_SM w" and "0 \<le> a" "a \<le> 255" "0 \<le> v" "v \<le> 255"
  shows "\<exists>m w1 t w2. handleSET loop_sm_wait sid b ''SM'' (sm_cv_set a v) w = Some (SRCP_OK, m, w1) \<and>
    handleGET loop_sm_wait stk b ''SM'' (sm_cv_get a) w1 = Some (SRCP_OK,
      fmt_time t @ '' 100 INFO '' @ fmt_d (int b) @ '' SM '' @ fmt_d (-1) @ '' CV '' @ fmt_d a @ '' ''
        @ fmt_d v @ ''\<newline>'', w2)"
proof -
  have abs: "\<bar>a\<bar> < 2 ^ 31" "\<bar>v\<bar> < 2 ^ 31" using assms(5-8) by simp_all
  have sm: "parse_sm_type ''CV'' = Some CV" by (simp add: parse_sm_type_def strcasecmp0_def to_upper_def)
  obtain m w1 where s: "infoSM loop_sm_wait b SM_SET CV (-1) a 0 v w = Some (SRCP_OK, m, w1)"
    "world_inv w1" "queue_SM_isempty b w1" "loop_cv w1 = (loop_cv w)[nat a := v]"
    "description (buses w1 b) = description (buses w b)"
    using infoSM_loopback_set [OF assms(1-3,5-8)] by blast
  have set: "handleSET loop_sm_wait sid b ''SM'' (sm_cv_set a v) w
      = Some (SRCP_OK, srcp_fmt_msg SRCP_OK (now w1), tick w1)"
    using assms(4-8) s(1) sm
    by (simp add: handleSET_def handle_setcheck_def setcheck_device_def set_SM_def sscanf_sm_cv_set [OF abs]
        strncasecmp0_def to_upper_def ival_def strval_def reply_now_def c_int_minus1)
  have inv2: "world_inv (tick (tick w1))" using s(2) by simp
  have e2: "queue_SM_isempty b (tick (tick w1))" using s(3) by (simp add: queue_SM_isempty_def)
  have l2: "length (loop_cv (tick (tick w1))) = 256" using s(4) assms(3) by simp
  have v: "loop_cv (tick (tick w1)) ! nat a = v" using s(4) assms(3,5,6) by simp
  obtain t w2 where g: "infoSM loop_sm_wait b SM_GET CV (-1) a 0 0 (tick (tick w1)) = Some (SRCP_OK,
      fmt_time t @ '' 100 INFO '' @ fmt_d (int b) @ '' SM '' @ fmt_d (-1) @ '' CV '' @ fmt_d a @ '' ''
        @ fmt_d v @ ''\<newline>'', w2)"
    using infoSM_loopback_get [OF inv2 e2 l2 assms(5,6)] assms(7) unfolding v by blast
  have "handleGET loop_sm_wait stk b ''SM'' (sm_cv_get a) (tick w1) = Some (SRCP_OK,
      fmt_time t @ '' 100 INFO '' @ fmt_d (int b) @ '' SM '' @ fmt_d (-1) @ '' CV '' @ fmt_d a @ '' ''
        @ fmt_d v @ ''\<newline>'', w2)"
    using assms(4-8) s(5) g sm
    by (simp add: handleGET_def get_device_def get_SM_def sscanf_sm_cv_get [OF abs(1)]
        strncasecmp0_def to_upper_def ival_def strval_def c_int_minus1)
  with set show ?thesis by blast
qed

theorem loopback_cv_roundtrip_witness:
  "\<exists>m w1 t w2. handleSET loop_sm_wait 1 1 ''SM'' (sm_cv_set 29 34) sample_world = Some (SRCP_OK, m, w1) \<and>
    handleGET loop_sm_wait \<lparr>u_addr = 0, u_lockid = 0, u_value = 0\<rparr> 1 ''SM'' (sm_cv_get 29) w1 = Some (SRCP_OK,
      fmt_time t @ '' 100 INFO '' @ fmt_d 1 @ '' SM '' @ fmt_d (-1) @ '' CV '' @ fmt_d 29 @ '' ''
        @ fmt_d 34 @ ''\<newline>'', w2)"
proof -
  have "queue_SM_isempty 1 sample_world" "length (loop_cv sample_world) = 256"
    "bus_has_devicegroup 1 DG_SM sample_world"
    by (simp_all add: queue_SM_isempty_def ring_isempty_def sample_world_def zero_world_def ring_new_def
        sample_bus_def)
  from loopback_cv_roundtrip [OF sample_world_inv this, of 29 34 1 "\<lparr>u_addr = 0, u_lockid = 0, u_value = 0\<rparr>"] show ?thesis by simp
qed

end
