(* ===== verification/Loconet.thy ===== *)
theory Loconet
  imports Driver_Inv C_Strings
begin

text \<open>
  The LocoNet driver, \<open>loconet.c\<close>: a message bus on a serial line (LocoBuffer) or behind a
  server that speaks a text protocol (lbserver). The message framing, the check byte, what a
  received message changes, and what commands are sent. The driver's data is \<open>loconet\<close>; its
  thread's variables that outlive a turn are \<open>ln_thread\<close>. Opening the line is a call to the
  operating system; debug levels that keep the driver from using the hardware are not modelled.
\<close>

unbundle bit_operations_syntax

subsection \<open>Constants and data\<close>

abbreviation OPC_GPOFF :: "8 word" where "OPC_GPOFF \<equiv> 0x82"
abbreviation OPC_GPON :: "8 word" where "OPC_GPON \<equiv> 0x83"
abbreviation OPC_IDLE :: "8 word" where "OPC_IDLE \<equiv> 0x85"
abbreviation OPC_LOCO_SPD :: "8 word" where "OPC_LOCO_SPD \<equiv> 0xa0"
abbreviation OPC_LOCO_DIRF :: "8 word" where "OPC_LOCO_DIRF \<equiv> 0xa1"
abbreviation OPC_LOCO_SND :: "8 word" where "OPC_LOCO_SND \<equiv> 0xa2"
abbreviation OPC_SW_REQ :: "8 word" where "OPC_SW_REQ \<equiv> 0xb0"
abbreviation OPC_SW_REP :: "8 word" where "OPC_SW_REP \<equiv> 0xb1"
abbreviation OPC_INPUT_REP :: "8 word" where "OPC_INPUT_REP \<equiv> 0xb2"
abbreviation OPC_SLOT_STAT1 :: "8 word" where "OPC_SLOT_STAT1 \<equiv> 0xb5"
abbreviation OPC_RQ_SL_DATA :: "8 word" where "OPC_RQ_SL_DATA \<equiv> 0xbb"
abbreviation OPC_SL_RD_DATA :: "8 word" where "OPC_SL_RD_DATA \<equiv> 0xe7"
abbreviation OPC_WR_SL_DATA :: "8 word" where "OPC_WR_SL_DATA \<equiv> 0xef"
abbreviation DIRF_DIR :: "8 word" where "DIRF_DIR \<equiv> 0x20"
abbreviation DIRF_F0 :: "8 word" where "DIRF_F0 \<equiv> 0x10"
abbreviation LN_FLAG_GETTIME :: int where "LN_FLAG_GETTIME \<equiv> 4"

text \<open>\<open>network\<close> is the device type, \<open>dev_ok\<close> the device state. What leaves the driver is
  collected: the bytes of the serial line, and the lines of text for the server, which accepts
  them while \<open>net_ok\<close>.\<close>

record loconet =
  network :: bool
  dev_ok :: bool
  net_ok :: bool
  ln_flags :: int
  sent_packets :: nat
  recv_packets :: nat
  ibufferin :: nat
  ibuffer :: "8 word list"
  slotmap :: "int list"
  ln_bytes :: "8 word list"
  ln_lines :: "string list"

text \<open>\<open>ibuffer\<close> has 256 bytes and \<open>slotmap\<close> 128 entries.\<close>

definition ln_ok :: "loconet \<Rightarrow> bool" where
  "ln_ok l \<longleftrightarrow> length (ibuffer l) = 256 \<and> length (slotmap l) = 128"

text \<open>What \<open>select\<close> and the read that follows it give: nothing, an error, a byte (any byte if
  the line is at its end), or the result of \<open>socket_readline\<close>.\<close>

datatype ln_input = No_data | Select_error | Serial_byte "8 word" | Net_line int string

definition init_gl_LOCONET :: "gl_state \<Rightarrow> int \<times> gl_state" where
  "init_gl_LOCONET g = (SRCP_OK, g)"

definition init_ga_LOCONET :: "ga_state \<Rightarrow> int \<times> ga_state" where
  "init_ga_LOCONET g = (SRCP_OK, g)"

definition init_bus_LOCONET :: "bool \<Rightarrow> nat \<Rightarrow> world \<Rightarrow> loconet \<Rightarrow> int \<times> world \<times> loconet" where
  "init_bus_LOCONET opened b w l =
     (let w = w\<lparr>buses := upd (\<lambda>s. s\<lparr>protocols := Some ''LPMN''\<rparr>) b (buses w)\<rparr>;
          l = l\<lparr>sent_packets := 0, recv_packets := 0, ibufferin := 0\<rparr>
      in (if opened then 0 else -1, w, l\<lparr>dev_ok := opened\<rparr>))"

text \<open>The slot of a decoder address, \<open>-1\<close> if it has none.\<close>

definition cacheGetSlotNumberforAddr :: "int \<Rightarrow> loconet \<Rightarrow> int" where
  "cacheGetSlotNumberforAddr addr l =
     (case find (\<lambda>i. slotmap l ! i = addr) [1..<128] of Some i \<Rightarrow> int i | None \<Rightarrow> -1)"

subsection \<open>Reading\<close>

definition ln_checksum :: "8 word list \<Rightarrow> 8 word" where
  "ln_checksum cmd = fold (\<lambda>c s. s XOR c) cmd 0xff"

text \<open>The transfer buffer of the caller: 128 bytes that were zero.\<close>

definition filled :: "8 word list \<Rightarrow> 8 word list" where
  "filled bs = bs @ replicate (128 - length bs) 0"

text \<open>The length of the message that begins at \<open>out\<close>; \<open>None\<close> is a read past the buffer.\<close>

definition ln_pktlen :: "8 word list \<Rightarrow> nat \<Rightarrow> nat option" where
  "ln_pktlen buf out =
     (let g = buf ! out AND 0xe0 in
      if g = 0x80 then Some 2
      else if g = 0xa0 then Some 4
      else if g = 0xc0 then Some 6
      else if out + 1 < length buf then Some (unat (buf ! (out + 1))) else None)"

text \<open>At most one byte is taken from the line. The search for the start of a message runs over
  the whole buffer, what is left there of former messages included. A message longer than the
  buffer of the caller has no defined result.\<close>

definition ln_store :: "ln_input \<Rightarrow> loconet \<Rightarrow> loconet option" where
  "ln_store inp l =
     (case inp of
        Serial_byte c \<Rightarrow> if ibufferin l < length (ibuffer l)
                        then Some (l\<lparr>ibuffer := (ibuffer l)[ibufferin l := c], ibufferin := ibufferin l + 1\<rparr>)
                        else None
      | _ \<Rightarrow> Some l)"

definition ln_read_serial :: "ln_input \<Rightarrow> loconet \<Rightarrow> (int \<times> 8 word list \<times> loconet) option" where
  "ln_read_serial inp l = do {
     l \<leftarrow> ln_store inp l;
     if ibufferin l < 2 then Some (0, filled [], l)
     else do {
       out \<leftarrow> find (\<lambda>i. ibuffer l ! i AND 0x80 = 0x80) [0..<length (ibuffer l)];
       pktlen \<leftarrow> ln_pktlen (ibuffer l) out;
       if ibufferin l < out + pktlen then Some (0, filled [], l)
       else if 128 < pktlen then None
       else Some (int pktlen, filled (take pktlen (drop out (ibuffer l))),
                  l\<lparr>ibufferin := 0, recv_packets := recv_packets l + 1\<rparr>) } }"

text \<open>\<open>strtol\<close> with base 16.\<close>

definition hex_val :: "char \<Rightarrow> nat option" where
  "hex_val c =
     (let n = of_char c :: nat in
      if 48 \<le> n \<and> n \<le> 57 then Some (n - 48)
      else if 65 \<le> n \<and> n \<le> 70 then Some (n - 55)
      else if 97 \<le> n \<and> n \<le> 102 then Some (n - 87)
      else None)"

fun hex_digits :: "string \<Rightarrow> nat \<Rightarrow> nat" where
  "hex_digits [] v = v"
| "hex_digits (c # s) v = (case hex_val c of None \<Rightarrow> v | Some d \<Rightarrow> hex_digits s (16 * v + d))"

definition strtol16 :: "string \<Rightarrow> int" where
  "strtol16 s =
     (let s = skip_ws s;
          neg = (s \<noteq> [] \<and> hd s = CHR ''-'');
          s = (if s \<noteq> [] \<and> (hd s = CHR ''-'' \<or> hd s = CHR ''+'') then tl s else s);
          s = (case s of z # x # h # r \<Rightarrow>
                 if z = CHR ''0'' \<and> (x = CHR ''x'' \<or> x = CHR ''X'') \<and> hex_val h \<noteq> None then h # r else s
               | _ \<Rightarrow> s);
          v = int (hex_digits s 0)
      in if neg then max (- (2 ^ 63)) (- v) else min (2 ^ 63 - 1) v)"

text \<open>A line of the server: \<open>RECEIVE\<close> and the bytes of a message. Any other line counts as a
  message of one byte.\<close>

definition ln_read_lbserver :: "ln_input \<Rightarrow> loconet \<Rightarrow> (int \<times> 8 word list \<times> loconet) option" where
  "ln_read_lbserver inp l =
     (case inp of
        Net_line n line \<Rightarrow>
          if n = 0 \<or> n = -1 then Some (0, filled [], l\<lparr>dev_ok := False\<rparr>)
          else let l = l\<lparr>recv_packets := recv_packets l + 1\<rparr> in
            if strstr0 line ''RECEIVE '' then
              let pktlen = (length line - 7) div 3;
                  bs = map (\<lambda>i. word_of_int (strtol16 (drop (7 + 3 * i) line))) [0..<pktlen]
              in if 128 < pktlen then None else Some (int pktlen, filled bs, l)
            else Some (1, filled [], l)
      | Select_error \<Rightarrow> Some (-1, filled [], l)
      | _ \<Rightarrow> Some (0, filled [], l))"

text \<open>A lost connection is opened again before anything is read, however long that takes.\<close>

definition ln_read :: "ln_input \<Rightarrow> loconet \<Rightarrow> (int \<times> 8 word list \<times> loconet) option" where
  "ln_read inp l =
     (let l = l\<lparr>dev_ok := True\<rparr>
      in if network l then ln_read_lbserver inp l else ln_read_serial inp l)"

subsection \<open>Writing\<close>

definition hex_digit :: "nat \<Rightarrow> char" where
  "hex_digit d = (if d < 10 then char_of (48 + d) else char_of (55 + d))"

definition fmt_02X :: "8 word \<Rightarrow> string" where
  "fmt_02X b = [hex_digit (unat b div 16), hex_digit (unat b mod 16)]"

definition ln_write_lbserver :: "8 word list \<Rightarrow> loconet \<Rightarrow> loconet option" where
  "ln_write_lbserver cmd l =
     (let msg = ''SEND'' @ concat (map (\<lambda>b. CHR '' '' # fmt_02X b) cmd) @ [CHR 0x0D, CHR 0x0A]
      in if 256 \<le> length msg then None
         else Some ((if net_ok l then l\<lparr>ln_lines := ln_lines l @ [msg]\<rparr> else l\<lparr>dev_ok := False\<rparr>)
                    \<lparr>sent_packets := sent_packets l + 1\<rparr>))"

definition ln_write_serial :: "8 word list \<Rightarrow> loconet \<Rightarrow> loconet" where
  "ln_write_serial cmd l = l\<lparr>ln_bytes := ln_bytes l @ cmd, sent_packets := sent_packets l + 1\<rparr>"

definition ln_write :: "8 word list \<Rightarrow> loconet \<Rightarrow> loconet option" where
  "ln_write cmd l = (if network l then ln_write_lbserver cmd l else Some (ln_write_serial cmd l))"

definition ln_sendmessage :: "nat \<Rightarrow> 8 word list \<Rightarrow> loconet \<Rightarrow> (int \<times> 8 word list \<times> loconet) option" where
  "ln_sendmessage len pack l =
     (let pack = pack[len - 1 := ln_checksum (take (len - 1) pack)]
      in if pack ! 0 \<noteq> OPC_IDLE then map_option (\<lambda>l. (0, pack, l)) (ln_write (take len pack) l)
         else Some (1, pack, l))"

subsection \<open>Messages from LocoNet\<close>

text \<open>\<open>ln_gl\<close> and \<open>ln_ga\<close> are the thread's variables \<open>gltmp\<close> and \<open>gatmp\<close>: a device that is not
  initialized leaves in them what was there before. \<open>slot_index\<close> is \<open>startup_slot_index\<close>.\<close>

record ln_thread =
  ln_gl :: gl_state
  ln_ga :: ga_state
  slot_index :: nat

text \<open>What the three messages about a locomotive in a slot change in its table entry.\<close>

definition spd_update :: "8 word \<Rightarrow> gl_state \<Rightarrow> gl_state" where
  "spd_update v g = g\<lparr>l_speed := (if v = 1 then 0 else uint v)\<rparr>"

definition dirf_update :: "8 word \<Rightarrow> gl_state \<Rightarrow> gl_state" where
  "dirf_update v g =
     (let v32 = (ucast v :: 32 word) in
      g\<lparr>l_funcs := (l_funcs g AND 0xffe0) OR (drop_bit 4 (v32 AND 0x10) OR push_bit 1 (v32 AND 0x0f)),
        l_direction := (if v AND DIRF_DIR \<noteq> 0 then 0 else 1)\<rparr>)"

definition snd_update :: "8 word \<Rightarrow> gl_state \<Rightarrow> gl_state" where
  "snd_update v g =
     g\<lparr>l_funcs := (l_funcs g AND 0xfe1f) OR push_bit 5 (ucast (v AND 0x0f))\<rparr>"

definition slot_update ::
    "(gl_state \<Rightarrow> gl_state) \<Rightarrow> nat \<Rightarrow> nat \<Rightarrow> ln_thread \<Rightarrow> loconet \<Rightarrow> world \<Rightarrow> (ln_thread \<times> world) option" where
  "slot_update f b slot th l w =
     (if length (slotmap l) \<le> slot then None
      else if slotmap l ! slot = 0 then Some (th, w)
      else do {
        let addr = slotmap l ! slot;
        let g = f (case cacheGetGL b addr w of Some g \<Rightarrow> g | None \<Rightarrow> ln_gl th);
        (_, w) \<leftarrow> cacheSetGL b addr g w;
        Some (th\<lparr>ln_gl := g\<rparr>, w) })"

definition ln_power :: "nat \<Rightarrow> int \<Rightarrow> world \<Rightarrow> world option" where
  "ln_power b v w =
     power_info b (w\<lparr>buses := upd (\<lambda>s. s\<lparr>power_state := v, power_msg := ''from Loconet''\<rparr>) b (buses w)\<rparr>)"

text \<open>A switch request or report, and a report of a sensor.\<close>

definition ln_switch :: "nat \<Rightarrow> 8 word \<Rightarrow> 8 word \<Rightarrow> ln_thread \<Rightarrow> world \<Rightarrow> (ln_thread \<times> world) option" where
  "ln_switch b p1 p2 th w = do {
     let addr = int (unat p1) OR push_bit 7 (uint (p2 AND 0x0f));
     let addr = addr + 1;
     let g = (case getGA b addr w of Some g \<Rightarrow> g | None \<Rightarrow> ln_ga th);
     let g = g\<lparr>a_action := uint (drop_bit 4 (p2 AND 0x10)), a_port := uint (drop_bit 5 (p2 AND 0x20))\<rparr>;
     (_, w) \<leftarrow> setGA b addr g w;
     Some (th\<lparr>ln_ga := g\<rparr>, w) }"

definition input_addr :: "8 word \<Rightarrow> 8 word \<Rightarrow> int" where
  "input_addr p1 p2 =
     1 + (uint p1 OR push_bit 7 (uint (p2 AND 0x0f))) * 2 + uint (drop_bit 5 (p2 AND 0x20))"

definition ln_input_rep :: "nat \<Rightarrow> 8 word \<Rightarrow> 8 word \<Rightarrow> world \<Rightarrow> world option" where
  "ln_input_rep b p1 p2 w =
     map_option snd (updateFB b (input_addr p1 p2) (uint (drop_bit 4 (p2 AND 0x10))) w)"

text \<open>The data of a slot: the address is entered in \<open>slotmap\<close>, an unknown locomotive is
  initialized, and speed and functions are taken over.\<close>

definition slot_data :: "nat \<Rightarrow> 8 word list \<Rightarrow> ln_thread \<Rightarrow> loconet \<Rightarrow> world \<Rightarrow> (ln_thread \<times> loconet \<times> world) option" where
  "slot_data b p th l w =
     (let addr = uint (p ! 4) OR push_bit 7 (uint (p ! 9)); slot = unat (p ! 2)
      in if length (slotmap l) \<le> slot then None
         else do {
           let l = l\<lparr>slotmap := (slotmap l)[slot := addr]\<rparr>;
           (_, w) \<leftarrow> (if isInitializedGL b addr w then Some (0, w) else cacheInitGL b addr (CHR ''L'') 1 128 9 w);
           let g = (case cacheGetGL b addr w of Some g \<Rightarrow> g | None \<Rightarrow> ln_gl th);
           let tmp = (ucast (p ! 6) :: 32 word);
           let tmp = drop_bit 4 (tmp AND 0x10) OR push_bit 1 (tmp AND 0x0f);
           let g = g\<lparr>l_speed := uint (p ! 5), l_funcs := tmp OR push_bit 5 (ucast (p ! 7))\<rparr>;
           (_, w) \<leftarrow> cacheSetGL b addr g w;
           Some (th\<lparr>ln_gl := g\<rparr>, l, w) })"

text \<open>The fast clock of LocoNet counts up to 0 in both hours and minutes.\<close>

definition fast_clock :: "nat \<Rightarrow> 8 word \<Rightarrow> int" where
  "fast_clock n v = (int n - ((256 - uint v) AND 0x7f) mod int n) mod int n"

definition ln_clock :: "8 word list \<Rightarrow> loconet \<Rightarrow> world \<Rightarrow> world option" where
  "ln_clock p l w =
     (if p ! 2 = 0x7b \<and> p ! 10 AND 0x20 = 0 \<and> ln_flags l AND LN_FLAG_GETTIME = LN_FLAG_GETTIME then do {
        (_, w) \<leftarrow> initTIME (uint (p ! 3)) 1 w;
        (_, w) \<leftarrow> setTIME (uint (p ! 9)) (fast_clock 24 (p ! 8)) (fast_clock 60 (p ! 6)) 0 w;
        Some w }
      else Some w)"

definition ln_receive ::
    "nat \<Rightarrow> 8 word list \<Rightarrow> ln_thread \<Rightarrow> loconet \<Rightarrow> world \<Rightarrow> (ln_thread \<times> loconet \<times> world) option" where
  "ln_receive b p th l w =
     (let op = p ! 0; p1 = p ! 1; p2 = p ! 2; same = map_option (\<lambda>(th, w). (th, l, w))
      in if op = OPC_GPOFF then map_option (\<lambda>w. (th, l, w)) (ln_power b 0 w)
         else if op = OPC_GPON then map_option (\<lambda>w. (th, l, w)) (ln_power b 1 w)
         else if op = OPC_LOCO_SPD then same (slot_update (spd_update p2) b (unat p1) th l w)
         else if op = OPC_LOCO_DIRF then same (slot_update (dirf_update p2) b (unat p1) th l w)
         else if op = OPC_LOCO_SND then same (slot_update (snd_update p2) b (unat p1) th l w)
         else if op = OPC_SW_REQ \<or> op = OPC_SW_REP then same (ln_switch b p1 p2 th w)
         else if op = OPC_INPUT_REP then map_option (\<lambda>w. (th, l, w)) (ln_input_rep b p1 p2 w)
         else if op = OPC_SLOT_STAT1 then
           if length (slotmap l) \<le> unat p1 then None
           else if slotmap l ! unat p1 \<noteq> 0 \<and> p2 = 2
           then map_option (\<lambda>(_, w). (th, l, w)) (cacheTermGL b (slotmap l ! unat p1) w)
           else Some (th, l, w)
         else if op = OPC_SL_RD_DATA \<and> p1 = 0x0e then slot_data b p th l w
         else if op = OPC_WR_SL_DATA \<and> p1 = 0x0e then map_option (\<lambda>w. (th, l, w)) (ln_clock p l w)
         else Some (th, l, w))"

subsection \<open>Messages to LocoNet\<close>

text \<open>The third byte of the messages about a locomotive.\<close>

definition spd_byte :: "gl_state \<Rightarrow> 8 word" where
  "spd_byte g = word_of_int (l_speed g + (if l_speed g > 0 then 1 else 0))"

definition dirf_byte :: "gl_state \<Rightarrow> 8 word" where
  "dirf_byte g =
     (if l_direction g \<noteq> 0 then 0 else DIRF_DIR) + (if l_funcs g AND 1 \<noteq> 0 then DIRF_F0 else 0) +
     ucast (drop_bit 1 (l_funcs g) AND 0x0f)"

definition snd_byte :: "gl_state \<Rightarrow> 8 word" where
  "snd_byte g = ucast (drop_bit 5 (l_funcs g) AND 0x0f)"

text \<open>A message of four bytes; \<open>pack\<close> is the buffer before and after.\<close>

definition ln_send4 :: "8 word \<Rightarrow> 8 word \<Rightarrow> 8 word \<Rightarrow> 8 word list \<Rightarrow> loconet \<Rightarrow> (8 word list \<times> loconet) option" where
  "ln_send4 op p1 p2 pack l = map_option snd (ln_sendmessage 4 (pack[0 := op, 1 := p1, 2 := p2]) l)"

text \<open>Up to three messages for what has changed, compared with the table; \<open>glcur\<close> is what the
  variable held before, for a locomotive that is not initialized.\<close>

definition ln_gl_command ::
    "gl_state \<Rightarrow> nat \<Rightarrow> 8 word list \<Rightarrow> loconet \<Rightarrow> world \<Rightarrow> (nat \<times> 8 word list \<times> loconet \<times> world) option" where
  "ln_gl_command glcur b pack l w = do {
     (g, w) \<leftarrow> dequeueNextGL b w;
     let slot = word_of_int (cacheGetSlotNumberforAddr (l_id g) l);
     let cur = (case cacheGetGL b (l_id g) w of Some c \<Rightarrow> c | None \<Rightarrow> glcur);
     let spd = (l_speed g \<noteq> l_speed cur);
     let dirf = (l_direction g \<noteq> l_direction cur \<or> l_funcs g AND 0x1f \<noteq> l_funcs cur AND 0x1f);
     let sound = (l_funcs g AND 0x1e0 \<noteq> l_funcs cur AND 0x1e0);
     (pack, l) \<leftarrow> (if spd then ln_send4 OPC_LOCO_SPD slot (spd_byte g) pack l else Some (pack, l));
     (pack, l) \<leftarrow> (if dirf then ln_send4 OPC_LOCO_DIRF slot (dirf_byte g) pack l else Some (pack, l));
     (pack, l) \<leftarrow> (if sound then ln_send4 OPC_LOCO_SND slot (snd_byte g) pack l else Some (pack, l));
     (_, w) \<leftarrow> cacheSetGL b (l_id g) g w;
     Some (if spd \<or> dirf \<or> sound then 4 else 2, pack, l, w) }"

definition sw_byte1 :: "ga_state \<Rightarrow> 8 word" where
  "sw_byte1 g = word_of_int ((a_id g - 1) AND 0x7f)"

definition sw_byte2 :: "ga_state \<Rightarrow> 8 word" where
  "sw_byte2 g = word_of_int (drop_bit 7 (a_id g - 1) AND 0x0f) OR word_of_int (push_bit 5 (a_port g AND 1)) OR
     word_of_int (push_bit 4 (a_action g AND 1))"

definition ln_ga_command :: "nat \<Rightarrow> 8 word list \<Rightarrow> world \<Rightarrow> (8 word list \<times> world) option" where
  "ln_ga_command b pack w = do {
     (g, w) \<leftarrow> dequeueNextGA b w;
     let pack = pack[0 := OPC_SW_REQ, 1 := sw_byte1 g, 2 := sw_byte2 g];
     (g, w) \<leftarrow> (if a_action g = 1 then
                  if a_port g < 0 \<or> int MAXGAPORT \<le> a_port g then None
                  else Some (g\<lparr>a_tv := (a_tv g)(nat (a_port g) := now w)\<rparr>, tick w)
                else Some (g, w));
     (_, w) \<leftarrow> setGA b (a_id g) g w;
     Some (pack, w) }"

text \<open>The way to LocoNet: one command, or the question for the data of a slot. What the branch
  left in the buffer is sent at its end, also after a locomotive command.\<close>

definition ln_transmit ::
    "gl_state \<Rightarrow> nat \<Rightarrow> 8 word list \<Rightarrow> ln_thread \<Rightarrow> loconet \<Rightarrow> world \<Rightarrow> (ln_thread \<times> loconet \<times> world) option" where
  "ln_transmit glcur b pack th l w = do {
     let pack = pack[0 := OPC_IDLE];
     (len, pack, th, l, w) \<leftarrow>
       (if power_changed (buses w b) = 1 then do {
          let pack = pack[0 := 0x82 + word_of_int (power_state (buses w b))];
          w \<leftarrow> power_info b (w\<lparr>buses := upd (\<lambda>s. s\<lparr>power_changed := 0\<rparr>) b (buses w)\<rparr>);
          Some (2, pack, th, l, w) }
        else if \<not> queue_GL_isempty b w then
          map_option (\<lambda>(len, pack, l, w). (len, pack, th, l, w)) (ln_gl_command glcur b pack l w)
        else if \<not> queue_GA_isempty b w then
          map_option (\<lambda>(pack, w). (4, pack, th, l, w)) (ln_ga_command b pack w)
        else if slot_index th < 120 then
          Some (4, pack[0 := OPC_RQ_SL_DATA, 1 := of_nat (slot_index th), 2 := 0],
                th\<lparr>slot_index := slot_index th + 1\<rparr>, l, w)
        else Some (2, pack, th, l, w));
     (_, _, l) \<leftarrow> ln_sendmessage len pack l;
     Some (th, l, w) }"

text \<open>A turn of \<open>thr_sendrec_LOCONET\<close>. The length is kept in a byte. After a message whose first
  byte does not have the bit \<open>0x08\<close>, and while one is being received, nothing is sent.\<close>

definition ln_turn ::
    "gl_state \<Rightarrow> nat \<Rightarrow> ln_input \<Rightarrow> ln_thread \<Rightarrow> loconet \<Rightarrow> world \<Rightarrow> (ln_thread \<times> loconet \<times> world) option" where
  "ln_turn glcur b inp th l w = do {
     let w = w\<lparr>buses := upd (\<lambda>s. s\<lparr>watchdog := 1\<rparr>) b (buses w)\<rparr>;
     (rc, pack, l) \<leftarrow> ln_read inp l;
     let len = rc mod 256;
     (th, l, w) \<leftarrow> (if 1 < len then ln_receive b pack th l w else Some (th, l, w));
     if len = 0 then ln_transmit glcur b pack th l w else Some (th, l, w) }"

subsection \<open>The driver keeps the server's data well formed\<close>

lemma slot_update_keeps [keeps_ops]: "world_inv w \<Longrightarrow> keeps snd (slot_update f b slot th l w)"
  unfolding slot_update_def by ((rule keeps_ops | rule keeps_rules | clarsimp)+)

lemma ln_power_keeps [keeps_ops]: "world_inv w \<Longrightarrow> keeps (\<lambda>w. w) (ln_power b v w)"
  unfolding ln_power_def by ((rule keeps_ops | rule keeps_rules | clarsimp)+)

lemma ln_switch_keeps [keeps_ops]: "world_inv w \<Longrightarrow> keeps snd (ln_switch b p1 p2 th w)"
  unfolding ln_switch_def by ((rule keeps_ops | rule keeps_rules | clarsimp)+)

lemma ln_input_rep_keeps [keeps_ops]: "world_inv w \<Longrightarrow> keeps (\<lambda>w. w) (ln_input_rep b p1 p2 w)"
  unfolding ln_input_rep_def by ((rule keeps_ops | rule keeps_rules | clarsimp)+)

lemma slot_data_keeps [keeps_ops]: "world_inv w \<Longrightarrow> keeps (\<lambda>x. snd (snd x)) (slot_data b p th l w)"
  unfolding slot_data_def by ((rule keeps_ops | rule keeps_rules | clarsimp)+)

lemma ln_clock_keeps [keeps_ops]: "world_inv w \<Longrightarrow> keeps (\<lambda>w. w) (ln_clock p l w)"
  unfolding ln_clock_def by ((rule keeps_ops | rule keeps_rules | clarsimp)+)

lemma ln_receive_keeps [keeps_ops]: "world_inv w \<Longrightarrow> keeps (\<lambda>x. snd (snd x)) (ln_receive b p th l w)"
  unfolding ln_receive_def Let_def by ((rule keeps_ops | rule keeps_rules | clarsimp simp: case_prod_unfold)+)

lemma ln_gl_command_keeps [keeps_ops]:
  "world_inv w \<Longrightarrow> keeps (\<lambda>x. snd (snd (snd x))) (ln_gl_command glcur b pack l w)"
  unfolding ln_gl_command_def by ((rule keeps_ops | rule keeps_rules | clarsimp | rule keeps_const, assumption)+)

lemma ln_ga_command_keeps [keeps_ops]: "world_inv w \<Longrightarrow> keeps snd (ln_ga_command b pack w)"
  unfolding ln_ga_command_def by ((rule keeps_ops | rule keeps_rules | clarsimp)+)

lemma ln_transmit_keeps [keeps_ops]:
  "world_inv w \<Longrightarrow> keeps (\<lambda>x. snd (snd x)) (ln_transmit glcur b pack th l w)"
  unfolding ln_transmit_def
  by ((rule keeps_ops | rule keeps_bind [where g = "\<lambda>x. snd (snd (snd (snd x)))"] | rule keeps_let keeps_if keeps_map
        keeps_Some | rule keeps_bind_snd | rule keeps_prod | rule keeps_bind | clarsimp simp: case_prod_unfold
        | rule keeps_const, assumption)+)

lemma ln_turn_keeps [keeps_ops]:
  "world_inv w \<Longrightarrow> keeps (\<lambda>x. snd (snd x)) (ln_turn glcur b inp th l w)"
  unfolding ln_turn_def
  by ((rule keeps_ops | rule keeps_bind [where g = "\<lambda>x. snd (snd x)"] | rule keeps_let keeps_if keeps_map
        keeps_Some | rule keeps_prod | clarsimp simp: case_prod_unfold | rule keeps_bind, rule keeps_const, assumption)+)

lemma ln_turn_inv [inv_intros]:
  "world_inv w \<Longrightarrow> ln_turn glcur b inp th l w = Some (th', l', w') \<Longrightarrow> world_inv w'"
  by (drule ln_turn_keeps [of w glcur b inp th l]) (auto dest: keepsD)

subsection \<open>Messages are framed\<close>

text \<open>A LocoNet message: the first byte has its highest bit set and gives the length, the others
  do not have it.\<close>

definition ln_msg :: "8 word list \<Rightarrow> bool" where
  "ln_msg m \<longleftrightarrow> (\<exists>op rest. m = op # rest \<and> op AND 0x80 = 0x80 \<and> (\<forall>c\<in>set rest. c AND 0x80 = 0) \<and> rest \<noteq> [] \<and>
     length m = (if op AND 0xe0 = 0x80 then 2 else if op AND 0xe0 = 0xa0 then 4
       else if op AND 0xe0 = 0xc0 then 6 else unat (hd rest)))"

text \<open>The bytes of a line, given to the driver one by one, and the messages it hands on.\<close>

fun ln_feed :: "8 word list \<Rightarrow> loconet \<Rightarrow> (8 word list list \<times> loconet) option" where
  "ln_feed [] l = Some ([], l)"
| "ln_feed (c # cs) l = do {
     (rc, p, l) \<leftarrow> ln_read_serial (Serial_byte c) l;
     (ms, l) \<leftarrow> ln_feed cs l;
     Some (if 0 < rc then take (nat rc) p # ms else ms, l) }"

lemma find_first: "xs \<noteq> [] \<Longrightarrow> P (hd xs) \<Longrightarrow> find P xs = Some (hd xs)"
  by (cases xs) simp_all

lemma small_byte: "c AND 0x80 = 0 \<Longrightarrow> unat (c :: 8 word) < 128"
  by (rule all_bytesI [where P = "\<lambda>c. c AND 0x80 = 0 \<longrightarrow> unat c < 128", rule_format]) code_simp

lemma opcode_class:
  "(op :: 8 word) AND 0x80 = 0x80 \<Longrightarrow> op AND 0xe0 \<noteq> 0x80 \<Longrightarrow> op AND 0xe0 \<noteq> 0xa0 \<Longrightarrow> op AND 0xe0 \<noteq> 0xc0 \<Longrightarrow> op AND 0xe0 = 0xe0"
  by (rule all_bytesI [where P = "\<lambda>op. op AND 0x80 = 0x80 \<longrightarrow> op AND 0xe0 \<noteq> 0x80 \<longrightarrow> op AND 0xe0 \<noteq> 0xa0 \<longrightarrow>
      op AND 0xe0 \<noteq> 0xc0 \<longrightarrow> op AND 0xe0 = 0xe0", rule_format]) code_simp

text \<open>The buffer holds the first \<open>k\<close> bytes of the message \<open>m\<close>.\<close>

definition ln_partial :: "8 word list \<Rightarrow> nat \<Rightarrow> loconet \<Rightarrow> bool" where
  "ln_partial m k l \<longleftrightarrow> length (ibuffer l) = 256 \<and> ibufferin l = k \<and> take k (ibuffer l) = take k m"

lemma ln_msg_length: "ln_msg m \<Longrightarrow> 2 \<le> length m \<and> length m < 128"
  using small_byte by (auto simp: ln_msg_def neq_Nil_conv split: if_splits)

lemma ln_store_partial:
  assumes "ln_partial m k l" and "k < length m" and "length m < 128"
  shows "\<exists>l'. ln_store (Serial_byte (m ! k)) l = Some l' \<and> ln_partial m (Suc k) l' \<and> recv_packets l' = recv_packets l"
  using assms by (auto simp: ln_store_def ln_partial_def take_Suc_conv_app_nth take_update_cancel)

lemma ln_pktlen_msg:
  assumes "ln_msg m" and "ln_partial m k l" and "2 \<le> k" and "k \<le> length m"
  shows "find (\<lambda>i. ibuffer l ! i AND 0x80 = 0x80) [0..<length (ibuffer l)] = Some 0"
    and "ln_pktlen (ibuffer l) 0 = Some (length m)"
proof -
  have b: "ibuffer l ! i = m ! i" if "i < k" for i
    using assms(2) that by (metis ln_partial_def nth_take)
  have m: "m ! 0 AND 0x80 = 0x80" "length m = (if m ! 0 AND 0xe0 = 0x80 then 2 else if m ! 0 AND 0xe0 = 0xa0 then 4
       else if m ! 0 AND 0xe0 = 0xc0 then 6 else unat (m ! 1))"
    using assms(1) by (auto simp: ln_msg_def neq_Nil_conv)
  have len: "length (ibuffer l) = 256" using assms(2) by (simp add: ln_partial_def)
  then show "find (\<lambda>i. ibuffer l ! i AND 0x80 = 0x80) [0..<length (ibuffer l)] = Some 0"
    using find_first [of "[0..<256]" "\<lambda>i. ibuffer l ! i AND 0x80 = 0x80"] b [of 0] m(1) assms(3) by simp
  show "ln_pktlen (ibuffer l) 0 = Some (length m)"
    using m(2) b [of 0] b [of 1] assms(3) len by (auto simp: ln_pktlen_def Let_def)
qed

lemma ln_read_partial:
  assumes "ln_msg m" and "ln_partial m k l" and "Suc k < length m"
  shows "\<exists>l'. ln_read_serial (Serial_byte (m ! k)) l = Some (0, filled [], l') \<and> ln_partial m (Suc k) l'"
proof -
  obtain l' where l': "ln_store (Serial_byte (m ! k)) l = Some l'" "ln_partial m (Suc k) l'"
    using ln_store_partial [OF assms(2)] assms(3) ln_msg_length [OF assms(1)] by auto
  have k: "ibufferin l' = Suc k" using l'(2) by (simp add: ln_partial_def)
  show ?thesis
  proof (cases "k = 0")
    case True
    then show ?thesis using l' k by (simp add: ln_read_serial_def)
  next
    case False
    then show ?thesis
      using l' k ln_pktlen_msg [OF assms(1) l'(2)] assms(3) by (simp add: ln_read_serial_def)
  qed
qed

lemma ln_read_last:
  assumes "ln_msg m" and "ln_partial m k l" and "Suc k = length m"
  shows "\<exists>l'. ln_read_serial (Serial_byte (m ! k)) l = Some (int (length m), filled m, l') \<and> ibufferin l' = 0 \<and>
    length (ibuffer l') = 256"
proof -
  obtain l' where l': "ln_store (Serial_byte (m ! k)) l = Some l'" "ln_partial m (Suc k) l'"
    using ln_store_partial [OF assms(2)] assms(3) ln_msg_length [OF assms(1)] by auto
  have "ibufferin l' = length m" "take (length m) (ibuffer l') = m" "length (ibuffer l') = 256"
    using l'(2) assms(3) by (simp_all add: ln_partial_def)
  then show ?thesis
    using l'(1) ln_pktlen_msg [OF assms(1) l'(2)] assms(3) ln_msg_length [OF assms(1)] by (simp add: ln_read_serial_def)
qed

lemma ln_feed_msg:
  assumes "ln_msg m" and "ln_partial m k l" and "k < length m"
  shows "\<exists>l'. ibufferin l' = 0 \<and> length (ibuffer l') = 256 \<and>
    ln_feed (drop k m @ cs) l = map_option (\<lambda>(ms, l). (m # ms, l)) (ln_feed cs l')"
  using assms(2,3)
proof (induction "length m - k" arbitrary: k l)
  case (Suc n)
  have d: "drop k m @ cs = m ! k # drop (Suc k) m @ cs" using Suc.prems(2) by (simp add: Cons_nth_drop_Suc)
  show ?case
  proof (cases "Suc k = length m")
    case True
    obtain l' where l': "ln_read_serial (Serial_byte (m ! k)) l = Some (int (length m), filled m, l')"
        "ibufferin l' = 0" "length (ibuffer l') = 256"
      using ln_read_last [OF assms(1) Suc.prems(1) True] by blast
    have "m \<noteq> []" using True by auto
    then have "ln_feed (drop k m @ cs) l = map_option (\<lambda>(ms, l). (m # ms, l)) (ln_feed cs l')"
      unfolding d using l'(1) by (cases "ln_feed cs l'") (auto simp: filled_def True)
    then show ?thesis using l'(2,3) by blast
  next
    case False
    then obtain l' where l': "ln_read_serial (Serial_byte (m ! k)) l = Some (0, filled [], l')" "ln_partial m (Suc k) l'"
      using ln_read_partial [OF assms(1) Suc.prems(1)] Suc.prems(2) by auto
    have "ln_feed (drop k m @ cs) l = ln_feed (drop (Suc k) m @ cs) l'"
      unfolding d using l'(1) by (cases "ln_feed (drop (Suc k) m @ cs) l'") auto
    then show ?thesis using Suc.hyps(1) [OF _ l'(2)] Suc.hyps(2) Suc.prems(2) False by auto
  qed
qed simp

text \<open>The bytes of any LocoNet messages one after the other, given to the driver byte by byte
  as the line delivers them, are handed on as these messages.\<close>

theorem loconet_messages_framed:
  assumes "ln_ok l" and "ibufferin l = 0" and "\<forall>m\<in>set ms. ln_msg m"
  shows "\<exists>l'. ln_feed (concat ms) l = Some (ms, l') \<and> ibufferin l' = 0"
proof -
  have "length (ibuffer l) = 256" using assms(1) by (simp add: ln_ok_def)
  then show ?thesis using assms(2,3)
  proof (induction ms arbitrary: l)
    case (Cons m ms)
    have "ln_partial m 0 l" using Cons.prems(1,2) by (simp add: ln_partial_def)
    moreover have "0 < length m" using ln_msg_length [of m] Cons.prems(3) by force
    ultimately obtain l' where "ibufferin l' = 0" "length (ibuffer l') = 256"
        "ln_feed (m @ concat ms) l = map_option (\<lambda>(ms, l). (m # ms, l)) (ln_feed (concat ms) l')"
      using ln_feed_msg [of m 0 l "concat ms"] Cons.prems(3) by auto
    then show ?case using Cons.IH [of l'] Cons.prems(3) by auto
  qed simp
qed
subsection \<open>Locomotive commands on LocoNet\<close>

text \<open>What a message about a slot changes in the entry of its locomotive.\<close>

definition msg_update :: "8 word list \<Rightarrow> gl_state \<Rightarrow> gl_state" where
  "msg_update m = (if m ! 0 = OPC_LOCO_SPD then spd_update (m ! 2)
     else if m ! 0 = OPC_LOCO_DIRF then dirf_update (m ! 2) else snd_update (m ! 2))"

lemma spd_byte_read:
  assumes "0 \<le> l_speed g" and "l_speed g \<le> 126"
  shows "spd_byte g AND 0x80 = 0" and
    "spd_update (spd_byte g) h = h\<lparr>l_speed := if l_speed g = 0 then 0 else l_speed g + 1\<rparr>"
proof -
  have "list_all (\<lambda>v. let c = (word_of_int (v + (if v > 0 then 1 else 0)) :: 8 word) in
      c AND 0x80 = 0 \<and> (if c = 1 then 0 else uint c) = (if v = 0 then 0 else v + 1)) [0..126]" by code_simp
  then show "spd_byte g AND 0x80 = 0" and
    "spd_update (spd_byte g) h = h\<lparr>l_speed := if l_speed g = 0 then 0 else l_speed g + 1\<rparr>"
    using assms by (auto simp: spd_byte_def spd_update_def list_all_iff Let_def)
qed

lemma small_nibble: "(n :: 8 word) AND 0x0f = n \<Longrightarrow> unat n < 16"
  by (rule all_bytesI [where P = "\<lambda>n. n AND 0x0f = n \<longrightarrow> unat n < 16", rule_format]) code_simp

lemma nibble_parts:
  fixes n :: "8 word"
  assumes "n AND 0x0f = n" and "d \<in> {0, 0x20}" and "z \<in> {0, 0x10}"
  shows "(d + z + n) AND 0x80 = 0 \<and> (d + z + n) AND 0x20 = d \<and> (d + z + n) AND 0x10 = z \<and> (d + z + n) AND 0x0f = n"
proof -
  have "list_all (\<lambda>k. list_all (\<lambda>d. list_all (\<lambda>z. let n = (word_of_nat k :: 8 word) in
     (d + z + n) AND 0x80 = 0 \<and> (d + z + n) AND 0x20 = d \<and> (d + z + n) AND 0x10 = z \<and> (d + z + n) AND 0x0f = n)
     [0, 0x10]) [0, 0x20]) [0..<16]" by code_simp
  then show ?thesis
    using assms(2,3) small_nibble [OF assms(1)]
    by (auto simp: list_all_iff Let_def dest!: bspec [of _ _ "unat n"])
qed

lemma dirf_funcs: "l_funcs (dirf_update v g) = (l_funcs g AND 0xffe0) OR
    (drop_bit 4 ((ucast v :: 32 word) AND 0x10) OR push_bit 1 ((ucast v :: 32 word) AND 0x0f))"
  by (simp add: dirf_update_def Let_def)

lemma dirf_byte_read:
  assumes "l_direction g \<in> {0, 1}"
  shows "dirf_byte g AND 0x80 = 0" and "l_direction (dirf_update (dirf_byte g) h) = l_direction g"
    and "i < 9 \<Longrightarrow> bit (l_funcs (dirf_update (dirf_byte g) h)) i = (if i < 5 then bit (l_funcs g) i else bit (l_funcs h) i)"
    and "l_speed (dirf_update (dirf_byte g) h) = l_speed h"
proof -
  define n where "n = (ucast (drop_bit 1 (l_funcs g) AND 0x0f) :: 8 word)"
  define d where "d = (if l_direction g \<noteq> 0 then 0 else DIRF_DIR)"
  define z where "z = (if l_funcs g AND 1 \<noteq> 0 then DIRF_F0 else 0)"
  have v: "dirf_byte g = d + z + n" by (simp add: dirf_byte_def d_def z_def n_def)
  have "n AND 0x0f = n" by (rule bit_word_eqI) (auto simp: n_def bit_simps)
  note p = nibble_parts [OF this, of d z, folded v]
  have p: "dirf_byte g AND 0x80 = 0" "dirf_byte g AND 0x20 = d" "dirf_byte g AND 0x10 = z" "dirf_byte g AND 0x0f = n"
    using p by (auto simp: d_def z_def)
  show "dirf_byte g AND 0x80 = 0" by (rule p)
  show "l_direction (dirf_update (dirf_byte g) h) = l_direction g"
    using assms by (auto simp: dirf_update_def p(2) d_def Let_def)
  show "l_speed (dirf_update (dirf_byte g) h) = l_speed h" by (simp add: dirf_update_def Let_def)
  have c: "(ucast (dirf_byte g) :: 32 word) AND 0x10 = ucast z" "(ucast (dirf_byte g) :: 32 word) AND 0x0f = ucast n"
    unfolding p(3,4) [symmetric] by (simp_all add: unsigned_and_eq)
  have z: "bit (drop_bit 4 (ucast z :: 32 word)) i = (i = 0 \<and> bit (l_funcs g) 0)" if "i < 9" for i
  proof -
    have "l_funcs g AND 1 \<noteq> 0 \<longleftrightarrow> bit (l_funcs g) 0" by (simp add: and_one_eq odd_iff_mod_2_eq_one bit_0)
    moreover have "i \<in> {0, 1, 2, 3, 4, 5, 6, 7, 8}" using that by auto
    ultimately show ?thesis by (auto simp: z_def bit_simps)
  qed
  have n: "bit (ucast n :: 32 word) j = (j < 4 \<and> bit (l_funcs g) (Suc j))" if "j < 8" for j
  proof -
    have "j \<in> {0, 1, 2, 3, 4, 5, 6, 7}" using that by auto
    then show ?thesis by (auto simp: n_def bit_simps)
  qed
  have m: "bit (0xffe0 :: 32 word) i = (5 \<le> i)" if "i < 9" for i
  proof -
    have "i \<in> {0, 1, 2, 3, 4, 5, 6, 7, 8}" using that by auto
    then show ?thesis by auto
  qed
  assume i: "i < 9"
  then have "i < LENGTH(32)" by simp
  then have "bit (l_funcs (dirf_update (dirf_byte g) h)) i =
      (bit (l_funcs h) i \<and> 5 \<le> i \<or> i = 0 \<and> bit (l_funcs g) 0 \<or> 1 \<le> i \<and> i - 1 < 4 \<and> bit (l_funcs g) (Suc (i - 1)))"
    unfolding dirf_funcs c bit_or_iff bit_and_iff bit_push_bit_iff z [OF i] m [OF i]
    using n [of "i - 1"] i by auto
  then show "bit (l_funcs (dirf_update (dirf_byte g) h)) i = (if i < 5 then bit (l_funcs g) i else bit (l_funcs h) i)"
    using i by (cases i) auto
qed

lemma snd_byte_read:
  shows "snd_byte g AND 0x80 = 0" and "l_direction (snd_update (snd_byte g) h) = l_direction h"
    and "i < 9 \<Longrightarrow> bit (l_funcs (snd_update (snd_byte g) h)) i = (if i < 5 then bit (l_funcs h) i else bit (l_funcs g) i)"
    and "l_speed (snd_update (snd_byte g) h) = l_speed h"
proof -
  show "snd_byte g AND 0x80 = 0"
  proof (rule bit_word_eqI)
    fix n :: nat assume "n < LENGTH(8)"
    then have "n \<in> {0, 1, 2, 3, 4, 5, 6, 7}" by auto
    then show "bit (snd_byte g AND 0x80) n = bit 0 n" by (auto simp: snd_byte_def bit_simps)
  qed
  show "l_direction (snd_update (snd_byte g) h) = l_direction h" "l_speed (snd_update (snd_byte g) h) = l_speed h"
    by (simp_all add: snd_update_def)
  assume "i < 9"
  then have "i \<in> {0, 1, 2, 3, 4, 5, 6, 7, 8}" by auto
  then show "bit (l_funcs (snd_update (snd_byte g) h)) i = (if i < 5 then bit (l_funcs h) i else bit (l_funcs g) i)"
    by (auto simp: snd_update_def snd_byte_def bit_simps)
qed

text \<open>The message of four bytes with its check byte: the exclusive or of all bytes is \<open>0xff\<close>.\<close>

definition msg4 :: "8 word \<Rightarrow> 8 word \<Rightarrow> 8 word \<Rightarrow> 8 word list" where
  "msg4 op p1 p2 = [op, p1, p2, ln_checksum [op, p1, p2]]"

lemma checksum_and: "(ln_checksum [op, p1, p2]) AND 0x80 = 0"
  if "op AND 0x80 = 0x80" "p1 AND 0x80 = 0" "p2 AND 0x80 = 0"
proof -
  have "bit op 7" "\<not> bit p1 7" "\<not> bit p2 7"
    using that by (auto simp: bit_eq_iff bit_simps dest: spec [of _ 7])
  then have b: "\<not> bit (ln_checksum [op, p1, p2]) 7" by (simp add: ln_checksum_def bit_simps)
  show ?thesis
  proof (rule bit_word_eqI)
    fix n :: nat assume "n < LENGTH(8)"
    then have "n \<in> {0, 1, 2, 3, 4, 5, 6, 7}" by auto
    then show "bit (ln_checksum [op, p1, p2] AND 0x80) n = bit 0 n" using b by (auto simp: bit_simps)
  qed
qed

lemma msg4_ok:
  assumes "op \<in> {OPC_LOCO_SPD, OPC_LOCO_DIRF, OPC_LOCO_SND, OPC_SW_REQ}" and "p1 AND 0x80 = 0" and "p2 AND 0x80 = 0"
  shows "ln_msg (msg4 op p1 p2)" and "fold (\<lambda>c s. s XOR c) (msg4 op p1 p2) 0 = 0xff"
proof -
  have "(OPC_LOCO_SPD AND 0x80) = 0x80" "(OPC_LOCO_DIRF AND 0x80) = 0x80" "(OPC_LOCO_SND AND 0x80) = 0x80"
    "(OPC_SW_REQ AND 0x80) = 0x80" "(OPC_LOCO_SPD AND 0xe0) = 0xa0" "(OPC_LOCO_DIRF AND 0xe0) = 0xa0"
    "(OPC_LOCO_SND AND 0xe0) = 0xa0" "(OPC_SW_REQ AND 0xe0) = 0xa0" by code_simp+
  then have "op AND 0x80 = 0x80" "op AND 0xe0 = 0xa0" using assms(1) by auto
  then show "ln_msg (msg4 op p1 p2)"
    using checksum_and [of op p1 p2] assms(2,3) by (simp add: ln_msg_def msg4_def)
  show "fold (\<lambda>c s. s XOR c) (msg4 op p1 p2) 0 = 0xff"
    by (simp add: msg4_def ln_checksum_def xor.assoc xor.left_commute xor.commute)
qed

text \<open>The messages \<open>ms\<close> were written to the serial line.\<close>

definition ln_sent :: "8 word list list \<Rightarrow> loconet \<Rightarrow> loconet" where
  "ln_sent ms l = l\<lparr>ln_bytes := ln_bytes l @ concat ms, sent_packets := sent_packets l + length ms\<rparr>"

lemma ln_sent_simps [simp]:
  "ln_sent [] l = l" "ln_sent ms (ln_sent ns l) = ln_sent (ns @ ms) l" "network (ln_sent ms l) = network l"
  "ln_bytes (ln_sent ms l) = ln_bytes l @ concat ms" "slotmap (ln_sent ms l) = slotmap l"
  by (simp_all add: ln_sent_def)

lemma ln_send4_ok:
  assumes "\<not> network l" and "length pack = 128" and "op \<noteq> OPC_IDLE"
  shows "\<exists>pack'. ln_send4 op p1 p2 pack l = Some (pack', ln_sent [msg4 op p1 p2] l) \<and>
    length pack' = 128 \<and> take 4 pack' = msg4 op p1 p2"
proof -
  obtain a b c d rest where p: "pack = a # b # c # d # rest"
    using assms(2) by (auto simp: length_Suc_conv numeral_eq_Suc)
  show ?thesis
    using assms by (simp add: ln_send4_def ln_sendmessage_def p msg4_def ln_write_def ln_write_serial_def ln_sent_def Let_def)
qed

lemma ln_resend:
  assumes "\<not> network l" and "length pack = 128" and "take 4 pack = msg4 op p1 p2" and "op \<noteq> OPC_IDLE"
  shows "ln_sendmessage 4 pack l = Some (0, pack, ln_sent [msg4 op p1 p2] l)"
proof -
  obtain a b c d rest where p: "pack = a # b # c # d # rest"
    using assms(2) by (auto simp: length_Suc_conv numeral_eq_Suc)
  show ?thesis
    using assms by (simp add: ln_sendmessage_def p msg4_def ln_write_def ln_write_serial_def ln_sent_def Let_def)
qed

text \<open>The messages for a command: the ones for what differs from \<open>cur\<close>.\<close>

definition gl_msgs :: "8 word \<Rightarrow> gl_state \<Rightarrow> gl_state \<Rightarrow> 8 word list list" where
  "gl_msgs slot g cur =
     (if l_speed g \<noteq> l_speed cur then [msg4 OPC_LOCO_SPD slot (spd_byte g)] else []) @
     (if l_direction g \<noteq> l_direction cur \<or> l_funcs g AND 0x1f \<noteq> l_funcs cur AND 0x1f
      then [msg4 OPC_LOCO_DIRF slot (dirf_byte g)] else []) @
     (if l_funcs g AND 0x1e0 \<noteq> l_funcs cur AND 0x1e0 then [msg4 OPC_LOCO_SND slot (snd_byte g)] else [])"

lemma maybe_send4:
  assumes "\<not> network l" and "length pack = 128" and "op \<noteq> OPC_IDLE"
  shows "\<exists>pack'. (if c then ln_send4 op p1 p2 pack l else Some (pack, l)) =
      Some (pack', ln_sent (if c then [msg4 op p1 p2] else []) l) \<and> length pack' = 128 \<and>
      take 4 pack' = (if c then msg4 op p1 p2 else take 4 pack)"
  using ln_send4_ok [OF assms, of p1 p2] assms(2) by auto

lemma ln_gl_command_ok:
  assumes "dequeueNextGL b w = Some (g, w1)" and "cacheGetGL b (l_id g) w1 = Some cur"
    and "cacheSetGL b (l_id g) g w1 = Some (rc, w2)" and "\<not> network l" and "length pack = 128"
  defines "ms \<equiv> gl_msgs (word_of_int (cacheGetSlotNumberforAddr (l_id g) l)) g cur"
  shows "\<exists>pack'. ln_gl_command glcur b pack l w = Some (if ms = [] then 2 else 4, pack', ln_sent ms l, w2) \<and>
    length pack' = 128 \<and> take 4 pack' = (if ms = [] then take 4 pack else last ms)"
proof -
  let ?slot = "word_of_int (cacheGetSlotNumberforAddr (l_id g) l) :: 8 word"
  let ?c1 = "l_speed g \<noteq> l_speed cur" let ?m1 = "if ?c1 then [msg4 OPC_LOCO_SPD ?slot (spd_byte g)] else []"
  let ?c2 = "l_direction g \<noteq> l_direction cur \<or> l_funcs g AND 0x1f \<noteq> l_funcs cur AND 0x1f"
  let ?m2 = "if ?c2 then [msg4 OPC_LOCO_DIRF ?slot (dirf_byte g)] else []"
  let ?c3 = "l_funcs g AND 0x1e0 \<noteq> l_funcs cur AND 0x1e0"
  let ?m3 = "if ?c3 then [msg4 OPC_LOCO_SND ?slot (snd_byte g)] else []"
  obtain pa where pa: "(if ?c1 then ln_send4 OPC_LOCO_SPD ?slot (spd_byte g) pack l else Some (pack, l)) =
      Some (pa, ln_sent ?m1 l)" "length pa = 128" "take 4 pa = (if ?c1 then msg4 OPC_LOCO_SPD ?slot (spd_byte g) else take 4 pack)"
    using maybe_send4 [OF assms(4,5), of OPC_LOCO_SPD ?c1 ?slot "spd_byte g"] by auto
  obtain pb where pb: "(if ?c2 then ln_send4 OPC_LOCO_DIRF ?slot (dirf_byte g) pa (ln_sent ?m1 l) else Some (pa, ln_sent ?m1 l)) =
      Some (pb, ln_sent (?m1 @ ?m2) l)" "length pb = 128"
      "take 4 pb = (if ?c2 then msg4 OPC_LOCO_DIRF ?slot (dirf_byte g) else take 4 pa)"
    using maybe_send4 [of "ln_sent ?m1 l" pa OPC_LOCO_DIRF ?c2 ?slot "dirf_byte g"] assms(4) pa(2) by auto
  obtain pc where pc: "(if ?c3 then ln_send4 OPC_LOCO_SND ?slot (snd_byte g) pb (ln_sent (?m1 @ ?m2) l)
        else Some (pb, ln_sent (?m1 @ ?m2) l)) = Some (pc, ln_sent ((?m1 @ ?m2) @ ?m3) l)" "length pc = 128"
      "take 4 pc = (if ?c3 then msg4 OPC_LOCO_SND ?slot (snd_byte g) else take 4 pb)"
    using maybe_send4 [of "ln_sent (?m1 @ ?m2) l" pb OPC_LOCO_SND ?c3 ?slot "snd_byte g"] assms(4) pb(2) by auto
  have ms: "ms = (?m1 @ ?m2) @ ?m3" by (simp add: ms_def gl_msgs_def)
  have "ln_gl_command glcur b pack l w = Some (if ?c1 \<or> ?c2 \<or> ?c3 then 4 else 2, pc, ln_sent ms l, w2)"
    unfolding ln_gl_command_def Let_def assms(1,2) bind.bind_lunit prod.case option.case pa(1) pb(1) pc(1) ms
    by (simp add: assms(3))
  then show ?thesis using pa(3) pb(3) pc(2,3) by (auto simp: ms)
qed

lemma gl_msgs_read:
  assumes "0 \<le> l_speed g" and "l_speed g \<le> 126" and "l_direction g \<in> {0, 1}" and "s < 128"
  shows "\<forall>m\<in>set (gl_msgs (word_of_nat s) g cur). ln_msg m \<and> fold (\<lambda>c s. s XOR c) m 0 = 0xff \<and>
      ln_receive b (filled m) th l w = map_option (\<lambda>(th, w). (th, l, w)) (slot_update (msg_update m) b s th l w)"
proof -
  let ?s = "word_of_nat s :: 8 word"
  have "list_all (\<lambda>s. (word_of_nat s :: 8 word) AND 0x80 = 0 \<and> unat (word_of_nat s :: 8 word) = s) [0..<128]" by code_simp
  then have s: "?s AND 0x80 = 0" "unat ?s = s" using assms(4) by (simp_all add: list_all_iff)
  have ops: "OPC_LOCO_SPD \<noteq> OPC_GPOFF" "OPC_LOCO_DIRF \<noteq> OPC_GPOFF" by simp_all
  have r: "ln_receive b (filled (msg4 op ?s v)) th l w =
      map_option (\<lambda>(th, w). (th, l, w)) (slot_update (msg_update (msg4 op ?s v)) b s th l w)"
    if "op \<in> {OPC_LOCO_SPD, OPC_LOCO_DIRF, OPC_LOCO_SND}" for op v
    using that by (auto simp: ln_receive_def filled_def msg4_def msg_update_def s(2) Let_def)
  have m: "ln_msg (msg4 op ?s v)" "fold (\<lambda>c s. s XOR c) (msg4 op ?s v) 0 = 0xff"
    if "op \<in> {OPC_LOCO_SPD, OPC_LOCO_DIRF, OPC_LOCO_SND}" "v AND 0x80 = 0" for op v
    using msg4_ok [of op ?s v] s(1) that by auto
  have v: "spd_byte g AND 0x80 = 0" "dirf_byte g AND 0x80 = 0" "snd_byte g AND 0x80 = 0"
    by (rule spd_byte_read(1) [OF assms(1,2)], rule dirf_byte_read(1) [OF assms(3)], rule snd_byte_read(1))
  have "\<forall>m\<in>set (gl_msgs ?s g cur). \<exists>op v. m = msg4 op ?s v \<and>
      op \<in> {OPC_LOCO_SPD, OPC_LOCO_DIRF, OPC_LOCO_SND} \<and> v AND 0x80 = 0"
    unfolding gl_msgs_def using v by auto
  then show ?thesis using m r by metis
qed

lemma funcs_differ:
  "(x :: 32 word) AND 0x1f = y AND 0x1f \<Longrightarrow> i < 5 \<Longrightarrow> bit x i = bit y i"
  "x AND 0x1e0 = y AND 0x1e0 \<Longrightarrow> 5 \<le> i \<Longrightarrow> i < 9 \<Longrightarrow> bit x i = bit y i"
proof -
  assume a: "x AND 0x1f = y AND 0x1f" "i < 5"
  then have "bit (x AND 0x1f) i = bit (y AND 0x1f) i" by simp
  moreover have "i \<in> {0, 1, 2, 3, 4}" using a(2) by auto
  ultimately show "bit x i = bit y i" by (auto simp: bit_simps)
next
  assume a: "x AND 0x1e0 = y AND 0x1e0" "5 \<le> i" "i < 9"
  then have "bit (x AND 0x1e0) i = bit (y AND 0x1e0) i" by simp
  moreover have "i \<in> {5, 6, 7, 8}" using a(2,3) by auto
  ultimately show "bit x i = bit y i" by (auto simp: bit_simps)
qed

lemma gl_msgs_mirrored:
  fixes cur :: gl_state and s :: "8 word"
  assumes "0 \<le> l_speed g" and "l_speed g \<le> 126" and "l_direction g \<in> {0, 1}"
  defines "h \<equiv> fold msg_update (gl_msgs s g cur) cur"
  shows "l_direction h = l_direction g \<and> (\<forall>i<9. bit (l_funcs h) i = bit (l_funcs g) i) \<and>
    l_speed h = (if l_speed g = l_speed cur \<or> l_speed g = 0 then l_speed g else l_speed g + 1)"
proof -
  have u: "msg_update (msg4 OPC_LOCO_SPD s v) = spd_update v" "msg_update (msg4 OPC_LOCO_DIRF s v) = dirf_update v"
    "msg_update (msg4 OPC_LOCO_SND s v) = snd_update v" for v
    by (simp_all add: msg_update_def msg4_def fun_eq_iff)
  define h1 where "h1 = (if l_speed g \<noteq> l_speed cur then spd_update (spd_byte g) cur else cur)"
  define h2 where "h2 = (if l_direction g \<noteq> l_direction cur \<or> l_funcs g AND 0x1f \<noteq> l_funcs cur AND 0x1f
    then dirf_update (dirf_byte g) h1 else h1)"
  have h: "h = (if l_funcs g AND 0x1e0 \<noteq> l_funcs cur AND 0x1e0 then snd_update (snd_byte g) h2 else h2)"
    by (simp add: h_def gl_msgs_def u h1_def h2_def)
  have h1: "l_direction h1 = l_direction cur" "l_funcs h1 = l_funcs cur"
    "l_speed h1 = (if l_speed g = l_speed cur \<or> l_speed g = 0 then l_speed g else l_speed g + 1)"
    using spd_byte_read(2) [OF assms(1,2)] by (auto simp: h1_def)
  have h2: "l_direction h2 = l_direction g" "l_speed h2 = l_speed h1"
    using dirf_byte_read(2,4) [OF assms(3)] h1(1) by (auto simp: h2_def)
  have f2: "bit (l_funcs h2) i = (if i < 5 then bit (l_funcs g) i else bit (l_funcs cur) i)" if "i < 9" for i
    using dirf_byte_read(3) [OF assms(3) that, of h1] h1(2) funcs_differ(1) [of "l_funcs g" "l_funcs cur" i]
    by (auto simp: h2_def)
  have "bit (l_funcs h) i = bit (l_funcs g) i" if "i < 9" for i
    unfolding h using snd_byte_read(3) [OF that, of g h2] f2 [OF that]
      funcs_differ(2) [of "l_funcs g" "l_funcs cur" i] that by (auto simp: not_less)
  moreover have "l_direction h = l_direction g" "l_speed h = l_speed h1"
    unfolding h using snd_byte_read(2,4) h2 by simp_all
  ultimately show ?thesis using h1(3) by simp
qed


definition sample_loconet :: loconet where
  "sample_loconet = \<lparr>network = False, dev_ok = True, net_ok = True, ln_flags = 0, sent_packets = 0, recv_packets = 0,
     ibufferin = 0, ibuffer = replicate 256 0, slotmap = (replicate 128 0)[5 := 3], ln_bytes = [], ln_lines = []\<rparr>"

theorem loconet_messages_framed_witness:
  "\<exists>l'. ln_feed [0x83, 0x7c, 0xa0, 0x05, 0x14, 0x4e] sample_loconet = Some ([[0x83, 0x7c], [0xa0, 0x05, 0x14, 0x4e]], l')"
proof -
  have "(0x83 AND 0x80) = (0x80 :: 8 word)" "(0xa0 AND 0x80) = (0x80 :: 8 word)" "(0x7c AND 0x80) = (0 :: 8 word)"
    "(0x05 AND 0x80) = (0 :: 8 word)" "(0x14 AND 0x80) = (0 :: 8 word)" "(0x4e AND 0x80) = (0 :: 8 word)"
    "(0x83 AND 0xe0) = (0x80 :: 8 word)" "(0xa0 AND 0xe0) = (0xa0 :: 8 word)" by code_simp+
  then have "ln_msg [0x83, 0x7c]" "ln_msg [0xa0, 0x05, 0x14, 0x4e]" by (simp_all add: ln_msg_def)
  then show ?thesis
    using loconet_messages_framed [of sample_loconet "[[0x83, 0x7c], [0xa0, 0x05, 0x14, 0x4e]]"]
    by (auto simp: sample_loconet_def ln_ok_def)
qed

definition ln_world :: world where
  "ln_world = sample_world\<lparr>gl_queue := (\<lambda>_. \<lparr>slots = [sample_gl\<lparr>l_speed := 20, l_direction := 1, l_funcs := 0x21\<rparr>, zero_gl],
     wr = 1, rd = 0\<rparr>)\<rparr>"


end
