(* ===== verification/Li100.thy ===== *)
theory Li100
  imports Driver_Inv
begin

text \<open>
  The Lenz LI100 driver, \<open>li100.c\<close> and \<open>li100-main.c\<close>: a command station on XpressNet behind
  a serial or a USB interface. \<open>li100.c\<close> is compiled twice, with and without \<open>LI100_USB\<close>; the
  field \<open>usb\<close> tells the two apart. The driver's data is \<open>li100\<close>, with what crosses the line:
  the bytes written, the results of the reads to come, and the answers of \<open>FIONREAD\<close> to come,
  any of which may be anything. Opening the line and its settings are calls to the operating
  system; debug levels that keep the driver from using the hardware are not modelled.
\<close>

unbundle bit_operations_syntax

subsection \<open>Data\<close>

text \<open>Variables of \<open>readAnswer\<close> that are not initialized: \<open>gltmp\<close>, \<open>glakt\<close>, \<open>gatmp\<close> and the
  20 bytes of \<open>buffer\<close>.\<close>

record li_vars =
  v_buf :: "8 word list"
  v_gl :: gl_state
  v_cur :: gl_state
  v_ga :: ga_state

text \<open>A read gives a byte or, after a tenth of a second, nothing; after the last one nothing
  more comes. \<open>li_junk\<close> is what the stack holds at each call of a function that has
  uninitialized variables. The \<open>-1\<close> of \<open>last_type\<close> is \<open>None\<close>.\<close>

record li100 =
  usb :: bool
  li_number_ga :: int
  li_number_gl :: int
  li_number_fb :: int
  last_bit :: int
  last_type :: "sm_type option"
  last_typeaddr :: int
  last_value :: int
  get_addr :: int
  li_tga :: "ga_state list"
  emergency_on :: int
  version_interface :: int
  code_interface :: int
  version_zentrale :: int
  extern_engine :: "int list"
  extern_engine_ctr :: int
  pgm_mode :: int
  working :: int
  li_tx :: "8 word list"
  li_rx :: "8 word option list"
  li_polls :: "bool list"
  li_junk :: "nat \<Rightarrow> li_vars"

definition pop_junk :: "li100 \<Rightarrow> li_vars \<times> li100" where
  "pop_junk l = (li_junk l 0, l\<lparr>li_junk := (\<lambda>n. li_junk l (Suc n))\<rparr>)"

definition init_gl_LI100 :: "gl_state \<Rightarrow> int \<times> gl_state" where
  "init_gl_LI100 g = (SRCP_OK, g\<lparr>l_protocol := CHR ''N''\<rparr>)"

definition init_ga_LI100 :: "ga_state \<Rightarrow> int \<times> ga_state" where
  "init_ga_LI100 a = (SRCP_OK, a\<lparr>a_protocol := CHR ''N''\<rparr>)"

subsection \<open>Locomotives another device controls\<close>

text \<open>The search for the address only ends early when it is found: it is entered again.\<close>

definition add_extern_engine :: "int \<Rightarrow> li100 \<Rightarrow> li100" where
  "add_extern_engine address l =
     (let i = (if extern_engine_ctr l = 0 then Some 0
               else if extern_engine_ctr l < 100 then find (\<lambda>i. extern_engine l ! i = -1) [0..<100] else None)
      in case i of None \<Rightarrow> l
         | Some i \<Rightarrow> l\<lparr>extern_engine := (extern_engine l)[i := address],
                       extern_engine_ctr := extern_engine_ctr l + 1\<rparr>)"

definition remove_extern_engine :: "int \<Rightarrow> li100 \<Rightarrow> li100" where
  "remove_extern_engine address l =
     (case find (\<lambda>i. extern_engine l ! i = address) [0..<100] of None \<Rightarrow> l
      | Some i \<Rightarrow> l\<lparr>extern_engine := (extern_engine l)[i := -1], extern_engine_ctr := extern_engine_ctr l - 1\<rparr>)"

subsection \<open>Reading\<close>

definition readByte :: "nat \<Rightarrow> 8 word list \<Rightarrow> li100 \<Rightarrow> int \<times> 8 word list \<times> li100" where
  "readByte i buf l =
     (case li_rx l of [] \<Rightarrow> (-1, buf, l)
      | None # r \<Rightarrow> (-1, buf, l\<lparr>li_rx := r\<rparr>)
      | Some c # r \<Rightarrow> (0, buf[i := c], l\<lparr>li_rx := r\<rparr>))"

fun read_bytes :: "nat list \<Rightarrow> 8 word list \<Rightarrow> li100 \<Rightarrow> 8 word list \<times> li100" where
  "read_bytes [] buf l = (buf, l)"
| "read_bytes (i # is) buf l = (let (_, buf, l) = readByte i buf l in read_bytes is buf l)"

definition xor_all :: "8 word list \<Rightarrow> 8 word" where
  "xor_all m = fold (\<lambda>c s. s XOR c) m 0"

text \<open>One message: the length is in the low four bits of its first byte. The status is that of
  the first read, or \<open>-1\<close> if the exclusive or of all bytes is not 0.\<close>

definition li_fetch :: "8 word list \<Rightarrow> li100 \<Rightarrow> int \<times> nat \<times> 8 word list \<times> li100" where
  "li_fetch buf l =
     (let (status, buf, l) = readByte 0 buf l;
          (buf, l) = (if usb l then read_bytes [0, 0] buf l else (buf, l));
          n = unat (buf ! 0 AND 0x0f) + 2;
          (buf, l) = read_bytes [1..<n] buf l
      in (if xor_all (take n buf) \<noteq> 0 then -1 else status, n, buf, l))"

subsection \<open>Messages from the command station\<close>

text \<open>\<open>0x61\<close>: power, service mode, the result of programming.\<close>

definition li_power :: "nat \<Rightarrow> 8 word \<Rightarrow> li100 \<Rightarrow> world \<Rightarrow> (li100 \<times> world) option" where
  "li_power b b1 l w =
     (if b1 = 0x00 then
        if emergency_on l = 0 \<and> getPower b w \<noteq> 0
        then do { (_, w) \<leftarrow> setPower b 0 ''Emergency Stop'' w; Some (l\<lparr>emergency_on := 1\<rparr>, w) }
        else Some (l, w)
      else if b1 = 0x01 then
        if emergency_on l = 1 \<or> getPower b w = 0
        then do { (_, w) \<leftarrow> setPower b 1 ''No Emergency Stop'' w; Some (l\<lparr>emergency_on := 0\<rparr>, w) }
        else if pgm_mode l = 1
        then do { (_, w) \<leftarrow> setPower b 1 ''Service mode end'' (session_endwait b (-1) w); Some (l\<lparr>pgm_mode := 0\<rparr>, w) }
        else Some (l, w)
      else if b1 = 0x02 then
        if pgm_mode l = 0
        then do { (_, w) \<leftarrow> setPower b (-1) ''Service mode start'' w; Some (l\<lparr>pgm_mode := 1\<rparr>, w) }
        else Some (l, w)
      else if b1 = 0x13 then
        (case last_type l of None \<Rightarrow> Some (l, w)
         | Some ty \<Rightarrow> do {
             (_, w) \<leftarrow> setSM b ty (-1) (last_typeaddr l) (last_bit l) (last_value l) (-1) (session_endwait b (-1) w);
             Some (l\<lparr>last_type := None\<rparr>, w) })
      else Some (l, w))"

text \<open>\<open>0x62\<close>, \<open>0x63\<close>: the version of the command station. Old ones on a serial line have fewer
  addresses.\<close>

definition nibbles :: "8 word \<Rightarrow> int" where
  "nibbles v = push_bit 4 (uint (v AND 0xf0)) + uint (v AND 0x0f)"

definition li_version :: "8 word list \<Rightarrow> li100 \<Rightarrow> li100" where
  "li_version buf l =
     (if buf ! 1 = 0x21 then
        let l = l\<lparr>version_zentrale := nibbles (buf ! 2),
                  code_interface := (if buf ! 0 = 0x63 then uint (buf ! 3) else -1)\<rparr>
        in if \<not> usb l \<and> version_zentrale l < 0x0300
           then l\<lparr>li_number_gl := min (li_number_gl l) 99, li_number_ga := min (li_number_ga l) 256\<rparr> else l
      else l)"

text \<open>\<open>0x63 0x1x\<close>: the value of a register or CV that was read.\<close>

definition li_programmed :: "nat \<Rightarrow> 8 word list \<Rightarrow> li100 \<Rightarrow> world \<Rightarrow> (li100 \<times> world) option" where
  "li_programmed b buf l w =
     (case last_type l of None \<Rightarrow> Some (l, w)
      | Some ty \<Rightarrow> do {
          (_, w) \<leftarrow> setSM b ty (-1) (last_typeaddr l) (last_bit l) (uint (buf ! 3)) 0
                     (session_endwait b (uint (buf ! 3)) w);
          Some (l\<lparr>last_type := None\<rparr>, w) })"

text \<open>The entry is changed only if the report differs from it; the number of speed steps is
  whatever \<open>gltmp\<close> holds.\<close>

definition li_loco_update :: "nat \<Rightarrow> li_vars \<Rightarrow> world \<Rightarrow> (li_vars \<times> world) option" where
  "li_loco_update b v w = do {
     let cur = (case cacheGetGL b (l_id (v_gl v)) w of Some g \<Rightarrow> g | None \<Rightarrow> v_cur v);
     let g = (v_gl v)\<lparr>l_n_func := l_n_func cur\<rparr>;
     let v = v\<lparr>v_gl := g, v_cur := cur\<rparr>;
     if l_speed cur \<noteq> l_speed g \<or> l_direction cur \<noteq> l_direction g \<or> l_funcs cur \<noteq> l_funcs g
     then do { (_, w) \<leftarrow> cacheSetGL b (l_id g) g w; Some (v, w) }
     else Some (v, w) }"

text \<open>\<open>0x83\<close>, \<open>0xa3\<close>: a locomotive, from a station before version 3. \<open>buffer[4]\<close> is the check byte
  of this message.\<close>

definition li_report_old :: "8 word list \<Rightarrow> gl_state \<Rightarrow> gl_state" where
  "li_report_old buf g =
     (let s = uint (buf ! 2 AND 0x0f)
      in g\<lparr>l_id := uint (buf ! 1),
           l_direction := (if s = 1 then 2 else if buf ! 2 AND 0x40 \<noteq> 0 then 1 else 0),
           l_speed := (if s = 1 then 0 else if 0 < s then s - 1 else s),
           l_funcs := (push_bit 1 (ucast (buf ! 3 AND 0x0f)) OR (if buf ! 2 AND 0x20 \<noteq> 0 then 1 else 0))
                      OR push_bit 5 (ucast (buf ! 4))\<rparr>)"

text \<open>\<open>0xe4\<close>: a locomotive, from version 3 on. The address is the one that was asked for.\<close>

definition report_speed :: "8 word \<Rightarrow> 8 word \<Rightarrow> int \<Rightarrow> int" where
  "report_speed mode v old =
     (let m = mode AND 7; s = uint (v AND 0x7f)
      in if m = 0 \<or> m = 4 then (if s = 1 then 0 else if 0 < s then s - 1 else s)
         else if m = 1 \<or> m = 2 then
           (let s = push_bit 1 s;
                s = (if s AND 0x20 \<noteq> 0 then s OR 1 else s);
                s = s AND 0xdf
            in if s = 2 then 0 else if 0 < s then s - 3 else s)
         else old)"

definition li_report :: "int \<Rightarrow> 8 word list \<Rightarrow> gl_state \<Rightarrow> gl_state" where
  "li_report value buf g =
     g\<lparr>l_id := value AND 0x3fff,
       l_direction := (if buf ! 2 AND 0x80 \<noteq> 0 then 1 else 0),
       l_speed := report_speed (buf ! 1) (buf ! 2) (l_speed g),
       l_funcs := push_bit 5 (ucast (buf ! 4)) OR
         (push_bit 1 (ucast (buf ! 3 AND 0x0f)) OR (if buf ! 3 AND 0x10 \<noteq> 0 then 1 else 0))\<rparr>"

text \<open>\<open>0xe3\<close>: the next address on the stack; another device took a locomotive over; the functions
  from 13 on, which are compared but not entered.\<close>

definition li_status_report :: "nat \<Rightarrow> 8 word list \<Rightarrow> li_vars \<Rightarrow> li100 \<Rightarrow> world \<Rightarrow> (li_vars \<times> li100 \<times> world) option" where
  "li_status_report b buf v l w =
     (if buf ! 1 AND 0x30 = 0x30 then Some (v, l\<lparr>get_addr := 256 * uint (buf ! 2) + uint (buf ! 3)\<rparr>, w)
      else if buf ! 1 = 0x40 then
        Some (v, add_extern_engine (uint (buf ! 3) OR push_bit 8 (uint (buf ! 2))) l, w)
      else if buf ! 1 = 0x52 then do {
        let v = (case cacheGetGL b (get_addr l) w of Some g \<Rightarrow> v\<lparr>v_gl := g\<rparr> | None \<Rightarrow> v);
        let fncblock = push_bit 13 (push_bit 8 (ucast (buf ! 3)) OR ucast (buf ! 2));
        let tmpfuncs = (l_funcs (v_gl v) AND NOT 0x1fffe000) OR fncblock;
        if l_funcs (v_gl v) \<noteq> tmpfuncs
        then do { (_, w) \<leftarrow> cacheSetGL b (get_addr l) (v_gl v) w; Some (v, l, w) }
        else Some (v, l, w) }
      else Some (v, l, w))"

definition li_loco :: "nat \<Rightarrow> 8 word list \<Rightarrow> li_vars \<Rightarrow> li100 \<Rightarrow> world \<Rightarrow> (li_vars \<times> li100 \<times> world) option" where
  "li_loco b buf v l w =
     (let b0 = buf ! 0
      in if b0 = 0x63 \<and> buf ! 1 AND 0xf0 = 0x10 then map_option (\<lambda>(l, w). (v, l, w)) (li_programmed b buf l w)
         else if b0 = 0x83 \<or> b0 = 0xa3 then
           let l = (if b0 AND 0x20 \<noteq> 0 then add_extern_engine (uint (buf ! 1)) l
                    else remove_extern_engine (uint (buf ! 1)) l)
           in map_option (\<lambda>(v, w). (v, l, w)) (li_loco_update b (v\<lparr>v_gl := li_report_old buf (v_gl v)\<rparr>) w)
         else if b0 = 0xe3 then li_status_report b buf v l w
         else if b0 = 0xe4 then
           let g = li_report (last_value l) buf (v_gl v);
               l = (if buf ! 1 AND 0x08 = 0 then remove_extern_engine (last_value l) l else l)
           in map_option (\<lambda>(v, w). (v, l, w)) (li_loco_update b (v\<lparr>v_gl := g\<rparr>) w)
         else Some (v, l, w))"

text \<open>\<open>0x4x\<close>: pairs of bytes \<open>AAAAAAAA ITTNZZZZ\<close>, about two turnouts each or four feedback ports.\<close>

definition turnout :: "nat \<Rightarrow> int \<Rightarrow> 8 word \<Rightarrow> ga_state \<Rightarrow> world \<Rightarrow> (ga_state \<times> world) option" where
  "turnout b addr z g w =
     (let g = g\<lparr>a_id := addr\<rparr>
      in if z = 1 \<or> z = 2
         then let g = g\<lparr>a_port := (if z = 1 then 0 else 1), a_action := 1\<rparr>
              in map_option (\<lambda>(_, w). (g, w)) (setGA b addr g w)
         else Some (g, w))"

definition turnout_addr :: "8 word \<Rightarrow> 8 word \<Rightarrow> int" where
  "turnout_addr a z = push_bit 2 (uint a) + 1 + (if z AND 0x10 \<noteq> 0 then 2 else 0)"

definition li_info_pair :: "nat \<Rightarrow> 8 word \<Rightarrow> 8 word \<Rightarrow> ga_state \<Rightarrow> world \<Rightarrow> (ga_state \<times> world) option" where
  "li_info_pair b a z g w =
     (if z AND 0x60 = 0x00 \<or> z AND 0x60 = 0x20 then do {
        (g, w) \<leftarrow> turnout b (turnout_addr a z) (z AND 0x03) g w;
        turnout b (turnout_addr a z + 1) (drop_bit 2 (z AND 0x0c)) g w }
      else if z AND 0x60 = 0x40 then
        map_option (\<lambda>(_, w). (g, w))
          (setFBmodul b (uint a * 2 + (if z AND 0x10 \<noteq> 0 then 2 else 1)) (uint (z AND 0x0f)) w)
      else Some (g, w))"

fun li_info_pairs :: "nat \<Rightarrow> 8 word list \<Rightarrow> ga_state \<Rightarrow> world \<Rightarrow> (ga_state \<times> world) option" where
  "li_info_pairs b (a # z # r) g w = do { (g, w) \<leftarrow> li_info_pair b a z g w; li_info_pairs b r g w }"
| "li_info_pairs b _ g w = Some (g, w)"

text \<open>A message that was read. The result is \<open>ctr\<close>, the variable that also counts the attempts.\<close>

definition li_process :: "nat \<Rightarrow> nat \<Rightarrow> 8 word list \<Rightarrow> li_vars \<Rightarrow> li100 \<Rightarrow> world
    \<Rightarrow> (int \<times> li_vars \<times> li100 \<times> world) option" where
  "li_process b n buf v l w = do {
     let b0 = buf ! 0;
     let l = (if b0 = 0x02 then l\<lparr>version_interface := nibbles (buf ! 1), code_interface := uint (buf ! 2)\<rparr> else l);
     (l, w) \<leftarrow> (if b0 = 0x61 then li_power b (buf ! 1) l w else Some (l, w));
     let l = (if b0 = 0x62 \<or> b0 = 0x63 then li_version buf l else l);
     (v, l, w) \<leftarrow> li_loco b buf v l w;
     if b0 AND 0xf0 = 0x40 then do {
       let m = unat (b0 AND 0x0f);
       (g, w) \<leftarrow> li_info_pairs b (take m (tl buf)) (v_ga v) w;
       Some (int m, v\<lparr>v_ga := g\<rparr>, l, w) }
     else Some (int n, v, l, w) }"

text \<open>\<open>readAnswer\<close>: messages are read and processed until one is free of errors. \<open>ctr\<close> is meant
  to end this after 50 attempts, but each attempt sets it anew. Without an answer there is no
  end, and no result.\<close>

partial_function (option) li_wait :: "int \<Rightarrow> nat \<Rightarrow> li_vars \<Rightarrow> li100 \<Rightarrow> world \<Rightarrow> (int \<times> li100 \<times> world) option" where
  "li_wait ctr b v l w =
     (if ctr - 1 < 0 then Some (-1, l, w)
      else do {
        let (status, n, buf, l) = li_fetch (v_buf v) l;
        (ctr, v, l, w) \<leftarrow> li_process b n buf (v\<lparr>v_buf := buf\<rparr>) l w;
        if status = -1 then li_wait ctr b v l w else Some (status, l, w) })"

definition readAnswer :: "nat \<Rightarrow> li100 \<Rightarrow> world \<Rightarrow> (int \<times> li100 \<times> world) option" where
  "readAnswer b l w =
     (let (v, l) = pop_junk l in li_wait 50 b (v\<lparr>v_gl := (v_gl v)\<lparr>l_speed := 0, l_funcs := 0\<rparr>\<rparr>) l w)"

text \<open>The loop ends when \<open>FIONREAD\<close> says that nothing is left to read.\<close>

fun li_poll :: "bool list \<Rightarrow> nat \<Rightarrow> li100 \<Rightarrow> world \<Rightarrow> (li100 \<times> world) option" where
  "li_poll [] b l w = Some (l\<lparr>li_polls := []\<rparr>, w)"
| "li_poll (p # ps) b l w =
     (if p then do { (_, l, w) \<leftarrow> readAnswer b l w; li_poll ps b l w } else Some (l\<lparr>li_polls := ps\<rparr>, w))"

definition check_status :: "nat \<Rightarrow> li100 \<Rightarrow> world \<Rightarrow> (li100 \<times> world) option" where
  "check_status b l w = li_poll (li_polls l) b l w"

subsection \<open>Writing\<close>

text \<open>The length is in the low four bits of the first byte; the exclusive or of all bytes, which
  is sent last, makes that of the message 0. On USB two bytes come first.\<close>

definition li_frame :: "8 word list \<Rightarrow> 8 word list" where
  "li_frame m = m @ [xor_all m]"

definition send_command :: "nat \<Rightarrow> 8 word list \<Rightarrow> li100 \<Rightarrow> world \<Rightarrow> (int \<times> li100 \<times> world) option" where
  "send_command b str l w =
     (let n = unat (str ! 0 AND 0x0f) + 1
      in if length str < n then None
         else readAnswer b (l\<lparr>li_tx := li_tx l @ (if usb l then [0xff, 0xfe] else []) @ li_frame (take n str)\<rparr>) w)"

text \<open>Several commands; the status is that of the last.\<close>

fun send_all :: "nat \<Rightarrow> int \<Rightarrow> 8 word list list \<Rightarrow> li100 \<Rightarrow> world \<Rightarrow> (int \<times> li100 \<times> world) option" where
  "send_all b status [] l w = Some (status, l, w)"
| "send_all b status (m # ms) l w = do { (status, l, w) \<leftarrow> send_command b m l w; send_all b status ms l w }"

subsection \<open>Accessories\<close>

definition ga_bytes :: "int \<Rightarrow> int \<Rightarrow> bool \<Rightarrow> 8 word list" where
  "ga_bytes addr port on =
     (let temp = addr - 1
      in [0x52, word_of_int (drop_bit 2 temp),
          0x80 OR word_of_int (push_bit 1 (temp AND 3)) OR (if on then 0x08 else 0) OR (if 0 < port then 0x01 else 0)])"

definition li_tga_step :: "nat \<Rightarrow> timeval \<Rightarrow> nat \<Rightarrow> li100 \<times> world \<Rightarrow> (li100 \<times> world) option" where
  "li_tga_step b akt i lw =
     (let (l, w) = lw; g = li_tga l ! i
      in if 0 < a_id g \<and> cmpTime (a_t g) akt then do {
           (_, l, w) \<leftarrow> send_command b (ga_bytes (a_id g) (a_port g) False) l w;
           (_, w) \<leftarrow> setGA b (a_id g) (g\<lparr>a_action := 0\<rparr>) w;
           Some (l\<lparr>li_tga := (li_tga l)[i := (li_tga l ! i)\<lparr>a_id := 0\<rparr>]\<rparr>, w) }
         else Some (l, w))"

text \<open>A command that is to be switched off later goes to the table, and only if there is no room
  is it entered at once.\<close>

definition send_command_ga :: "nat \<Rightarrow> li100 \<Rightarrow> world \<Rightarrow> (li100 \<times> world) option" where
  "send_command_ga b l w = do {
     let akt = now w;
     (l, w) \<leftarrow> loopM (li_tga_step b akt) [0..<50] (l, tick w);
     if \<not> queue_GA_isempty b w then do {
       (g, w) \<leftarrow> dequeueNextGA b w;
       (_, l, w) \<leftarrow> send_command b (ga_bytes (a_id g) (a_port g) (0 < a_action g)) l w;
       if 0 < a_action g \<and> 0 < a_activetime g \<and> (\<exists>x\<in>set (li_tga l). a_id x = 0)
       then Some (l\<lparr>li_tga := tga_store (g\<lparr>a_t := tga_due akt (a_activetime g)\<rparr>) (li_tga l)\<rparr>, w)
       else do { (_, w) \<leftarrow> setGA b (a_id g) g w; Some (l, w) } }
     else Some (l, w) }"

subsection \<open>Locomotives\<close>

definition addr_high :: "int \<Rightarrow> 8 word" where
  "addr_high addr = word_of_int (drop_bit 8 addr) OR (if 99 < addr then 0xc0 else 0)"

definition addr_low :: "int \<Rightarrow> 8 word" where
  "addr_low addr = word_of_int (addr AND 0xff)"

text \<open>Speed in 14 and in 27 or 28 steps: step 1 is the emergency stop, and the lowest of five bits
  is sent as bit 4.\<close>

definition speed14 :: "int \<Rightarrow> 8 word" where
  "speed14 s = word_of_int s + (if 0 < s then 1 else 0)"

definition speed28 :: "int \<Rightarrow> 8 word" where
  "speed28 s =
     (let v = word_of_int s + (if 0 < s then 3 else 0);
          v = (if v AND 0x01 \<noteq> 0 then v OR 0x20 else v)
      in drop_bit 1 v)"

text \<open>Direction and light are in the byte of the speed up to version 2.\<close>

definition dir_light :: "gl_state \<Rightarrow> 8 word \<Rightarrow> 8 word" where
  "dir_light g v = v OR (if l_direction g \<noteq> 0 then 0x40 else 0) OR (if l_funcs g AND 1 \<noteq> 0 then 0x20 else 0)"

definition f1_4 :: "gl_state \<Rightarrow> 8 word" where
  "f1_4 g = ucast (drop_bit 1 (l_funcs g) AND 0x0f)"

definition gl_bytes1 :: "gl_state \<Rightarrow> 8 word list" where
  "gl_bytes1 g = [0xb3, word_of_int (l_id g), dir_light g (speed14 (l_speed g)), f1_4 g]"

definition gl_bytes2 :: "gl_state \<Rightarrow> 8 word list" where
  "gl_bytes2 g =
     [0xb4, word_of_int (l_id g),
      dir_light g (if l_n_fs g = 27 \<or> l_n_fs g = 28 then speed28 (l_speed g) else speed14 (l_speed g)),
      f1_4 g, if l_n_fs g = 27 then 0x01 else if l_n_fs g = 28 then 0x02 else 0x00]"

text \<open>From version 3 on. The condition that should choose between the two encodings of the speed
  assigns 28 to \<open>n_fs\<close>.\<close>

definition fs_mode :: "int \<Rightarrow> 8 word" where
  "fs_mode n_fs = (if n_fs = 14 then 0x10 else if n_fs = 27 then 0x11 else if n_fs = 28 then 0x12
     else if n_fs = 126 then 0x13 else 0x12)"

definition gl_speed_bytes :: "gl_state \<Rightarrow> 8 word list" where
  "gl_speed_bytes g =
     [0xe4, fs_mode (l_n_fs g), addr_high (l_id g), addr_low (l_id g),
      speed28 (l_speed g) OR (if l_direction g \<noteq> 0 then 0x80 else 0)]"

definition assign_fs :: "gl_state \<Rightarrow> gl_state" where
  "assign_fs g = (if l_n_fs g = 27 then g else g\<lparr>l_n_fs := 28\<rparr>)"

definition gl_func_bytes :: "8 word \<Rightarrow> 8 word \<Rightarrow> gl_state \<Rightarrow> 8 word list" where
  "gl_func_bytes grp v g = [0xe4, grp, addr_high (l_id g), addr_low (l_id g), v]"

definition f_group1 :: "gl_state \<Rightarrow> 8 word" where
  "f_group1 g = ucast (drop_bit 1 (l_funcs g)) OR (if l_funcs g AND 1 \<noteq> 0 then 0x10 else 0)"

definition gl_messages3 :: "gl_state \<Rightarrow> 8 word list list" where
  "gl_messages3 g =
     [gl_speed_bytes g, gl_func_bytes 0x20 (f_group1 g) g] @
     (if 5 < l_n_func g then [gl_func_bytes 0x21 (ucast (drop_bit 5 (l_funcs g))) g] else []) @
     (if 9 < l_n_func g then [gl_func_bytes 0x22 (ucast (drop_bit 9 (l_funcs g))) g] else [])"

definition gl_messages36 :: "gl_state \<Rightarrow> 8 word list list" where
  "gl_messages36 g =
     (if 13 < l_n_func g then [gl_func_bytes 0x23 (ucast (drop_bit 13 (l_funcs g))) g] else []) @
     (if 21 < l_n_func g then [gl_func_bytes 0x28 (ucast (drop_bit 21 (l_funcs g))) g] else [])"

definition gl_stop_bytes :: "int \<Rightarrow> gl_state \<Rightarrow> 8 word list" where
  "gl_stop_bytes version g =
     (if 0x0300 \<le> version then [0x92, addr_high (l_id g), addr_low (l_id g)] else [0x91, word_of_int (l_id g)])"

text \<open>The result is the status, and the command with the speed steps that are entered.\<close>

definition li_gl_send :: "nat \<Rightarrow> gl_state \<Rightarrow> li100 \<Rightarrow> world \<Rightarrow> (gl_state \<times> int \<times> li100 \<times> world) option" where
  "li_gl_send b g l w =
     (if l_direction g = 2 then
        map_option (Pair g) (send_command b (gl_stop_bytes (version_zentrale l) g) l w)
      else if \<not> usb l \<and> version_zentrale l \<le> 0x0150 then map_option (Pair g) (send_command b (gl_bytes1 g) l w)
      else if \<not> usb l \<and> version_zentrale l < 0x0300 then map_option (Pair g) (send_command b (gl_bytes2 g) l w)
      else do {
        (status, l, w) \<leftarrow> send_all b (-1) (gl_messages3 g) l w;
        if 0x0360 \<le> version_zentrale l
        then map_option (Pair (assign_fs g)) (send_all b status (gl_messages36 g) l w)
        else Some (assign_fs g, status, l, w) })"

definition send_command_gl :: "nat \<Rightarrow> li100 \<Rightarrow> world \<Rightarrow> (li100 \<times> world) option" where
  "send_command_gl b l w =
     (if queue_GL_isempty b w then Some (l, w)
      else do {
        let (v, l) = pop_junk l;
        (g, w) \<leftarrow> dequeueNextGL b w;
        let addr = l_id g;
        let cur = (case cacheGetGL b addr w of Some c \<Rightarrow> c | None \<Rightarrow> v_cur v);
        if l_direction g \<noteq> l_direction cur \<or> l_speed g \<noteq> l_speed cur \<or> l_funcs g \<noteq> l_funcs cur then do {
          (g, status, l, w) \<leftarrow> li_gl_send b g l w;
          if status = 0 then do { (_, w) \<leftarrow> cacheSetGL b addr g w; Some (l, w) } else Some (l, w) }
        else Some (l, w) })"

text \<open>Locomotives another device controls are asked for one after the other.\<close>

definition ask_bytes2 :: "int \<Rightarrow> int \<Rightarrow> 8 word list" where
  "ask_bytes2 addr n_fs =
     [0xa2, word_of_int addr, if n_fs = 14 then 0x00 else if n_fs = 27 then 0x01 else 0x02]"

definition ask_bytes3 :: "int \<Rightarrow> 8 word list" where
  "ask_bytes3 addr = [0xe3, 0x00, word_of_int (drop_bit 8 (addr AND 0xff00)), word_of_int (addr AND 0x00ff)]"

definition ask_engine :: "nat \<Rightarrow> gl_state \<Rightarrow> int \<Rightarrow> li100 \<times> world \<Rightarrow> (li100 \<times> world) option" where
  "ask_engine b gltmp addr lw = do {
     let (l, w) = lw;
     (l, w) \<leftarrow> (if version_zentrale l \<le> 0x0150
                then map_option snd (send_command b [0xa1, word_of_int addr] (l\<lparr>last_value := addr\<rparr>) w)
                else Some (l, w));
     (l, w) \<leftarrow> (if 0x0150 < version_zentrale l \<and> version_zentrale l < 0x0300
                then map_option snd (send_command b
                  (ask_bytes2 addr (l_n_fs (case cacheGetGL b addr w of Some g \<Rightarrow> g | None \<Rightarrow> gltmp)))
                  (l\<lparr>last_value := addr\<rparr>) w)
                else Some (l, w));
     if 0x0300 \<le> version_zentrale l then do {
       (_, l, w) \<leftarrow> send_command b (ask_bytes3 addr) (l\<lparr>last_value := addr\<rparr>) w;
       check_status b l w }
     else Some (l, w) }"

definition check_extern_engines :: "nat \<Rightarrow> li100 \<Rightarrow> world \<Rightarrow> (li100 \<times> world) option" where
  "check_extern_engines b l w = do {
     (l, w) \<leftarrow> (if 0 < extern_engine_ctr l then
        (let (v, l) = pop_junk l
         in loopM (\<lambda>i (l, w). if extern_engine l ! i \<noteq> -1 then ask_engine b (v_gl v) (extern_engine l ! i) (l, w)
                             else Some (l, w)) [0..<100] (l, w))
      else Some (l, w));
     Some (l\<lparr>last_value := -1\<rparr>, w) }"

subsection \<open>Programming\<close>

definition get_status_sm :: "nat \<Rightarrow> li100 \<Rightarrow> world \<Rightarrow> (li100 \<times> world) option" where
  "get_status_sm b l w = map_option snd (send_command b [0x21, 0x10] l w)"

definition li_read_sm :: "8 word \<Rightarrow> nat \<Rightarrow> int \<Rightarrow> li100 \<Rightarrow> world \<Rightarrow> (int \<times> li100 \<times> world) option" where
  "li_read_sm code b place l w = do {
     (status, l, w) \<leftarrow> send_command b [0x22, code, word_of_int place] l w;
     (l, w) \<leftarrow> get_status_sm b l w;
     Some (status mod 256, l, w) }"

definition li_write_sm :: "8 word \<Rightarrow> nat \<Rightarrow> int \<Rightarrow> int \<Rightarrow> li100 \<Rightarrow> world \<Rightarrow> (int \<times> li100 \<times> world) option" where
  "li_write_sm code b place v l w = do {
     (status, l, w) \<leftarrow> send_command b [0x23, code, word_of_int place, word_of_int v] l w;
     Some (status mod 256, l, w) }"

definition read_register :: "nat \<Rightarrow> int \<Rightarrow> li100 \<Rightarrow> world \<Rightarrow> (int \<times> li100 \<times> world) option" where
  "read_register = li_read_sm 0x11"

definition read_page :: "nat \<Rightarrow> int \<Rightarrow> li100 \<Rightarrow> world \<Rightarrow> (int \<times> li100 \<times> world) option" where
  "read_page = li_read_sm 0x14"

definition read_cv :: "nat \<Rightarrow> int \<Rightarrow> li100 \<Rightarrow> world \<Rightarrow> (int \<times> li100 \<times> world) option" where
  "read_cv = li_read_sm 0x15"

definition write_register :: "nat \<Rightarrow> int \<Rightarrow> int \<Rightarrow> li100 \<Rightarrow> world \<Rightarrow> (int \<times> li100 \<times> world) option" where
  "write_register = li_write_sm 0x12"

definition write_page :: "nat \<Rightarrow> int \<Rightarrow> int \<Rightarrow> li100 \<Rightarrow> world \<Rightarrow> (int \<times> li100 \<times> world) option" where
  "write_page = li_write_sm 0x17"

definition write_cv :: "nat \<Rightarrow> int \<Rightarrow> int \<Rightarrow> li100 \<Rightarrow> world \<Rightarrow> (int \<times> li100 \<times> world) option" where
  "write_cv = li_write_sm 0x16"

definition pom_bytes :: "int \<Rightarrow> int \<Rightarrow> 8 word \<Rightarrow> 8 word list" where
  "pom_bytes addr cv v =
     (let cv = cv - 1
      in [0xe6, 0x30, word_of_int (drop_bit 8 addr), word_of_int (addr AND 0xff),
          word_of_int (0x7c OR (drop_bit 8 cv AND 0x03)), word_of_int (cv AND 0xff), v])"

definition send_pom_cv :: "nat \<Rightarrow> int \<Rightarrow> int \<Rightarrow> int \<Rightarrow> li100 \<Rightarrow> world \<Rightarrow> (int \<times> li100 \<times> world) option" where
  "send_pom_cv b addr cv v l w = do {
     (status, l, w) \<leftarrow> send_command b (pom_bytes addr cv (word_of_int v)) l w;
     Some (if status \<noteq> 0 then -1 else 0, l, w) }"

definition send_pom_cvbit :: "nat \<Rightarrow> int \<Rightarrow> int \<Rightarrow> int \<Rightarrow> int \<Rightarrow> li100 \<Rightarrow> world \<Rightarrow> (int \<times> li100 \<times> world) option" where
  "send_pom_cvbit b addr cv cvbit v l w = do {
     (status, l, w) \<leftarrow> send_command b
        (pom_bytes addr cv (word_of_int cvbit OR (if v \<noteq> 0 then 0x08 else 0))) l w;
     Some (if status \<noteq> 0 then -1 else 0, l, w) }"

definition term_pgm :: "nat \<Rightarrow> li100 \<Rightarrow> world \<Rightarrow> (int \<times> li100 \<times> world) option" where
  "term_pgm b l w = do { (status, l, w) \<leftarrow> send_command b [0x21, 0x81] l w; Some (status mod 256, l, w) }"

definition li_sm_set :: "nat \<Rightarrow> sm_t \<Rightarrow> li100 \<Rightarrow> world \<Rightarrow> (li100 \<times> world) option" where
  "li_sm_set b s l w = map_option snd
     (if s_addr s = -1 then
        (case s_type s of
           REGISTER \<Rightarrow> write_register b (s_typeaddr s) (s_value s) l w
         | CV \<Rightarrow> write_cv b (s_typeaddr s) (s_value s) l w
         | PAGE \<Rightarrow> write_page b (s_typeaddr s) (s_value s) l w
         | CV_BIT \<Rightarrow> Some (0, l, w))
      else
        (case s_type s of
           CV \<Rightarrow> send_pom_cv b (s_addr s) (s_typeaddr s) (s_value s) l w
         | CV_BIT \<Rightarrow> send_pom_cvbit b (s_addr s) (s_typeaddr s) (s_bit s) (s_value s) l w
         | _ \<Rightarrow> Some (0, l, w)))"

definition li_sm_get :: "nat \<Rightarrow> sm_t \<Rightarrow> li100 \<Rightarrow> world \<Rightarrow> (li100 \<times> world) option" where
  "li_sm_get b s l w =
     (case s_type s of
        REGISTER \<Rightarrow> map_option snd (read_register b (s_typeaddr s) l w)
      | CV \<Rightarrow> map_option snd (read_cv b (s_typeaddr s) l w)
      | PAGE \<Rightarrow> map_option snd (read_page b (s_typeaddr s) l w)
      | CV_BIT \<Rightarrow> Some (l, w))"

definition send_command_sm :: "nat \<Rightarrow> li100 \<Rightarrow> world \<Rightarrow> (li100 \<times> world) option" where
  "send_command_sm b l w =
     (if queue_SM_isempty b w then Some (l, w)
      else do {
        (s, w) \<leftarrow> dequeueNextSM b w;
        let l = l\<lparr>last_type := Some (s_type s), last_typeaddr := s_typeaddr s, last_bit := s_bit s,
                  last_value := s_value s\<rparr>;
        case s_command s of
          SM_SET \<Rightarrow> li_sm_set b s l w
        | SM_GET \<Rightarrow> li_sm_get b s l w
        | SM_VERIFY \<Rightarrow> Some (l, w)
        | SM_INIT \<Rightarrow> Some (l, w)
        | SM_TERM \<Rightarrow> if pgm_mode l = 1 then map_option snd (term_pgm b l w) else Some (l, w) })"

subsection \<open>The thread\<close>

definition li_start :: "li100 \<Rightarrow> li100" where
  "li_start l = l\<lparr>li_tga := map (\<lambda>g. g\<lparr>a_id := 0\<rparr>) (li_tga l)\<rparr>"

text \<open>A turn of \<open>thr_sendrec_LI100\<close>.\<close>

definition li_power_command :: "nat \<Rightarrow> li100 \<Rightarrow> world \<Rightarrow> (li100 \<times> world) option" where
  "li_power_command b l w =
     (if power_changed (buses w b) = 1 then do {
        (status, l, w) \<leftarrow> send_command b [0x21, if power_state (buses w b) \<noteq> 0 then 0x81 else 0x80] l w;
        Some (l, if status = 0 then w\<lparr>buses := upd (\<lambda>d. d\<lparr>power_changed := 0\<rparr>) b (buses w)\<rparr> else w) }
      else Some (l, w))"

definition li_turn :: "nat \<Rightarrow> li100 \<Rightarrow> world \<Rightarrow> (li100 \<times> world) option" where
  "li_turn b l w = do {
     (l, w) \<leftarrow> li_power_command b l w;
     (l, w) \<leftarrow> send_command_gl b l w;
     (l, w) \<leftarrow> send_command_ga b l w;
     (l, w) \<leftarrow> check_status b l w;
     (l, w) \<leftarrow> check_extern_engines b l w;
     (l, w) \<leftarrow> send_command_sm b l w;
     w \<leftarrow> check_reset_fb b w;
     Some (l, w\<lparr>buses := upd (\<lambda>d. d\<lparr>watchdog := 1\<rparr>) b (buses w)\<rparr>) }"

subsection \<open>Initialization\<close>

text \<open>The result counts up from \<open>-4\<close> to 0.\<close>

definition initLine_LI100 :: "bool \<Rightarrow> nat \<Rightarrow> li100 \<Rightarrow> world \<Rightarrow> (int \<times> li100 \<times> world) option" where
  "initLine_LI100 opened b l w =
     (if \<not> opened then Some (-4, l, w)
      else do {
        (s, l, w) \<leftarrow> send_command b [0xf0] l w;
        if s \<noteq> 0 then Some (-3, l, w)
        else do {
          (s, l, w) \<leftarrow> send_command b [0x21, 0x21] l w;
          if s \<noteq> 0 then Some (-2, l, w)
          else do {
            (s, l, w) \<leftarrow> send_command b [0x21, 0x24] l w;
            Some (if s = 0 then 0 else -1, l, w) } } })"

text \<open>The stack of the command station is emptied, as long as it names an address.\<close>

partial_function (option) li_cleanup :: "nat \<Rightarrow> li100 \<Rightarrow> world \<Rightarrow> (li100 \<times> world) option" where
  "li_cleanup b l w = do {
     (_, l, w) \<leftarrow> send_command b [0xe3, 0x05, 0, 0] l w;
     if get_addr l = 0 then Some (l, w)
     else do {
       (_, l, w) \<leftarrow> send_command b
          [0xe3, 0x44, word_of_int (drop_bit 8 (get_addr l)), word_of_int (get_addr l AND 0xff)] l w;
       li_cleanup b l w } }"

text \<open>The number of the module is one byte, also for the 512 modules of the USB interface.\<close>

definition li_ask_feedback :: "nat \<Rightarrow> nat \<Rightarrow> li100 \<times> world \<Rightarrow> (li100 \<times> world) option" where
  "li_ask_feedback b i lw = map_option snd
     (send_all b 0 [[0x42, word_of_nat i, 0x80], [0x42, word_of_nat i, 0x81]] (fst lw) (snd lw))"

definition init_bus_LI100 :: "bool \<Rightarrow> bool \<Rightarrow> (nat \<Rightarrow> ga_state) \<Rightarrow> bool \<Rightarrow> bool \<Rightarrow> bool \<Rightarrow> nat \<Rightarrow> li100 \<Rightarrow> world
    \<Rightarrow> (int \<times> li100 \<times> world) option" where
  "init_bus_LI100 in_use opened raw ga_ok gl_ok fb_ok b l w = do {
     let w = w\<lparr>buses := upd (\<lambda>d. d\<lparr>protocols := Some ''N''\<rparr>) b (buses w)\<rparr>;
     let (e, w) = init_GA ga_ok raw b (li_number_ga l) w;
     let l = (if e \<noteq> 0 then l\<lparr>li_number_ga := 0\<rparr> else l);
     let (e, w) = init_GL gl_ok b (li_number_gl l) w;
     let l = (if e \<noteq> 0 then l\<lparr>li_number_gl := 0\<rparr> else l);
     let (e, w) = init_FB fb_ok b (li_number_fb l * 8) w;
     let l = (if e \<noteq> 0 then l\<lparr>li_number_fb := 0\<rparr> else l);
     (status, l, w) \<leftarrow> (if in_use then Some (-3, l, w) else initLine_LI100 opened b (l\<lparr>working := 0\<rparr>) w);
     (l, w) \<leftarrow> (if status = 0 then do {
         let l = l\<lparr>working := 1, get_addr := 0\<rparr>;
         (l, w) \<leftarrow> (if 0x0300 \<le> version_zentrale l then li_cleanup b l w else Some (l, w));
         loopM (li_ask_feedback b) [0..<nat (li_number_fb l)] (l, w) }
       else Some (l, w));
     Some (status, l\<lparr>last_type := None, last_value := -1, pgm_mode := 0, emergency_on := 0,
       extern_engine_ctr := 0, extern_engine := replicate 100 (-1)\<rparr>, w) }"

subsection \<open>The driver keeps the server's data well formed\<close>

lemma li_power_keeps [keeps_ops]: "world_inv w \<Longrightarrow> keeps snd (li_power b b1 l w)"
  unfolding li_power_def by ((rule keeps_ops | rule keeps_rules | clarsimp simp: session_endwait_def)+)

lemma li_programmed_keeps [keeps_ops]: "world_inv w \<Longrightarrow> keeps snd (li_programmed b buf l w)"
  unfolding li_programmed_def by ((rule keeps_ops | rule keeps_rules | clarsimp simp: session_endwait_def)+)

lemma li_loco_update_keeps [keeps_ops]: "world_inv w \<Longrightarrow> keeps snd (li_loco_update b v w)"
  unfolding li_loco_update_def by ((rule keeps_ops | rule keeps_rules | clarsimp)+)

lemma li_status_report_keeps [keeps_ops]: "world_inv w \<Longrightarrow> keeps (\<lambda>x. snd (snd x)) (li_status_report b buf v l w)"
  unfolding li_status_report_def by ((rule keeps_ops | rule keeps_rules | clarsimp)+)

lemma li_loco_keeps [keeps_ops]: "world_inv w \<Longrightarrow> keeps (\<lambda>x. snd (snd x)) (li_loco b buf v l w)"
  unfolding li_loco_def by ((rule keeps_ops | rule keeps_rules | clarsimp simp: case_prod_unfold)+)

lemma turnout_keeps [keeps_ops]: "world_inv w \<Longrightarrow> keeps snd (turnout b addr z g w)"
  unfolding turnout_def by ((rule keeps_ops | rule keeps_rules | clarsimp simp: case_prod_unfold split del: if_split)+)

lemma li_info_pair_keeps [keeps_ops]: "world_inv w \<Longrightarrow> keeps snd (li_info_pair b a z g w)"
  unfolding li_info_pair_def by ((rule keeps_ops | rule keeps_rules | clarsimp simp: case_prod_unfold split del: if_split)+)

lemma li_info_pairs_keeps [keeps_ops]: "world_inv w \<Longrightarrow> keeps snd (li_info_pairs b m g w)"
proof (induction b m g w rule: li_info_pairs.induct)
  case (1 b a z r g w)
  then show ?case
    using li_info_pair_keeps [of w b a z g] by (fastforce simp: keeps_def bind_eq_Some_conv)
qed (simp_all add: keeps_def)

lemma li_process_keeps [keeps_ops]: "world_inv w \<Longrightarrow> keeps (\<lambda>x. snd (snd (snd x))) (li_process b n buf v l w)"
  unfolding li_process_def
  by ((rule keeps_ops | rule keeps_bind [where g = "\<lambda>x. snd (snd x)"] | rule keeps_rules | clarsimp simp: case_prod_unfold split del: if_split)+)

lemma li_fetch_keeps: "world_inv w \<Longrightarrow> keeps (\<lambda>_. w) (Some (li_fetch buf l))"
  by (simp add: keeps_def)

lemma li_wait_preserves1:
  assumes step: "\<And>b n buf v l w x. P b w \<Longrightarrow> li_process b n buf v l w = Some x \<Longrightarrow> P b (snd (snd (snd x)))"
  shows "li_wait ctr b v l w = Some r \<Longrightarrow> P b w \<longrightarrow> P b (snd (snd r))"
proof (erule li_wait.raw_induct [where P = "\<lambda>ctr b v l w r. P b w \<longrightarrow> P b (snd (snd r))", rotated])
  fix li_wait ctr b v l w r
  assume IH: "\<And>ctr b v l w r. li_wait ctr b v l w = Some r \<Longrightarrow> P b w \<longrightarrow> P b (snd (snd r))"
    and run: "(if ctr - 1 < 0 then Some (-1, l, w)
      else do {
        let (status, n, buf, l) = li_fetch (v_buf v) l;
        (ctr, v, l, w) \<leftarrow> li_process b n buf (v\<lparr>v_buf := buf\<rparr>) l w;
        if status = -1 then li_wait ctr b v l w else Some (status, l, w) }) = Some r"
  obtain status n buf l1 where f: "li_fetch (v_buf v) l = (status, n, buf, l1)" by (cases "li_fetch (v_buf v) l") auto
  show "P b w \<longrightarrow> P b (snd (snd r))"
  proof (rule impI, cases "ctr - 1 < 0")
    assume inv: "P b w"
    case False
    then obtain ctr2 v2 l2 w2 where p: "li_process b n buf (v\<lparr>v_buf := buf\<rparr>) l1 w = Some (ctr2, v2, l2, w2)"
        and r: "(if status = -1 then li_wait ctr2 b v2 l2 w2 else Some (status, l2, w2)) = Some r"
      using run by (auto simp: f bind_eq_Some_conv)
    have "P b w2" using step [OF inv p] by simp
    then show "P b (snd (snd r))" using r IH by (auto split: if_splits)
  qed (use run in auto)
qed

lemmas li_wait_preserves = li_wait_preserves1 [rule_format]

lemma li_wait_inv: "li_wait ctr b v l w = Some r \<Longrightarrow> world_inv w \<Longrightarrow> world_inv (snd (snd r))"
  by (rule li_wait_preserves [where P = "\<lambda>_. world_inv"]) (auto dest: keepsD [OF li_process_keeps])

lemma readAnswer_keeps [keeps_ops]: "world_inv w \<Longrightarrow> keeps (\<lambda>x. snd (snd x)) (readAnswer b l w)"
  by (auto simp: readAnswer_def keeps_def case_prod_unfold Let_def dest: li_wait_inv)

lemma li_poll_keeps [keeps_ops]: "world_inv w \<Longrightarrow> keeps snd (li_poll ps b l w)"
proof (induction ps arbitrary: l w)
  case (Cons p ps)
  then show ?case using readAnswer_keeps [of w b l] by (fastforce simp: keeps_def bind_eq_Some_conv)
qed (simp add: keeps_def)

lemma check_status_keeps [keeps_ops]: "world_inv w \<Longrightarrow> keeps snd (check_status b l w)"
  by (simp add: check_status_def li_poll_keeps)

lemma send_command_keeps [keeps_ops]: "world_inv w \<Longrightarrow> keeps (\<lambda>x. snd (snd x)) (send_command b str l w)"
  unfolding send_command_def by ((rule keeps_ops | rule keeps_rules | clarsimp split del: if_split)+)

lemma send_keeps_snd [keeps_ops]: "world_inv w \<Longrightarrow> keeps (\<lambda>x. snd (snd (snd x))) (map_option (Pair g) (send_command b str l w))"
  by (rule keeps_map) (simp add: send_command_keeps)

lemma send_all_keeps [keeps_ops]: "world_inv w \<Longrightarrow> keeps (\<lambda>x. snd (snd x)) (send_all b status ms l w)"
proof (induction ms arbitrary: status l w)
  case (Cons m ms)
  then show ?case using send_command_keeps [of w b m l] by (fastforce simp: keeps_def bind_eq_Some_conv)
qed (simp add: keeps_def)

lemma li_tga_step_keeps: "world_inv (snd lw) \<Longrightarrow> keeps snd (li_tga_step b akt i lw)"
  unfolding li_tga_step_def
  by ((rule keeps_ops | rule keeps_bind [where g = "\<lambda>x. snd (snd x)"] | rule keeps_rules | clarsimp simp: case_prod_unfold split del: if_split)+)

lemma send_command_ga_keeps [keeps_ops]: "world_inv w \<Longrightarrow> keeps snd (send_command_ga b l w)"
  unfolding send_command_ga_def
  by ((rule keeps_ops | rule keeps_bind_snd, rule loopM_keeps, erule li_tga_step_keeps
     | rule keeps_bind [where g = "\<lambda>x. snd (snd x)"] | rule keeps_rules | clarsimp simp: case_prod_unfold split del: if_split)+)

lemma li_gl_send_keeps [keeps_ops]: "world_inv w \<Longrightarrow> keeps (\<lambda>x. snd (snd (snd x))) (li_gl_send b g l w)"
  unfolding li_gl_send_def
  by ((rule keeps_ops | rule keeps_bind [where g = "\<lambda>x. snd (snd x)"] | rule keeps_rules | clarsimp simp: case_prod_unfold split del: if_split)+)

lemma send_command_gl_keeps [keeps_ops]: "world_inv w \<Longrightarrow> keeps snd (send_command_gl b l w)"
  unfolding send_command_gl_def
  by ((rule keeps_ops | rule keeps_bind [where g = "\<lambda>x. snd (snd (snd x))"] | rule keeps_rules | clarsimp simp: case_prod_unfold pop_junk_def split del: if_split)+)

lemma ask_engine_keeps [keeps_ops]: "world_inv (snd lw) \<Longrightarrow> keeps snd (ask_engine b g addr lw)"
  unfolding ask_engine_def
  by ((rule keeps_ops | rule keeps_bind_snd | rule keeps_bind [where g = "\<lambda>x. snd (snd x)"] | rule keeps_rules | clarsimp simp: case_prod_unfold split del: if_split)+)

lemma check_extern_keeps [keeps_ops]: "world_inv w \<Longrightarrow> keeps snd (check_extern_engines b l w)"
proof -
  assume inv: "world_inv w"
  have "keeps snd (loopM (\<lambda>i (l, w). if extern_engine l ! i \<noteq> -1 then ask_engine b g (extern_engine l ! i) (l, w)
      else Some (l, w)) is (l', w))" for g "is" l'
    by (rule loopM_keeps) (auto simp: inv ask_engine_keeps keeps_Some)
  then show ?thesis
    unfolding check_extern_engines_def
    by (intro keeps_bind_snd keeps_if) (auto simp: inv pop_junk_def keeps_Some)
qed

lemma li_sm_keeps_reads [keeps_ops]:
  "world_inv w \<Longrightarrow> keeps (\<lambda>x. snd (snd x)) (li_read_sm code b place l w)"
  "world_inv w \<Longrightarrow> keeps (\<lambda>x. snd (snd x)) (li_write_sm code b place v l w)"
  "world_inv w \<Longrightarrow> keeps (\<lambda>x. snd (snd x)) (send_pom_cv b addr cv v l w)"
  "world_inv w \<Longrightarrow> keeps (\<lambda>x. snd (snd x)) (send_pom_cvbit b addr cv bt v l w)"
  "world_inv w \<Longrightarrow> keeps (\<lambda>x. snd (snd x)) (term_pgm b l w)"
  unfolding li_read_sm_def li_write_sm_def send_pom_cv_def send_pom_cvbit_def term_pgm_def get_status_sm_def
  by ((rule keeps_ops | rule keeps_bind_snd | rule keeps_bind [where g = "\<lambda>x. snd (snd x)"] | rule keeps_rules | clarsimp simp: case_prod_unfold split del: if_split)+)

lemmas li_sm_rw = read_register_def read_page_def read_cv_def write_register_def write_page_def write_cv_def

lemma li_sm_set_keeps [keeps_ops]: "world_inv w \<Longrightarrow> keeps snd (li_sm_set b s l w)"
  unfolding li_sm_set_def li_sm_rw
  by (cases "s_type s"; (rule keeps_map, simp add: keeps_ops keeps_Some))

lemma li_sm_get_keeps [keeps_ops]: "world_inv w \<Longrightarrow> keeps snd (li_sm_get b s l w)"
  unfolding li_sm_get_def li_sm_rw
  by (cases "s_type s"; simp add: keeps_map keeps_ops keeps_Some)

lemma send_command_sm_keeps [keeps_ops]: "world_inv w \<Longrightarrow> keeps snd (send_command_sm b l w)"
proof -
  assume inv: "world_inv w"
  have "keeps snd (case s_command s of SM_SET \<Rightarrow> li_sm_set b s l w | SM_GET \<Rightarrow> li_sm_get b s l w
      | SM_VERIFY \<Rightarrow> Some (l, w) | SM_INIT \<Rightarrow> Some (l, w)
      | SM_TERM \<Rightarrow> if pgm_mode l = 1 then map_option snd (term_pgm b l w) else Some (l, w))"
    if "world_inv w" for s l w
    using that by (cases "s_command s") (simp_all add: keeps_ops keeps_Some keeps_map)
  then show ?thesis
    unfolding send_command_sm_def using inv by (intro keeps_if keeps_bind_snd keeps_let) (auto simp: keeps_Some keeps_ops)
qed

lemma li_power_command_keeps [keeps_ops]: "world_inv w \<Longrightarrow> keeps snd (li_power_command b l w)"
  unfolding li_power_command_def
  by ((rule keeps_ops | rule keeps_bind [where g = "\<lambda>x. snd (snd x)"] | rule keeps_rules | clarsimp simp: case_prod_unfold)+)

lemma li_turn_keeps: "world_inv w \<Longrightarrow> keeps snd (li_turn b l w)"
  unfolding li_turn_def
  by ((rule keeps_ops | rule keeps_bind_snd | rule keeps_bind | rule keeps_Some | clarsimp)+)

lemma li_turn_inv [inv_intros]: "world_inv w \<Longrightarrow> li_turn b l w = Some (l', w') \<Longrightarrow> world_inv w'"
  by (drule li_turn_keeps [of w b l]) (auto dest: keepsD)

end
