(* ===== verification/Ib.thy ===== *)
theory Ib
  imports Driver_Inv C_Strings
begin

text \<open>
  The Intellibox driver, \<open>ib.c\<close>: Uhlenbrock's command station with the P50Xb protocol on a
  serial line. The driver's data is \<open>ib\<close>, with the bytes written and the results of the reads to
  come, which may be anything. \<open>ib_junk\<close> is what the stack holds at each call of a function with
  variables that are not initialized before they are read. Opening the line, its settings and
  the break signal are calls to the operating system; the sleeps, and debug levels that keep
  the driver from using the hardware, are not modelled.
\<close>

unbundle bit_operations_syntax

subsection \<open>Constants and data\<close>

abbreviation (input) SPEED_STEPS :: int where "SPEED_STEPS \<equiv> 126"
abbreviation (input) POWER_OFF :: int where "POWER_OFF \<equiv> 0"
abbreviation (input) POWER_ON :: int where "POWER_ON \<equiv> 1"

abbreviation XLok :: "8 word" where "XLok \<equiv> 0x80"
abbreviation XFunc :: "8 word" where "XFunc \<equiv> 0x88"
abbreviation XFuncX :: "8 word" where "XFuncX \<equiv> 0x89"
abbreviation XFunc34 :: "8 word" where "XFunc34 \<equiv> 0x8a"
abbreviation XTrnt :: "8 word" where "XTrnt \<equiv> 0x90"
abbreviation XSensOff :: "8 word" where "XSensOff \<equiv> 0x99"
abbreviation XVer :: "8 word" where "XVer \<equiv> 0xa0"
abbreviation XStatus :: "8 word" where "XStatus \<equiv> 0xa2"
abbreviation XPwrOff :: "8 word" where "XPwrOff \<equiv> 0xa6"
abbreviation XPwrOn :: "8 word" where "XPwrOn \<equiv> 0xa7"
abbreviation XNOP :: "8 word" where "XNOP \<equiv> 0xc4"
abbreviation XEvent :: "8 word" where "XEvent \<equiv> 0xc8"
abbreviation XEvtLok :: "8 word" where "XEvtLok \<equiv> 0xc9"
abbreviation XEvtTrn :: "8 word" where "XEvtTrn \<equiv> 0xca"
abbreviation XEvtSen :: "8 word" where "XEvtSen \<equiv> 0xcb"
abbreviation XEvtPT :: "8 word" where "XEvtPT \<equiv> 0xce"
abbreviation XEvtBiDi :: "8 word" where "XEvtBiDi \<equiv> 0xd2"
abbreviation XBiDiSet :: "8 word" where "XBiDiSet \<equiv> 0xd3"
abbreviation XDCC_PDR :: "8 word" where "XDCC_PDR \<equiv> 0xda"
abbreviation XDCC_PD :: "8 word" where "XDCC_PD \<equiv> 0xde"
abbreviation XPT_On :: "8 word" where "XPT_On \<equiv> 0xe1"
abbreviation XPT_Off :: "8 word" where "XPT_Off \<equiv> 0xe2"
abbreviation XPT_DCCRR :: "8 word" where "XPT_DCCRR \<equiv> 0xec"
abbreviation XPT_DCCWR :: "8 word" where "XPT_DCCWR \<equiv> 0xed"
abbreviation XPT_DCCRP :: "8 word" where "XPT_DCCRP \<equiv> 0xee"
abbreviation XPT_DCCWP :: "8 word" where "XPT_DCCWP \<equiv> 0xef"
abbreviation XPT_DCCRD :: "8 word" where "XPT_DCCRD \<equiv> 0xf0"
abbreviation XPT_DCCWD :: "8 word" where "XPT_DCCWD \<equiv> 0xf1"
abbreviation XPT_DCCRB :: "8 word" where "XPT_DCCRB \<equiv> 0xf2"
abbreviation XPT_DCCWB :: "8 word" where "XPT_DCCWB \<equiv> 0xf3"
abbreviation XPWOFF :: "8 word" where "XPWOFF \<equiv> 0x06"
abbreviation XLKHALT :: "8 word" where "XLKHALT \<equiv> 0x41"
abbreviation XLKPOFF :: "8 word" where "XLKPOFF \<equiv> 0x42"

record ib_vars =
  jv_bytes :: "nat \<Rightarrow> 8 word"
  jv_gl :: gl_state
  jv_cur :: gl_state
  jv_ga :: ga_state

record ib =
  ib_number_ga :: int
  ib_number_gl :: int
  ib_number_fb :: int
  ib_last_bit :: int
  ib_last_type :: "sm_type option"
  ib_last_typeaddr :: int
  ib_last_value :: int
  ib_tga :: "ga_state list"
  working_IB :: int
  emergency_on_ib :: int
  pt_initialized :: bool
  isOpenDCC_XP :: bool
  ib_tx :: "8 word list"
  ib_rx :: "8 word option list"
  ib_junk :: "nat \<Rightarrow> ib_vars"

definition ib_pop :: "ib \<Rightarrow> ib_vars \<times> ib" where
  "ib_pop p = (ib_junk p 0, p\<lparr>ib_junk := (\<lambda>n. ib_junk p (Suc n))\<rparr>)"

text \<open>The first of the uninitialized bytes.\<close>

definition ib_byte :: "ib_vars \<Rightarrow> 8 word" where
  "ib_byte v = jv_bytes v 0"

definition init_gl_IB :: "gl_state \<Rightarrow> int \<times> gl_state" where
  "init_gl_IB g =
     (let g = g\<lparr>l_n_fs := SPEED_STEPS\<rparr>
      in if 29 < l_n_func g then (SRCP_WRONGVALUE, g) else (SRCP_OK, g\<lparr>l_protocol := CHR ''P''\<rparr>))"

definition init_ga_IB :: "ga_state \<Rightarrow> int \<times> ga_state" where
  "init_ga_IB a = (SRCP_OK, a\<lparr>a_protocol := CHR ''M''\<rparr>)"

subsection \<open>The serial line\<close>

definition ib_write :: "8 word list \<Rightarrow> ib \<Rightarrow> ib" where
  "ib_write bs p = p\<lparr>ib_tx := ib_tx p @ bs\<rparr>"

definition ib_string :: "string \<Rightarrow> 8 word list" where
  "ib_string s = map (\<lambda>c. word_of_nat (of_char c)) s"

text \<open>Up to \<open>n\<close> attempts to read a byte; when all fail, the variable keeps its contents \<open>v\<close>.\<close>

fun ib_attempts :: "nat \<Rightarrow> 8 word \<Rightarrow> ib \<Rightarrow> int \<times> 8 word \<times> ib" where
  "ib_attempts 0 v p = (-1, v, p)"
| "ib_attempts (Suc n) v p =
     (case ib_rx p of
        [] \<Rightarrow> (-1, v, p)
      | None # r \<Rightarrow> ib_attempts n v (p\<lparr>ib_rx := r\<rparr>)
      | Some c # r \<Rightarrow> (0, c, p\<lparr>ib_rx := r\<rparr>))"

definition readByte_IB :: "8 word \<Rightarrow> ib \<Rightarrow> int \<times> 8 word \<times> ib" where
  "readByte_IB v p = ib_attempts 10 v p"

text \<open>The byte alone, where the status is not looked at.\<close>

definition ib_read :: "8 word \<Rightarrow> ib \<Rightarrow> 8 word \<times> ib" where
  "ib_read v p = snd (readByte_IB v p)"

text \<open>Whatever is waiting on the line is read until an attempt fails: at most as many rounds as there
  are results to come.\<close>

fun ib_drain_loop :: "nat \<Rightarrow> ib \<Rightarrow> ib" where
  "ib_drain_loop 0 p = p"
| "ib_drain_loop (Suc n) p = (let (s, c, p) = readByte_IB 0 p in if s = -1 then p else ib_drain_loop n p)"

definition ib_drain :: "ib \<Rightarrow> ib" where
  "ib_drain p = ib_drain_loop (Suc (length (ib_rx p))) p"

text \<open>The line is opened, or not, by the operating system; then it is drained.\<close>

definition open_comport_IB :: "bool \<Rightarrow> ib \<Rightarrow> bool \<times> ib" where
  "open_comport_IB opened p = (opened, if opened then ib_drain p else p)"

definition addr_low_IB :: "int \<Rightarrow> 8 word" where
  "addr_low_IB a = word_of_int (a AND 0xff)"

definition addr_high_IB :: "int \<Rightarrow> 8 word" where
  "addr_high_IB a = word_of_int (drop_bit 8 a)"

subsection \<open>The mode of the Intellibox\<close>

text \<open>\<open>1\<close>: P50X commands are enabled, \<open>0\<close>: they are not, \<open>-1\<close>: download mode.\<close>

definition check_P50_command_state :: "ib \<Rightarrow> int \<times> ib" where
  "check_P50_command_state p =
     (let (s0, i0, p) = readByte_IB 0 (ib_write [XNOP] p);
          (s1, i1, p) = readByte_IB 0 p;
          len = (if s0 = 0 then 1 else 0) + (if s1 = 0 then 1 else 0 :: nat)
      in (if len = 1 then if i0 = word_of_nat (of_char (CHR ''D'')) then -1 else 0 else if len = 2 then 1 else 0, p))"

text \<open>Up to 80 bytes, the last of them \<open>]\<close>.\<close>

fun read_P50_loop :: "nat \<Rightarrow> ib \<Rightarrow> bool \<times> ib" where
  "read_P50_loop 0 p = (False, p)"
| "read_P50_loop (Suc n) p =
     (let (s, c, p) = readByte_IB 0 p
      in if s = 0 \<and> c = word_of_nat (of_char (CHR '']'')) then (True, p) else read_P50_loop n p)"

definition read_P50_response :: "ib \<Rightarrow> int \<times> ib" where
  "read_P50_response p = (let (found, p) = read_P50_loop 80 p in (if found then 0 else -1, p))"

definition enable_P50X_mode :: "bool \<Rightarrow> ib \<Rightarrow> ib" where
  "enable_P50X_mode on p =
     snd (read_P50_response (ib_write (ib_string (if on then ''ZzA0'' else ''xZzA1'') @ [13]) p))"

text \<open>The command for a baud rate; any other rate sends nothing but the end of the line.\<close>

definition baud_command :: "int \<Rightarrow> string" where
  "baud_command speed =
     (if speed = 2400 then ''XB2400'' else if speed = 4800 then ''XB4800'' else if speed = 9600 then ''XB9600''
      else if speed = 19200 then ''XB19200'' else if speed = 38400 then ''XB38400''
      else if speed = 57600 then ''XB57600'' else [])"

definition resetBaudrate :: "int \<Rightarrow> ib \<Rightarrow> ib" where
  "resetBaudrate speed p =
     (let (state, p) = check_P50_command_state p
      in if state = -1 then p
         else let p = (if state = 0 then enable_P50X_mode True p else p)
              in snd (read_P50_response (ib_write (ib_string (baud_command speed) @ [13]) p)))"

text \<open>The rates are tried one after the other, each twice the last, up to 57600; 57600 itself is not
  among them. \<open>len\<close> is not reset. The rate found, 0 for none, 2 for an Intellibox in download mode.\<close>

fun checkBaudrate_from :: "int list \<Rightarrow> nat \<Rightarrow> ib \<Rightarrow> int \<times> ib" where
  "checkBaudrate_from [] len p = (0, p)"
| "checkBaudrate_from (r # rs) len p =
     (let (s0, i0, p) = readByte_IB 0 (ib_write [XNOP] p);
          (s1, i1, p) = readByte_IB 0 p;
          len = len + (if s0 = 0 then 1 else 0) + (if s1 = 0 then 1 else 0)
      in if len = 1 then if i0 = word_of_nat (of_char (CHR ''D'')) then (2, p) else (r, p)
         else if len = 2 then (r, p)
         else checkBaudrate_from rs len p)"

definition checkBaudrate :: "ib \<Rightarrow> int \<times> ib" where
  "checkBaudrate p = checkBaudrate_from [2400, 4800, 9600, 19200, 38400] 0 p"

text \<open>\<open>opened\<close> and \<open>reopened\<close>: whether the two attempts to open the line succeed. The result is the
  status and the baud rate found.\<close>

definition run_autodetection :: "bool \<Rightarrow> bool \<Rightarrow> int \<Rightarrow> ib \<Rightarrow> int \<times> int \<times> ib" where
  "run_autodetection opened reopened rate p =
     (if \<not> opened then (1, rate, p)
      else let (ok, p) = open_comport_IB reopened (ib_drain p)
           in if \<not> ok then (-1, rate, p)
              else let (baud, p) = checkBaudrate p
                   in if baud = 0 then (-1, rate, p) else (0, baud, resetBaudrate baud p))"

text \<open>Version numbers: each has a code and one or two bytes; a code above 2, meant as a length, is
  followed by one byte. The bytes are only looked at for \<open>isOpenDCC_XP\<close>.\<close>

definition version_item :: "nat \<Rightarrow> 8 word \<Rightarrow> ib \<Rightarrow> bool \<times> 8 word \<times> ib" where
  "version_item counter v p =
     (if v = 0 then (False, v, p)
      else if v = 1 then let (s, v, p) = readByte_IB v p in (s = 0, v, p)
      else if v = 2 then
        let (s, v, p) = readByte_IB v p
        in if s = -1 then (False, v, p)
           else let p = p\<lparr>isOpenDCC_XP := (counter = 1 \<and> v = 23)\<rparr>; (s, v, p) = readByte_IB v p in (s = 0, v, p)
      else let (s, v, p) = readByte_IB v p in (s = 0, v, p))"

text \<open>Each round takes a byte or ends the loop: as many rounds as there are reads to come.\<close>

fun version_loop :: "nat \<Rightarrow> nat \<Rightarrow> 8 word \<Rightarrow> ib \<Rightarrow> ib" where
  "version_loop 0 counter v p = p"
| "version_loop (Suc n) counter v p =
     (let (s, v, p) = readByte_IB v p
      in if s = -1 then p
         else let (again, v, p) = version_item (Suc counter) v p
              in if again then version_loop n (Suc counter) v p else p)"

definition show_firmware_version :: "ib \<Rightarrow> ib" where
  "show_firmware_version p =
     (let p = ib_write [XVer] p in version_loop (Suc (length (ib_rx p))) 0 0 p)"

definition init_lineIB :: "bool \<Rightarrow> (nat \<Rightarrow> bool) \<Rightarrow> int \<Rightarrow> ib \<Rightarrow> int \<times> ib" where
  "init_lineIB autodetect opens rate p =
     (let (s, rate, p) = (if autodetect then run_autodetection (opens 0) (opens 1) rate p else (0, rate, p))
      in if s \<noteq> 0 then (-1, p)
         else let (ok, p) = open_comport_IB (opens 2) p
              in if \<not> ok then (-1, p)
                 else let (state, p) = check_P50_command_state p
                      in if state = -1 then (2, p)
                         else let p = (if state = 1 then enable_P50X_mode False p else p);
                                  p = show_firmware_version p;
                                  p = (if isOpenDCC_XP p then snd (ib_read 0 (ib_write [XBiDiSet, 3] p)) else p)
                              in (0, p))"

definition init_bus_IB :: "bool \<Rightarrow> bool \<Rightarrow> (nat \<Rightarrow> bool) \<Rightarrow> int \<Rightarrow> (nat \<Rightarrow> ga_state) \<Rightarrow> bool \<Rightarrow> bool \<Rightarrow> bool \<Rightarrow>
    nat \<Rightarrow> ib \<Rightarrow> world \<Rightarrow> int \<times> ib \<times> world" where
  "init_bus_IB in_use autodetect opens rate raw ga_ok gl_ok fb_ok b p w =
     (let w = w\<lparr>buses := upd (\<lambda>d. d\<lparr>protocols := Some ''MNP''\<rparr>) b (buses w)\<rparr>;
          (e, w) = init_GA ga_ok raw b (ib_number_ga p) w;
          p = (if e \<noteq> 0 then p\<lparr>ib_number_ga := 0\<rparr> else p);
          (e, w) = init_GL gl_ok b (ib_number_gl p) w;
          p = (if e \<noteq> 0 then p\<lparr>ib_number_gl := 0\<rparr> else p);
          (e, w) = init_FB fb_ok b (ib_number_fb p * 16) w;
          p = (if e \<noteq> 0 then p\<lparr>ib_number_fb := 0\<rparr> else p);
          (status, p) = (if in_use then (-3, p) else init_lineIB autodetect opens rate (p\<lparr>working_IB := 0\<rparr>));
          p = (if status = 0 then p\<lparr>working_IB := 1\<rparr> else p)
      in (status, p\<lparr>ib_last_type := None, emergency_on_ib := 2, pt_initialized := False\<rparr>, w))"

text \<open>The end of the thread.\<close>

definition end_bus_thread_IB :: "ib \<Rightarrow> ib" where
  "end_bus_thread_IB p = (enable_P50X_mode True p)\<lparr>working_IB := 0\<rparr>"

subsection \<open>Accessories\<close>

definition ib_ga_bytes :: "int \<Rightarrow> int \<Rightarrow> bool \<Rightarrow> 8 word list" where
  "ib_ga_bytes addr port on =
     [XTrnt, addr_low_IB addr, addr_high_IB addr OR (if on then 0x40 else 0) OR (if port \<noteq> 0 then 0x80 else 0)]"

definition ib_tga_step :: "nat \<Rightarrow> timeval \<Rightarrow> nat \<Rightarrow> ib \<times> world \<Rightarrow> (ib \<times> world) option" where
  "ib_tga_step b akt i pw =
     (let (p, w) = pw; g = ib_tga p ! i
      in if a_id g \<noteq> 0 \<and> cmpTime (a_t g) akt then do {
           let p = snd (ib_read 0 (ib_write (ib_ga_bytes (a_id g) (a_port g) False) p));
           (_, w) \<leftarrow> setGA b (a_id g) (g\<lparr>a_action := 0\<rparr>) w;
           Some (p\<lparr>ib_tga := (ib_tga p)[i := (ib_tga p ! i)\<lparr>a_id := 0\<rparr>]\<rparr>, w) }
         else Some (p, w))"

text \<open>Only a command that is to be switched off later is entered in the table.\<close>

definition send_command_ga_IB :: "nat \<Rightarrow> ib \<Rightarrow> world \<Rightarrow> (ib \<times> world) option" where
  "send_command_ga_IB b p w = do {
     let akt = now w;
     (p, w) \<leftarrow> loopM (ib_tga_step b akt) [0..<50] (p, tick w);
     if \<not> queue_GA_isempty b w then do {
       (g, w) \<leftarrow> dequeueNextGA b w;
       let addr = a_id g;
       let p = ib_write (ib_ga_bytes addr (a_port g) (a_action g \<noteq> 0)) p;
       let later = (a_action g \<noteq> 0 \<and> 0 < a_activetime g);
       let free = (\<exists>x\<in>set (ib_tga p). a_id x = 0);
       let g = (if later \<and> free then g\<lparr>a_t := tga_due akt (a_activetime g)\<rparr> else g);
       let p = (if later then p\<lparr>ib_tga := tga_store g (ib_tga p)\<rparr> else p);
       let p = snd (ib_read 0 p);
       (_, w) \<leftarrow> (if later then setGA b addr g w else Some (0, w));
       Some (p, w) }
     else Some (p, w) }"

subsection \<open>Locomotives\<close>

text \<open>Speed 1 is the emergency stop. A division by 0 steps has no defined result.\<close>

definition ib_speed_byte :: "gl_state \<Rightarrow> int \<Rightarrow> 8 word option" where
  "ib_speed_byte g n_fs =
     (if l_direction g = 2 then Some 1
      else if n_fs = 0 \<or> \<not> in_int (l_speed g * SPEED_STEPS) then None
      else let v = word_of_int (c_div (l_speed g * SPEED_STEPS) n_fs)
           in Some (if v > 0 then v + 1 else v))"

text \<open>Direction, light and F1 to F4; the upper bits of \<open>funcs\<close> are not masked out.\<close>

definition ib_dir_byte :: "gl_state \<Rightarrow> 8 word" where
  "ib_dir_byte g =
     (let v = ucast (drop_bit 1 (l_funcs g) + (if l_funcs g AND 1 \<noteq> 0 then 0x10 else 0));
          v = v OR 0xc0
      in if l_direction g \<noteq> 0 then v OR 0x20 else v)"

definition ib_send :: "8 word list \<Rightarrow> 8 word \<Rightarrow> ib \<Rightarrow> 8 word \<times> ib" where
  "ib_send bs status p = ib_read status (ib_write bs p)"

definition ib_func_bytes :: "8 word \<Rightarrow> gl_state \<Rightarrow> 8 word list \<Rightarrow> 8 word list" where
  "ib_func_bytes c g fs = c # addr_low_IB (l_id g) # addr_high_IB (l_id g) # fs"

definition ib_functions :: "gl_state \<Rightarrow> 8 word \<Rightarrow> ib \<Rightarrow> ib" where
  "ib_functions g status p =
     (let (status, p) = (if 5 < l_n_func g
            then ib_send (ib_func_bytes XFunc g [ucast (drop_bit 1 (l_funcs g) AND 0xff)]) status p else (status, p));
          (status, p) = (if 9 < l_n_func g
            then ib_send (ib_func_bytes XFuncX g [ucast (drop_bit 9 (l_funcs g) AND 0xff)]) status p else (status, p));
          (status, p) = (if 17 < l_n_func g
            then ib_send (ib_func_bytes XFunc34 g [ucast (drop_bit 17 (l_funcs g) AND 0xff),
                   ucast (drop_bit 25 (l_funcs g) AND 0x0f)]) status p else (status, p))
      in p)"

definition send_command_gl_IB :: "nat \<Rightarrow> ib \<Rightarrow> world \<Rightarrow> (ib \<times> world) option" where
  "send_command_gl_IB b p w =
     (if queue_GL_isempty b w then Some (p, w)
      else do {
        let (v, p) = ib_pop p;
        (g, w) \<leftarrow> dequeueNextGL b w;
        let addr = l_id g;
        let cur = (case cacheGetGL b addr w of Some c \<Rightarrow> c | None \<Rightarrow> jv_cur v);
        if l_direction g \<noteq> l_direction cur \<or> l_speed g \<noteq> l_speed cur \<or> l_funcs g \<noteq> l_funcs cur then do {
          speed \<leftarrow> ib_speed_byte g (l_n_fs cur);
          let (status, p) = ib_send [XLok, addr_low_IB addr, addr_high_IB addr, speed, ib_dir_byte g] (ib_byte v) p;
          if status = 0 \<or> status = XLKHALT \<or> status = XLKPOFF then do {
            let p = ib_functions g status p;
            (_, w) \<leftarrow> cacheSetGL b addr g w;
            Some (p, w) }
          else Some (p, w) }
        else Some (p, w) })"

subsection \<open>Programming\<close>

text \<open>A command whose answer is one byte, which the caller's variable \<open>status\<close> takes.\<close>

definition ib_command :: "8 word list \<Rightarrow> ib \<Rightarrow> 8 word \<times> ib" where
  "ib_command bs p = (let (v, p) = ib_pop p in ib_send bs (ib_byte v) p)"

definition read_register_IB :: "int \<Rightarrow> ib \<Rightarrow> 8 word \<times> ib" where
  "read_register_IB reg = ib_command [XPT_DCCRR, word_of_int reg, 0]"

definition write_register_IB :: "int \<Rightarrow> int \<Rightarrow> ib \<Rightarrow> 8 word \<times> ib" where
  "write_register_IB reg v = ib_command [XPT_DCCWR, word_of_int reg, 0, word_of_int v]"

definition read_page_IB :: "int \<Rightarrow> ib \<Rightarrow> 8 word \<times> ib" where
  "read_page_IB cv = ib_command [XPT_DCCRP, addr_low_IB cv, addr_high_IB cv]"

definition write_page_IB :: "int \<Rightarrow> int \<Rightarrow> ib \<Rightarrow> 8 word \<times> ib" where
  "write_page_IB cv v = ib_command [XPT_DCCWP, addr_low_IB cv, addr_high_IB cv, word_of_int v]"

definition read_cv_IB :: "int \<Rightarrow> ib \<Rightarrow> 8 word \<times> ib" where
  "read_cv_IB cv = ib_command [XPT_DCCRD, addr_low_IB cv, addr_high_IB cv]"

definition write_cv_IB :: "int \<Rightarrow> int \<Rightarrow> ib \<Rightarrow> 8 word \<times> ib" where
  "write_cv_IB cv v = ib_command [XPT_DCCWD, addr_low_IB cv, addr_high_IB cv, word_of_int v]"

definition read_cvbit_IB :: "int \<Rightarrow> int \<Rightarrow> ib \<Rightarrow> 8 word \<times> ib" where
  "read_cvbit_IB cv bt = ib_command [XPT_DCCRB, addr_low_IB cv, addr_high_IB cv]"

definition write_cvbit_IB :: "int \<Rightarrow> int \<Rightarrow> int \<Rightarrow> ib \<Rightarrow> 8 word \<times> ib" where
  "write_cvbit_IB cv bt v =
     ib_command [XPT_DCCWB, addr_low_IB cv, addr_high_IB cv, word_of_int bt, word_of_int v]"

definition read_pom_IB :: "int \<Rightarrow> int \<Rightarrow> ib \<Rightarrow> 8 word \<times> ib" where
  "read_pom_IB addr cv = ib_command [XDCC_PDR, addr_low_IB addr, addr_high_IB addr, addr_low_IB cv, addr_high_IB cv]"

definition send_pom_IB :: "int \<Rightarrow> int \<Rightarrow> int \<Rightarrow> ib \<Rightarrow> int \<times> ib" where
  "send_pom_IB addr cv v p =
     (let (status, p) = ib_command [XDCC_PD, addr_low_IB addr, addr_high_IB addr, addr_low_IB cv, addr_high_IB cv,
            word_of_int v] p
      in (if status = 0 then 0 else -1, p))"

definition init_pgm_IB :: "ib \<Rightarrow> int \<times> ib" where
  "init_pgm_IB p =
     (if pt_initialized p then (0, p)
      else let (status, p) = ib_send [XPT_On] 0 p in (if status = 0 then 0 else -1, p\<lparr>pt_initialized := True\<rparr>))"

definition term_pgm_IB :: "ib \<Rightarrow> int \<times> ib" where
  "term_pgm_IB p = (let (status, p) = ib_command [XPT_Off] p in (if status = 0 then 0 else -1, p))"

definition ib_sm_set :: "sm_t \<Rightarrow> ib \<Rightarrow> ib" where
  "ib_sm_set s p = snd
     (case s_type s of
        REGISTER \<Rightarrow> write_register_IB (s_typeaddr s) (s_value s) p
      | CV \<Rightarrow> write_cv_IB (s_typeaddr s) (s_value s) p
      | CV_BIT \<Rightarrow> write_cvbit_IB (s_typeaddr s) (s_bit s) (s_value s) p
      | PAGE \<Rightarrow> write_page_IB (s_typeaddr s) (s_value s) p)"

definition ib_sm_get :: "sm_t \<Rightarrow> ib \<Rightarrow> ib" where
  "ib_sm_get s p = snd
     (case s_type s of
        REGISTER \<Rightarrow> read_register_IB (s_typeaddr s) p
      | CV \<Rightarrow> read_cv_IB (s_typeaddr s) p
      | CV_BIT \<Rightarrow> read_cvbit_IB (s_typeaddr s) (s_bit s) p
      | PAGE \<Rightarrow> read_page_IB (s_typeaddr s) p)"

text \<open>On the programming track the result comes later, as an event.\<close>

definition ib_sm_command :: "nat \<Rightarrow> sm_t \<Rightarrow> ib \<Rightarrow> world \<Rightarrow> ib \<times> world" where
  "ib_sm_command b s p w =
     (case s_command s of
        SM_SET \<Rightarrow>
          if s_addr s = -1 then (ib_sm_set s (snd (init_pgm_IB p)), w)
          else let (r, p) = send_pom_IB (s_addr s) (s_typeaddr s) (s_value s) p in (p, session_endwait b r w)
      | SM_GET \<Rightarrow>
          if s_addr s = -1 then (ib_sm_get s (snd (init_pgm_IB p)), w)
          else (snd (read_pom_IB (s_addr s) (s_typeaddr s) p), w)
      | SM_VERIFY \<Rightarrow> (p, session_endwait b 0 w)
      | SM_TERM \<Rightarrow>
          if pt_initialized p then let (r, p) = term_pgm_IB p in (p, session_endwait b r w)
          else (p, session_endwait b 0 w)
      | SM_INIT \<Rightarrow> (p, session_endwait b 0 w))"

definition send_command_sm_IB :: "nat \<Rightarrow> ib \<Rightarrow> world \<Rightarrow> (ib \<times> world) option" where
  "send_command_sm_IB b p w =
     (if queue_SM_isempty b w then Some (p, w)
      else do {
        (s, w) \<leftarrow> dequeueNextSM b w;
        Some (ib_sm_command b s (p\<lparr>ib_last_type := Some (s_type s), ib_last_typeaddr := s_typeaddr s,
                ib_last_bit := s_bit s, ib_last_value := s_value s\<rparr>) w) })"

subsection \<open>Events\<close>

text \<open>Feedback modules: number, and two bytes with the 16 contacts, until the number is 0.\<close>

definition ib_fb_round :: "nat \<Rightarrow> 8 word \<times> ib \<times> world \<Rightarrow> (bool \<times> 8 word \<times> ib \<times> world) option" where
  "ib_fb_round b s =
     (let (rr, p, w) = s
      in if rr = 0 then Some (False, rr, p, w)
         else do {
           let (hi, p) = ib_read rr p;
           let (lo, p) = ib_read hi p;
           (_, w) \<leftarrow> setFBmodul b (uint rr) (push_bit 8 (uint hi) OR uint lo) w;
           let (rr, p) = ib_read lo p;
           Some (True, rr, p, w) })"

definition check_status_fb_IB :: "nat \<Rightarrow> ib \<Rightarrow> world \<Rightarrow> (ib \<times> world) option" where
  "check_status_fb_IB b p w =
     (let (v, p) = ib_pop p; (rr, p) = ib_send [XEvtSen] (ib_byte v) p
      in map_option snd (repeat_while (ib_fb_round b) (rr, p, w)))"

definition ib_ga_event :: "nat \<Rightarrow> nat \<Rightarrow> 8 word \<times> ga_state \<times> ib \<times> world \<Rightarrow> (8 word \<times> ga_state \<times> ib \<times> world) option" where
  "ib_ga_event b i s = do {
     let (rr, g, p, w) = s;
     let (lo, p) = ib_read rr p;
     let (hi, p) = ib_read lo p;
     let g = g\<lparr>a_id := uint lo OR push_bit 8 (uint (hi AND 0x07)), a_port := (if hi AND 0x80 \<noteq> 0 then 1 else 0),
               a_action := (if hi AND 0x40 \<noteq> 0 then 1 else 0)\<rparr>;
     (_, w) \<leftarrow> setGA b (a_id g) g w;
     Some (hi, g, p, w) }"

definition check_status_ga_IB :: "nat \<Rightarrow> ib \<Rightarrow> world \<Rightarrow> (ib \<times> world) option" where
  "check_status_ga_IB b p w =
     (let (v, p) = ib_pop p; (n, p) = ib_send [XEvtTrn] (ib_byte v) p
      in map_option (\<lambda>(_, _, p, w). (p, w)) (loopM (ib_ga_event b) [0..<unat n] (n, jv_ga v, p, w)))"

text \<open>A locomotive event: speed, functions, address with direction and light, and the real speed. The
  number of functions that is stored is whatever \<open>gltmp\<close> holds.\<close>

definition ib_gl_parse :: "8 word \<Rightarrow> gl_state \<Rightarrow> ib \<Rightarrow> 8 word \<times> gl_state \<times> ib" where
  "ib_gl_parse rr g p =
     (let g = (if rr = 1 then g\<lparr>l_speed := 0, l_direction := 2\<rparr>
               else g\<lparr>l_speed := (if 0 < rr then uint rr - 1 else 0), l_direction := 0\<rparr>);
          (f, p) = ib_read rr p;
          (lo, p) = ib_read f p;
          (hi, p) = ib_read lo p;
          g = g\<lparr>l_direction := (if hi AND 0x80 \<noteq> 0 \<and> l_direction g = 0 then 1 else l_direction g),
                l_funcs := push_bit 1 (ucast f) OR (if hi AND 0x40 \<noteq> 0 then 1 else 0),
                l_id := uint lo OR push_bit 8 (uint (hi AND 0x3f))\<rparr>;
          (r, p) = ib_read (hi AND 0x3f) p
      in (r, g, p))"

definition ib_gl_event ::
    "nat \<Rightarrow> 8 word \<times> gl_state \<times> gl_state \<times> ib \<times> world \<Rightarrow> (bool \<times> 8 word \<times> gl_state \<times> gl_state \<times> ib \<times> world) option" where
  "ib_gl_event b s =
     (let (rr, g, cur, p, w) = s
      in if 0x80 \<le> rr then Some (False, rr, g, cur, p, w)
         else do {
           let (r, g, p) = ib_gl_parse rr g p;
           (g, cur, w) \<leftarrow> (if 0 < l_id g then do {
               (_, w) \<leftarrow> (if isInitializedGL b (l_id g) w then Some (0, w)
                          else cacheInitGL b (l_id g) (CHR ''P'') 1 SPEED_STEPS 5 w);
               let cur = (case cacheGetGL b (l_id g) w of Some c \<Rightarrow> c | None \<Rightarrow> cur);
               if \<not> in_int (l_speed g * l_n_fs cur) then None
               else do {
                 let g = g\<lparr>l_n_fs := l_n_fs cur, l_speed := c_div (l_speed g * l_n_fs cur) SPEED_STEPS\<rparr>;
                 (_, w) \<leftarrow> cacheSetGL b (l_id g) g w;
                 Some (g, cur, w) } }
             else Some (g, cur, w));
           let (rr, p) = ib_read r p;
           Some (True, rr, g, cur, p, w) })"

definition check_status_gl_IB :: "nat \<Rightarrow> ib \<Rightarrow> world \<Rightarrow> (ib \<times> world) option" where
  "check_status_gl_IB b p w =
     (let (v, p) = ib_pop p; (rr, p) = ib_send [XEvtLok] (ib_byte v) p
      in map_option (\<lambda>(_, _, _, p, w). (p, w)) (repeat_while (ib_gl_event b) (rr, jv_gl v, jv_cur v, p, w)))"

text \<open>The result of programming, asked for until it is there. \<open>rr\<close> has 7 bytes; the first says how
  many there are.\<close>

definition ib_pt_round :: "8 word \<times> ib \<Rightarrow> (bool \<times> 8 word \<times> ib) option" where
  "ib_pt_round s =
     (let (rr, p) = s; (i, rr, p) = readByte_IB rr (ib_write [XEvtPT] p)
      in Some (i = -1 \<or> rr = 0xf5, rr, p))"

fun ib_read_into :: "nat list \<Rightarrow> 8 word list \<Rightarrow> ib \<Rightarrow> (8 word list \<times> ib) option" where
  "ib_read_into [] rr p = Some (rr, p)"
| "ib_read_into (i # is) rr p =
     (if length rr \<le> i then None
      else let (c, p) = ib_read (rr ! i) p in ib_read_into is (rr[i := c]) p)"

definition check_status_pt_IB :: "nat \<Rightarrow> ib \<Rightarrow> world \<Rightarrow> (ib \<times> world) option" where
  "check_status_pt_IB b p w = do {
     let (v, p) = ib_pop p;
     let rr = map (jv_bytes v) [0..<7];
     (n, p) \<leftarrow> repeat_while ib_pt_round (rr ! 0, p);
     (rr, p) \<leftarrow> ib_read_into [1] (rr[0 := n]) p;
     if rr ! 1 = 0 then do {
       (rr, p) \<leftarrow> ib_read_into [2..<Suc (unat n)] rr p;
       let v = (if unat n < 2 then word_of_int (ib_last_value p) else rr ! 2);
       case ib_last_type p of
         None \<Rightarrow> Some (p, w)
       | Some ty \<Rightarrow> do {
           (_, w) \<leftarrow> setSM b ty (-1) (ib_last_typeaddr p) (ib_last_bit p) (uint v) (uint (rr ! 1))
                      (session_endwait b (uint v) w);
           Some (p\<lparr>ib_last_type := None\<rparr>, w) } }
     else Some (p, w) }"

text \<open>Where a locomotive is: the contact is reported as occupied, and if the locomotive moves, a
  message joins both. Its buffers have 50 and 20 bytes.\<close>

definition bidi_speed :: "8 word \<Rightarrow> int \<Rightarrow> int" where
  "bidi_speed v old =
     (if v \<le> 63 then uint v div 2 else if v \<le> 127 then uint v - 32 else if v \<le> 254 then uint v * 4 else old)"

definition bidi_message :: "nat \<Rightarrow> int \<Rightarrow> gl_state \<Rightarrow> world \<Rightarrow> string option" where
  "bidi_message b fbnumber g w =
     (let msg = take 49 (snd (infoFB b fbnumber w));
          data = '' GL '' @ fmt_d (l_id g) @ '' '' @ fmt_d (l_direction g) @ '' '' @ fmt_d (l_speed g) @ ''\<newline>'';
          full = butlast msg @ data
      in if 20 \<le> length data \<or> msg = [] \<or> 50 \<le> length full then None else Some full)"

definition ib_bidi_round ::
    "nat \<Rightarrow> 8 word \<times> gl_state \<times> 8 word list \<times> ib \<times> world \<Rightarrow> (bool \<times> 8 word \<times> gl_state \<times> 8 word list \<times> ib \<times> world) option" where
  "ib_bidi_round b s =
     (let (r0, g, rr, p, w) = s
      in if r0 = 0 then Some (False, r0, g, rr, p, w)
         else do {
           (rr, p) \<leftarrow> ib_read_into [1, 2, 3] rr p;
           let fbnumber = (uint (rr ! 1) OR push_bit 8 (uint (r0 AND 0x0f))) + 1;
           let ident = uint (rr ! 2) OR push_bit 8 (uint (rr ! 3 AND 0x3f));
           let g = (case cacheGetGL b ident w of Some c \<Rightarrow> c | None \<Rightarrow> g\<lparr>l_id := ident\<rparr>);
           let g = g\<lparr>l_direction := (if rr ! 3 AND 0x80 \<noteq> 0 then 1 else 0)\<rparr>;
           (rr, g, p) \<leftarrow> (if rr ! 3 AND 0x40 \<noteq> 0
              then map_option (\<lambda>(rr, p). (rr, g\<lparr>l_speed := bidi_speed (rr ! 4) (l_speed g)\<rparr>, p)) (ib_read_into [4] rr p)
              else Some (rr[4 := 0], g, p));
           (_, w) \<leftarrow> setFB b fbnumber 1 w;
           w \<leftarrow> (if l_speed g \<noteq> 0 then do {
                  msg \<leftarrow> bidi_message b fbnumber g w;
                  enqueueInfoMessage msg w }
                else Some w);
           if r0 AND 0x80 \<noteq> 0 then let (r0, p) = ib_read r0 p in Some (True, r0, g, rr, p, w)
           else Some (True, 0, g, rr, p, w) })"

definition check_status_bidi_IB :: "nat \<Rightarrow> ib \<Rightarrow> world \<Rightarrow> (ib \<times> world) option" where
  "check_status_bidi_IB b p w =
     (let (v, p) = ib_pop p; (r0, p) = ib_send [XEvtBiDi] (ib_byte v) p
      in map_option (\<lambda>(_, _, _, p, w). (p, w)) (repeat_while (ib_bidi_round b) (r0, jv_gl v, map (jv_bytes v) [0..<5], p, w)))"

text \<open>The three bytes of \<open>XEvent\<close>; a later one is asked for only if the one before says so.\<close>

definition ib_events :: "ib \<Rightarrow> 8 word \<times> 8 word \<times> 8 word \<times> ib" where
  "ib_events p =
     (let (v, p) = ib_pop p;
          (e1, p) = ib_send [XEvent] (ib_byte v) p;
          (e2, p) = (if e1 AND 0x80 \<noteq> 0 then ib_read 0 p else (0, p));
          (e3, p) = (if e1 AND 0x80 \<noteq> 0 \<and> e2 AND 0x80 \<noteq> 0 then ib_read 0 p else (0, p))
      in (e1, e2, e3, p))"

definition ib_shorts :: "(8 word \<times> string) list" where
  "ib_shorts =
     [(0x20, ''Overheating condition detected''),
      (0x10, ''Non-allowed electrical connection between programming track and rest of layout''),
      (0x08, ''Overload on DCC-Booster or Loconet''),
      (0x04, ''Short-circuit on internal booster''),
      (0x02, ''Overload on Lokmaus-bus''),
      (0x01, ''Short-circuit on external booster'')]"

definition ib_short_off :: "nat \<Rightarrow> 8 word \<Rightarrow> 8 word \<times> string \<Rightarrow> world \<Rightarrow> world option" where
  "ib_short_off b e2 x w = (if e2 AND fst x \<noteq> 0 then map_option snd (setPower b POWER_OFF (snd x) w) else Some w)"

definition ib_check_short :: "nat \<Rightarrow> 8 word \<Rightarrow> ib \<Rightarrow> world \<Rightarrow> (ib \<times> world) option" where
  "ib_check_short b e2 p w =
     (if e2 AND 0x3f \<noteq> 0 \<and> emergency_on_ib p = 0 \<and> getPower b w = POWER_ON
      then map_option (\<lambda>w. (p\<lparr>emergency_on_ib := 1\<rparr>, w)) (loopM (ib_short_off b e2) ib_shorts w)
      else Some (p, w))"

definition ib_check_power :: "nat \<Rightarrow> 8 word \<Rightarrow> 8 word \<Rightarrow> ib \<Rightarrow> world \<Rightarrow> (ib \<times> world) option" where
  "ib_check_power b e1 e2 p w =
     (if e1 AND 0x08 \<noteq> 0 \<or> e2 AND 0x40 \<noteq> 0 \<or> emergency_on_ib p = 2 then do {
        let (rr, p) = ib_command [XStatus] p;
        (p, w) \<leftarrow> (if rr AND 0x08 = 0 then
            (if emergency_on_ib p = 0 \<and> getPower b w = POWER_ON
             then map_option (\<lambda>(_, w). (p\<lparr>emergency_on_ib := 1\<rparr>, w)) (setPower b POWER_OFF ''Emergency Stop'' w)
             else Some (p, w))
          else
            (if emergency_on_ib p = 1 \<or> getPower b w = POWER_OFF
             then map_option (\<lambda>(_, w). (p\<lparr>emergency_on_ib := 0\<rparr>, w)) (setPower b POWER_ON ''No Emergency Stop'' w)
             else Some (p, w)));
        Some (if rr AND 0x80 \<noteq> 0 then snd (ib_read rr p) else p, w) }
      else Some (p, w))"

definition check_status_IB :: "nat \<Rightarrow> ib \<Rightarrow> world \<Rightarrow> (ib \<times> world) option" where
  "check_status_IB b p w = do {
     let (e1, e2, e3, p) = ib_events p;
     (p, w) \<leftarrow> (if e1 AND 0x01 \<noteq> 0 then check_status_gl_IB b p w else Some (p, w));
     (p, w) \<leftarrow> (if e1 AND 0x04 \<noteq> 0 then check_status_fb_IB b p w else Some (p, w));
     (p, w) \<leftarrow> (if e1 AND 0x20 \<noteq> 0 then check_status_ga_IB b p w else Some (p, w));
     (p, w) \<leftarrow> ib_check_short b e2 p w;
     (p, w) \<leftarrow> ib_check_power b e1 e2 p w;
     (p, w) \<leftarrow> (if e3 AND 0x01 \<noteq> 0 then check_status_pt_IB b p w else Some (p, w));
     (p, w) \<leftarrow> (if e3 AND 0x20 \<noteq> 0 then check_status_pt_IB b p w else Some (p, w));
     if e3 AND 0x40 \<noteq> 0 then check_status_bidi_IB b p w else Some (p, w) }"

subsection \<open>The thread\<close>

definition ib_power_round :: "8 word \<times> ib \<Rightarrow> (bool \<times> 8 word \<times> ib) option" where
  "ib_power_round s = (let (r, p) = s; (status, r, p) = readByte_IB r p in Some (status = -1, r, p))"

definition send_command_power_IB :: "nat \<Rightarrow> ib \<Rightarrow> world \<Rightarrow> (8 word \<times> ib) option" where
  "send_command_power_IB b p w =
     repeat_while ib_power_round
       (0, ib_write [if power_state (buses w b) = POWER_ON then XPwrOn else XPwrOff] p)"

definition handle_power_command_IB :: "nat \<Rightarrow> world \<Rightarrow> world option" where
  "handle_power_command_IB b w = do {
     w \<leftarrow> power_info b (w\<lparr>buses := upd (\<lambda>d. d\<lparr>power_changed := 0\<rparr>) b (buses w)\<rparr>);
     Some (w\<lparr>buses := upd (\<lambda>d. d\<lparr>watchdog := watchdog d + 1\<rparr>) b (buses w)\<rparr>) }"

definition ib_start :: "ib \<Rightarrow> ib" where
  "ib_start p = snd (ib_read 0 (ib_write [XSensOff] (p\<lparr>ib_tga := map (\<lambda>g. g\<lparr>a_id := 0\<rparr>) (ib_tga p)\<rparr>)))"

text \<open>The change of the power state. The first component says that the turn ends here.\<close>

definition ib_power_change :: "nat \<Rightarrow> ib \<Rightarrow> world \<Rightarrow> (bool \<times> ib \<times> world) option" where
  "ib_power_change b p w =
     (if emergency_on_ib p = 1 then do {
        (_, w) \<leftarrow> setPower b POWER_OFF ''Emergency Stop'' w;
        w \<leftarrow> handle_power_command_IB b w;
        Some (False, p\<lparr>emergency_on_ib := 2\<rparr>, w) }
      else if emergency_on_ib p = 2 \<and> power_state (buses w b) = POWER_OFF then
        map_option (Pair True) (check_status_IB b p w)
      else do {
        (r, p) \<leftarrow> send_command_power_IB b p w;
        (p, w) \<leftarrow> (if r = XPWOFF
          then map_option (\<lambda>(_, w). (p, w)) (setPower b POWER_OFF ''power on not possible - overheating'' w)
          else Some (if power_state (buses w b) = POWER_ON then p\<lparr>emergency_on_ib := 0\<rparr> else p, w));
        w \<leftarrow> handle_power_command_IB b w;
        Some (False, p, w) })"

text \<open>A turn of \<open>thr_sendrec_IB\<close>. While the power is off, only the status is asked for.\<close>

definition ib_turn :: "nat \<Rightarrow> ib \<Rightarrow> world \<Rightarrow> (ib \<times> world) option" where
  "ib_turn b p w = do {
     let w = w\<lparr>buses := upd (\<lambda>d. d\<lparr>watchdog := 1\<rparr>) b (buses w)\<rparr>;
     (over, p, w) \<leftarrow> (if power_changed (buses w b) = 1 then ib_power_change b p w else Some (False, p, w));
     if over then Some (p, w)
     else if power_state (buses w b) = POWER_OFF then check_status_IB b p w
     else do {
       (p, w) \<leftarrow> send_command_gl_IB b p w;
       (p, w) \<leftarrow> send_command_ga_IB b p w;
       (p, w) \<leftarrow> check_status_IB b p w;
       (p, w) \<leftarrow> send_command_sm_IB b p w;
       w \<leftarrow> check_reset_fb b w;
       Some (p, w) } }"

subsection \<open>The driver keeps the server's data well formed\<close>

lemma ib_tga_step_keeps: "world_inv (snd pw) \<Longrightarrow> keeps snd (ib_tga_step b akt i pw)"
  unfolding ib_tga_step_def
  by ((rule keeps_ops | rule keeps_rules | clarsimp simp: case_prod_unfold split del: if_split)+)

lemma send_command_ga_IB_keeps [keeps_ops]: "world_inv w \<Longrightarrow> keeps snd (send_command_ga_IB b p w)"
  unfolding send_command_ga_IB_def
  by ((rule keeps_ops | rule keeps_bind_snd, rule loopM_keeps, erule ib_tga_step_keeps
     | rule keeps_rules | clarsimp simp: case_prod_unfold split del: if_split)+)

lemma send_command_gl_IB_keeps [keeps_ops]: "world_inv w \<Longrightarrow> keeps snd (send_command_gl_IB b p w)"
  unfolding send_command_gl_IB_def
  by ((rule keeps_ops | rule keeps_bind_snd | rule keeps_bind, rule keeps_const, assumption
     | rule keeps_rules | clarsimp simp: case_prod_unfold ib_pop_def split del: if_split)+)

lemma ib_sm_command_keeps: "world_inv w \<Longrightarrow> world_inv (snd (ib_sm_command b s p w))"
  by (auto simp: ib_sm_command_def case_prod_unfold Let_def session_endwait_keeps split: sm_command.split)

lemma send_command_sm_IB_keeps [keeps_ops]: "world_inv w \<Longrightarrow> keeps snd (send_command_sm_IB b p w)"
  unfolding send_command_sm_IB_def
  by ((rule keeps_ops | rule keeps_rules | erule ib_sm_command_keeps | clarsimp)+)

lemma ib_fb_round_keeps: "world_inv (snd (snd s)) \<Longrightarrow> keeps (\<lambda>x. snd (snd (snd x))) (ib_fb_round b s)"
  unfolding ib_fb_round_def
  by ((rule keeps_ops | rule keeps_rules | clarsimp simp: case_prod_unfold split del: if_split)+)

lemma check_status_fb_IB_keeps [keeps_ops]: "world_inv w \<Longrightarrow> keeps snd (check_status_fb_IB b p w)"
  unfolding check_status_fb_IB_def
  by (simp add: case_prod_unfold Let_def)
     (rule keeps_map, rule repeat_while_keeps, rule ib_fb_round_keeps, simp_all)

lemma ib_ga_event_keeps: "world_inv (snd (snd (snd s))) \<Longrightarrow> keeps (\<lambda>x. snd (snd (snd x))) (ib_ga_event b i s)"
  unfolding ib_ga_event_def
  by ((rule keeps_ops | rule keeps_rules | clarsimp simp: case_prod_unfold split del: if_split)+)

lemma check_status_ga_IB_keeps [keeps_ops]: "world_inv w \<Longrightarrow> keeps snd (check_status_ga_IB b p w)"
  unfolding check_status_ga_IB_def
  by (simp add: case_prod_unfold Let_def)
     (rule keeps_map, rule loopM_keeps, rule ib_ga_event_keeps, simp_all)

lemma ib_gl_event_keeps:
  "world_inv (snd (snd (snd (snd s)))) \<Longrightarrow> keeps (\<lambda>x. snd (snd (snd (snd (snd x))))) (ib_gl_event b s)"
  unfolding ib_gl_event_def
  by ((rule keeps_ops | rule keeps_bind [where g = "\<lambda>x. snd (snd x)"] | rule keeps_rules
     | clarsimp simp: case_prod_unfold split del: if_split)+)

lemma check_status_gl_IB_keeps [keeps_ops]: "world_inv w \<Longrightarrow> keeps snd (check_status_gl_IB b p w)"
  unfolding check_status_gl_IB_def
  by (simp add: case_prod_unfold Let_def)
     (rule keeps_map, rule repeat_while_keeps, rule ib_gl_event_keeps, simp_all)

lemma check_status_pt_IB_keeps [keeps_ops]: "world_inv w \<Longrightarrow> keeps snd (check_status_pt_IB b p w)"
  unfolding check_status_pt_IB_def
  by ((rule keeps_ops | rule keeps_bind_snd, rule setSM_keeps, erule session_endwait_keeps | rule keeps_bind, rule keeps_const, assumption | rule keeps_rules
     | clarsimp simp: case_prod_unfold ib_pop_def split del: if_split)+)
lemma ib_bidi_round_keeps:
  "world_inv (snd (snd (snd (snd s)))) \<Longrightarrow> keeps (\<lambda>x. snd (snd (snd (snd (snd x))))) (ib_bidi_round b s)"
  unfolding ib_bidi_round_def
  by ((rule keeps_ops | rule keeps_bind [where g = "\<lambda>w::world. w"] | rule keeps_bind_snd
     | rule keeps_bind, rule keeps_const, assumption | rule keeps_rules
     | clarsimp simp: case_prod_unfold split del: if_split)+)

lemma check_status_bidi_IB_keeps [keeps_ops]: "world_inv w \<Longrightarrow> keeps snd (check_status_bidi_IB b p w)"
  unfolding check_status_bidi_IB_def
  by (simp add: case_prod_unfold Let_def)
     (rule keeps_map, rule repeat_while_keeps, rule ib_bidi_round_keeps, simp_all)

lemma ib_check_short_keeps [keeps_ops]: "world_inv w \<Longrightarrow> keeps snd (ib_check_short b e2 p w)"
proof -
  have off: "keeps (\<lambda>w. w) (ib_short_off b e2 x w)" if "world_inv w" for x w
    using that unfolding ib_short_off_def by (intro keeps_if keeps_map keeps_Some) (simp_all add: keeps_ops)
  show "world_inv w \<Longrightarrow> keeps snd (ib_check_short b e2 p w)"
    unfolding ib_check_short_def
    by (intro keeps_if keeps_map keeps_Some) (simp_all add: loopM_keeps [where f = "\<lambda>w. w"] off)
qed

lemma ib_check_power_keeps [keeps_ops]: "world_inv w \<Longrightarrow> keeps snd (ib_check_power b e1 e2 p w)"
  unfolding ib_check_power_def
  by ((rule keeps_ops | rule keeps_rules | clarsimp simp: case_prod_unfold split del: if_split)+)

lemma check_status_IB_keeps [keeps_ops]: "world_inv w \<Longrightarrow> keeps snd (check_status_IB b p w)"
  unfolding check_status_IB_def
  by ((rule keeps_ops | rule keeps_rules | clarsimp simp: case_prod_unfold split del: if_split)+)

lemma handle_power_command_IB_keeps [keeps_ops]: "world_inv w \<Longrightarrow> keeps (\<lambda>w. w) (handle_power_command_IB b w)"
  unfolding handle_power_command_IB_def
  by ((rule keeps_ops | rule keeps_rules | clarsimp)+)

lemma ib_power_change_keeps [keeps_ops]: "world_inv w \<Longrightarrow> keeps (\<lambda>x. snd (snd x)) (ib_power_change b p w)"
  unfolding ib_power_change_def
  by ((rule keeps_ops | rule keeps_bind [where g = "\<lambda>w::world. w"] | rule keeps_bind_snd
     | rule keeps_bind, rule keeps_const, assumption | rule keeps_rules
     | clarsimp simp: case_prod_unfold split del: if_split)+)

lemma ib_turn_keeps: "world_inv w \<Longrightarrow> keeps snd (ib_turn b p w)"
  unfolding ib_turn_def
  by ((rule keeps_ops | rule keeps_bind [where g = "\<lambda>x. snd (snd x)"] | rule keeps_bind_snd | rule keeps_rules
     | clarsimp simp: case_prod_unfold split del: if_split)+)

lemma ib_turn_inv [inv_intros]: "world_inv w \<Longrightarrow> ib_turn b p w = Some (p', w') \<Longrightarrow> world_inv w'"
  by (drule ib_turn_keeps [of w b p]) (auto dest: keepsD)

end
