(* ===== verification/Xml.thy ===== *)
theory Xml
  imports C_Strings
begin

text \<open>
  The configuration as the server sees it: libxml's tree of nodes, of which the code uses the
  name, the text (\<open>xmlNodeListGetString\<close>, absent for an empty element), the properties and the
  children.
\<close>

datatype xml = Xml (xml_name: string) (xml_text: "string option") (xml_props: "(string \<times> string) list")
  (xml_children: "xml list")

definition xmlGetProp :: "xml \<Rightarrow> string \<Rightarrow> string option" where
  "xmlGetProp x p = map_of (xml_props x) p"

text \<open>Formatting text and comments are told by the first characters of the name.\<close>

definition is_text :: "xml \<Rightarrow> bool" where
  "is_text x \<longleftrightarrow> take 4 (xml_name x) = ''text''"

definition is_formatting :: "xml \<Rightarrow> bool" where
  "is_formatting x \<longleftrightarrow> is_text x \<or> take 7 (xml_name x) = ''comment''"

text \<open>A number in an element: its text, if there is one, replaces the value so far.\<close>

definition xml_int :: "xml \<Rightarrow> int \<Rightarrow> int" where
  "xml_int x old = (case xml_text x of Some t \<Rightarrow> atoi t | None \<Rightarrow> old)"

text \<open>An element whose text is \<open>yes\<close>.\<close>

definition xml_yes :: "xml \<Rightarrow> bool" where
  "xml_yes x \<longleftrightarrow> xml_text x = Some ''yes''"

end
