(* ===== verification/Selectrix.thy ===== *)
theory Selectrix
  imports Driver_Inv Xml
begin

text \<open>
  The Selectrix driver, \<open>selectrix.c\<close>: a central unit on a serial line, whose bus has up to 256
  addresses with eight bits each. Three threads share the driver's data \<open>sx\<close>: the command
  thread, a timer that selects the feedback modules one after the other, and the handler of the
  signal that a byte has arrived. \<open>stateInterface\<close> says what the byte to come is. The bytes
  written are kept, the results of \<open>read_port\<close> to come may be anything; a read waits until there is
  one. \<open>sx_irq\<close> says in which of the short sleeps to come the signal handler runs.
\<close>

unbundle bit_operations_syntax

subsection \<open>Constants and data\<close>

abbreviation (input) SXread :: int where "SXread \<equiv> 0x00"
abbreviation (input) SXwrite :: int where "SXwrite \<equiv> 0x80"
abbreviation (input) SXempty :: int where "SXempty \<equiv> 0x5a"
abbreviation (input) SXmax :: nat where "SXmax \<equiv> 112"
abbreviation (input) SXcontrol :: int where "SXcontrol \<equiv> 127"
abbreviation (input) SXstatus :: int where "SXstatus \<equiv> 109"
abbreviation (input) SXcommand :: int where "SXcommand \<equiv> 106"
abbreviation (input) SXprog2 :: int where "SXprog2 \<equiv> 105"
abbreviation (input) SXprog1 :: int where "SXprog1 \<equiv> 104"
abbreviation (input) SXstpower :: int where "SXstpower \<equiv> 0x80"
abbreviation (input) SXstready :: int where "SXstready \<equiv> 0x40"
abbreviation (input) SXcmdstart :: int where "SXcmdstart \<equiv> 0x80"
abbreviation (input) SXcmdprog :: int where "SXcmdprog \<equiv> 0x40"
abbreviation (input) SXcmddcod :: int where "SXcmddcod \<equiv> 0x08"
abbreviation (input) SXcmdmodus :: int where "SXcmdmodus \<equiv> 0x01"
abbreviation (input) RautenhsCC :: int where "RautenhsCC \<equiv> 126"
abbreviation (input) RautenhsB0 :: int where "RautenhsB0 \<equiv> 0x00"
abbreviation (input) RautenhsB1 :: int where "RautenhsB1 \<equiv> 0x02"
abbreviation (input) cntrlON :: int where "cntrlON \<equiv> 128"
abbreviation (input) cntrlOFF :: int where "cntrlOFF \<equiv> 64"
abbreviation (input) fdbckON :: int where "fdbckON \<equiv> 32"
abbreviation (input) fdbckOFF :: int where "fdbckOFF \<equiv> 16"
abbreviation (input) clkOFF0 :: int where "clkOFF0 \<equiv> 8"
abbreviation (input) clkOFF1 :: int where "clkOFF1 \<equiv> 4"
abbreviation (input) CC2000_MODE :: int where "CC2000_MODE \<equiv> 0x0001"
abbreviation (input) Rautenhaus_MODE :: int where "Rautenhaus_MODE \<equiv> 0x0002"
abbreviation (input) Rautenhaus_FDBCK :: int where "Rautenhaus_FDBCK \<equiv> 0x0010"
abbreviation (input) Rautenhaus_DBL :: int where "Rautenhaus_DBL \<equiv> 0x0020"
abbreviation (input) Rautenhaus_ADR :: int where "Rautenhaus_ADR \<equiv> 0x0040"
abbreviation (input) Rautenhaus_RTBS :: int where "Rautenhaus_RTBS \<equiv> 0x0080"
abbreviation (input) Connection :: int where "Connection \<equiv> 0x0100"

record sx =
  sx_number_fb :: int
  sx_number_ga :: int
  sx_number_gl :: int
  SXflags :: int
  stateInterface :: int
  currentFB :: int
  max_address :: int
  fb_adresses :: "int list"
  sx_bus_data :: "int list"
  sx_open :: bool
  sx_tx :: "8 word list"
  sx_rx :: "nat list"
  sx_irq :: "nat \<Rightarrow> bool"

text \<open>The elements of an array; outside of it there is no defined result.\<close>

definition fetch :: "int list \<Rightarrow> int \<Rightarrow> int option" where
  "fetch xs i = (if 0 \<le> i \<and> i < int (length xs) then Some (xs ! nat i) else None)"

definition store :: "int list \<Rightarrow> int \<Rightarrow> int \<Rightarrow> int list option" where
  "store xs i v = (if 0 \<le> i \<and> i < int (length xs) then Some (xs[nat i := v]) else None)"

definition checkSXflag :: "sx \<Rightarrow> int \<Rightarrow> bool" where
  "checkSXflag p flag \<longleftrightarrow> SXflags p AND flag = flag"

definition setSXflag :: "int \<Rightarrow> sx \<Rightarrow> sx" where
  "setSXflag flag p = p\<lparr>SXflags := SXflags p OR flag\<rparr>"

definition clearSXflag :: "int \<Rightarrow> sx \<Rightarrow> sx" where
  "clearSXflag flag p = p\<lparr>SXflags := SXflags p AND NOT flag\<rparr>"

subsection \<open>Devices\<close>

definition init_gl_Selectrix :: "gl_state \<Rightarrow> int \<times> gl_state" where
  "init_gl_Selectrix g =
     ((if l_protocol g = CHR ''S'' \<or> l_protocol g = CHR ''s'' then
         if l_n_fs g = 31 \<and> l_protocolversion g = 1 \<and> l_n_func g = 2 then SRCP_OK else SRCP_WRONGVALUE
       else SRCP_UNSUPPORTEDDEVICEPROTOCOL), g)"

definition init_ga_Selectrix :: "ga_state \<Rightarrow> int \<times> ga_state" where
  "init_ga_Selectrix a =
     (if a_protocol a = CHR ''S'' \<or> a_protocol a = CHR ''s'' then SRCP_OK else SRCP_UNSUPPORTEDDEVICEPROTOCOL, a)"

text \<open>The index of a feedback module is only checked from above. The reply does not depend on the write.\<close>

definition init_fb_reply :: "sx \<Rightarrow> int \<Rightarrow> char \<Rightarrow> int \<Rightarrow> int" where
  "init_fb_reply p adres prot idx =
     (if prot = CHR ''S'' \<or> prot = CHR ''s'' then
        if adres < max_address p \<and> idx \<le> sx_number_fb p then SRCP_OK else SRCP_WRONGVALUE
      else SRCP_UNSUPPORTEDDEVICEPROTOCOL)"

definition init_fb_Selectrix :: "int \<Rightarrow> char \<Rightarrow> int \<Rightarrow> sx \<Rightarrow> (int \<times> sx) option" where
  "init_fb_Selectrix adres prot idx p =
     (let r = init_fb_reply p adres prot idx
      in if r = SRCP_OK then map_option (\<lambda>xs. (r, p\<lparr>fb_adresses := xs\<rparr>)) (store (fb_adresses p) idx adres)
         else Some (r, p))"

subsection \<open>Configuration\<close>

text \<open>The addresses of the feedback modules; the second bus starts at 128. \<open>portindex\<close> counts them.\<close>

definition sx_port :: "xml \<Rightarrow> int \<times> sx \<Rightarrow> (int \<times> sx) option" where
  "sx_port x s =
     (let (portindex, p) = s
      in if is_text x \<or> xml_name x \<noteq> ''port'' then Some (portindex, p)
         else let offset = (case xmlGetProp x ''sxbus'' of Some t \<Rightarrow> if atoi t = 1 then 128 else 0 | None \<Rightarrow> 0)
              in case xml_text x of
                   None \<Rightarrow> Some (portindex, p)
                 | Some t \<Rightarrow> do {
                     xs \<leftarrow> store (fb_adresses p) portindex (atoi t + offset);
                     Some (if portindex < sx_number_fb p then portindex + 1 else portindex, p\<lparr>fb_adresses := xs\<rparr>) })"

definition sx_interface :: "string \<Rightarrow> sx \<Rightarrow> sx" where
  "sx_interface t p =
     (if t = ''RTHS_0'' then setSXflag Rautenhaus_MODE p
      else if t = ''RTHS_1'' then setSXflag Rautenhaus_DBL (setSXflag Rautenhaus_MODE p)
      else if t = ''RTHS_2'' then setSXflag Rautenhaus_ADR (setSXflag Rautenhaus_FDBCK (setSXflag Rautenhaus_MODE p))
      else if t = ''RTHS_3'' then setSXflag Rautenhaus_ADR (setSXflag Rautenhaus_FDBCK
        (setSXflag Rautenhaus_DBL (setSXflag Rautenhaus_MODE p)))
      else p)"

definition sx_description :: "bool \<Rightarrow> string" where
  "sx_description sm = (if sm then ''GA GL FB SM POWER LOCK DESCRIPTION'' else ''GA GL FB POWER LOCK DESCRIPTION'')"

definition sx_element :: "nat \<Rightarrow> xml \<Rightarrow> int \<times> sx \<times> world \<Rightarrow> (int \<times> sx \<times> world) option" where
  "sx_element b x s =
     (let (portindex, p, w) = s
      in if is_formatting x then Some s
         else if xml_name x = ''number_fb'' then Some (portindex, p\<lparr>sx_number_fb := xml_int x (sx_number_fb p)\<rparr>, w)
         else if xml_name x = ''number_gl'' then Some (portindex, p\<lparr>sx_number_gl := xml_int x (sx_number_gl p)\<rparr>, w)
         else if xml_name x = ''number_ga'' then Some (portindex, p\<lparr>sx_number_ga := xml_int x (sx_number_ga p)\<rparr>, w)
         else if xml_name x = ''controller'' then
           Some (if xml_text x = Some ''CC2000''
                 then (portindex, setSXflag CC2000_MODE p,
                       w\<lparr>buses := upd (\<lambda>d. d\<lparr>description := sx_description True\<rparr>) b (buses w)\<rparr>)
                 else s)
         else if xml_name x = ''interface'' then
           Some (portindex, case xml_text x of Some t \<Rightarrow> sx_interface t p | None \<Rightarrow> p, w)
         else if xml_name x = ''ports'' then
           map_option (\<lambda>(i, p). (i, p, w)) (loopM sx_port (xml_children x) (1, p))
         else Some s)"

text \<open>The arrays come from \<open>malloc\<close>, and only their first \<open>SXmax\<close> elements are set.\<close>

definition sx_initial :: "(nat \<Rightarrow> int) \<Rightarrow> (nat \<Rightarrow> int) \<Rightarrow> nat list \<Rightarrow> (nat \<Rightarrow> bool) \<Rightarrow> sx" where
  "sx_initial raw_fb raw_data rx irq =
     \<lparr>sx_number_fb = 0, sx_number_ga = 0, sx_number_gl = 0, SXflags = 0, stateInterface = 0, currentFB = 1,
      max_address = 0x100, fb_adresses = map (\<lambda>i. if i < SXmax then 255 else raw_fb i) [0..<256],
      sx_bus_data = map (\<lambda>i. if i < SXmax then 0 else raw_data i) [0..<256],
      sx_open = False, sx_tx = [], sx_rx = rx, sx_irq = irq\<rparr>"

text \<open>The tables; \<open>ok\<close> says which allocations succeed.\<close>

definition sx_tables :: "(nat \<Rightarrow> bool) \<Rightarrow> (nat \<Rightarrow> ga_state) \<Rightarrow> nat \<Rightarrow> sx \<Rightarrow> world \<Rightarrow> sx \<times> world" where
  "sx_tables ok raw b p w =
     (if sx_number_gl p + sx_number_ga p + sx_number_fb p < max_address p then
        let (e, w) = init_GL (ok 0) b (sx_number_gl p) w; p = (if e \<noteq> 0 then p\<lparr>sx_number_gl := 0\<rparr> else p);
            (e, w) = init_GA (ok 1) raw b (sx_number_ga p) w; p = (if e \<noteq> 0 then p\<lparr>sx_number_ga := 0\<rparr> else p);
            (e, w) = init_FB (ok 2) b (sx_number_fb p * 8) w; p = (if e \<noteq> 0 then p\<lparr>sx_number_fb := 0\<rparr> else p)
        in (p, w)
      else (p\<lparr>sx_number_gl := 0, sx_number_ga := 0, sx_number_fb := 0\<rparr>, w))"

definition readconfig_Selectrix ::
    "(nat \<Rightarrow> bool) \<Rightarrow> (nat \<Rightarrow> ga_state) \<Rightarrow> nat \<Rightarrow> xml \<Rightarrow> sx \<Rightarrow> world \<Rightarrow> (sx \<times> world) option" where
  "readconfig_Selectrix ok raw b x p w = do {
     let w = w\<lparr>buses := upd (\<lambda>d. d\<lparr>description := sx_description False, init_gl_func := Some init_gl_Selectrix,
               init_ga_func := Some init_ga_Selectrix\<rparr>) b (buses w)\<rparr>;
     (_, p, w) \<leftarrow> loopM (sx_element b) (xml_children x) (0, p, w);
     let (p, w) = sx_tables ok raw b p w;
     Some (p, w\<lparr>buses := upd (\<lambda>d. d\<lparr>init_fb_func := Some (\<lambda>_. init_fb_reply p)\<rparr>) b (buses w)\<rparr>) }"

definition init_bus_Selectrix :: "bool \<Rightarrow> nat \<Rightarrow> sx \<Rightarrow> world \<Rightarrow> int \<times> sx \<times> world" where
  "init_bus_Selectrix opened b p w =
     (0, p\<lparr>sx_open := opened\<rparr>, w\<lparr>buses := upd (\<lambda>d. d\<lparr>protocols := Some ''S''\<rparr>) b (buses w)\<rparr>)"

subsection \<open>The bus\<close>

definition write_port :: "int \<Rightarrow> sx \<Rightarrow> sx" where
  "write_port v p = p\<lparr>sx_tx := sx_tx p @ [word_of_int v]\<rparr>"

text \<open>\<open>confRautenhaus\<close> writes the mode of a Rautenhaus interface.\<close>

definition confRautenhaus :: "sx \<Rightarrow> sx" where
  "confRautenhaus p =
     (if checkSXflag p Rautenhaus_MODE then
        let second = checkSXflag p (Rautenhaus_DBL + Rautenhaus_RTBS);
            conf = (if second then RautenhsB1 else RautenhsB0);
            p = (if second then p else clearSXflag Rautenhaus_RTBS p);
            conf = (if checkSXflag p Rautenhaus_FDBCK then
                      conf OR (cntrlON + fdbckON) OR
                      (if checkSXflag p CC2000_MODE
                       then clkOFF0 OR (if checkSXflag p Rautenhaus_DBL then clkOFF1 else 0) else 0)
                    else conf OR (cntrlOFF + fdbckOFF))
        in write_port conf (write_port (SXwrite + RautenhsCC) p)
      else p)"

text \<open>\<open>selRautenhaus\<close> selects the bus of an address, unless it is already selected.\<close>

definition selRautenhaus :: "int \<Rightarrow> sx \<Rightarrow> sx" where
  "selRautenhaus adres p =
     (if checkSXflag p (Rautenhaus_MODE + Rautenhaus_DBL) then
        if 127 < adres then
          if \<not> checkSXflag p Rautenhaus_RTBS
          then setSXflag Rautenhaus_RTBS (write_port RautenhsB1 (write_port (SXwrite + RautenhsCC) p)) else p
        else
          if checkSXflag p Rautenhaus_RTBS
          then clearSXflag Rautenhaus_RTBS (write_port RautenhsB0 (write_port (SXwrite + RautenhsCC) p)) else p
      else p)"

text \<open>\<open>read_port\<close> gives at least \<open>0x100\<close> for an error, which reads as "all blocked".\<close>

definition readSXbus :: "sx \<Rightarrow> (int \<times> sx) option" where
  "readSXbus p =
     (if sx_open p then
        case sx_rx p of
          [] \<Rightarrow> None
        | c # r \<Rightarrow> Some (if c < 0x100 then int c else 0xff, p\<lparr>sx_rx := r\<rparr>)
      else Some (0xff, p))"

definition commandreadSXbus :: "int \<Rightarrow> sx \<Rightarrow> sx" where
  "commandreadSXbus adres p =
     (if sx_open p then write_port SXempty (write_port (SXread + (adres AND 0x7f)) (selRautenhaus adres p)) else p)"

definition writeSXbus :: "int \<Rightarrow> int \<Rightarrow> sx \<Rightarrow> sx" where
  "writeSXbus adres v p =
     (if sx_open p then write_port v (write_port (SXwrite + (adres AND 0x7f)) (selRautenhaus adres p)) else p)"

subsection \<open>The signal handler\<close>

text \<open>The bits of a module in the order of its contacts.\<close>

fun rotate_bits :: "nat \<Rightarrow> int \<Rightarrow> int \<Rightarrow> int" where
  "rotate_bits 0 v up = up"
| "rotate_bits (Suc n) v up = rotate_bits n (c_div v 2) (up * 2 + (v AND 1))"

definition sx_module :: "nat \<Rightarrow> int \<Rightarrow> sx \<Rightarrow> world \<Rightarrow> (sx \<times> world) option" where
  "sx_module b v p w = do {
     addr \<leftarrow> fetch (fb_adresses p) (currentFB p);
     xs \<leftarrow> store (sx_bus_data p) addr v;
     (_, w) \<leftarrow> setFBmodul b (currentFB p) (rotate_bits 8 v 0) w;
     Some (p\<lparr>sx_bus_data := xs\<rparr>, w) }"

text \<open>The search for the module with the address that was reported: \<open>n\<close> modules are left.\<close>

fun sx_find :: "nat \<Rightarrow> int \<Rightarrow> sx \<Rightarrow> sx option" where
  "sx_find 0 v p = Some p"
| "sx_find (Suc n) v p = do {
     addr \<leftarrow> fetch (fb_adresses p) (currentFB p);
     if v = addr then Some (clearSXflag Rautenhaus_ADR p) else sx_find n v (p\<lparr>currentFB := currentFB p + 1\<rparr>) }"

definition sig_processSelectrix :: "nat \<Rightarrow> sx \<Rightarrow> world \<Rightarrow> (sx \<times> world) option" where
  "sig_processSelectrix b p w = do {
     (v, p) \<leftarrow> readSXbus (setSXflag Connection p);
     if stateInterface p = 2 then do {
       (p, w) \<leftarrow> sx_module b v p w;
       Some (p\<lparr>currentFB := (if sx_number_fb p \<le> currentFB p then 1 else currentFB p + 1), stateInterface := 0\<rparr>, w) }
     else if stateInterface p = 10 then Some (p\<lparr>stateInterface := 11\<rparr>, w)
     else if stateInterface p = 12 then Some (p\<lparr>stateInterface := 13\<rparr>, w)
     else if stateInterface p = 14 then Some (p\<lparr>stateInterface := 15\<rparr>, w)
     else if checkSXflag p (Rautenhaus_MODE + Rautenhaus_FDBCK) then
       if checkSXflag p Rautenhaus_ADR
       then map_option (\<lambda>p. (p, w)) (sx_find (nat (sx_number_fb p)) v (p\<lparr>currentFB := 1\<rparr>))
       else do {
         (p, w) \<leftarrow> sx_module b v p w;
         Some (setSXflag Rautenhaus_ADR p, w) }
     else Some (p\<lparr>stateInterface := 0, currentFB := 1\<rparr>, w) }"

subsection \<open>Programming with a CC-2000\<close>

text \<open>A short sleep, in which the signal handler may run.\<close>

definition sx_sleep :: "nat \<Rightarrow> sx \<Rightarrow> world \<Rightarrow> (sx \<times> world) option" where
  "sx_sleep b p w =
     (let irq = sx_irq p 0; p = p\<lparr>sx_irq := (\<lambda>n. sx_irq p (Suc n))\<rparr>
      in if irq then sig_processSelectrix b p w else Some (p, w))"

text \<open>The loops that wait for \<open>stateInterface\<close>: as written, they also go on when the counter is 0.\<close>

definition sx_wait_round :: "nat \<Rightarrow> int \<Rightarrow> int \<times> sx \<times> world \<Rightarrow> (bool \<times> int \<times> sx \<times> world) option" where
  "sx_wait_round b step s =
     (let (wait, p, w) = s
      in if stateInterface p < step + 1 \<or> wait = 0
         then map_option (\<lambda>(p, w). (True, wait - 1, p, w)) (sx_sleep b p w)
         else Some (False, wait, p, w))"

definition sx_wait :: "nat \<Rightarrow> int \<Rightarrow> sx \<Rightarrow> world \<Rightarrow> (int \<times> sx \<times> world) option" where
  "sx_wait b step p w = repeat_while (sx_wait_round b step) (10, p\<lparr>stateInterface := step\<rparr>, w)"

definition chkCC2000Status :: "nat \<Rightarrow> int \<Rightarrow> int \<Rightarrow> sx \<Rightarrow> world \<Rightarrow> (int \<times> sx \<times> world) option" where
  "chkCC2000Status b step statFlag p w = do {
     (_, p, w) \<leftarrow> sx_wait b step (commandreadSXbus SXstatus p) w;
     (v, p) \<leftarrow> readSXbus p;
     Some (if v AND statFlag = statFlag then -1 else 0, p, w) }"

definition chkCC2000Ready :: "nat \<Rightarrow> sx \<Rightarrow> world \<Rightarrow> (int \<times> sx \<times> world) option" where
  "chkCC2000Ready b p w = do {
     (r, p, w) \<leftarrow> chkCC2000Status b 10 SXstready p w;
     if r \<noteq> 0 then do {
       (r, p, w) \<leftarrow> chkCC2000Status b 10 SXstpower p w;
       Some (if r = 0 then 0 else 2, p, w) }
     else Some (1, p, w) }"

text \<open>One byte of the decoder's data; 0 and less of the counter means that it did not come.\<close>

definition sx_decoder_byte :: "nat \<Rightarrow> int \<Rightarrow> sx \<Rightarrow> world \<Rightarrow> (int option \<times> sx \<times> world) option" where
  "sx_decoder_byte b place p w = do {
     (wait, p, w) \<leftarrow> sx_wait b 12 (commandreadSXbus place p) w;
     if 0 < wait then do { (v, p) \<leftarrow> readSXbus p; Some (Some v, p, w) }
     else Some (None, p, w) }"

definition readSXDecoder :: "nat \<Rightarrow> sx \<Rightarrow> world \<Rightarrow> (int \<times> sx \<times> world) option" where
  "readSXDecoder b p w = do {
     (r, p, w) \<leftarrow> chkCC2000Ready b p w;
     if r \<noteq> 0 then Some (-1, p, w)
     else do {
       let p = writeSXbus SXcommand (SXcmdstart + SXcmdprog + SXcmdmodus) p;
       let p = writeSXbus SXcommand (SXcmdstart + SXcmdmodus) p;
       (lo, p, w) \<leftarrow> sx_decoder_byte b SXprog1 p w;
       case lo of
         None \<Rightarrow> Some (-1, p, w)
       | Some l \<Rightarrow> do {
           (hi, p, w) \<leftarrow> sx_decoder_byte b SXprog2 p w;
           case hi of None \<Rightarrow> Some (-1, p, w) | Some h \<Rightarrow> Some (l + 256 * h, p, w) } } }"

fun sx_programmed :: "nat \<Rightarrow> nat \<Rightarrow> sx \<Rightarrow> world \<Rightarrow> (sx \<times> world) option" where
  "sx_programmed 0 b p w = Some (p, w)"
| "sx_programmed (Suc timeout) b p w = do {
     (r, p, w) \<leftarrow> chkCC2000Status b 14 SXstready p w;
     if r = 0 then Some (p, w) else sx_programmed timeout b p w }"

definition writeSXDecoder :: "nat \<Rightarrow> int \<Rightarrow> sx \<Rightarrow> world \<Rightarrow> (sx \<times> world) option" where
  "writeSXDecoder b SXdecoder p w = do {
     (r, p, w) \<leftarrow> chkCC2000Ready b p w;
     if r \<noteq> 0 then Some (p, w)
     else do {
       let p = writeSXbus SXprog1 (SXdecoder AND 0xff) p;
       let p = writeSXbus SXprog2 (c_div SXdecoder 256 AND 0xff) p;
       let p = writeSXbus SXcommand (SXcmdstart + SXcmdprog + SXcmddcod + SXcmdmodus) p;
       (p, w) \<leftarrow> sx_programmed 1000 b p w;
       Some (writeSXbus SXcommand (SXcmdstart + SXcmdmodus) p, w) } }"

subsection \<open>The command thread\<close>

definition sx_power :: "nat \<Rightarrow> sx \<Rightarrow> world \<Rightarrow> (sx \<times> world) option" where
  "sx_power b p w = do {
     let w = set_watchdog 2 b w;
     let p = (if power_state (buses w b) \<noteq> 0 then confRautenhaus (writeSXbus SXcontrol 0x80 p)
              else writeSXbus SXcontrol 0x00 p);
     w \<leftarrow> power_info b w;
     Some (p, w\<lparr>buses := upd (\<lambda>d. d\<lparr>power_changed := 0\<rparr>) b (buses w)\<rparr>) }"

definition sx_sm_command :: "nat \<Rightarrow> sx \<Rightarrow> world \<Rightarrow> (sx \<times> world) option" where
  "sx_sm_command b p w = do {
     (s, w) \<leftarrow> dequeueNextSM b (set_watchdog 3 b w);
     (v, p, w) \<leftarrow> (case s_command s of
         SM_SET \<Rightarrow> map_option (Pair (s_value s)) (writeSXDecoder b (s_value s) p w)
       | SM_GET \<Rightarrow> readSXDecoder b p w
       | SM_VERIFY \<Rightarrow> readSXDecoder b p w
       | _ \<Rightarrow> Some (s_value s, p, w));
     Some (p, session_endwait b v w) }"

text \<open>The byte of a locomotive: speed, direction, light and function. A stop keeps the direction.\<close>

definition sx_gl_byte :: "gl_state \<Rightarrow> int \<Rightarrow> int" where
  "sx_gl_byte g old =
     (if l_direction g = 0 then 0x20 else if l_direction g = 1 then 0 else old AND 0x20)
     + (if l_direction g = 0 \<or> l_direction g = 1 then l_speed g else 0)
     + (if l_funcs g AND 1 \<noteq> 0 then 0x40 else 0) + (if l_funcs g AND 2 \<noteq> 0 then 0x80 else 0)"

definition sx_gl_command :: "nat \<Rightarrow> sx \<Rightarrow> world \<Rightarrow> (sx \<times> world) option" where
  "sx_gl_command b p w = do {
     (g, w) \<leftarrow> dequeueNextGL b (set_watchdog 4 b w);
     let addr = l_id g;
     if addr < max_address p \<and> l_state g \<noteq> 2 then do {
       old \<leftarrow> fetch (sx_bus_data p) addr;
       let v = sx_gl_byte g old;
       let g = (if l_direction g = 0 \<or> l_direction g = 1 then g else g\<lparr>l_speed := 0\<rparr>);
       let p = writeSXbus addr v p;
       xs \<leftarrow> store (sx_bus_data p) addr v;
       (_, w) \<leftarrow> cacheSetGL b addr g w;
       Some (p\<lparr>sx_bus_data := xs\<rparr>, w) }
     else Some (p, w) }"

text \<open>The bit of the port is cleared or set; a port that does not exist leaves the byte as it is.\<close>

definition sx_ga_byte :: "ga_state \<Rightarrow> int \<Rightarrow> int" where
  "sx_ga_byte a old =
     (let m = (if 1 \<le> a_port a \<and> a_port a \<le> 8 then 2 ^ nat (a_port a - 1) else 0)
      in if a_action a = 0 then if m = 0 then old else old AND (0xff - m) else old OR m)"

definition sx_ga_command :: "nat \<Rightarrow> sx \<Rightarrow> world \<Rightarrow> (sx \<times> world) option" where
  "sx_ga_command b p w = do {
     (a, w) \<leftarrow> dequeueNextGA b (set_watchdog 5 b w);
     let addr = a_id a;
     if addr < max_address p then do {
       old \<leftarrow> fetch (sx_bus_data p) addr;
       let v = sx_ga_byte a old;
       let p = writeSXbus addr v p;
       xs \<leftarrow> store (sx_bus_data p) addr v;
       Some (p\<lparr>sx_bus_data := xs\<rparr>, w) }
     else Some (p, w) }"

definition sx_fb_command :: "sx \<Rightarrow> sx option" where
  "sx_fb_command p =
     map_option (\<lambda>addr. commandreadSXbus addr (p\<lparr>stateInterface := 2\<rparr>)) (fetch (fb_adresses p) (currentFB p))"

text \<open>A turn of \<open>thr_commandSelectrix\<close>.\<close>

definition sx_turn :: "nat \<Rightarrow> sx \<Rightarrow> world \<Rightarrow> (sx \<times> world) option" where
  "sx_turn b p w = do {
     let w = set_watchdog 1 b w;
     (p, w) \<leftarrow> (if power_changed (buses w b) \<noteq> 0 then sx_power b p w else Some (p, w));
     (p, w) \<leftarrow> (if power_state (buses w b) = 0 \<and> \<not> queue_SM_isempty b w then sx_sm_command b p w else Some (p, w));
     (p, w) \<leftarrow> (if \<not> queue_GL_isempty b w then sx_gl_command b p w else Some (p, w));
     (p, w) \<leftarrow> (if \<not> queue_GA_isempty b w then sx_ga_command b p w else Some (p, w));
     (if 0 < sx_number_fb p \<and> stateInterface p = 1
      then map_option (\<lambda>p. (p, set_watchdog 6 b w)) (sx_fb_command p) else Some (p, w)) }"

subsection \<open>The timer\<close>

text \<open>A turn of \<open>thr_feedbackSelectrix\<close>, with its variable \<open>respondtime\<close>.\<close>

definition sx_timer :: "int \<Rightarrow> sx \<Rightarrow> (int \<times> sx) option" where
  "sx_timer respondtime p =
     (if 0 < sx_number_fb p \<and> \<not> checkSXflag p (Rautenhaus_MODE + Rautenhaus_FDBCK) then
        if stateInterface p = 0 then do {
          addr \<leftarrow> fetch (fb_adresses p) (currentFB p);
          Some (0, if addr < max_address p then p\<lparr>stateInterface := 1\<rparr> else p\<lparr>stateInterface := 0, currentFB := 1\<rparr>) }
        else if stateInterface p = 1 \<or> stateInterface p = 2 then
          if 50 < respondtime + 1 then Some (0, p\<lparr>stateInterface := 0, currentFB := 1\<rparr>)
          else Some (respondtime + 1, p)
        else Some (0, p\<lparr>stateInterface := 0, currentFB := 1\<rparr>)
      else Some (respondtime, p))"

subsection \<open>The driver keeps the server's data well formed\<close>

lemma sx_module_keeps [keeps_ops]: "world_inv w \<Longrightarrow> keeps snd (sx_module b v p w)"
  unfolding sx_module_def
  by ((rule keeps_ops | rule keeps_bind_snd | rule keeps_bind, rule keeps_const, assumption | rule keeps_rules | clarsimp)+)

lemma sig_process_keeps [keeps_ops]: "world_inv w \<Longrightarrow> keeps snd (sig_processSelectrix b p w)"
  unfolding sig_processSelectrix_def
  by ((rule keeps_ops | rule keeps_const, assumption | rule keeps_bind_snd
     | rule keeps_bind, rule keeps_const, assumption | rule keeps_rules | clarsimp split del: if_split)+)

lemma sx_sleep_keeps: "world_inv w \<Longrightarrow> keeps snd (sx_sleep b p w)"
  unfolding sx_sleep_def by (auto simp: Let_def sig_process_keeps keeps_Some)

lemma sx_wait_keeps [keeps_ops]: "world_inv w \<Longrightarrow> keeps (\<lambda>x. snd (snd x)) (sx_wait b step p w)"
  unfolding sx_wait_def
proof (rule repeat_while_keeps)
  fix s :: "int \<times> sx \<times> world"
  assume "world_inv (snd (snd s))"
  then have "keeps (\<lambda>x. snd (snd (snd (True, x)))) (map_option (\<lambda>(p, w). (fst s - 1, p, w)) (sx_sleep b (fst (snd s)) (snd (snd s))))"
    by (intro keeps_map) (simp add: case_prod_unfold sx_sleep_keeps)
  then show "keeps (\<lambda>x. snd (snd (snd x))) (sx_wait_round b step s)"
    using \<open>world_inv (snd (snd s))\<close>
    by (auto simp: sx_wait_round_def case_prod_unfold Let_def keeps_def)
qed simp

lemma chkCC2000Status_keeps [keeps_ops]: "world_inv w \<Longrightarrow> keeps (\<lambda>x. snd (snd x)) (chkCC2000Status b step f p w)"
  unfolding chkCC2000Status_def
  by ((rule keeps_ops | rule keeps_bind [where g = "\<lambda>x. snd (snd x)"] | rule keeps_bind, rule keeps_const, assumption
     | rule keeps_rules | clarsimp)+)

lemma chkCC2000Ready_keeps [keeps_ops]: "world_inv w \<Longrightarrow> keeps (\<lambda>x. snd (snd x)) (chkCC2000Ready b p w)"
  unfolding chkCC2000Ready_def
  by ((rule keeps_ops | rule keeps_bind [where g = "\<lambda>x. snd (snd x)"] | rule keeps_rules | clarsimp)+)

lemma sx_decoder_byte_keeps [keeps_ops]: "world_inv w \<Longrightarrow> keeps (\<lambda>x. snd (snd x)) (sx_decoder_byte b place p w)"
  unfolding sx_decoder_byte_def
  by ((rule keeps_ops | rule keeps_bind [where g = "\<lambda>x. snd (snd x)"] | rule keeps_bind, rule keeps_const, assumption
     | rule keeps_rules | clarsimp)+)

lemma readSXDecoder_keeps [keeps_ops]: "world_inv w \<Longrightarrow> keeps (\<lambda>x. snd (snd x)) (readSXDecoder b p w)"
  unfolding readSXDecoder_def
  by ((rule keeps_ops | rule keeps_bind [where g = "\<lambda>x. snd (snd x)"] | rule keeps_rules | clarsimp split del: if_split)+)

lemma sx_programmed_keeps [keeps_ops]: "world_inv w \<Longrightarrow> keeps snd (sx_programmed n b p w)"
proof (induction n arbitrary: p w)
  case (Suc n)
  then show ?case
    by (simp, intro keeps_bind [where g = "\<lambda>x. snd (snd x)"] chkCC2000Status_keeps) (auto simp: keeps_Some)
qed (simp add: keeps_Some)

lemma writeSXDecoder_keeps [keeps_ops]: "world_inv w \<Longrightarrow> keeps snd (writeSXDecoder b v p w)"
  unfolding writeSXDecoder_def
  by ((rule keeps_ops | rule keeps_bind [where g = "\<lambda>x. snd (snd x)"] | rule keeps_bind_snd | rule keeps_rules
     | clarsimp split del: if_split)+)

lemma sx_power_keeps [keeps_ops]: "world_inv w \<Longrightarrow> keeps snd (sx_power b p w)"
  unfolding sx_power_def by ((rule keeps_ops | rule keeps_rules | clarsimp)+)

lemma sx_sm_command_keeps [keeps_ops]: "world_inv w \<Longrightarrow> keeps snd (sx_sm_command b p w)"
proof -
  assume inv: "world_inv w"
  have run: "keeps (\<lambda>x. snd (snd x)) (case s_command s of
         SM_SET \<Rightarrow> map_option (Pair (s_value s)) (writeSXDecoder b (s_value s) p w)
       | SM_GET \<Rightarrow> readSXDecoder b p w | SM_VERIFY \<Rightarrow> readSXDecoder b p w
       | SM_TERM \<Rightarrow> Some (s_value s, p, w) | SM_INIT \<Rightarrow> Some (s_value s, p, w))" if "world_inv w" for s w
    using that by (cases "s_command s") (simp_all add: keeps_ops keeps_Some keeps_map)
  show ?thesis
    unfolding sx_sm_command_def using inv
    by (intro keeps_bind_snd sm_keeps keeps_bind [where g = "\<lambda>x. snd (snd x)"])
       (auto simp: run keeps_Some session_endwait_keeps split del: sm_command.split)
qed

lemma sx_gl_command_keeps [keeps_ops]: "world_inv w \<Longrightarrow> keeps snd (sx_gl_command b p w)"
  unfolding sx_gl_command_def
  by ((rule keeps_ops | rule keeps_bind_snd | rule keeps_bind, rule keeps_const, assumption | rule keeps_rules
     | clarsimp split del: if_split)+)

lemma sx_ga_command_keeps [keeps_ops]: "world_inv w \<Longrightarrow> keeps snd (sx_ga_command b p w)"
  unfolding sx_ga_command_def
  by ((rule keeps_ops | rule keeps_bind_snd | rule keeps_bind, rule keeps_const, assumption | rule keeps_rules
     | clarsimp split del: if_split)+)

lemma sx_turn_keeps: "world_inv w \<Longrightarrow> keeps snd (sx_turn b p w)"
  unfolding sx_turn_def
  by ((rule keeps_ops | rule keeps_bind_snd | rule keeps_rules | simp add: keeps_const | clarsimp split del: if_split)+)

lemma sx_turn_inv [inv_intros]: "world_inv w \<Longrightarrow> sx_turn b p w = Some (p', w') \<Longrightarrow> world_inv w'"
  by (drule sx_turn_keeps [of w b p]) (auto dest: keepsD)

lemma sig_process_inv [inv_intros]: "world_inv w \<Longrightarrow> sig_processSelectrix b p w = Some (p', w') \<Longrightarrow> world_inv w'"
  by (drule sig_process_keeps [of w b p]) (auto dest: keepsD)

end
