(* ===== verification/Srcp_Config.thy ===== *)
theory Srcp_Config
  imports Loopback Ddl_Bus Loconet Li100 Ib Selectrix
begin

text \<open>
  Reading the configuration, \<open>config-srcpd.c\<close> and the \<open>readconfig\<close> functions of the drivers: the
  tree of the document becomes the table of buses with the drivers' data, the feedback, accessory
  and locomotive tables and the flags. \<open>conf\<close> has, beside the server's \<open>world\<close>, the members of
  \<open>buses\<close> that only the start and the drivers use.
\<close>

unbundle bit_operations_syntax

subsection \<open>Data\<close>

abbreviation (input) SERVER_SERVER :: int where "SERVER_SERVER \<equiv> 0"
abbreviation (input) SERVER_DDL :: int where "SERVER_DDL \<equiv> 1"
abbreviation (input) SERVER_IB :: int where "SERVER_IB \<equiv> 3"
abbreviation (input) SERVER_LI100_SERIAL :: int where "SERVER_LI100_SERIAL \<equiv> 4"
abbreviation (input) SERVER_LI100_USB :: int where "SERVER_LI100_USB \<equiv> 5"
abbreviation (input) SERVER_LOOPBACK :: int where "SERVER_LOOPBACK \<equiv> 6"
abbreviation (input) SERVER_SELECTRIX :: int where "SERVER_SELECTRIX \<equiv> 11"
abbreviation (input) SERVER_LOCONET :: int where "SERVER_LOCONET \<equiv> 12"
abbreviation (input) USE_WATCHDOG :: int where "USE_WATCHDOG \<equiv> 1"
abbreviation (input) AUTO_POWER_ON :: int where "AUTO_POWER_ON \<equiv> 2"
abbreviation (input) RESTORE_COM_SETTINGS :: int where "RESTORE_COM_SETTINGS \<equiv> 4"
abbreviation (input) USE_AUTODETECTION :: int where "USE_AUTODETECTION \<equiv> 8"
abbreviation (input) FB_ORDER_0 :: int where "FB_ORDER_0 \<equiv> 0x200"
abbreviation (input) FB_16_PORTS :: int where "FB_16_PORTS \<equiv> 0x400"
abbreviation (input) FB_4_PORTS :: int where "FB_4_PORTS \<equiv> 0x800"
abbreviation (input) DBG_INFO :: int where "DBG_INFO \<equiv> 4"
abbreviation (input) DBG_DEBUG :: int where "DBG_DEBUG \<equiv> 5"

record server_data =
  TCPPORT :: int
  groupname :: "string option"
  username :: "string option"
  listenip :: "string option"

record loopback_data =
  loop_number_fb :: int
  loop_number_ga :: int
  loop_number_gl :: int

text \<open>The members of the DDL driver's data that its commands do not use.\<close>

record ddl_settings =
  ddl_number_gl :: int
  ddl_number_ga :: int
  oslevel :: int
  NMRADCC_TR_V :: int
  WAITUART_USLEEP_PATCH :: bool
  WAITUART_USLEEP_USEC :: int

record ln_settings =
  ln_number_fb :: int
  ln_number_ga :: int
  ln_number_gl :: int
  loconetID :: int

datatype driver =
    No_driver
  | Server_driver server_data
  | Loopback_driver loopback_data
  | DDL_driver ddl ddl_settings
  | IB_driver ib int
  | LI100_driver li100
  | LOCONET_driver loconet ln_settings
  | Selectrix_driver sx

text \<open>In the union \<open>device\<close> path and host name share a word, and so do the file descriptor and the
  network protocol. The pointer to the network port lies where the flow control and the
  settings of the serial line are: it is a pointer, a number, or mixed from both.\<close>

datatype dev_word = Settings int | Port string | Mixed

record bus_conf =
  debuglevel :: int
  bus_type :: int
  devicetype :: int
  dev_path :: "string option"
  dev_fd :: int
  baudrate :: int
  dev_word :: dev_word
  driverdata :: driver

definition zero_conf :: bus_conf where
  "zero_conf = \<lparr>debuglevel = 0, bus_type = 0, devicetype = 0, dev_path = None, dev_fd = 0, baudrate = 0,
     dev_word = Settings 0, driverdata = No_driver\<rparr>"

record conf =
  cw :: world
  cb :: "nat \<Rightarrow> bus_conf"
  pidfile :: string

text \<open>What the program finds: the drivers that are compiled in, which allocations of a bus succeed (0
  is the driver's data), what the memory holds, and the answers of the system.\<close>

record conf_env =
  compiled :: "string \<Rightarrow> bool"
  allocated :: "nat \<Rightarrow> nat \<Rightarrow> bool"
  raw_ga :: "nat \<Rightarrow> nat \<Rightarrow> ga_state"
  mem_ddl :: "nat \<Rightarrow> ddl"
  mem_ib :: "nat \<Rightarrow> ib"
  mem_li :: "nat \<Rightarrow> li100"
  mem_ln :: "nat \<Rightarrow> loconet"
  mem_sx :: "nat \<Rightarrow> sx"
  getprotobyname :: "string \<Rightarrow> int option"
  getservbyname :: "int option"
  kernel_release :: "char \<times> char"
  linux_serial :: bool

definition on_bus :: "nat \<Rightarrow> (bus_data \<Rightarrow> bus_data) \<Rightarrow> conf \<Rightarrow> conf" where
  "on_bus b f s = s\<lparr>cw := (cw s)\<lparr>buses := upd f b (buses (cw s))\<rparr>\<rparr>"

definition on_conf :: "nat \<Rightarrow> (bus_conf \<Rightarrow> bus_conf) \<Rightarrow> conf \<Rightarrow> conf" where
  "on_conf b f s = s\<lparr>cb := upd f b (cb s)\<rparr>"

subsection \<open>The server\<close>

text \<open>\<open>PIDFILENAME\<close> has \<open>MAXPATHLEN\<close> (4096) bytes.\<close>

definition server_element :: "xml \<Rightarrow> server_data \<times> string \<Rightarrow> server_data \<times> string" where
  "server_element x s =
     (let (d, pid) = s
      in if is_text x then s
         else case xml_text x of
             None \<Rightarrow> s
           | Some t \<Rightarrow>
               if xml_name x = ''tcp-port'' then (d\<lparr>TCPPORT := atoi t mod 65536\<rparr>, pid)
               else if xml_name x = ''listen-ip'' then (d\<lparr>listenip := Some t\<rparr>, pid)
               else if xml_name x = ''pid-file'' then (d, take 4094 t)
               else if xml_name x = ''username'' then (d\<lparr>username := Some t\<rparr>, pid)
               else if xml_name x = ''groupname'' then (d\<lparr>groupname := Some t\<rparr>, pid)
               else s)"

definition readconfig_server :: "conf_env \<Rightarrow> xml \<Rightarrow> conf \<Rightarrow> conf" where
  "readconfig_server e x s =
     (let d = \<lparr>TCPPORT = (case getservbyname e of Some p \<Rightarrow> p | None \<Rightarrow> 4303), groupname = None, username = None,
               listenip = None\<rparr>;
          (d, pid) = fold server_element (xml_children x) (d, pidfile s);
          s = on_bus 0 (\<lambda>b. b\<lparr>description := ''SESSION SERVER TIME GM''\<rparr>) s
      in (on_conf 0 (\<lambda>c. c\<lparr>bus_type := SERVER_SERVER, driverdata := Server_driver d\<rparr>) s)\<lparr>pidfile := pid\<rparr>)"

subsection \<open>Loopback\<close>

definition loopback_element :: "xml \<Rightarrow> loopback_data \<Rightarrow> loopback_data" where
  "loopback_element x d =
     (if is_formatting x then d
      else if xml_name x = ''number_fb'' then d\<lparr>loop_number_fb := xml_int x (loop_number_fb d)\<rparr>
      else if xml_name x = ''number_gl'' then d\<lparr>loop_number_gl := xml_int x (loop_number_gl d)\<rparr>
      else if xml_name x = ''number_ga'' then d\<lparr>loop_number_ga := xml_int x (loop_number_ga d)\<rparr>
      else d)"

definition readconfig_LOOPBACK :: "conf_env \<Rightarrow> nat \<Rightarrow> xml \<Rightarrow> conf \<Rightarrow> nat \<times> conf" where
  "readconfig_LOOPBACK e b x s =
     (if \<not> allocated e b 0 then (0, s)
      else let s = on_bus b (\<lambda>d. d\<lparr>description := ''GA GL FB SM POWER LOCK DESCRIPTION'',
                 init_gl_func := Some init_gl_LOOPBACK, init_ga_func := Some init_ga_LOOPBACK\<rparr>) s;
               d = fold loopback_element (xml_children x)
                     \<lparr>loop_number_fb = 0, loop_number_ga = 256, loop_number_gl = 80\<rparr>;
               (r, w) = init_GL (allocated e b 1) b (loop_number_gl d) (cw s);
               d = (if r \<noteq> 0 then d\<lparr>loop_number_gl := 0\<rparr> else d);
               (r, w) = init_GA (allocated e b 2) (raw_ga e b) b (loop_number_ga d) w;
               d = (if r \<noteq> 0 then d\<lparr>loop_number_ga := 0\<rparr> else d);
               (r, w) = init_FB (allocated e b 3) b (loop_number_fb d) w;
               d = (if r \<noteq> 0 then d\<lparr>loop_number_fb := 0\<rparr> else d)
           in (1, on_conf b (\<lambda>c. c\<lparr>bus_type := SERVER_LOOPBACK, driverdata := Loopback_driver d\<rparr>) (s\<lparr>cw := w\<rparr>)))"

subsection \<open>DDL\<close>

text \<open>The numbers and switches of the DDL driver. An absent text changes nothing, except for
  \<open>inverse_dsr_handling\<close>, which it switches off.\<close>

definition ddl_element :: "xml \<Rightarrow> ddl \<times> ddl_settings \<Rightarrow> ddl \<times> ddl_settings" where
  "ddl_element x s =
     (let (d, c) = s; yes = xml_yes x; mask = (\<lambda>f. if yes then enabled_protocols d OR f else enabled_protocols d AND NOT f)
      in if is_formatting x then s
         else if xml_name x = ''inverse_dsr_handling'' then (d\<lparr>dsr_inverse := yes\<rparr>, c)
         else if xml_text x = None then s
         else if xml_name x = ''number_gl'' then (d, c\<lparr>ddl_number_gl := xml_int x (ddl_number_gl c)\<rparr>)
         else if xml_name x = ''number_ga'' then (d, c\<lparr>ddl_number_ga := xml_int x (ddl_number_ga c)\<rparr>)
         else if xml_name x = ''enable_ringindicator_checking'' then (d\<lparr>ri_check := yes\<rparr>, c)
         else if xml_name x = ''enable_checkshort_checking'' then (d\<lparr>checkshort := yes\<rparr>, c)
         else if xml_name x = ''enable_maerklin'' then (d\<lparr>enabled_protocols := mask EP_MAERKLIN\<rparr>, c)
         else if xml_name x = ''enable_nmradcc'' then (d\<lparr>enabled_protocols := mask EP_NMRADCC\<rparr>, c)
         else if xml_name x = ''improve_nmradcc_timing'' then (d\<lparr>improve_nmradcc_timing := yes\<rparr>, c)
         else if xml_name x = ''shortcut_failure_delay'' then (d\<lparr>shortcutdelay := xml_int x (shortcutdelay d)\<rparr>, c)
         else if xml_name x = ''nmradcc_translation_routine'' then (d, c\<lparr>NMRADCC_TR_V := xml_int x (NMRADCC_TR_V c)\<rparr>)
         else if xml_name x = ''enable_usleep_patch'' then (d, c\<lparr>WAITUART_USLEEP_PATCH := yes\<rparr>)
         else if xml_name x = ''usleep_usec'' then (d, c\<lparr>WAITUART_USLEEP_USEC := xml_int x (WAITUART_USLEEP_USEC c)\<rparr>)
         else if xml_name x = ''nmra_ga_offset'' then (d\<lparr>nmra_ga_offset := xml_int x (nmra_ga_offset d)\<rparr>, c)
         else if xml_name x = ''program_track'' then (d\<lparr>program_track := yes\<rparr>, c)
         else s)"

text \<open>Kernel 2.6 and later is told by the first and the third character of the release.\<close>

definition kernel_level :: "char \<times> char \<Rightarrow> int" where
  "kernel_level r = (if 25 < atoi [fst r, snd r] then 1 else 0)"

definition readconfig_DDL :: "conf_env \<Rightarrow> nat \<Rightarrow> xml \<Rightarrow> conf \<Rightarrow> nat \<times> conf" where
  "readconfig_DDL e b x s =
     (if \<not> allocated e b 0 then (0, s)
      else let s = on_bus b (\<lambda>d. d\<lparr>description := ''GA GL SM POWER LOCK DESCRIPTION'',
                 init_gl_func := Some init_gl_DDL, init_ga_func := Some init_ga_DDL\<rparr>) s;
               d = (mem_ddl e b)\<lparr>ri_check := False, checkshort := False, dsr_inverse := False, shortcutdelay := 0,
                 enabled_protocols := EP_MAERKLIN OR EP_NMRADCC, improve_nmradcc_timing := False, nmra_ga_offset := 0,
                 program_track := True, serial_device_mode := SDM_NOTINITIALIZED\<rparr>;
               c = \<lparr>ddl_number_gl = 81, ddl_number_ga = 324, oslevel = kernel_level (kernel_release e), NMRADCC_TR_V = 3,
                 WAITUART_USLEEP_PATCH = True, WAITUART_USLEEP_USEC = 100\<rparr>;
               (d, c) = fold ddl_element (xml_children x) (d, c);
               (r, w) = init_GA (allocated e b 1) (raw_ga e b) b (ddl_number_ga c) (cw s);
               c = (if r \<noteq> 0 then c\<lparr>ddl_number_ga := 0\<rparr> else c);
               (r, w) = init_GL (allocated e b 2) b (ddl_number_gl c) w;
               c = (if r \<noteq> 0 then c\<lparr>ddl_number_gl := 0\<rparr> else c)
           in (1, on_conf b (\<lambda>f. f\<lparr>bus_type := SERVER_DDL, driverdata := DDL_driver d c\<rparr>) (s\<lparr>cw := w\<rparr>)))"

subsection \<open>Intellibox\<close>

definition ib_element :: "nat \<Rightarrow> xml \<Rightarrow> ib \<times> int \<times> world \<Rightarrow> (ib \<times> int \<times> world) option" where
  "ib_element b x s =
     (let (p, pause, w) = s
      in if is_formatting x then Some s
         else if xml_name x = ''number_fb'' then Some (p\<lparr>ib_number_fb := xml_int x (ib_number_fb p)\<rparr>, pause, w)
         else if xml_name x = ''number_gl'' then Some (p\<lparr>ib_number_gl := xml_int x (ib_number_gl p)\<rparr>, pause, w)
         else if xml_name x = ''number_ga'' then Some (p\<lparr>ib_number_ga := xml_int x (ib_number_ga p)\<rparr>, pause, w)
         else if xml_name x = ''fb_delay_time_0'' then
           map_option (\<lambda>w. (p, pause, w)) (case xml_text x of Some t \<Rightarrow> set_min_time b (atoi t) w | None \<Rightarrow> Some w)
         else if xml_name x = ''pause_between_commands'' then Some (p, xml_int x pause, w)
         else Some s)"

definition readConfig_IB :: "conf_env \<Rightarrow> nat \<Rightarrow> xml \<Rightarrow> conf \<Rightarrow> (nat \<times> conf) option" where
  "readConfig_IB e b x s =
     (if \<not> allocated e b 0 then Some (0, s)
      else do {
        let s = on_bus b (\<lambda>d. d\<lparr>description := ''GA GL FB SM POWER LOCK DESCRIPTION'', init_gl_func := Some init_gl_IB,
          init_ga_func := Some init_ga_IB, flags := flags d OR FB_16_PORTS OR USE_AUTODETECTION\<rparr>) s;
        (p, pause, w) \<leftarrow> loopM (ib_element b) (xml_children x)
          ((mem_ib e b)\<lparr>ib_number_fb := 0, ib_number_ga := 256, ib_number_gl := 80\<rparr>, 250, cw s);
        Some (1, on_conf b (\<lambda>c. c\<lparr>bus_type := SERVER_IB, baudrate := 38400, driverdata := IB_driver p pause\<rparr>) (s\<lparr>cw := w\<rparr>)) })"

subsection \<open>Lenz\<close>

definition li_element :: "nat \<Rightarrow> xml \<Rightarrow> li100 \<times> world \<Rightarrow> (li100 \<times> world) option" where
  "li_element b x s =
     (let (l, w) = s
      in if is_formatting x then Some s
         else if xml_name x = ''number_fb'' then Some (l\<lparr>li_number_fb := xml_int x (li_number_fb l)\<rparr>, w)
         else if xml_name x = ''number_gl'' then Some (l\<lparr>li_number_gl := xml_int x (li_number_gl l)\<rparr>, w)
         else if xml_name x = ''number_ga'' then Some (l\<lparr>li_number_ga := xml_int x (li_number_ga l)\<rparr>, w)
         else if xml_name x = ''fb_delay_time_0'' then
           map_option (Pair l) (case xml_text x of Some t \<Rightarrow> set_min_time b (atoi t) w | None \<Rightarrow> Some w)
         else Some s)"

text \<open>The two builds of the driver differ in the numbers and the speed of the line.\<close>

definition readConfig_LI100 :: "bool \<Rightarrow> conf_env \<Rightarrow> nat \<Rightarrow> xml \<Rightarrow> conf \<Rightarrow> (nat \<times> conf) option" where
  "readConfig_LI100 is_usb e b x s =
     (if \<not> allocated e b 0 then Some (0, s)
      else do {
        let s = on_bus b (\<lambda>d. d\<lparr>description := ''GA GL FB SM POWER LOCK DESCRIPTION'', init_gl_func := Some init_gl_LI100,
          init_ga_func := Some init_ga_LI100, flags := flags d OR FB_4_PORTS OR FB_ORDER_0\<rparr>) s;
        (l, w) \<leftarrow> loopM (li_element b) (xml_children x)
          (if is_usb then (mem_li e b)\<lparr>usb := True, li_number_fb := 512, li_number_ga := 1024, li_number_gl := 9999\<rparr>
           else (mem_li e b)\<lparr>usb := False, li_number_fb := 256, li_number_ga := 256, li_number_gl := 99\<rparr>, cw s);
        Some (1, on_conf b (\<lambda>c. c\<lparr>bus_type := (if is_usb then SERVER_LI100_USB else SERVER_LI100_SERIAL),
          baudrate := (if is_usb then 57600 else 9600), driverdata := LI100_driver l\<rparr>) (s\<lparr>cw := w\<rparr>)) })"

subsection \<open>LocoNet\<close>

text \<open>\<open>flags\<close> starts with what the memory held.\<close>

definition ln_set_flag :: "int \<Rightarrow> xml \<Rightarrow> loconet \<Rightarrow> loconet" where
  "ln_set_flag f x l =
     (if xml_text x = None then l
      else l\<lparr>ln_flags := (if xml_yes x then ln_flags l OR f else ln_flags l AND NOT f)\<rparr>)"

definition ln_element :: "conf_env \<Rightarrow> xml \<Rightarrow> loconet \<times> ln_settings \<Rightarrow> loconet \<times> ln_settings" where
  "ln_element e x s =
     (let (l, c) = s
      in if is_formatting x then s
         else if xml_name x = ''loconet-id'' then
           (l, case xml_text x of Some t \<Rightarrow> c\<lparr>loconetID := atoi t mod 256\<rparr> | None \<Rightarrow> c)
         else if xml_name x = ''sync-time-from-loconet'' then (ln_set_flag LN_FLAG_GETTIME x l, c)
         else if xml_name x = ''ms100'' then (if linux_serial e then ln_set_flag 2 x l else l, c)
         else s)"

definition readConfig_LOCONET :: "conf_env \<Rightarrow> nat \<Rightarrow> xml \<Rightarrow> conf \<Rightarrow> nat \<times> conf" where
  "readConfig_LOCONET e b x s =
     (if \<not> allocated e b 0 then (0, s)
      else let s = on_bus b (\<lambda>d. d\<lparr>description := ''GA GL FB POWER DESCRIPTION'', init_gl_func := Some init_gl_LOCONET,
                 init_ga_func := Some init_ga_LOCONET\<rparr>) s;
               (l, c) = fold (ln_element e) (xml_children x)
                 ((mem_ln e b)\<lparr>slotmap := replicate 128 0\<rparr>,
                  \<lparr>ln_number_fb = 2048, ln_number_ga = 2048, ln_number_gl = 9999, loconetID = 0x50\<rparr>);
               (_, w) = init_FB (allocated e b 1) b (ln_number_fb c) (cw s);
               (_, w) = init_GA (allocated e b 2) (raw_ga e b) b (ln_number_ga c) w;
               (_, w) = init_GL (allocated e b 3) b (ln_number_gl c) w
           in (1, on_conf b (\<lambda>f. f\<lparr>bus_type := SERVER_LOCONET, baudrate := 57600, driverdata := LOCONET_driver l c\<rparr>)
                (s\<lparr>cw := w\<rparr>)))"

subsection \<open>Selectrix\<close>

text \<open>The driver's own reading is \<open>readconfig_Selectrix\<close>; here it enters the table of buses.\<close>

definition readconfig_sx :: "conf_env \<Rightarrow> nat \<Rightarrow> xml \<Rightarrow> conf \<Rightarrow> (nat \<times> conf) option" where
  "readconfig_sx e b x s =
     (if \<not> allocated e b 0 then Some (0, s)
      else do {
        let m = mem_sx e b;
        let p = (sx_initial (\<lambda>i. fb_adresses m ! i) (\<lambda>i. sx_bus_data m ! i) (sx_rx m) (sx_irq m));
        (p, w) \<leftarrow> readconfig_Selectrix (\<lambda>i. allocated e b (i + 1)) (raw_ga e b) b x p (cw s);
        Some (1, on_conf b (\<lambda>c. c\<lparr>bus_type := SERVER_SELECTRIX, baudrate := 9600, driverdata := Selectrix_driver p\<rparr>)
          (s\<lparr>cw := w\<rparr>)) })"

subsection \<open>A bus\<close>

text \<open>The elements of the drivers. A driver that is not compiled in is only reported; the bus must be
  inside the table.\<close>

definition driver_element :: "conf_env \<Rightarrow> nat \<Rightarrow> xml \<Rightarrow> conf \<Rightarrow> (nat \<times> conf) option option" where
  "driver_element e b x s =
     (let n = xml_name x; read = (\<lambda>r. Some (if compiled e n then if b < MAX_BUSES then r else None else Some (0, s)))
      in if n = ''ddl'' then read (Some (readconfig_DDL e b x s))
         else if n = ''intellibox'' then read (readConfig_IB e b x s)
         else if n = ''li100usb'' then read (readConfig_LI100 True e b x s)
         else if n = ''li100'' then read (readConfig_LI100 False e b x s)
         else if n = ''loconet'' then read (Some (readConfig_LOCONET e b x s))
         else if n = ''loopback'' then read (Some (readconfig_LOOPBACK e b x s))
         else if n = ''selectrix'' then read (readconfig_sx e b x s)
         else None)"

text \<open>The device. \<open>free\<close> of a pointer to the port that is none, and the protocol number of an
  unknown protocol, have no defined result.\<close>

definition device_kind :: "xml \<Rightarrow> int \<Rightarrow> int" where
  "device_kind x old =
     (case xmlGetProp x ''type'' of
        None \<Rightarrow> 1
      | Some t \<Rightarrow> if t = ''filename'' then 1 else if t = ''network'' then 2 else old)"

definition flow_control :: "xml \<Rightarrow> dev_word \<Rightarrow> dev_word" where
  "flow_control x old =
     (let put = (\<lambda>v. case old of Settings _ \<Rightarrow> Settings v | _ \<Rightarrow> Mixed)
      in case xmlGetProp x ''flowcontrol'' of
           None \<Rightarrow> old
         | Some t \<Rightarrow> if t = ''none'' then put 0 else if t = ''hard'' then put 1 else if t = ''soft'' then put 2 else old)"

definition network_port :: "xml \<Rightarrow> dev_word \<Rightarrow> dev_word option" where
  "network_port x old =
     (case xmlGetProp x ''port'' of
        None \<Rightarrow> Some (Settings 0)
      | Some p \<Rightarrow> (case old of Settings v \<Rightarrow> if v = 0 then Some (Port p) else None | Port _ \<Rightarrow> Some (Port p) | Mixed \<Rightarrow> None))"

definition network_protocol :: "conf_env \<Rightarrow> xml \<Rightarrow> int option" where
  "network_protocol e x = (case xmlGetProp x ''protocol'' of None \<Rightarrow> Some 6 | Some t \<Rightarrow> getprotobyname e t)"

definition device_element :: "conf_env \<Rightarrow> xml \<Rightarrow> bus_conf \<Rightarrow> bus_conf option" where
  "device_element e x c =
     (let c = c\<lparr>devicetype := device_kind x (devicetype c)\<rparr>
      in case xml_text x of
           None \<Rightarrow> Some c
         | Some t \<Rightarrow>
             if devicetype c = 1 then Some (c\<lparr>dev_path := Some t, dev_word := flow_control x (dev_word c)\<rparr>)
             else if devicetype c = 2 then do {
               port \<leftarrow> network_port x (dev_word c);
               proto \<leftarrow> network_protocol e x;
               Some (c\<lparr>dev_path := Some t, dev_word := port, dev_fd := proto\<rparr>) }
             else Some c)"

definition line_speed :: "int \<Rightarrow> int" where
  "line_speed v = (if v \<in> {2400, 4800, 9600, 19200, 38400, 57600, 115200} then v else 2400)"

definition verbosity_level :: "int \<Rightarrow> int" where
  "verbosity_level v = (if v < 0 \<or> DBG_DEBUG < v then DBG_DEBUG else v)"

definition set_flag_if :: "bool \<Rightarrow> int \<Rightarrow> nat \<Rightarrow> conf \<Rightarrow> conf" where
  "set_flag_if yes f b s = (if yes then on_bus b (\<lambda>d. d\<lparr>flags := flags d OR f\<rparr>) s else s)"

definition clear_flag_if :: "bool \<Rightarrow> int \<Rightarrow> nat \<Rightarrow> conf \<Rightarrow> conf" where
  "clear_flag_if no f b s = (if no then on_bus b (\<lambda>d. d\<lparr>flags := flags d AND NOT f\<rparr>) s else s)"


text \<open>The attributes of a bus.\<close>

definition bus_attribute :: "conf_env \<Rightarrow> nat \<Rightarrow> xml \<Rightarrow> conf \<Rightarrow> conf option" where
  "bus_attribute e b x s =
     (if xml_name x = ''device'' then
        map_option (\<lambda>c. on_conf b (\<lambda>_. c) s) (device_element e x (cb s b))
      else case xml_text x of
          None \<Rightarrow> Some s
        | Some t \<Rightarrow> Some
            (if xml_name x = ''verbosity'' then on_conf b (\<lambda>c. c\<lparr>debuglevel := verbosity_level (atoi t)\<rparr>) s
             else if xml_name x = ''use_watchdog'' then set_flag_if (t = ''yes'') USE_WATCHDOG b s
             else if xml_name x = ''restore_device_settings'' then set_flag_if (t = ''yes'') RESTORE_COM_SETTINGS b s
             else if xml_name x = ''auto_power_on'' then set_flag_if (t = ''yes'') AUTO_POWER_ON b s
             else if xml_name x = ''speed'' then on_conf b (\<lambda>c. c\<lparr>baudrate := line_speed (atoi t)\<rparr>) s
             else if xml_name x = ''auto_speed_detection'' then
               clear_flag_if (t = ''no'') USE_AUTODETECTION b (set_flag_if (t = ''yes'') USE_AUTODETECTION b s)
             else s))"

text \<open>An element of the bus \<open>cur\<close>: drivers enter the bus \<open>bn\<close>, the next free one, attributes belong to
  \<open>cur\<close>.\<close>

definition bus_element :: "conf_env \<Rightarrow> nat \<Rightarrow> xml \<Rightarrow> nat \<times> conf \<Rightarrow> (nat \<times> conf) option" where
  "bus_element e cur x s =
     (let (bn, s) = s
      in if is_formatting x then Some (bn, s)
         else if take 6 (xml_name x) = ''server'' then
           Some (if bn = 0 then (1, readconfig_server e x s) else (bn, s))
         else case driver_element e bn x s of
             Some r \<Rightarrow> map_option (\<lambda>(k, s). (bn + k, s)) r
           | None \<Rightarrow> map_option (Pair bn) (bus_attribute e cur x s))"

definition bus_defaults :: "nat \<Rightarrow> conf \<Rightarrow> conf" where
  "bus_defaults b s =
     on_conf b (\<lambda>c. c\<lparr>debuglevel := DBG_INFO, devicetype := 0, dev_path := None\<rparr>)
       (on_bus b (\<lambda>d. d\<lparr>flags := 0, protocols := None, init_gl_func := None, init_ga_func := None, init_fb_func := None\<rparr>) s)"

definition register_bus :: "conf_env \<Rightarrow> nat \<Rightarrow> xml \<Rightarrow> conf \<Rightarrow> (nat \<times> conf) option" where
  "register_bus e b x s =
     (if xml_name x \<noteq> ''bus'' \<or> MAX_BUSES \<le> b then Some (b, s)
      else loopM (bus_element e b) (xml_children x) (b, bus_defaults b s))"

subsection \<open>The document\<close>

text \<open>\<open>num_buses\<close> is unsigned: while no bus has been found it is the largest number.\<close>

definition bus_pred :: "nat \<Rightarrow> nat" where
  "bus_pred b = (b + (2 ^ 64 - 1)) mod 2 ^ 64"

definition walk_child :: "conf_env \<Rightarrow> xml \<Rightarrow> nat \<times> conf \<Rightarrow> (nat \<times> conf) option" where
  "walk_child e x s = do {
     (b, s) \<leftarrow> register_bus e (fst s) x (snd s);
     Some (b, s\<lparr>cw := (cw s)\<lparr>num_buses := bus_pred b\<rparr>\<rparr>) }"

definition walk_config_xml :: "conf_env \<Rightarrow> xml \<Rightarrow> conf \<Rightarrow> (nat \<times> conf) option" where
  "walk_config_xml e root s = loopM (walk_child e) (xml_children root) (0, s)"

text \<open>\<open>None\<close> is a file that is not found or has no root.\<close>

definition readConfig :: "conf_env \<Rightarrow> xml option \<Rightarrow> conf \<Rightarrow> (bool \<times> conf) option" where
  "readConfig e doc s = do {
     let s = s\<lparr>cw := (cw s)\<lparr>buses := (\<lambda>_. zero_bus), num_buses := 0\<rparr>, cb := (\<lambda>_. zero_conf)\<rparr>;
     (n, s) \<leftarrow> (case doc of None \<Rightarrow> Some (0, s) | Some root \<Rightarrow> walk_config_xml e root s);
     Some (0 < n, s) }"

subsection \<open>Initialising the buses\<close>

text \<open>What the drivers find on their lines: whether the ports can be opened.\<close>

record init_env =
  port_opens :: "nat \<Rightarrow> nat \<Rightarrow> bool"
  init_allocated :: "nat \<Rightarrow> nat \<Rightarrow> bool"
  init_raw_ga :: "nat \<Rightarrow> nat \<Rightarrow> ga_state"

text \<open>The result of the driver's \<open>init_func\<close>, 0 if there is none. The ports count as in use when the
  word of the file descriptor is positive.\<close>

definition init_bus :: "init_env \<Rightarrow> nat \<Rightarrow> conf \<Rightarrow> (int \<times> conf) option" where
  "init_bus i b s =
     (let ok = init_allocated i b; opens = port_opens i b; used = (0 < dev_fd (cb s b));
          done = (\<lambda>(r :: int, d, w). (r, on_conf b (\<lambda>c. c\<lparr>driverdata := d\<rparr>) (s\<lparr>cw := w\<rparr>)))
      in case driverdata (cb s b) of
           No_driver \<Rightarrow> Some (0, s)
         | Server_driver d \<Rightarrow> Some (let (r, w) = init_bus_server (cw s) in (r, s\<lparr>cw := w\<rparr>))
         | Loopback_driver d \<Rightarrow> Some (let (r, w) = init_bus_LOOPBACK b (cw s) in (r, s\<lparr>cw := w\<rparr>))
         | DDL_driver d c \<Rightarrow> map_option (\<lambda>(r, w, d). done (r, DDL_driver d c, w)) (init_bus_DDL b (cw s) d)
         | IB_driver p pause \<Rightarrow>
             Some (let (r, p, w) = init_bus_IB used (bit (flags (buses (cw s) b)) 3) opens (baudrate (cb s b))
                     (init_raw_ga i b) (ok 0) (ok 1) (ok 2) b p (cw s)
                   in done (r, IB_driver p pause, w))
         | LI100_driver l \<Rightarrow>
             map_option (\<lambda>(r, l, w). done (r, LI100_driver l, w))
               (init_bus_LI100 used (opens 0) (init_raw_ga i b) (ok 0) (ok 1) (ok 2) b l (cw s))
         | LOCONET_driver l c \<Rightarrow>
             Some (let (r, w, l) = init_bus_LOCONET (opens 0) b (cw s) (l\<lparr>network := (devicetype (cb s b) = 2)\<rparr>)
                   in done (r, LOCONET_driver l c, w))
         | Selectrix_driver p \<Rightarrow>
             Some (let (r, p, w) = init_bus_Selectrix (opens 0) b p (cw s) in done (r, Selectrix_driver p, w)))"

text \<open>\<open>Inl\<close> is the end of the program: a bus that cannot be initialised.\<close>

fun init_buses :: "init_env \<Rightarrow> nat list \<Rightarrow> conf \<Rightarrow> (unit + conf) option" where
  "init_buses i [] s = Some (Inr s)"
| "init_buses i (b # bs) s = do {
     (r, s) \<leftarrow> init_bus i b s;
     if r \<noteq> 0 then Some (Inl ()) else init_buses i bs s }"

definition init_all_buses :: "init_env \<Rightarrow> conf \<Rightarrow> (unit + conf) option" where
  "init_all_buses i s = init_buses i [0..<Suc (num_buses (cw s))] s"

end
