(* ===== verification/Config_Inv.thy ===== *)
theory Config_Inv
  imports Srcp_Config
begin

text \<open>
  Starting keeps the server's data well formed: reading a configuration and initialising the buses.
  While it starts, no feedback contact of a bus that is still to be initialised waits for its reset, so the
  tables of feedbacks may be replaced.
\<close>

subsection \<open>Buses from \<open>k\<close> on have nothing to reset\<close>

definition quiet :: "nat \<Rightarrow> world \<Rightarrow> bool" where
  "quiet k w \<longleftrightarrow> world_inv w \<and> (\<forall>b\<ge>k. ring_list (fb_queue w b) = [])"

named_theorems quiet_ops "operations on buses below \<open>k\<close> that keep the others quiet"

lemma quiet_same: "quiet k w \<Longrightarrow> fb_queue w' = fb_queue w \<Longrightarrow> world_inv w' \<Longrightarrow> quiet k w'"
  by (simp add: quiet_def)

lemma quiet_updates [simp]:
  "quiet k (w\<lparr>buses := d\<rparr>) = quiet k w" "quiet k (tick w) = quiet k w" "quiet k (w\<lparr>min_time := m\<rparr>) = quiet k w"
  "quiet k (w\<lparr>num_buses := n\<rparr>) = quiet k w" "quiet k (w\<lparr>cb_data := c\<rparr>) = quiet k w"
  by (simp_all add: quiet_def world_inv_def sess_inv_def gl_inv_def ga_inv_def fb_inv_def sm_inv_def)

lemma quiet_more: "quiet k w \<Longrightarrow> k \<le> k' \<Longrightarrow> quiet k' w"
  by (simp add: quiet_def)

lemma quietI:
  assumes "quiet k w" and "keeps f r" and "\<And>x. r = Some x \<Longrightarrow> fb_queue (f x) = fb_queue w"
  shows "ensures (quiet k) f r"
  using assms by (auto simp: keeps_def intro: quiet_same)

lemma info_same: "enqueueInfoMessage m w = Some w' \<Longrightarrow> fb_queue w' = fb_queue w"
  by (auto simp: enqueueInfoMessage_def session_enqueue_info_message_def split: if_splits option.splits)

lemma quiet_ops_basic [quiet_ops]:
  assumes "quiet k w"
  shows "ensures (quiet k) (\<lambda>w. w) (enqueueInfoMessage m w)" "ensures (quiet k) (\<lambda>w. w) (power_info b w)"
    "ensures (quiet k) snd (cacheSetGL b addr g w)" "ensures (quiet k) snd (setGA b addr a w)"
    "ensures (quiet k) snd (setPower b s m w)" "ensures (quiet k) snd (setSM b ty x ta bt v rc w)"
proof -
  have inv: "world_inv w" using assms by (simp add: quiet_def)
  show "ensures (quiet k) (\<lambda>w. w) (enqueueInfoMessage m w)"
    by (rule quietI [OF assms info_keeps [OF inv]]) (rule info_same)
  show "ensures (quiet k) (\<lambda>w. w) (power_info b w)"
    by (rule quietI [OF assms power_info_keeps [OF inv]]) (auto simp: power_info_def Let_def split: if_splits dest: info_same)
  show "ensures (quiet k) snd (cacheSetGL b addr g w)"
    by (rule quietI [OF assms gl_keeps(2) [OF inv]])
      (auto simp: cacheSetGL_def Let_def set_gl_at_def bind_eq_Some_conv split: if_splits option.splits prod.splits dest!: info_same)
  show "ensures (quiet k) snd (setGA b addr a w)"
    by (rule quietI [OF assms ga_keeps(2) [OF inv]])
      (auto simp: setGA_def infoGA_def Let_def set_ga_at_def bind_eq_Some_conv split: if_splits option.splits prod.splits dest!: info_same)
  show "ensures (quiet k) snd (setPower b s m w)"
    by (rule quietI [OF assms power_keeps [OF inv]]) (auto simp: setPower_def resume_bus_thread_def split: if_splits)
  show "ensures (quiet k) snd (setSM b ty x ta bt v rc w)"
    by (rule quietI [OF assms setSM_keeps [OF inv]])
      (auto simp: setSM_def enqueueInfoSM_def bind_eq_Some_conv Let_def split: if_splits dest!: info_same)
qed

lemma quiet_updateFB: "quiet k w \<Longrightarrow> b < k \<Longrightarrow> ensures (quiet k) snd (updateFB b port v w)"
proof (rule keepsI)
  fix x assume q: "quiet k w" and b: "b < k" and x: "updateFB b port v w = Some x"
  have "world_inv (snd x)" using keepsD [OF fb_keeps(1) x] q by (simp add: quiet_def)
  moreover have "ring_list (fb_queue (snd x) c) = ring_list (fb_queue w c)" if "k \<le> c" for c
    using x b that by (auto simp: updateFB_def enqueueInfoFB_def queue_reset_fb_def Let_def bind_eq_Some_conv upd_def set_fb_at_def
        split: if_splits dest!: info_same)
  ultimately show "quiet k (snd x)" using q by (simp add: quiet_def)
qed

lemma quiet_setFB_loop:
  "quiet k w \<Longrightarrow> b < k \<Longrightarrow> ensures (quiet k) snd (setFB_loop b fl v c is rc w)"
proof (induction b fl v c "is" rc w rule: setFB_loop.induct)
  case (2 b fl vals contact i "is" rc w)
  then show ?case
    using quiet_updateFB [OF 2(2,3)] by (fastforce simp: keeps_def split: option.splits)
qed (simp add: keeps_def)

lemma quiet_setFBmodul [quiet_ops]: "quiet k w \<Longrightarrow> b < k \<Longrightarrow> ensures (quiet k) snd (setFBmodul b m v w)"
  by (simp add: setFBmodul_def Let_def quiet_setFB_loop keeps_None)

lemma quiet_endwait: "quiet k w \<Longrightarrow> quiet k (session_endwait b v w)"
  by (simp add: session_endwait_def)

subsection \<open>The Lenz driver asks its interface while it is initialised\<close>

lemma quiet_li [quiet_ops]:
  "quiet k w \<Longrightarrow> ensures (quiet k) snd (li_power b b1 l w)" "quiet k w \<Longrightarrow> ensures (quiet k) snd (li_programmed b buf l w)"
  "quiet k w \<Longrightarrow> ensures (quiet k) snd (li_loco_update b v w)"
  "quiet k w \<Longrightarrow> ensures (quiet k) (\<lambda>x. snd (snd x)) (li_status_report b buf v l w)"
  "quiet k w \<Longrightarrow> ensures (quiet k) (\<lambda>x. snd (snd x)) (li_loco b buf v l w)"
  "quiet k w \<Longrightarrow> ensures (quiet k) snd (turnout b addr z g w)"
  unfolding li_power_def li_programmed_def li_loco_update_def li_status_report_def li_loco_def turnout_def
  by ((rule quiet_ops | assumption | rule keeps_rules | clarsimp simp: session_endwait_def case_prod_unfold split del: if_split)+)

lemma quiet_li_info_pair [quiet_ops]: "quiet k w \<Longrightarrow> b < k \<Longrightarrow> ensures (quiet k) snd (li_info_pair b a z g w)"
  unfolding li_info_pair_def
  by ((rule quiet_ops | rule keeps_rules | clarsimp simp: case_prod_unfold split del: if_split)+)

lemma quiet_li_info_pairs [quiet_ops]: "quiet k w \<Longrightarrow> b < k \<Longrightarrow> ensures (quiet k) snd (li_info_pairs b m g w)"
proof (induction b m g w rule: li_info_pairs.induct)
  case (1 b a z r g w)
  then show ?case
    using quiet_li_info_pair [of k w b a z g] by (fastforce simp: keeps_def bind_eq_Some_conv)
qed (simp_all add: keeps_def)

lemma quiet_li_process: "quiet k w \<Longrightarrow> b < k \<Longrightarrow> ensures (quiet k) (\<lambda>x. snd (snd (snd x))) (li_process b n buf v l w)"
  unfolding li_process_def
  by ((rule quiet_ops | assumption | rule keeps_bind [where g = "\<lambda>x. snd (snd x)"] | rule keeps_rules
     | clarsimp simp: case_prod_unfold split del: if_split)+)

lemma quiet_readAnswer [quiet_ops]:
  assumes "quiet k w" and "b < k"
  shows "ensures (quiet k) (\<lambda>x. snd (snd x)) (readAnswer b l w)"
proof (rule keepsI)
  fix x assume "readAnswer b l w = Some x"
  then have "quiet k (snd (snd x)) \<or> (\<exists>ctr v l. li_wait ctr b v l w = Some x)"
    using assms(1) by (auto simp: readAnswer_def case_prod_unfold Let_def split: if_splits)
  then show "quiet k (snd (snd x))"
    using assms li_wait_preserves [where P = "\<lambda>b w. quiet k w \<and> b < k"] keepsD [OF quiet_li_process] by blast
qed

lemma quiet_send_command [quiet_ops]:
  "quiet k w \<Longrightarrow> b < k \<Longrightarrow> ensures (quiet k) (\<lambda>x. snd (snd x)) (send_command b str l w)"
  unfolding send_command_def by ((rule quiet_ops | assumption | rule keeps_rules | clarsimp split del: if_split)+)

lemma quiet_send_all: "quiet k w \<Longrightarrow> b < k \<Longrightarrow> ensures (quiet k) (\<lambda>x. snd (snd x)) (send_all b status ms l w)"
proof (induction b status ms l w rule: send_all.induct)
  case (2 b status m ms l w)
  then show ?case using quiet_send_command [of k w b m l] by (fastforce simp: keeps_def bind_eq_Some_conv)
qed (simp add: keeps_def)

lemma quiet_li_cleanup1: "li_cleanup b l w = Some r \<Longrightarrow> b < k \<longrightarrow> quiet k w \<longrightarrow> quiet k (snd r)"
proof (erule li_cleanup.raw_induct [where P = "\<lambda>b l w r. b < k \<longrightarrow> quiet k w \<longrightarrow> quiet k (snd r)", rotated])
  fix li_cleanup b l w r
  assume IH: "\<And>b l w r. li_cleanup b l w = Some r \<Longrightarrow> b < k \<longrightarrow> quiet k w \<longrightarrow> quiet k (snd r)"
    and run: "do {
     (_, l, w) \<leftarrow> send_command b [0xe3, 0x05, 0, 0] l w;
     if get_addr l = 0 then Some (l, w)
     else do {
       (_, l, w) \<leftarrow> send_command b
          [0xe3, 0x44, word_of_int (drop_bit 8 (get_addr l)), word_of_int (get_addr l AND 0xff)] l w;
       li_cleanup b l w } } = Some r"
  show "b < k \<longrightarrow> quiet k w \<longrightarrow> quiet k (snd r)"
  proof (intro impI)
    assume b: "b < k" and w: "quiet k w"
    obtain r1 l1 w1 where s1: "send_command b [0xe3, 0x05, 0, 0] l w = Some (r1, l1, w1)"
      using run by (cases "send_command b [0xe3, 0x05, 0, 0] l w") auto
    then have w1: "quiet k w1" using keepsD [OF quiet_send_command [OF w b] s1] by simp
    show "quiet k (snd r)"
    proof (cases "get_addr l1 = 0")
      case False
      let ?m = "[0xe3, 0x44, word_of_int (drop_bit 8 (get_addr l1)), word_of_int (get_addr l1 AND 0xff)]"
      obtain r2 l2 w2 where s2: "send_command b ?m l1 w1 = Some (r2, l2, w2)" "li_cleanup b l2 w2 = Some r"
        using run s1 False by (cases "send_command b ?m l1 w1") auto
      then have "quiet k w2" using keepsD [OF quiet_send_command [OF w1 b] s2(1)] by simp
      then show ?thesis using IH s2(2) b by blast
    qed (use run s1 w1 in auto)
  qed
qed

lemma quiet_li_cleanup [quiet_ops]: "quiet k w \<Longrightarrow> b < k \<Longrightarrow> ensures (quiet k) snd (li_cleanup b l w)"
  using quiet_li_cleanup1 by (auto simp: keeps_def)

subsection \<open>Tables\<close>

text \<open>With enough memory: a table that cannot be allocated again would leave its old size.\<close>

lemma quiet_init_GL: "quiet k w \<Longrightarrow> quiet k (snd (init_GL True b n w))"
  unfolding quiet_def
  by (auto simp: init_GL_def intro!: world_inv_gl) (auto simp: world_inv_def gl_inv_def upd_def)

lemma quiet_init_GA: "quiet k w \<Longrightarrow> quiet k (snd (init_GA True raw b n w))"
  unfolding quiet_def
  by (auto simp: init_GA_def intro!: world_inv_ga) (auto simp: world_inv_def ga_inv_def upd_def)

lemma quiet_init_FB:
  assumes "quiet k w" and "k \<le> b"
  shows "quiet k (snd (init_FB True b n w))"
proof -
  have inv: "world_inv (tick w)" using assms by (simp add: quiet_def)
  have "fb_inv ((tick w)\<lparr>fb := upd (\<lambda>t. \<lparr>numberOfFb = n, fbstate = replicate (nat n) s\<rparr>) b (fb w)\<rparr>)" for s
    using assms by (auto simp: quiet_def world_inv_def fb_inv_def upd_def)
  then show ?thesis using assms inv by (auto simp: init_FB_def quiet_def)
qed

lemma quiet_tables [simp]:
  "init_GL True b n w = (r, w') \<Longrightarrow> quiet k w \<Longrightarrow> quiet k w'"
  "init_GA True raw b n w = (r, w') \<Longrightarrow> quiet k w \<Longrightarrow> quiet k w'"
  "k \<le> b \<Longrightarrow> init_FB True b n w = (r, w') \<Longrightarrow> quiet k w \<Longrightarrow> quiet k w'"
  using quiet_init_GL [of k w b n] quiet_init_GA [of k w raw b n] quiet_init_FB [of k w b n] by auto

lemma quiet_min_time: "quiet k w \<Longrightarrow> ensures (quiet k) (\<lambda>w. w) (set_min_time b t w)"
  by (auto simp: set_min_time_def keeps_def)

subsection \<open>Reading\<close>

text \<open>No bus waits for a reset yet.\<close>

abbreviation at_rest :: "conf \<Rightarrow> bool" where
  "at_rest s \<equiv> quiet 0 (cw s)"

lemma at_rest_updates [simp]:
  "at_rest (on_bus b f s) = at_rest s" "at_rest (on_conf b g s) = at_rest s" "at_rest (s\<lparr>pidfile := t\<rparr>) = at_rest s"
  "at_rest (bus_defaults b s) = at_rest s" "at_rest (set_flag_if c i b s) = at_rest s" "at_rest (clear_flag_if c i b s) = at_rest s"
  by (simp_all add: on_bus_def on_conf_def bus_defaults_def set_flag_if_def clear_flag_if_def)

definition memory_suffices :: "conf_env \<Rightarrow> bool" where
  "memory_suffices e \<longleftrightarrow> (\<forall>b n. allocated e b n)"

lemma readconfig_server_rest [simp]: "at_rest (readconfig_server e x s) = at_rest s"
  by (simp add: readconfig_server_def Let_def case_prod_unfold)

lemma readers_rest:
  assumes "memory_suffices e" and "at_rest s"
  shows "at_rest (snd (readconfig_LOOPBACK e b x s))" "at_rest (snd (readconfig_DDL e b x s))"
    "at_rest (snd (readConfig_LOCONET e b x s))"
  using assms
  by (simp_all add: memory_suffices_def readconfig_LOOPBACK_def readconfig_DDL_def readConfig_LOCONET_def case_prod_unfold Let_def
      quiet_init_GL quiet_init_GA quiet_init_FB on_bus_def on_conf_def)

lemma ib_element_rest: "quiet 0 (snd (snd s)) \<Longrightarrow> ensures (quiet 0) (\<lambda>x. snd (snd x)) (ib_element b x s)"
  by (auto simp: ib_element_def case_prod_unfold Let_def keeps_Some intro!: keeps_map quiet_min_time split: option.splits)

lemma li_element_rest: "quiet 0 (snd s) \<Longrightarrow> ensures (quiet 0) snd (li_element b x s)"
  by (auto simp: li_element_def case_prod_unfold Let_def keeps_Some intro!: keeps_map quiet_min_time split: option.splits)

lemma readConfig_IB_rest: "at_rest s \<Longrightarrow> ensures (quiet 0) (\<lambda>x. cw (snd x)) (readConfig_IB e b x s)"
  unfolding readConfig_IB_def
  by (auto simp: keeps_Some Let_def on_bus_def on_conf_def case_prod_unfold
      intro!: keeps_bind [where g = "\<lambda>x. snd (snd x)"] loopM_keeps ib_element_rest)

lemma readConfig_LI100_rest: "at_rest s \<Longrightarrow> ensures (quiet 0) (\<lambda>x. cw (snd x)) (readConfig_LI100 u e b x s)"
  unfolding readConfig_LI100_def
  by (auto simp: keeps_Some Let_def on_bus_def on_conf_def case_prod_unfold
      intro!: keeps_bind [where g = snd] loopM_keeps li_element_rest)

lemma sx_element_rest: "quiet 0 (snd (snd s)) \<Longrightarrow> ensures (quiet 0) (\<lambda>x. snd (snd x)) (sx_element b x s)"
  by (auto simp: sx_element_def case_prod_unfold Let_def keeps_Some keeps_def)

lemma readconfig_sx_rest:
  assumes "memory_suffices e" and "at_rest s"
  shows "ensures (quiet 0) (\<lambda>x. cw (snd x)) (readconfig_sx e b x s)"
proof -
  have tables: "quiet 0 (snd (sx_tables (\<lambda>i. True) raw b p w))" if "quiet 0 w" for raw p w
    using that by (simp add: sx_tables_def case_prod_unfold Let_def quiet_init_GL quiet_init_GA quiet_init_FB)
  have "ensures (quiet 0) snd (readconfig_Selectrix (\<lambda>i. True) raw b x p w)" if "quiet 0 w" for raw p w
    unfolding readconfig_Selectrix_def Let_def
    by (rule keeps_bind [where g = "\<lambda>x. snd (snd x)"], rule loopM_keeps)
      (use that tables in \<open>auto simp: sx_element_rest keeps_Some case_prod_unfold\<close>)
  then show ?thesis
    using assms unfolding readconfig_sx_def
    by (auto simp: memory_suffices_def keeps_Some Let_def on_conf_def case_prod_unfold intro!: keeps_bind [where g = snd])
qed

lemma driver_element_rest:
  assumes "memory_suffices e" and "at_rest s" and "driver_element e b x s = Some r"
  shows "ensures (quiet 0) (\<lambda>x. cw (snd x)) r"
  using assms(3) readers_rest [OF assms(1,2)] readConfig_IB_rest [OF assms(2)] readConfig_LI100_rest [OF assms(2)]
    readconfig_sx_rest [OF assms(1,2)] assms(2)
  by (auto simp: driver_element_def Let_def keeps_Some keeps_None split: if_splits)

lemma bus_attribute_rest: "at_rest s \<Longrightarrow> ensures (quiet 0) cw (bus_attribute e b x s)"
  by (auto simp: bus_attribute_def keeps_def on_conf_def split: option.splits)

lemma bus_element_rest:
  assumes "memory_suffices e" and "at_rest (snd s)"
  shows "ensures (quiet 0) (\<lambda>x. cw (snd x)) (bus_element e cur x s)"
  using assms driver_element_rest [OF assms(1), of "snd s" "fst s" x] bus_attribute_rest [of "snd s" e cur x]
  by (auto simp: bus_element_def case_prod_unfold Let_def keeps_Some split: option.splits intro!: keeps_map)

lemma walk_child_rest:
  assumes "memory_suffices e" and "at_rest (snd s)"
  shows "ensures (quiet 0) (\<lambda>x. cw (snd x)) (walk_child e x s)"
proof -
  have "ensures (quiet 0) (\<lambda>x. cw (snd x)) (register_bus e (fst s) x (snd s))"
    using assms by (auto simp: register_bus_def keeps_Some intro!: loopM_keeps bus_element_rest)
  then show ?thesis
    unfolding walk_child_def by (rule keeps_bind) (auto simp: keeps_Some)
qed

lemma readConfig_rest:
  assumes "memory_suffices e" and "at_rest s"
  shows "ensures (quiet 0) (\<lambda>x. cw (snd x)) (readConfig e doc s)"
proof -
  let ?s = "s\<lparr>cw := (cw s)\<lparr>buses := \<lambda>_. zero_bus, num_buses := 0\<rparr>, cb := \<lambda>_. zero_conf\<rparr>"
  have s: "at_rest ?s" using assms(2) by simp
  have "ensures (quiet 0) (\<lambda>x. cw (snd x)) (walk_config_xml e root ?s)" for root
    unfolding walk_config_xml_def by (rule loopM_keeps) (use assms(1) s walk_child_rest in auto)
  then have "ensures (quiet 0) (\<lambda>x. cw (snd x)) (case doc of None \<Rightarrow> Some (0, ?s) | Some root \<Rightarrow> walk_config_xml e root ?s)"
    using s by (auto simp: keeps_Some split: option.splits)
  then show ?thesis
    unfolding readConfig_def Let_def by (rule keeps_bind) (auto simp: keeps_Some)
qed

subsection \<open>Initialising\<close>

definition init_memory_suffices :: "init_env \<Rightarrow> bool" where
  "init_memory_suffices i \<longleftrightarrow> (\<forall>b n. init_allocated i b n)"

lemma quiet_li_ask: "quiet k (snd lw) \<Longrightarrow> b < k \<Longrightarrow> ensures (quiet k) snd (li_ask_feedback b n lw)"
  unfolding li_ask_feedback_def by (rule keeps_map, rule quiet_send_all)

lemma quiet_initLine: "quiet k w \<Longrightarrow> b < k \<Longrightarrow> ensures (quiet k) (\<lambda>x. snd (snd x)) (initLine_LI100 opened b l w)"
  unfolding initLine_LI100_def
  by ((rule quiet_ops | assumption | rule keeps_bind [where g = "\<lambda>x. snd (snd x)"] | rule keeps_rules
     | clarsimp simp: case_prod_unfold split del: if_split)+)

lemma quiet_init_LI100:
  assumes "quiet b w"
  shows "ensures (quiet (Suc b)) (\<lambda>x. snd (snd x)) (init_bus_LI100 used opened raw True True True b l w)"
proof -
  define w1 where "w1 = snd (init_GL True b (li_number_gl l) (snd (init_GA True raw b (li_number_ga l)
    (w\<lparr>buses := upd (\<lambda>d. d\<lparr>protocols := Some ''N''\<rparr>) b (buses w)\<rparr>))))"
  have "quiet b (snd (init_FB True b n w1))" for n
    using assms by (simp add: w1_def quiet_init_GL quiet_init_GA quiet_init_FB)
  then have q: "quiet (Suc b) (snd (init_FB True b n w1))" for n by (rule quiet_more) simp
  have line: "ensures (quiet (Suc b)) (\<lambda>x. snd (snd x)) (if used then Some (-3, l, w) else initLine_LI100 opened b (l\<lparr>working := 0\<rparr>) w)"
    if "quiet (Suc b) w" for l w
    using that by (auto simp: keeps_Some quiet_initLine)
  have rest: "ensures (quiet (Suc b)) snd (if (s :: int) = 0 then do {
         let l = l\<lparr>working := 1, get_addr := 0\<rparr>;
         (l, w) \<leftarrow> (if 0x0300 \<le> version_zentrale l then li_cleanup b l w else Some (l, w));
         loopM (li_ask_feedback b) [0..<nat (li_number_fb l)] (l, w) } else Some (l, w))"
    if "quiet (Suc b) w" for s l w
    using that unfolding Let_def
    by (intro keeps_if keeps_bind_snd loopM_keeps quiet_li_ask quiet_li_cleanup) (auto simp: keeps_Some)
  show ?thesis
    unfolding init_bus_LI100_def Let_def case_prod_unfold
    by (rule keeps_bind [where g = "\<lambda>x. snd (snd x)"], rule line, (simp add: q [unfolded w1_def]; fail))
      (rule keeps_bind [where g = snd], rule rest [unfolded Let_def case_prod_unfold], simp, simp add: keeps_Some)
qed

lemma quiet_init_others:
  assumes "quiet k w"
  shows "quiet k (snd (init_bus_server w))" "quiet k (snd (init_bus_LOOPBACK b w))"
    "ensures (quiet k) (\<lambda>x. fst (snd x)) (init_bus_DDL b w d)"
    "quiet k (fst (snd (init_bus_LOCONET opened b w l)))" "quiet k (snd (snd (init_bus_Selectrix opened b p w)))"
  using assms
  by (auto simp: init_bus_server_def init_bus_LOOPBACK_def init_bus_DDL_def init_bus_LOCONET_def init_bus_Selectrix_def Let_def
      bind_eq_Some_conv keeps_def)

lemma quiet_init_IB:
  "quiet b w \<Longrightarrow> quiet (Suc b) (snd (snd (init_bus_IB used auto opens rate raw True True True b p w)))"
  by (rule quiet_more [of b]) (simp_all add: init_bus_IB_def Let_def case_prod_unfold quiet_init_GL quiet_init_GA quiet_init_FB)

lemma init_bus_rest:
  assumes "init_memory_suffices i" and "quiet b (cw s)"
  shows "ensures (quiet (Suc b)) (\<lambda>x. cw (snd x)) (init_bus i b s)"
proof -
  have q: "quiet (Suc b) (cw s)" using assms(2) by (rule quiet_more) simp
  note others = quiet_init_others [OF q]
  have ok: "init_allocated i b n" for n using assms(1) by (simp add: init_memory_suffices_def)
  show ?thesis
  proof (cases "driverdata (cb s b)")
    case (IB_driver p pause)
    then show ?thesis using quiet_init_IB [OF assms(2)]
      by (simp add: init_bus_def Let_def case_prod_unfold keeps_Some on_conf_def ok)
  next
    case (LI100_driver l)
    then show ?thesis using quiet_init_LI100 [OF assms(2)]
      by (simp add: init_bus_def Let_def case_prod_unfold on_conf_def ok keeps_map)
  next
    case (DDL_driver d c)
    then show ?thesis using others(3)
      by (simp add: init_bus_def Let_def case_prod_unfold on_conf_def keeps_map)
  qed (simp_all add: init_bus_def Let_def case_prod_unfold keeps_Some on_conf_def others q)
qed

lemma init_buses_rest:
  "init_memory_suffices i \<Longrightarrow> quiet b (cw s) \<Longrightarrow> init_buses i [b..<b + n] s = Some (Inr s') \<Longrightarrow> world_inv (cw s')"
proof (induction n arbitrary: b s)
  case 0
  then show ?case by (simp add: quiet_def)
next
  case (Suc n)
  have l: "[b..<b + Suc n] = b # [Suc b..<Suc b + n]" by (simp add: upt_conv_Cons)
  obtain r s1 where r: "init_bus i b s = Some (r, s1)" using Suc.prems(3) unfolding l by (auto simp: bind_eq_Some_conv)
  then have "quiet (Suc b) (cw s1)" using keepsD [OF init_bus_rest [OF Suc.prems(1,2)] r] by simp
  moreover have "init_buses i [Suc b..<Suc b + n] s1 = Some (Inr s')"
    using Suc.prems(3) r unfolding l by (auto split: if_splits)
  ultimately show ?case using Suc.IH Suc.prems(1) by blast
qed

end
