(* ===== verification/Server_Main.thy ===== *)
theory Server_Main
  imports Info_Client Ddl_Inv Config_Inv
begin

text \<open>
  The server as a whole: starting up (\<open>main\<close> of \<open>srcpd.c\<close>, \<open>create_all_bus_threads\<close> of
  \<open>config-srcpd.c\<close>), the once-a-second work of the main loop, and the interleaving of all
  threads as a step relation on the state. A step is what one thread does while it holds the
  state: a connection, a line from a client, a driver's turn, a feedback report, a model
  second, a second of the main loop.
\<close>

subsection \<open>Starting\<close>

definition startup_all :: "world \<Rightarrow> world" where
  "startup_all w = startup_TIME (startup_FB (startup_GA (startup_GL w)))"

definition auto_power :: "nat \<Rightarrow> world \<Rightarrow> world option" where
  "auto_power i w =
     (if bit (flags (buses w i)) 1 then map_option snd (setPower i 1 ''AUTO POWER ON'' w)
      else map_option snd (setPower i 0 ''AUTO POWER OFF'' w))"

text \<open>What the start of a bus thread does to the server's data: only the loopback driver keeps its
  table of switched accessories there.\<close>

definition thread_start :: "driver \<Rightarrow> nat \<Rightarrow> world \<Rightarrow> world" where
  "thread_start d b w = (case d of Loopback_driver _ \<Rightarrow> loopback_start b w | _ \<Rightarrow> w)"

definition create_all_bus_threads :: "conf \<Rightarrow> world option" where
  "create_all_bus_threads s =
     loopM (\<lambda>i w. auto_power i (thread_start (driverdata (cb s i)) i w)) [1..<Suc (num_buses (cw s))] (cw s)"

definition create_all_threads :: "conf \<Rightarrow> world option" where
  "create_all_threads s =
     map_option (set_server_state ssRunning) (create_all_bus_threads (s\<lparr>cw := set_server_state ssInitializing (cw s)\<rparr>))"

text \<open>From the start of \<open>main\<close> to the main loop; \<open>Inl\<close> is the end of the program.\<close>

definition statics :: "(nat \<Rightarrow> timeval) \<Rightarrow> conf" where
  "statics c = \<lparr>cw = startup_all (zero_world c), cb = (\<lambda>_. zero_conf), pidfile = ''/var/run/srcpd.pid''\<rparr>"

definition boot :: "conf_env \<Rightarrow> init_env \<Rightarrow> (nat \<Rightarrow> timeval) \<Rightarrow> xml option \<Rightarrow> (unit + world) option" where
  "boot e i c doc = do {
     (found, s) \<leftarrow> readConfig e doc (statics c);
     if \<not> found then Some (Inl ())
     else do {
       r \<leftarrow> init_all_buses i s;
       case r of Inl _ \<Rightarrow> Some (Inl ()) | Inr s \<Rightarrow> map_option Inr (create_all_threads s) } }"

subsection \<open>The main loop\<close>

text \<open>A bus thread whose watchdog is 0 is restarted if both of its queues hold commands;
  \<open>restart\<close> is what the driver does when it starts.\<close>

definition watchdog_bus :: "(nat \<Rightarrow> world \<Rightarrow> world) \<Rightarrow> nat \<Rightarrow> world \<Rightarrow> world" where
  "watchdog_bus restart b w =
     (let w1 = (if bit (flags (buses w b)) 0 \<and> watchdog (buses w b) = 0
                   \<and> \<not> queue_GL_isempty b w \<and> \<not> queue_GA_isempty b w
                then restart b w else w)
      in w1\<lparr>buses := upd (\<lambda>d. d\<lparr>watchdog := 0\<rparr>) b (buses w1)\<rparr>)"

definition run_bus_watchdog :: "world \<Rightarrow> world" where
  "run_bus_watchdog w = fold (watchdog_bus loopback_start) [1..<Suc (num_buses w)] w"

definition main_second :: "world \<Rightarrow> world option" where
  "main_second w = do {
     w1 \<leftarrow> unlock_gl_bytime w;
     w2 \<leftarrow> unlock_ga_bytime w1;
     Some (run_bus_watchdog w2) }"

subsection \<open>All threads\<close>

text \<open>A driver's own data may be anything: its steps are those from any state of the driver. The
  state of the programming track is everything that was sent to it.\<close>

inductive srv_step :: "world \<Rightarrow> world \<Rightarrow> bool" where
  accept: "create_anonymous_session ok s w = (r, w') \<Longrightarrow> srv_step w w'"
| handshake: "hs_line junk p line w = Some (reply, go, w') \<Longrightarrow> srv_step w w'"
| hangup: "end_client_thread p w = Some w' \<Longrightarrow> srv_step w w'"
| command: "sm_wait_ok drv \<Longrightarrow> env_ok env \<Longrightarrow>
    cmd_line drv env stk sid line w = Some (rc, reply, w') \<Longrightarrow> srv_step w w'"
| driver: "loopback_turn dir0 b w = Some w' \<Longrightarrow> srv_step w w'"
| ddl_commands: "ddl_turn (track :: nat list list track) stale b tr th w d = Some (tr', th', w', d') \<Longrightarrow> srv_step w w'"
| ddl_refresh: "refresh_step b c w d = Some (c', w', d') \<Longrightarrow> srv_step w w'"
| ddl_delayed: "thr_delayedGAResetCmd b th w d = Some (th', w', d') \<Longrightarrow> srv_step w w'"
| loconet: "ln_turn glcur b inp th l w = Some (th', l', w') \<Longrightarrow> srv_step w w'"
| li100: "li_turn b l w = Some (l', w') \<Longrightarrow> srv_step w w'"
| intellibox: "ib_turn b p w = Some (p', w') \<Longrightarrow> srv_step w w'"
| selectrix: "sx_turn b sx w = Some (sx', w') \<Longrightarrow> srv_step w w'"
| selectrix_signal: "sig_processSelectrix b sx w = Some (sx', w') \<Longrightarrow> srv_step w w'"
| feedback: "updateFB b port val w = Some (rc, w') \<Longrightarrow> srv_step w w'"
| feedback_module: "setFBmodul b m vals w = Some (rc, w') \<Longrightarrow> srv_step w w'"
| feedback_reset: "check_reset_fb b w = Some w' \<Longrightarrow> srv_step w w'"
| clock: "clock_turn w = Some w' \<Longrightarrow> srv_step w w'"
| second: "main_second w = Some w' \<Longrightarrow> srv_step w w'"

text \<open>The states after the start with some configuration, build and hardware, and enough memory.\<close>

inductive reachable :: "world \<Rightarrow> bool" where
  boot: "boot e i c doc = Some (Inr w) \<Longrightarrow> memory_suffices e \<Longrightarrow> init_memory_suffices i \<Longrightarrow> reachable w"
| step: "reachable w \<Longrightarrow> srv_step w w' \<Longrightarrow> reachable w'"

subsection \<open>The invariant holds in every state the server reaches\<close>

lemma ring_reset_inv: "ring_inv n q \<Longrightarrow> ring_inv n (q\<lparr>wr := 0, rd := 0\<rparr>)"
  by (simp add: ring_inv_def)

lemma ring_reset_list [simp]: "ring_list (q\<lparr>wr := 0, rd := 0\<rparr>) = []"
  by (simp add: ring_list_def ring_len_def)

lemma sess_inv_parts [simp]:
  "sess_inv (w\<lparr>gl_queue := a, gl := b\<rparr>) = sess_inv w" "sess_inv (w\<lparr>ga_queue := d, ga := e\<rparr>) = sess_inv w"
  "sess_inv (w\<lparr>fb := f, fb_queue := g, min_time := h\<rparr>) = sess_inv w"
  "sess_inv (w\<lparr>num_buses := n\<rparr>) = sess_inv w"
  by (simp_all add: sess_inv_def)

lemma startup_all_inv: "world_inv w \<Longrightarrow> world_inv (startup_all w)"
proof -
  assume inv: "world_inv w"
  have 1: "world_inv (startup_GL w)"
    using inv by (auto simp: startup_GL_def world_inv_def gl_inv_def ga_inv_def fb_inv_def sm_inv_def
        ring_reset_inv)
  have 2: "world_inv (startup_GA (startup_GL w))"
    using 1 by (auto simp: startup_GA_def world_inv_def gl_inv_def ga_inv_def fb_inv_def sm_inv_def
        ring_reset_inv)
  have 3: "world_inv (startup_FB (startup_GA (startup_GL w)))"
    using 2 by (auto simp: startup_FB_def world_inv_def gl_inv_def ga_inv_def fb_inv_def sm_inv_def
        ring_reset_inv)
  then show ?thesis by (simp add: startup_all_def startup_TIME_def)
qed

lemma auto_power_inv: "world_inv w \<Longrightarrow> auto_power i w = Some w' \<Longrightarrow> world_inv w'"
  by (auto simp: auto_power_def dest: setPower_inv [rotated] split: if_splits)

lemma loopback_start_inv [simp]: "world_inv (loopback_start b w) = world_inv w"
  by (simp add: loopback_start_def)

lemma statics_quiet: "quiet 0 (cw (statics c))"
proof -
  have "ring_list (fb_queue (cw (statics c)) b) = []" for b
    by (simp add: statics_def startup_all_def startup_TIME_def startup_FB_def startup_GA_def
        startup_GL_def zero_world_def ring_new_list)
  then show ?thesis by (simp add: quiet_def statics_def startup_all_inv zero_world_inv)
qed

lemma thread_start_inv [simp]: "world_inv (thread_start d b w) = world_inv w"
  by (simp add: thread_start_def split: driver.splits)

lemma create_all_threads_inv:
  assumes "world_inv (cw s)"
  shows "\<exists>w. create_all_threads s = Some w \<and> world_inv w \<and> get_server_state w = ssRunning"
proof -
  have "\<exists>w. create_all_bus_threads (s\<lparr>cw := set_server_state ssInitializing (cw s)\<rparr>) = Some w \<and> world_inv w"
    unfolding create_all_bus_threads_def
  proof (rule loopM_inv [where P = world_inv])
    fix i w assume "world_inv w"
    then show "\<exists>w'. auto_power i (thread_start (driverdata (cb (s\<lparr>cw := set_server_state ssInitializing (cw s)\<rparr>) i)) i w) = Some w' \<and> world_inv w'"
      by (auto simp: auto_power_def setPower_def info_ok)
  qed (use assms in simp)
  then show ?thesis by (auto simp: create_all_threads_def set_server_state_def get_server_state_def)
qed

lemma boot_SomeD:
  assumes "boot e i c doc = Some (Inr w)"
  obtains s s' where "readConfig e doc (statics c) = Some (True, s)" "init_all_buses i s = Some (Inr s')"
    "create_all_threads s' = Some w"
proof -
  obtain found s where s: "readConfig e doc (statics c) = Some (found, s)"
    using assms by (cases "readConfig e doc (statics c)") (auto simp: boot_def)
  then have f: found using assms by (simp add: boot_def split: if_splits)
  obtain r where r: "init_all_buses i s = Some r"
    using assms s f by (cases "init_all_buses i s") (auto simp: boot_def)
  obtain s' where s': "r = Inr s'" using assms s f r by (cases r) (auto simp: boot_def)
  then show ?thesis using assms s f r by (auto simp: boot_def bind_eq_Some_conv intro: that)
qed

lemma boot_inv:
  assumes "boot e i c doc = Some (Inr w)" and "memory_suffices e" and "init_memory_suffices i"
  shows "world_inv w"
proof -
  obtain s s' where s: "readConfig e doc (statics c) = Some (True, s)" and s': "init_all_buses i s = Some (Inr s')"
      and w: "create_all_threads s' = Some w"
    using assms(1) by (rule boot_SomeD)
  have "quiet 0 (cw s)" using keepsD [OF readConfig_rest [OF assms(2) statics_quiet] s] by simp
  then have "world_inv (cw s')"
    using init_buses_rest [OF assms(3), of 0 s "Suc (num_buses (cw s))" s'] s' by (simp add: init_all_buses_def)
  then show ?thesis using create_all_threads_inv [of s'] w by auto
qed

lemma watchdog_inv: "world_inv w \<Longrightarrow> world_inv (run_bus_watchdog w)"
proof -
  have step: "world_inv v \<Longrightarrow> world_inv (watchdog_bus loopback_start b v)" for v b
    by (simp add: watchdog_bus_def Let_def)
  have "world_inv v \<Longrightarrow> world_inv (fold (watchdog_bus loopback_start) bs v)" for v bs
    by (induction bs arbitrary: v) (simp_all add: step)
  then show "world_inv w \<Longrightarrow> world_inv (run_bus_watchdog w)" by (simp add: run_bus_watchdog_def)
qed

text \<open>The second of the main loop is always defined.\<close>

lemma main_second_total:
  assumes "world_inv w"
  shows "\<exists>w'. main_second w = Some w' \<and> world_inv w'"
proof -
  obtain w1 where "unlock_gl_bytime w = Some w1" "world_inv w1"
    using unlock_gl_bytime_ok [OF assms] by blast
  moreover then obtain w2 where "unlock_ga_bytime w1 = Some w2" "world_inv w2"
    using unlock_ga_bytime_ok by blast
  ultimately show ?thesis by (simp add: main_second_def watchdog_inv)
qed

inductive_cases srv_stepE: "srv_step w w'"

lemma srv_step_inv:
  assumes "srv_step w w'" and "world_inv w"
  shows "world_inv w'"
  using assms(1)
proof (cases rule: srv_step.cases)
  case (hangup p)
  then obtain sn where "sess_heap w p = Some sn"
    by (auto simp: end_client_thread_def bind_eq_Some_conv)
  with end_client_thread_ok [OF assms(2) this] hangup show ?thesis by auto
next
  case (feedback_reset b)
  with check_reset_fb_ok [OF assms(2), of b] show ?thesis by auto
next
  case second
  with main_second_total [OF assms(2)] show ?thesis by auto
qed (use assms(2) in \<open>blast intro: inv_intros\<close>)+

lemma reachable_world_inv: "reachable w \<Longrightarrow> world_inv w"
  by (induction rule: reachable.induct) (auto intro: boot_inv srv_step_inv)

end
