(* ===== verification/Config_Start.thy ===== *)
theory Config_Start
  imports Server_Main
begin

text \<open>
  What a configuration leads to. \<open>bus_view\<close> is what the start may change of a bus: reading a bus
  changes no other. A server with loopback buses starts, with the tables that its elements ask for.
\<close>

subsection \<open>What a bus keeps\<close>

text \<open>What reading the configuration and initialising may change of the bus \<open>c\<close>.\<close>

definition bus_view :: "nat \<Rightarrow> conf \<Rightarrow> bus_conf \<times> bus_data \<times> GL \<times> GA \<times> fb_t \<times> int" where
  "bus_view c s = (cb s c, buses (cw s) c, gl (cw s) c, ga (cw s) c, fb (cw s) c, min_time (cw s) c)"

lemma bus_view_updates [simp]:
  "c \<noteq> b \<Longrightarrow> bus_view c (on_bus b f s) = bus_view c s" "c \<noteq> b \<Longrightarrow> bus_view c (on_conf b g s) = bus_view c s"
  "bus_view c (s\<lparr>pidfile := t\<rparr>) = bus_view c s" "c \<noteq> b \<Longrightarrow> bus_view c (bus_defaults b s) = bus_view c s"
  "c \<noteq> b \<Longrightarrow> bus_view c (set_flag_if y i b s) = bus_view c s" "c \<noteq> b \<Longrightarrow> bus_view c (clear_flag_if y i b s) = bus_view c s"
  by (simp_all add: bus_view_def on_bus_def on_conf_def bus_defaults_def set_flag_if_def clear_flag_if_def upd_def)

abbreviation (input) world_view where
  "world_view c w \<equiv> (buses w c, gl w c, ga w c, fb w c, min_time w c)"

lemma tables_view:
  assumes "c \<noteq> b"
  shows "world_view c (snd (init_GL m b n w)) = world_view c w" "world_view c (snd (init_GA m raw b n w)) = world_view c w"
    "world_view c (snd (init_FB m b n w)) = world_view c w"
  using assms by (simp_all add: init_GL_def init_GA_def init_FB_def tick_def upd_def)

lemma readers_view:
  assumes "c \<noteq> b"
  shows "bus_view c (snd (readconfig_LOOPBACK e b x s)) = bus_view c s" "bus_view c (snd (readconfig_DDL e b x s)) = bus_view c s"
    "bus_view c (snd (readConfig_LOCONET e b x s)) = bus_view c s"
  using assms tables_view [OF assms]
  by (simp_all add: readconfig_LOOPBACK_def readconfig_DDL_def readConfig_LOCONET_def case_prod_unfold Let_def bus_view_def
      on_bus_def on_conf_def upd_def)

lemma server_view: "0 < c \<Longrightarrow> bus_view c (readconfig_server e x s) = bus_view c s"
  by (simp add: readconfig_server_def Let_def case_prod_unfold)

lemma min_time_view: "set_min_time b t w = Some w' \<Longrightarrow> c \<noteq> b \<Longrightarrow> world_view c w' = world_view c w"
  by (auto simp: set_min_time_def split: if_splits)

lemma elements_view:
  assumes "c \<noteq> b"
  shows "ib_element b x s = Some s' \<Longrightarrow> world_view c (snd (snd s')) = world_view c (snd (snd s))"
    "li_element b x t = Some t' \<Longrightarrow> world_view c (snd t') = world_view c (snd t)"
    "sx_element b x u = Some u' \<Longrightarrow> world_view c (snd (snd u')) = world_view c (snd (snd u))"
  using assms
  by (auto simp: ib_element_def li_element_def sx_element_def Let_def case_prod_unfold split: if_splits option.splits
      dest: min_time_view)

lemma loop_view:
  assumes "loopM f xs s = Some s'" and "\<And>x s s'. f x s = Some s' \<Longrightarrow> g s' = g s"
  shows "g s' = g s"
  using assms by (auto intro: loopM_preserves [where P = "\<lambda>t. g t = g s"])

lemma readConfig_IB_view: "readConfig_IB e b x s = Some (n, s') \<Longrightarrow> c \<noteq> b \<Longrightarrow> bus_view c s' = bus_view c s"
  by (auto simp: readConfig_IB_def Let_def bind_eq_Some_conv on_bus_def on_conf_def bus_view_def upd_def split: if_splits
      dest!: loop_view [where g = "\<lambda>s. world_view c (snd (snd s))", OF _ elements_view(1)])

lemma readConfig_LI100_view: "readConfig_LI100 u e b x s = Some (n, s') \<Longrightarrow> c \<noteq> b \<Longrightarrow> bus_view c s' = bus_view c s"
  by (auto simp: readConfig_LI100_def Let_def bind_eq_Some_conv on_bus_def on_conf_def bus_view_def upd_def split: if_splits
      dest!: loop_view [where g = "\<lambda>s. world_view c (snd s)", OF _ elements_view(2)])

lemma readconfig_sx_view:
  assumes "readconfig_sx e b x s = Some (n, s')" and "c \<noteq> b"
  shows "bus_view c s' = bus_view c s"
proof -
  have "world_view c (snd (sx_tables ok raw b p w)) = world_view c w" for ok raw p w
    using tables_view [OF assms(2)] by (simp add: sx_tables_def case_prod_unfold Let_def)
  moreover have "world_view c (snd (snd r)) = world_view c w" if "loopM (sx_element b) xs (0, p, w) = Some r" for xs p w r
    using loop_view [where g = "\<lambda>s. world_view c (snd (snd s))", OF that elements_view(3) [OF assms(2)]] by simp
  ultimately have "world_view c (snd r) = world_view c w" if "readconfig_Selectrix ok raw b x p w = Some r" for ok raw p w r
    using that assms(2) by (fastforce simp: readconfig_Selectrix_def Let_def bind_eq_Some_conv case_prod_unfold upd_def)
  then show ?thesis
    using assms by (fastforce simp: readconfig_sx_def Let_def bind_eq_Some_conv on_conf_def bus_view_def upd_def split: if_splits)
qed

lemma driver_element_view:
  assumes "driver_element e b x s = Some (Some (n, s'))" and "c < b"
  shows "bus_view c s' = bus_view c s"
  using assms readers_view [of c b e x s] readConfig_IB_view [of e b x s n s' c] readConfig_LI100_view [of _ e b x s n s' c]
    readconfig_sx_view [of e b x s n s' c]
  by (auto simp: driver_element_def Let_def split: if_splits)

lemma readers_next:
  "fst (readconfig_LOOPBACK e b x s) \<le> 1" "fst (readconfig_DDL e b x s) \<le> 1" "fst (readConfig_LOCONET e b x s) \<le> 1"
  "readConfig_IB e b x s = Some r \<Longrightarrow> fst r \<le> 1" "readConfig_LI100 u e b x s = Some r \<Longrightarrow> fst r \<le> 1"
  "readconfig_sx e b x s = Some r \<Longrightarrow> fst r \<le> 1"
       apply (simp add: readconfig_LOOPBACK_def Let_def case_prod_unfold)
      apply (simp add: readconfig_DDL_def Let_def case_prod_unfold)
     apply (simp add: readConfig_LOCONET_def Let_def case_prod_unfold)
    apply (clarsimp simp: readConfig_IB_def Let_def bind_eq_Some_conv split: if_split_asm)
   apply (clarsimp simp: readConfig_LI100_def Let_def bind_eq_Some_conv split: if_split_asm)
  apply (clarsimp simp: readconfig_sx_def Let_def bind_eq_Some_conv split: if_split_asm)
  done

lemma driver_element_next:
  assumes "driver_element e b x s = Some (Some (n, s'))"
  shows "n = 0 \<or> n = 1 \<and> b < MAX_BUSES"
proof -
  have "n \<le> 1 \<and> (b < MAX_BUSES \<or> n = 0)"
    using assms readers_next(1-3) [of e b x s] readers_next(4,6) [of e b x s "(n, s')"] readers_next(5) [of False e b x s "(n, s')"] readers_next(5) [of True e b x s "(n, s')"]
    by (auto simp: driver_element_def Let_def split: if_split_asm)
  then show ?thesis by auto
qed

lemma bus_attribute_view: "bus_attribute e b x s = Some s' \<Longrightarrow> c \<noteq> b \<Longrightarrow> bus_view c s' = bus_view c s"
  by (auto simp: bus_attribute_def split: if_splits option.splits)

lemma bus_element_cases:
  assumes "bus_element e cur x (b, s) = Some (b', s')"
  shows "b' = b \<and> s' = s \<or> b = 0 \<and> b' = 1 \<or> (\<exists>n. driver_element e b x s = Some (Some (n, s')) \<and> b' = b + n) \<or>
    bus_attribute e cur x s = Some s' \<and> b' = b"
proof (cases "is_formatting x \<or> take 6 (xml_name x) = ''server''")
  case True
  then show ?thesis using assms by (cases "is_formatting x") (auto simp: bus_element_def split: if_split_asm)
next
  case False
  then have r: "bus_element e cur x (b, s) = (case driver_element e b x s of
      Some r \<Rightarrow> map_option (\<lambda>(k, s). (b + k, s)) r | None \<Rightarrow> map_option (Pair b) (bus_attribute e cur x s))"
    by (simp add: bus_element_def)
  show ?thesis
  proof (cases "driver_element e b x s")
    case None
    then show ?thesis using assms by (simp add: r)
  next
    case (Some r')
    then obtain n where "r' = Some (n, s')" "b' = b + n" using assms by (cases r') (auto simp: r)
    then show ?thesis using Some by blast
  qed
qed

lemma bus_element_bound:
  assumes "bus_element e cur x (b, s) = Some (b', s')"
  shows "b \<le> b' \<and> (b \<le> MAX_BUSES \<longrightarrow> b' \<le> MAX_BUSES)"
  using bus_element_cases [OF assms] driver_element_next [of e b x s _ s'] by (auto simp: MAX_BUSES_def)

lemma bus_element_view:
  assumes "bus_element e cur x (b, s) = Some (b', s')" and "c < cur" and "cur \<le> b"
  shows "bus_view c s' = bus_view c s"
proof -
  have "0 < b" and c: "c < b" "c \<noteq> cur" using assms(2,3) by simp_all
  with bus_element_cases [OF assms(1)] consider "s' = s" | n where "driver_element e b x s = Some (Some (n, s'))" "b' = b + n"
    | "bus_attribute e cur x s = Some s'" "b' = b" by blast
  then show ?thesis
  proof cases
    case (2 n)
    then show ?thesis using driver_element_view c(1) by blast
  next
    case 3
    then show ?thesis using bus_attribute_view c(2) by blast
  qed simp
qed

lemma register_bus_view:
  assumes "register_bus e b x s = Some (b', s')" and "b \<le> MAX_BUSES"
  shows "b \<le> b' \<and> b' \<le> MAX_BUSES \<and> (\<forall>c<b. bus_view c s' = bus_view c s)"
proof (cases "xml_name x \<noteq> ''bus'' \<or> MAX_BUSES \<le> b")
  case True
  then show ?thesis using assms by (auto simp: register_bus_def)
next
  case False
  then have l: "loopM (bus_element e b) (xml_children x) (b, bus_defaults b s) = Some (b', s')"
    using assms(1) by (simp add: register_bus_def)
  let ?P = "\<lambda>r. b \<le> fst r \<and> fst r \<le> MAX_BUSES \<and> (\<forall>c<b. bus_view c (snd r) = bus_view c s)"
  have "?P (b', s')"
  proof (rule loopM_preserves [where P = ?P, OF l])
    fix y t t' assume P: "?P t" and "bus_element e b y t = Some t'"
    then have step: "bus_element e b y (fst t, snd t) = Some (fst t', snd t')" by simp
    show "?P t'" using P bus_element_bound [OF step] bus_element_view [OF step] by fastforce
  qed (use assms(2) in auto)
  then show ?thesis by auto
qed

lemma walk_child_view:
  assumes "walk_child e x (b, s) = Some (b', s')" and "b \<le> MAX_BUSES"
  shows "b \<le> b' \<and> b' \<le> MAX_BUSES \<and> (\<forall>c<b. bus_view c s' = bus_view c s)"
proof -
  obtain s1 where "register_bus e b x s = Some (b', s1)" "s' = s1\<lparr>cw := (cw s1)\<lparr>num_buses := bus_pred b'\<rparr>\<rparr>"
    using assms(1) by (auto simp: walk_child_def bind_eq_Some_conv)
  then show ?thesis using register_bus_view [OF _ assms(2)] by (fastforce simp: bus_view_def)
qed

lemma walk_view:
  assumes "loopM (walk_child e) xs (b, s) = Some (b', s')" and "b \<le> MAX_BUSES"
  shows "b \<le> b' \<and> b' \<le> MAX_BUSES \<and> (\<forall>c<b. bus_view c s' = bus_view c s)"
proof -
  let ?P = "\<lambda>r. b \<le> fst r \<and> fst r \<le> MAX_BUSES \<and> (\<forall>c<b. bus_view c (snd r) = bus_view c s)"
  have "?P (b', s')"
  proof (rule loopM_preserves [where P = ?P, OF assms(1)])
    fix y t t' assume P: "?P t" and "walk_child e y t = Some t'"
    then have step: "walk_child e y (fst t, snd t) = Some (fst t', snd t')" by simp
    show "?P t'" using P walk_child_view [OF step] by fastforce
  qed (use assms(2) in auto)
  then show ?thesis by auto
qed

subsection \<open>A server with loopback buses\<close>

definition loopback_bus :: "xml list \<Rightarrow> xml" where
  "loopback_bus cs = Xml ''bus'' None [] [Xml ''loopback'' None [] cs]"

definition loopback_document :: "xml list \<Rightarrow> xml list list \<Rightarrow> xml" where
  "loopback_document sv ls =
     Xml ''srcpd'' None [] (Xml ''bus'' None [] [Xml ''server'' None [] sv] # map loopback_bus ls)"

text \<open>The numbers that the elements ask for.\<close>

definition loopback_numbers :: "xml list \<Rightarrow> loopback_data" where
  "loopback_numbers cs = fold loopback_element cs \<lparr>loop_number_fb = 0, loop_number_ga = 256, loop_number_gl = 80\<rparr>"

definition has_tables :: "world \<Rightarrow> nat \<Rightarrow> xml list \<Rightarrow> bool" where
  "has_tables w b cs \<longleftrightarrow>
     numberOfGl (gl w b) = max 0 (loop_number_gl (loopback_numbers cs)) \<and>
     numberOfGa (ga w b) = max 0 (loop_number_ga (loopback_numbers cs)) \<and>
     numberOfFb (fb w b) = max 0 (loop_number_fb (loopback_numbers cs))"

definition simple_driver :: "driver \<Rightarrow> bool" where
  "simple_driver d \<longleftrightarrow> (case d of No_driver \<Rightarrow> True | Server_driver _ \<Rightarrow> True | Loopback_driver _ \<Rightarrow> True | _ \<Rightarrow> False)"

definition untabled :: "nat \<Rightarrow> world \<Rightarrow> bool" where
  "untabled b w \<longleftrightarrow> numberOfGl (gl w b) = 0 \<and> numberOfGa (ga w b) = 0 \<and> numberOfFb (fb w b) = 0"

lemma bus_view_tables:
  assumes "bus_view c s = bus_view c s'"
  shows "has_tables (cw s) c cs = has_tables (cw s') c cs" "untabled c (cw s) = untabled c (cw s')" "cb s c = cb s' c"
  using assms by (simp_all add: bus_view_def has_tables_def untabled_def)

lemma init_tables:
  assumes "b < MAX_BUSES"
  shows "fst (init_GL True b n w) = 0" "fst (init_GA True raw b n w) = 0" "fst (init_FB True b n w) = 0"
    "numberOfGl (gl (snd (init_GL True b n w)) b) = (if 0 < n then n else numberOfGl (gl w b))"
    "numberOfGa (ga (snd (init_GA True raw b n w)) b) = (if 0 < n then n else numberOfGa (ga w b))"
    "numberOfFb (fb (snd (init_FB True b n w)) b) = (if 0 < n then n else numberOfFb (fb w b))"
    "ga (snd (init_GL True b n w)) = ga w" "fb (snd (init_GL True b n w)) = fb w"
    "gl (snd (init_GA True raw b n w)) = gl w" "fb (snd (init_GA True raw b n w)) = fb w"
    "gl (snd (init_FB True b n w)) = gl w" "ga (snd (init_FB True b n w)) = ga w"
  using assms by (simp_all add: init_GL_def init_GA_def init_FB_def)

lemma readconfig_LOOPBACK_tables:
  assumes "memory_suffices e" and "b < MAX_BUSES" and "untabled b (cw s)"
  shows "\<exists>s'. readconfig_LOOPBACK e b (Xml n t p cs) s = (1, s') \<and> has_tables (cw s') b cs \<and> simple_driver (driverdata (cb s' b))"
proof -
  let ?r = "readconfig_LOOPBACK e b (Xml n t p cs) s"
  have "fst ?r = 1" "has_tables (cw (snd ?r)) b cs" "simple_driver (driverdata (cb (snd ?r) b))"
    using assms
    by (simp_all add: readconfig_LOOPBACK_def memory_suffices_def case_prod_unfold Let_def init_tables has_tables_def untabled_def
        simple_driver_def on_conf_def on_bus_def flip: loopback_numbers_def)
  then show ?thesis by (intro exI [of _ "snd ?r"]) (simp add: prod_eq_iff)
qed

lemma loopback_bus_read:
  assumes "compiled e ''loopback''" and "memory_suffices e" and "0 < b" and "b < MAX_BUSES" and "untabled b (cw s)"
  shows "\<exists>s'. walk_child e (loopback_bus cs) (b, s) = Some (Suc b, s') \<and> has_tables (cw s') b cs \<and>
    simple_driver (driverdata (cb s' b)) \<and> num_buses (cw s') = b \<and> (\<forall>c. c \<noteq> b \<longrightarrow> bus_view c s' = bus_view c s)"
proof -
  let ?x = "Xml ''loopback'' None [] cs"
  have "untabled b (cw (bus_defaults b s))" using assms(5) by (simp add: bus_defaults_def on_conf_def on_bus_def untabled_def)
  then obtain s' where s': "readconfig_LOOPBACK e b ?x (bus_defaults b s) = (1, s')" "has_tables (cw s') b cs"
      "simple_driver (driverdata (cb s' b))"
    using readconfig_LOOPBACK_tables [OF assms(2,4)] by blast
  have "bus_element e b ?x (b, bus_defaults b s) = Some (Suc b, s')"
    using assms(1,4) s'(1) by (simp add: bus_element_def driver_element_def is_formatting_def is_text_def)
  then have "register_bus e b (loopback_bus cs) s = Some (Suc b, s')"
    using assms(4) by (simp add: register_bus_def loopback_bus_def)
  moreover have "bus_pred (Suc b) = b" using assms(4) by (simp add: bus_pred_def MAX_BUSES_def)
  moreover have "bus_view c s' = bus_view c s" if "c \<noteq> b" for c
    using readers_view(1) [OF that, of e ?x "bus_defaults b s"] s'(1) that by simp
  ultimately show ?thesis using s'(2,3)
    by (auto simp: walk_child_def has_tables_def bus_view_def)
qed

lemma loopback_walk:
  assumes "compiled e ''loopback''" and "memory_suffices e" and "0 < b" and "b + length ls \<le> MAX_BUSES"
    and "\<forall>c\<ge>b. untabled c (cw s)" and "\<forall>c. simple_driver (driverdata (cb s c))" and "num_buses (cw s) = b - 1"
  shows "\<exists>s'. loopM (walk_child e) (map loopback_bus ls) (b, s) = Some (b + length ls, s') \<and>
    (\<forall>k<length ls. has_tables (cw s') (b + k) (ls ! k)) \<and> (\<forall>c. simple_driver (driverdata (cb s' c))) \<and>
    num_buses (cw s') = b + length ls - 1"
  using assms(3-7)
proof (induction ls arbitrary: b s)
  case (Cons cs ls)
  obtain s1 where s1: "walk_child e (loopback_bus cs) (b, s) = Some (Suc b, s1)" "has_tables (cw s1) b cs"
      "simple_driver (driverdata (cb s1 b))" "num_buses (cw s1) = b" "\<And>c. c \<noteq> b \<Longrightarrow> bus_view c s1 = bus_view c s"
    using loopback_bus_read [OF assms(1,2) Cons.prems(1), of s cs] Cons.prems(2,3) by auto
  have "\<forall>c\<ge>Suc b. untabled c (cw s1)" using Cons.prems(3) bus_view_tables(2) [OF s1(5)] by auto
  moreover have "\<forall>c. simple_driver (driverdata (cb s1 c))"
    using Cons.prems(4) bus_view_tables(3) [OF s1(5)] s1(3) by metis
  ultimately obtain s' where s': "loopM (walk_child e) (map loopback_bus ls) (Suc b, s1) = Some (Suc b + length ls, s')"
      "\<forall>k<length ls. has_tables (cw s') (Suc b + k) (ls ! k)" "\<forall>c. simple_driver (driverdata (cb s' c))"
      "num_buses (cw s') = Suc b + length ls - 1"
    using Cons.IH [of "Suc b" s1] Cons.prems(2) s1(4) by auto
  have "bus_view b s' = bus_view b s1" using walk_view [OF s'(1)] Cons.prems(2) by simp
  then have "has_tables (cw s') b cs" using bus_view_tables(1) s1(2) by metis
  then have "\<forall>k<length (cs # ls). has_tables (cw s') (b + k) ((cs # ls) ! k)"
    using s'(2) by (auto simp: less_Suc_eq_0_disj)
  then show ?case using s1(1) s' by (intro exI [of _ s']) auto
qed auto

abbreviation (input) emptied :: "conf \<Rightarrow> conf" where
  "emptied s \<equiv> s\<lparr>cw := (cw s)\<lparr>buses := \<lambda>_. zero_bus, num_buses := 0\<rparr>, cb := \<lambda>_. zero_conf\<rparr>"

lemma loopback_document_walk:
  assumes "compiled e ''loopback''" and "memory_suffices e" and "length ls < MAX_BUSES"
  shows "\<exists>s. walk_config_xml e (loopback_document sv ls) (emptied (statics c)) = Some (Suc (length ls), s) \<and>
    num_buses (cw s) = length ls \<and>
    (\<forall>k<length ls. has_tables (cw s) (Suc k) (ls ! k)) \<and> (\<forall>b. simple_driver (driverdata (cb s b)))"
proof -
  define s0 where "s0 = emptied (statics c)"
  let ?x = "Xml ''server'' None [] sv"
  define s1 where "s1 = readconfig_server e ?x (bus_defaults 0 s0)"
  define s2 where "s2 = s1\<lparr>cw := (cw s1)\<lparr>num_buses := 0\<rparr>\<rparr>"
  have "bus_element e 0 ?x (0, bus_defaults 0 s0) = Some (1, s1)"
    by (simp add: bus_element_def is_formatting_def is_text_def s1_def)
  then have w: "walk_child e (Xml ''bus'' None [] [?x]) (0, s0) = Some (1, s2)"
    by (simp add: walk_child_def register_bus_def MAX_BUSES_def s2_def bus_pred_def)
  have "untabled b (cw s0)" for b
    by (simp add: untabled_def s0_def statics_def startup_all_def startup_TIME_def startup_FB_def startup_GA_def startup_GL_def
        zero_world_def)
  then have "untabled b (cw s2)" for b
    by (simp add: s2_def s1_def untabled_def readconfig_server_def Let_def case_prod_unfold on_conf_def on_bus_def bus_defaults_def)
  moreover have "simple_driver (driverdata (cb s2 b))" for b
    by (simp add: s2_def s1_def s0_def simple_driver_def readconfig_server_def Let_def case_prod_unfold on_conf_def on_bus_def
        bus_defaults_def zero_conf_def upd_def)
  moreover have "num_buses (cw s2) = 0" by (simp add: s2_def)
  ultimately obtain s where "loopM (walk_child e) (map loopback_bus ls) (1, s2) = Some (1 + length ls, s)"
      "\<forall>k<length ls. has_tables (cw s) (Suc k) (ls ! k)" "\<forall>b. simple_driver (driverdata (cb s b))" "num_buses (cw s) = length ls"
    using loopback_walk [OF assms(1,2), of 1 ls s2] assms(3) by auto
  then show ?thesis
    using w by (simp add: walk_config_xml_def loopback_document_def s0_def)
qed

lemma loopback_document_read:
  assumes "compiled e ''loopback''" and "memory_suffices e" and "length ls < MAX_BUSES"
  shows "\<exists>s. readConfig e (Some (loopback_document sv ls)) (statics c) = Some (True, s) \<and> num_buses (cw s) = length ls \<and>
    (\<forall>k<length ls. has_tables (cw s) (Suc k) (ls ! k)) \<and> (\<forall>b. simple_driver (driverdata (cb s b)))"
  using loopback_document_walk [OF assms, of sv c] by (auto simp: readConfig_def)

lemma init_buses_simple:
  assumes "\<forall>b. simple_driver (driverdata (cb s b))"
  shows "\<exists>s'. init_buses i bs s = Some (Inr s') \<and> gl (cw s') = gl (cw s) \<and> ga (cw s') = ga (cw s) \<and> fb (cw s') = fb (cw s) \<and>
    num_buses (cw s') = num_buses (cw s)"
  using assms
proof (induction bs arbitrary: s)
  case (Cons b bs)
  obtain s1 where s1: "init_bus i b s = Some (0, s1)" "cb s1 = cb s" "gl (cw s1) = gl (cw s)" "ga (cw s1) = ga (cw s)"
      "fb (cw s1) = fb (cw s)" "num_buses (cw s1) = num_buses (cw s)"
    using Cons.prems [rule_format, of b]
    by (cases "driverdata (cb s b)") (auto simp: init_bus_def simple_driver_def init_bus_server_def init_bus_LOOPBACK_def Let_def)
  with Cons.IH [of s1] Cons.prems show ?case by auto
qed simp

lemma auto_power_tables:
  "auto_power b w = Some w' \<Longrightarrow> gl w' = gl w \<and> ga w' = ga w \<and> fb w' = fb w \<and> num_buses w' = num_buses w"
  by (auto simp: auto_power_def setPower_def resume_bus_thread_def split: if_splits)

lemma create_all_threads_tables:
  assumes "create_all_threads s = Some w"
  shows "gl w = gl (cw s) \<and> ga w = ga (cw s) \<and> fb w = fb (cw s) \<and> num_buses w = num_buses (cw s)"
proof -
  let ?s = "s\<lparr>cw := set_server_state ssInitializing (cw s)\<rparr>"
  let ?P = "\<lambda>w. gl w = gl (cw s) \<and> ga w = ga (cw s) \<and> fb w = fb (cw s) \<and> num_buses w = num_buses (cw s)"
  have start: "?P v \<Longrightarrow> ?P (thread_start d b v)" for d b v
    by (simp add: thread_start_def loopback_start_def split: driver.splits)
  obtain w1 where w1: "create_all_bus_threads ?s = Some w1" "w = set_server_state ssRunning w1"
    using assms by (auto simp: create_all_threads_def)
  have "?P w1"
    by (rule loopM_preserves [where P = ?P, OF w1(1) [unfolded create_all_bus_threads_def]])
      (use start auto_power_tables in \<open>fastforce simp: set_server_state_def\<close>)+
  then show ?thesis using w1(2) by (simp add: set_server_state_def)
qed

lemma loopback_boots:
  assumes "compiled e ''loopback''" and "memory_suffices e" and "init_memory_suffices i" and "length ls < MAX_BUSES"
  shows "\<exists>w. boot e i c (Some (loopback_document sv ls)) = Some (Inr w) \<and> world_inv w \<and> get_server_state w = ssRunning \<and>
    num_buses w = length ls \<and> (\<forall>k<length ls. has_tables w (Suc k) (ls ! k))"
proof -
  obtain s where s: "readConfig e (Some (loopback_document sv ls)) (statics c) = Some (True, s)" "num_buses (cw s) = length ls"
      "\<forall>k<length ls. has_tables (cw s) (Suc k) (ls ! k)" "\<forall>b. simple_driver (driverdata (cb s b))"
    using loopback_document_read [OF assms(1,2,4)] by blast
  obtain s' where s': "init_all_buses i s = Some (Inr s')" "gl (cw s') = gl (cw s)" "ga (cw s') = ga (cw s)" "fb (cw s') = fb (cw s)"
      "num_buses (cw s') = num_buses (cw s)"
    using init_buses_simple [OF s(4)] by (auto simp: init_all_buses_def)
  have "quiet 0 (cw s)" using keepsD [OF readConfig_rest [OF assms(2) statics_quiet] s(1)] by simp
  then have "world_inv (cw s')"
    using init_buses_rest [OF assms(3), of 0 s "Suc (num_buses (cw s))" s'] s'(1) by (simp add: init_all_buses_def)
  then obtain w where w: "create_all_threads s' = Some w" "world_inv w" "get_server_state w = ssRunning"
    using create_all_threads_inv by blast
  have "boot e i c (Some (loopback_document sv ls)) = Some (Inr w)" using s(1) s'(1) w(1) by (simp add: boot_def)
  then show ?thesis
    using create_all_threads_tables [OF w(1)] s s' w by (auto simp: has_tables_def)
qed

end
