(* ===== verification/Srcp_Lines.thy ===== *)
theory Srcp_Lines
  imports Srcp_Command_Inv
begin

text \<open>
  What a line of the protocol does: from the characters the client sends through \<open>sscanf\<close> and
  the dispatch of \<open>doCmdClient\<close> to the operation on the device, and the end of WAIT.
\<close>

subsection \<open>From the line to the handler\<close>

text \<open>A command line: the words separated by blanks, the numbers after them.\<close>

definition command_line :: "string \<Rightarrow> nat \<Rightarrow> string \<Rightarrow> int list \<Rightarrow> string" where
  "command_line cmd b device xs = cmd @ '' '' @ fmt_d (int b) @ '' '' @ device @ nums xs @ ''\<newline>''"

lemma cmd_line_scans:
  assumes "is_word cmd" and "is_word device" and "b \<le> num_buses w" and "int b < 2 ^ 31"
    and "\<forall>x\<in>set xs. in_int x" and "xs \<noteq> []" and "12 * length xs \<le> 1000"
  shows "cmd_line drv env stk sid (command_line cmd b device xs) w
    = dispatch drv env stk sid cmd b device (tl (nums xs)) w"
proof -
  obtain x ys where xs: "xs = x # ys" using assms(6) by (cases xs) auto
  have strip: "strip_newline (command_line cmd b device xs)
      = cmd @ CHR '' '' # fmt_d (int b) @ CHR '' '' # device @ nums xs"
    using assms(1) by (auto simp: strip_newline_def command_line_def is_word_def butlast_append)
  have len: "length (tl (nums xs)) \<le> 1000" using length_nums [OF assms(5)] assms(7) by simp
  have t: "tl (nums xs) \<noteq> []" "skip_ws (nums xs) = tl (nums xs)"
    by (simp_all add: xs fmt_d_hd_not_space)
  have "sscanf_vals (strip_newline (command_line cmd b device xs)) [Str None, Str None, Str None, Chs 1000]
      = [VS cmd, VS (fmt_d (int b)), VS device, VS (tl (nums xs))]"
    unfolding strip
    apply (subst scan_word [OF assms(1)], simp)
    apply (subst scan_blank, subst scan_word [OF fmt_d_word], simp)
    apply (subst scan_blank, subst scan_word [OF assms(2)], simp add: xs)
    using t len by simp
  moreover have "in_int (int b)" using assms(4) by (simp add: in_int_def)
  ultimately show ?thesis
    using assms(3,4) by (simp add: cmd_line_def sscanf_def Let_def strval_def atoi_fmt_d nat_mod_distrib nat_power_eq)
qed


subsection \<open>SET GL and SET GA\<close>

lemma gl_func_bits_horner:
  "gl_func_bits (map VI (x0 # x1 # x2 # x3 # map of_bool fs)) (length fs) = horner_sum of_bool 2 fs"
proof -
  have "gl_func_bits (map VI (x0 # x1 # x2 # x3 # map of_bool fs)) (length fs)
      = sum_list (map (\<lambda>i. of_bool (fs ! i) * 2 ^ i) [0..<length fs])"
    unfolding gl_func_bits_def
    by (intro arg_cong [where f = sum_list] map_cong) (auto simp: ival_def)
  also have "\<dots> = horner_sum of_bool 2 fs"
    by (simp add: horner_sum_eq_sum interv_sum_list_conv_sum_set_nat)
  finally show ?thesis .
qed

lemma set_words: "is_word ''SET''" "is_word ''GL''" "is_word ''GA''"
  by (simp_all add: is_word_def is_space_def)

lemma set_GL_numbers:
  assumes "in_int addr" "in_int dir" "in_int speed" "in_int vmax" and "length fs \<le> 29"
  shows "set_GL sid b (tl (nums (addr # dir # speed # vmax # map of_bool fs))) True w =
    (if cacheGetLockGL b addr w \<in> {None, Some 0, Some sid} \<or> dir = 2
     then enqueueGL b addr dir speed vmax (horner_sum of_bool 2 fs) w
     else Some (SRCP_DEVICELOCKED, w))"
proof -
  define xs where "xs = addr # dir # speed # vmax # map of_bool fs"
  have xs: "\<forall>x\<in>set xs. in_int x" using assms(1-4) by (auto simp: xs_def in_int_def)
  have n: "min 33 (length xs) = 4 + length fs" and t: "take 33 xs = xs"
    using assms(5) by (simp_all add: xs_def)
  have "xs \<noteq> []" by (simp add: xs_def)
  then have s: "sscanf (tl (nums xs)) (replicate 33 Ld) = (int (4 + length fs), map VI xs)"
    using sscanf_nums [OF xs, of 33] unfolding n t by simp
  have v: "ival (map VI xs) 0 = addr" "ival (map VI xs) 1 = dir" "ival (map VI xs) 2 = speed"
    "ival (map VI xs) 3 = vmax"
    by (simp_all add: xs_def ival_def numeral_eq_Suc)
  have f: "gl_func_bits (map VI xs) (nat (int (4 + length fs) - 4)) = horner_sum of_bool 2 fs"
    using gl_func_bits_horner [of addr dir speed vmax fs] by (simp add: xs_def)
  show ?thesis
    unfolding xs_def [symmetric] set_GL_def s Let_def prod.case f v
    using assms(1-4) by (auto simp: c_int_id split: option.splits)
qed

text \<open>C2: The characters of a SET GL line lead to exactly the queue operation SRCP promises:
  address, drive mode, speed, maximum and up to 29 function bits are read from the text and
  enqueued, unless another session holds the lock and the drive mode is not 2 (emergency
  stop), which is answered 414.\<close>

theorem set_gl_line:
  assumes "b \<le> num_buses w" and "int b < 2 ^ 31" and "bus_has_devicegroup b DG_GL w"
    and "in_int addr" "in_int dir" "in_int speed" "in_int vmax" and "length fs \<le> 29"
  shows "cmd_line drv env stk sid
      (command_line ''SET'' b ''GL'' (addr # dir # speed # vmax # map of_bool fs)) w =
    map_option (\<lambda>(rc, w1). reply_now rc w1)
      (if cacheGetLockGL b addr w \<in> {None, Some 0, Some sid} \<or> dir = 2
       then enqueueGL b addr dir speed vmax (horner_sum of_bool 2 fs) w
       else Some (SRCP_DEVICELOCKED, w))"
proof -
  have xs: "\<forall>x\<in>set (addr # dir # speed # vmax # map of_bool fs). in_int x"
    using assms(4-7) by (auto simp: in_int_def)
  have "cmd_line drv env stk sid
      (command_line ''SET'' b ''GL'' (addr # dir # speed # vmax # map of_bool fs)) w =
    dispatch drv env stk sid ''SET'' b ''GL'' (tl (nums (addr # dir # speed # vmax # map of_bool fs))) w"
    by (rule cmd_line_scans [OF set_words(1,2) assms(1,2) xs]) (use assms(8) in simp_all)
  also have "\<dots> = map_option (\<lambda>(rc, w1). reply_now rc w1)
      (set_GL sid b (tl (nums (addr # dir # speed # vmax # map of_bool fs))) True w)"
    using assms(3)
    by (simp add: dispatch_def handleSET_def handle_setcheck_def setcheck_device_def strncasecmp0_def
        case_prod_unfold map_conv_bind_option comp_def del: nums_simps)
  finally show ?thesis unfolding set_GL_numbers [OF assms(4-8)] .
qed

subsection \<open>WAIT ends\<close>

lemma clock_turn_next:
  assumes "world_inv w" and "vtime_ok (vtime_now w)" and "day (vtime_now w) < 2147483647"
    and "0 < ratio_x (distort w)" and "0 < ratio_y (distort w)" and "ratio_y (distort w) \<le> 2147"
  shows "\<exists>w'. clock_turn w = Some w' \<and> world_inv w' \<and> vtime_ok (vtime_now w') \<and> distort w' = distort w \<and>
    model_seconds (vtime_now w') = model_seconds (vtime_now w) + 1"
proof -
  obtain vt full where n: "clock_next (vtime_now w) = Some (vt, full)" "vtime_ok vt"
    "model_seconds vt = model_seconds (vtime_now w) + 1"
    using clock_next_valid [OF assms(2,3)] by blast
  have "\<exists>w'. clock_turn w = Some w' \<and> vtime_now w' = vt \<and> distort w' = distort w"
    using n assms by (auto simp: clock_turn_def getTIME_def clock_sleeptime_def in_int_def Let_def split_beta
        info_ok infoTIME_def set_time_def)
  then show ?thesis using n clock_turn_inv [OF assms(1)] by blast
qed

lemma time_current_ok:
  assumes "vtime_ok vt" and "model_seconds vt \<le> 2147483647"
  shows "time_current vt = Some (model_seconds vt)"
proof -
  have "0 \<le> day vt" "0 \<le> hour vt" "0 \<le> minute vt" "0 \<le> sec vt" using assms(1) by (simp_all add: vtime_ok_def)
  then show ?thesis
    using assms(2) unfolding time_current_def model_seconds_def in_int_def Let_def by simp
qed

lemma wait_time_reaches:
  "world_inv w \<Longrightarrow> vtime_ok (vtime_now w) \<Longrightarrow> 0 < ratio_x (distort w) \<Longrightarrow> 0 < ratio_y (distort w) \<Longrightarrow>
   ratio_y (distort w) \<le> 2147 \<Longrightarrow> target < 2147483647 \<Longrightarrow> model_seconds (vtime_now w) \<le> target + 1 \<Longrightarrow>
   \<exists>w'. wait_time (\<lambda>_. clock_turn) target k w = Some w' \<and> world_inv w' \<and> model_seconds (vtime_now w') = target + 1"
proof (induction "nat (target + 1 - model_seconds (vtime_now w))" arbitrary: k w)
  case 0
  then have "model_seconds (vtime_now w) = target + 1" by simp
  then show ?case
    using 0 time_current_ok [OF 0(3)] by (subst wait_time.simps) (simp add: getTIME_def)
next
  case (Suc n)
  have cur: "time_current (vtime_now w) = Some (model_seconds (vtime_now w))"
    using time_current_ok [OF Suc(4)] Suc(8,9) by simp
  have le: "model_seconds (vtime_now w) \<le> target" using Suc(2) by simp
  have "day (vtime_now w) \<le> model_seconds (vtime_now w)"
    using Suc(4) by (simp add: vtime_ok_def model_seconds_def)
  then obtain w1 where w1: "clock_turn w = Some w1" "world_inv w1" "vtime_ok (vtime_now w1)"
    "distort w1 = distort w" "model_seconds (vtime_now w1) = model_seconds (vtime_now w) + 1"
    using clock_turn_next [OF Suc(3,4) _ Suc(5-7)] le Suc(8) by auto
  have n1: "n = nat (target + 1 - model_seconds (vtime_now w1))" using Suc(2) w1(5) by linarith
  obtain w' where "wait_time (\<lambda>_. clock_turn) target (Suc k) w1 = Some w'" "world_inv w'"
    "model_seconds (vtime_now w') = target + 1"
    using Suc(1) [OF n1 w1(2,3), of "Suc k"] Suc(5-8) w1(4,5) le by auto
  then show ?case using cur le w1(1) by (subst wait_time.simps) (simp add: getTIME_def)
qed



lemma set_GA_numbers:
  assumes "in_int addr" "in_int port" "in_int action" "in_int activetime" and "getlockGA b addr w \<noteq> None"
  shows "set_GA sid b (tl (nums [addr, port, action, activetime])) True w =
    (if getlockGA b addr w \<in> {Some 0, Some sid} then enqueueGA b addr port action activetime w
     else Some (SRCP_DEVICELOCKED, w))"
proof -
  define xs where "xs = [addr, port, action, activetime]"
  have xs: "\<forall>x\<in>set xs. in_int x" using assms(1-4) by (auto simp: xs_def)
  have r: "[Ld, Ld, Ld, Ld] = replicate 4 Ld" by (simp add: numeral_eq_Suc)
  have "xs \<noteq> []" "min 4 (length xs) = 4" "take 4 xs = xs" by (simp_all add: xs_def)
  then have s: "sscanf (tl (nums xs)) [Ld, Ld, Ld, Ld] = (4, map VI xs)"
    using sscanf_nums [OF xs, of 4] unfolding r by simp
  have v: "ival (map VI xs) 0 = addr" "ival (map VI xs) 1 = port" "ival (map VI xs) 2 = action"
    "ival (map VI xs) 3 = activetime"
    by (simp_all add: xs_def ival_def numeral_eq_Suc)
  show ?thesis
    unfolding xs_def [symmetric] set_GA_def s Let_def prod.case v
    using assms by (auto simp: c_int_id)
qed

text \<open>The characters of a SET GA line for an accessory in the table lead to exactly the queue
  operation with the address, port, action and time of the text, unless another session holds
  the lock, which is answered 414.\<close>

theorem set_ga_line:
  assumes "b \<le> num_buses w" and "int b < 2 ^ 31" and "bus_has_devicegroup b DG_GA w"
    and "in_int addr" "in_int port" "in_int action" "in_int activetime" and "getlockGA b addr w \<noteq> None"
  shows "cmd_line drv env stk sid (command_line ''SET'' b ''GA'' [addr, port, action, activetime]) w =
    map_option (\<lambda>(rc, w1). reply_now rc w1)
      (if getlockGA b addr w \<in> {Some 0, Some sid} then enqueueGA b addr port action activetime w
       else Some (SRCP_DEVICELOCKED, w))"
proof -
  have xs: "\<forall>x\<in>set [addr, port, action, activetime]. in_int x" using assms(4-7) by simp
  have "cmd_line drv env stk sid (command_line ''SET'' b ''GA'' [addr, port, action, activetime]) w =
    dispatch drv env stk sid ''SET'' b ''GA'' (tl (nums [addr, port, action, activetime])) w"
    by (rule cmd_line_scans [OF set_words(1,3) assms(1,2) xs]) simp_all
  also have "\<dots> = map_option (\<lambda>(rc, w1). reply_now rc w1)
      (set_GA sid b (tl (nums [addr, port, action, activetime])) True w)"
    using assms(3)
    by (simp add: dispatch_def handleSET_def handle_setcheck_def setcheck_device_def strncasecmp0_def
        case_prod_unfold map_conv_bind_option comp_def to_upper_def del: nums_simps)
  finally show ?thesis unfolding set_GA_numbers [OF assms(4-8)] .
qed

lemma sample_gl_group: "bus_has_devicegroup 1 DG_GL sample_world" "bus_has_devicegroup 1 DG_GA sample_world"
   "num_buses sample_world = 1"
  by (simp_all add: sample_world_def sample_bus_def)

theorem set_gl_line_witness:
  "cmd_line (\<lambda>_ w. Some (None, w)) (\<lambda>_. Some) \<lparr>u_addr = 0, u_lockid = 0, u_value = 0\<rparr> 7 (command_line ''SET'' 1 ''GL'' [3, 1, 40, 100, 1, 0]) sample_world =
    map_option (\<lambda>(rc, w1). reply_now rc w1) (enqueueGL 1 3 1 40 100 1 sample_world)"
  using set_gl_line [of 1 sample_world 3 1 40 100 "[True, False]" "\<lambda>_ w. Some (None, w)" "\<lambda>_. Some"
      "\<lparr>u_addr = 0, u_lockid = 0, u_value = 0\<rparr>" 7] sample_gl_group
    sample_gl_init
  by (simp add: cacheGetLockGL_def gl_holder_def in_int_def)


theorem set_ga_line_witness:
  "cmd_line (\<lambda>_ w. Some (None, w)) (\<lambda>_. Some) \<lparr>u_addr = 0, u_lockid = 0, u_value = 0\<rparr> 7
      (command_line ''SET'' 1 ''GA'' [1, 0, 1, 200]) sample_world =
    map_option (\<lambda>(rc, w1). reply_now rc w1) (enqueueGA 1 1 0 1 200 sample_world)"
  using set_ga_line [of 1 sample_world 1 0 1 200 "\<lambda>_ w. Some (None, w)" "\<lambda>_. Some"
      "\<lparr>u_addr = 0, u_lockid = 0, u_value = 0\<rparr>" 7] sample_gl_group sample_ga_ref
  by (simp add: getlockGA_def in_int_def)

end
