(* ===== verification/Socket_IO.thy ===== *)
theory Socket_IO
  imports C_Strings
begin

text \<open>
  Reading lines from and writing buffers to a socket, \<open>io.c\<close>. What \<open>read\<close> and \<open>write\<close>
  return is an argument: a list with the result of each call in turn. For \<open>read\<close> the end
  of the list is the end of the stream.
\<close>

datatype read_result = Byte char | Read_EINTR | Read_Error

definition isvalidchar :: "char \<Rightarrow> bool" where
  "isvalidchar c \<longleftrightarrow> ((32 :: nat) \<le> of_char c \<and> of_char c \<le> (127 :: nat)) \<or> of_char c = (9 :: nat)
     \<or> c = CHR ''\<newline>''"

text \<open>The \<open>while\<close> loop: it ends at a newline, at the end of the stream and at any error.\<close>

fun readline_rest :: "nat \<Rightarrow> string \<Rightarrow> read_result list \<Rightarrow> string \<times> read_result list" where
  "readline_rest len line (Byte c # rs) =
     (let line' = (if isvalidchar c \<and> length line < len - 1 then line @ [c] else line)
      in if c = CHR ''\<newline>'' then (line', rs) else readline_rest len line' rs)"
| "readline_rest len line (_ # rs) = (line, rs)"
| "readline_rest len line [] = (line, [])"

fun socket_readline :: "nat \<Rightarrow> read_result list \<Rightarrow> int \<times> string \<times> read_result list" where
  "socket_readline len [] = (0, [], [])"
| "socket_readline len (Read_EINTR # rs) = socket_readline len rs"
| "socket_readline len (Read_Error # rs) = (-1, [], rs)"
| "socket_readline len (Byte c # rs) =
     (let (line, rest) = readline_rest len (if isvalidchar c then [c] else []) rs
      in (int (length line), line, rest))"

text \<open>All lines up to the end of the stream, as the callers' loops read them: they stop when
  the result is 0 or \<open>-1\<close>.\<close>

lemma readline_rest_length: "length (snd (readline_rest len line rs)) \<le> length rs"
  by (induction len line rs rule: readline_rest.induct) (auto simp: Let_def)

lemma socket_readline_length:
  "socket_readline len rs = (n, line, rest) \<Longrightarrow> rs \<noteq> [] \<Longrightarrow> length rest < length rs"
proof (induction len rs rule: socket_readline.induct)
  case (2 len rs)
  then show ?case by (cases "rs = []") auto
next
  case (4 len c rs)
  then show ?case
    using readline_rest_length [of len "if isvalidchar c then [c] else []" rs]
    by (auto simp: split_beta)
qed auto

function read_lines :: "nat \<Rightarrow> read_result list \<Rightarrow> string list" where
  "read_lines len rs =
     (case socket_readline len rs of
        (n, line, rest) \<Rightarrow> if n \<le> 0 \<or> rs = [] then [] else line # read_lines len rest)"
  by pat_completeness auto
termination
proof (relation "measure (\<lambda>(len, rs). length rs)", goal_cases)
  case (2 len rs n p line rest)
  then show ?case using socket_readline_length [of len rs n line rest] by auto
qed simp

declare read_lines.simps [simp del]

datatype write_result = Written nat | Write_EINTR | Write_Error

text \<open>\<open>writen\<close>: the result, the bytes the kernel took, and the calls that are left. \<open>write\<close>
  takes at most what it is offered; running out of results is a call that blocks.\<close>

fun writen :: "string \<Rightarrow> write_result list \<Rightarrow> (bool \<times> string) option" where
  "writen [] os = Some (True, [])"
| "writen (c # cs) [] = None"
| "writen (c # cs) (Write_EINTR # os) = writen (c # cs) os"
| "writen (c # cs) (Write_Error # os) = Some (False, [])"
| "writen (c # cs) (Written k # os) =
     (if k = 0 then Some (False, [])
      else map_option (\<lambda>(ok, bs). (ok, take k (c # cs) @ bs)) (writen (drop k (c # cs)) os))"

subsection \<open>Framing\<close>

lemma valid_newline [simp]: "isvalidchar (CHR ''\<newline>'')"
  by (simp add: isvalidchar_def)

text \<open>A line that fits is stored without the bytes that are not valid.\<close>

lemma readline_rest_line:
  assumes "CHR ''\<newline>'' \<notin> set l" and "length line + length (filter isvalidchar l) + 1 < len"
  shows "readline_rest len line (map Byte (l @ ''\<newline>'') @ rs) =
    (line @ filter isvalidchar l @ ''\<newline>'', rs)"
  using assms
proof (induction l arbitrary: line)
  case (Cons c l)
  show ?case using Cons.prems Cons.IH [of "line @ [c]"] Cons.IH [of line] by auto
qed auto

lemma socket_readline_line:
  assumes "l \<noteq> []" and "CHR ''\<newline>'' \<notin> set l" and "length (filter isvalidchar l) + 1 < len"
  shows "socket_readline len (map Byte (l @ ''\<newline>'') @ rs) =
    (int (length (filter isvalidchar l)) + 1, filter isvalidchar l @ ''\<newline>'', rs)"
proof -
  obtain c cs where l: "l = c # cs" using assms(1) by (cases l) auto
  have "readline_rest len (if isvalidchar c then [c] else []) (map Byte (cs @ ''\<newline>'') @ rs) =
    ((if isvalidchar c then [c] else []) @ filter isvalidchar cs @ ''\<newline>'', rs)"
    using assms l by (intro readline_rest_line) auto
  then show ?thesis by (simp add: l)
qed

text \<open>Lines of valid characters that fit the buffer are read back from the socket one by one,
  as they were sent.\<close>

theorem read_lines_concat:
  assumes "\<forall>l \<in> set ls. l \<noteq> [] \<and> (\<forall>c \<in> set l. isvalidchar c \<and> c \<noteq> CHR ''\<newline>'') \<and> length l + 1 < len"
  shows "read_lines len (map Byte (concat (map (\<lambda>l. l @ ''\<newline>'') ls))) = map (\<lambda>l. l @ ''\<newline>'') ls"
  using assms
proof (induction ls)
  case Nil
  show ?case by (subst read_lines.simps) simp
next
  case (Cons l ls)
  have f: "filter isvalidchar l = l" using Cons.prems by (simp add: filter_id_conv)
  have "CHR ''\<newline>'' \<notin> set l" using Cons.prems by auto
  then have "socket_readline len (map Byte (l @ ''\<newline>'') @ map Byte (concat (map (\<lambda>l. l @ ''\<newline>'') ls))) =
      (int (length l) + 1, l @ ''\<newline>'', map Byte (concat (map (\<lambda>l. l @ ''\<newline>'') ls)))"
    using socket_readline_line [of l len] Cons.prems by (simp add: f)
  with Cons show ?case by (subst read_lines.simps) simp
qed

theorem read_lines_concat_witness:
  "read_lines 1001 (map Byte (''GET 1 POWER'' @ ''\<newline>'' @ ''GO'' @ ''\<newline>'')) =
     [''GET 1 POWER'' @ ''\<newline>'', ''GO'' @ ''\<newline>'']"
  using read_lines_concat [of "[''GET 1 POWER'', ''GO'']" 1001] by (simp add: isvalidchar_def)

text \<open>Whatever write returns, interrupted calls included, the bytes the kernel took are a
  prefix of the buffer in order, and all of it when writen reports success.\<close>

theorem writen_bytes:
  "writen s os = Some (ok, bs) \<Longrightarrow> \<exists>r. s = bs @ r \<and> (ok \<longrightarrow> r = [])"
proof (induction s os arbitrary: bs rule: writen.induct)
  case (5 c cs k os)
  show ?case
  proof (cases "k = 0")
    case False
    then obtain bs' where b: "writen (drop k (c # cs)) os = Some (ok, bs')" "bs = take k (c # cs) @ bs'"
      using "5.prems" by auto
    then obtain r where r: "drop k (c # cs) = bs' @ r" "ok \<longrightarrow> r = []" using "5.IH" False by blast
    have "c # cs = bs @ r" using b(2) r(1) by (metis append.assoc append_take_drop_id)
    with r(2) show ?thesis by blast
  qed (use "5.prems" in simp)
qed auto

theorem writen_bytes_witness:
  "writen ''abc'' [Written 1, Write_EINTR, Written 2] = Some (True, ''abc'') \<and> (\<exists>r. ''abc'' = ''abc'' @ r)"
  using writen_bytes [of "''abc''" "[Written 1, Write_EINTR, Written 2]" True "''abc''"] by simp

end
