(* ===== verification/Dcc_Address.thy ===== *)
theory Dcc_Address
  imports Prelude
begin

unbundle bit_operations_syntax

text \<open>
  The accessory address mappings of \<open>dcc-address.c\<close> between a Lenz address (0..2044) and a
  NMRA decoder address (0..511) with a sub-address (0..3), and between a Lenz address with a
  port and a NMRA address with a port (0..7). \<open>unsigned int\<close> is \<open>32 word\<close> and
  \<open>unsigned char\<close> is \<open>8 word\<close>, so the sums wrap as the code's do. The output parameters
  are the components of the result.
\<close>

definition lenz_to_nmra :: "32 word \<Rightarrow> 32 word \<times> 8 word" where
  "lenz_to_nmra lenz =
     (if lenz > 0 then (drop_bit 2 (lenz + 3), ucast ((lenz - 1) mod 4)) else (0, 0))"

definition nmra_to_lenz :: "32 word \<Rightarrow> 8 word \<Rightarrow> 32 word" where
  "nmra_to_lenz nmra sub =
     (if nmra = 0 then 0 else push_bit 2 (nmra - 1) + (ucast sub + 1))"

definition lenz2_to_nmra2 :: "32 word \<Rightarrow> 8 word \<Rightarrow> 32 word \<times> 8 word" where
  "lenz2_to_nmra2 lenz port =
     (if lenz > 0
      then (drop_bit 2 (lenz + 3), ucast (push_bit 1 ((lenz - 1) mod 4)) OR (port AND 1))
      else (0, 0))"

definition nmra2_to_lenz2 :: "32 word \<Rightarrow> 8 word \<Rightarrow> 32 word \<times> 8 word" where
  "nmra2_to_lenz2 nmra_a nmra_p =
     (if nmra_a = 0 then (0, 0)
      else (push_bit 2 (nmra_a - 1) + (ucast (drop_bit 1 nmra_p) + 1), nmra_p AND 1))"

subsection \<open>The mappings on natural numbers\<close>

lemma unat_lenz_to_nmra:
  assumes "0 < lenz" and "unat lenz < 2 ^ 32 - 3"
  shows "unat (fst (lenz_to_nmra lenz)) = (unat lenz + 3) div 4"
    and "unat (snd (lenz_to_nmra lenz)) = (unat lenz - 1) mod 4"
proof -
  have "unat (lenz + 3) = unat lenz + 3"
    using assms(2) by (subst unat_add_lem [THEN iffD1]) simp_all
  then show "unat (fst (lenz_to_nmra lenz)) = (unat lenz + 3) div 4"
    using assms(1) by (simp add: lenz_to_nmra_def drop_bit_eq_div unat_div)
  have "1 \<le> lenz" using assms(1) by (simp add: word_less_nat_alt word_le_nat_alt)
  then have "unat (lenz - 1) = unat lenz - 1" by (simp add: unat_sub)
  then have "unat ((lenz - 1) mod 4) = (unat lenz - 1) mod 4" by (simp add: unat_mod)
  moreover have "(unat lenz - 1) mod 4 < 256" by (rule less_trans [OF mod_less_divisor]) simp_all
  ultimately show "unat (snd (lenz_to_nmra lenz)) = (unat lenz - 1) mod 4"
    using assms(1) by (simp add: lenz_to_nmra_def unsigned_ucast_eq take_bit_eq_mod)
qed

lemma unat_nmra_to_lenz:
  assumes "0 < nmra" and "unat nmra < 2 ^ 29"
  shows "unat (nmra_to_lenz nmra sub) = 4 * (unat nmra - 1) + unat sub + 1"
proof -
  have "1 \<le> nmra" using assms(1) by (simp add: word_less_nat_alt word_le_nat_alt)
  then have m: "unat (nmra - 1) = unat nmra - 1" by (simp add: unat_sub)
  have s: "unat sub < 256" using unsigned_less [of sub, where ?'a = nat] by simp
  have p: "unat (push_bit 2 (nmra - 1)) = 4 * (unat nmra - 1)"
  proof -
    have "unat (push_bit 2 (nmra - 1)) = take_bit 32 (push_bit 2 (unat (nmra - 1)))"
      by (simp only: unsigned_push_bit_eq) simp
    also have "\<dots> = take_bit 32 (4 * (unat nmra - 1))"
      by (simp only: m push_bit_eq_mult) (simp add: mult.commute)
    also have "\<dots> = 4 * (unat nmra - 1)"
      using assms(2) by (intro take_bit_nat_eq_self) simp
    finally show ?thesis .
  qed
  have c: "unat (ucast sub + (1 :: 32 word)) = unat sub + 1"
    using s by (subst unat_add_lem [THEN iffD1]) (simp_all add: unsigned_ucast_eq take_bit_eq_mod)
  have "unat (push_bit 2 (nmra - 1) + (ucast sub + 1)) = 4 * (unat nmra - 1) + (unat sub + 1)"
    using assms(2) s p c by (subst unat_add_lem [THEN iffD1]) simp_all
  then show ?thesis using assms(1) by (simp add: nmra_to_lenz_def)
qed

subsection \<open>Round trips\<close>

lemma word_eq_unatI: "unat a = unat b \<Longrightarrow> a = b"
  by (rule word_unat_eq_iff [THEN iffD2])

text \<open>Every Lenz accessory address up to 2044 maps to an NMRA decoder address of at most 511
  and a port of at most 3 and back to itself.\<close>

lemma lenz_nmra_roundtrip:
  assumes "unat lenz \<le> 2044"
  shows "(case lenz_to_nmra lenz of (nmra, sub) \<Rightarrow> nmra_to_lenz nmra sub = lenz)
    \<and> unat (fst (lenz_to_nmra lenz)) \<le> 511 \<and> unat (snd (lenz_to_nmra lenz)) \<le> 3"
proof (cases "lenz = 0")
  case True
  then show ?thesis by (simp add: lenz_to_nmra_def nmra_to_lenz_def)
next
  case False
  then have pos: "0 < lenz" by (simp add: word_gt_0)
  then have upos: "0 < unat lenz" by (simp add: word_less_nat_alt)
  have small: "unat lenz < 2 ^ 32 - 3" using assms by simp
  note v = unat_lenz_to_nmra [OF pos]
  obtain nmra sub where ns: "lenz_to_nmra lenz = (nmra, sub)" by (cases "lenz_to_nmra lenz")
  have n: "unat nmra = (unat lenz + 3) div 4" and s: "unat sub = (unat lenz - 1) mod 4"
    using v(1) [OF small] v(2) [OF small] unfolding ns by simp_all
  have b: "0 < unat nmra" "unat nmra \<le> 511" unfolding n using upos assms by linarith+
  then have "0 < nmra" by (simp add: word_less_nat_alt)
  then have "unat (nmra_to_lenz nmra sub) = 4 * (unat nmra - 1) + unat sub + 1"
    using b by (intro unat_nmra_to_lenz) simp_all
  also have "\<dots> = unat lenz"
  proof -
    obtain k where k: "unat lenz = Suc k" using upos by (cases "unat lenz") simp_all
    have "(Suc k + 3) div 4 = Suc (k div 4)" by simp
    then show ?thesis unfolding n s k by simp
  qed
  finally have "nmra_to_lenz nmra sub = lenz" by (rule word_eq_unatI)
  moreover have "unat sub \<le> 3" unfolding s by linarith
  ultimately show ?thesis
    unfolding ns prod.case fst_conv snd_conv using b(2) by (intro conjI)
qed

text \<open>The other direction, on every pair in range: no two decoder outputs share an address.\<close>

text \<open>Every pair of an NMRA decoder address from 1 to 511 and a port maps to a Lenz address
  between 1 and 2044 and back to itself, so no two outputs share an address.\<close>

lemma nmra_lenz_roundtrip:
  assumes "1 \<le> unat nmra" and "unat nmra \<le> 511" and "unat sub \<le> 3"
  shows "lenz_to_nmra (nmra_to_lenz nmra sub) = (nmra, sub)
    \<and> 1 \<le> unat (nmra_to_lenz nmra sub) \<and> unat (nmra_to_lenz nmra sub) \<le> 2044"
proof -
  define lenz where "lenz = nmra_to_lenz nmra sub"
  have pos: "0 < nmra" using assms(1) by (simp add: word_less_nat_alt)
  have l: "unat lenz = 4 * (unat nmra - 1) + unat sub + 1"
    unfolding lenz_def using pos assms(2) by (intro unat_nmra_to_lenz) simp_all
  then have lpos: "0 < lenz" and lb: "unat lenz \<le> 2044"
    using assms by (simp_all add: word_less_nat_alt)
  have "unat (fst (lenz_to_nmra lenz)) = unat nmra"
    using unat_lenz_to_nmra(1) [OF lpos] lb l assms by simp
  moreover have "unat (snd (lenz_to_nmra lenz)) = unat sub"
    using unat_lenz_to_nmra(2) [OF lpos] lb l assms by simp
  ultimately show ?thesis
    using l assms by (auto intro!: prod_eqI word_eq_unatI simp flip: lenz_def)
qed

text \<open>The mapping with ports carries the port in the lowest bit of the NMRA port.\<close>

lemma ucast_push_bit:
  "(ucast (push_bit n (x :: 32 word)) :: 8 word) = push_bit n (ucast x)"
  by (rule bit_word_eqI) (auto simp: bit_simps)

lemma lenz2_as_lenz:
  "lenz2_to_nmra2 lenz port = (case lenz_to_nmra lenz of (nmra, sub) \<Rightarrow>
     (nmra, if lenz > 0 then push_bit 1 sub OR (port AND 1) else 0))"
  unfolding lenz2_to_nmra2_def lenz_to_nmra_def ucast_push_bit
  by (cases "lenz > 0") (simp_all only: if_True if_False prod.case)

text \<open>C40: Up to 2044, the Lenz addresses and the pairs of an NMRA decoder address from 1 to 511
  and a port are in bijection, so no two outputs share an address.\<close>

theorem accessory_addresses_bijective:
  assumes "unat lenz \<le> 2044" and "1 \<le> unat nmra" and "unat nmra \<le> 511" and "unat sub \<le> 3"
  shows "(case lenz_to_nmra lenz of (n, s) \<Rightarrow> nmra_to_lenz n s) = lenz \<and>
    lenz_to_nmra (nmra_to_lenz nmra sub) = (nmra, sub) \<and> unat (nmra_to_lenz nmra sub) \<in> {1..2044}"
  using lenz_nmra_roundtrip [OF assms(1)] nmra_lenz_roundtrip [OF assms(2-4)]
  by (cases "lenz_to_nmra lenz") auto

theorem accessory_addresses_bijective_witness:
  "(case lenz_to_nmra 2044 of (n, s) \<Rightarrow> nmra_to_lenz n s) = 2044 \<and> lenz_to_nmra (nmra_to_lenz 17 2) = (17, 2)"
  using accessory_addresses_bijective [of 2044 17 2] by simp

end
