(* ===== verification/Li100_Protocol.thy ===== *)
theory Li100_Protocol
  imports Li100
begin

text \<open>
  What the LI100 driver and the interface make of each other's messages: an answer ends the wait
  for it, everything the driver writes is a sequence of complete messages with the right length
  and check byte (\<open>li_parse\<close> is the interface's side), and what a command station reports of an
  accessory or a locomotive after a command is what the command said.
\<close>

unbundle bit_operations_syntax

subsection \<open>Waiting for an answer\<close>

text \<open>A message as it comes from the interface, with its check byte.\<close>

definition li_msg :: "8 word list \<Rightarrow> bool" where
  "li_msg m \<longleftrightarrow> m \<noteq> [] \<and> length m = unat (hd m AND 0x0f) + 2 \<and> xor_all m = 0"

lemma nibble_less: "unat (c AND 0x0f :: 8 word) < 16"
  by (rule all_bytesI [where P = "\<lambda>c. unat (c AND 0x0f) < 16"]) code_simp

lemma li_msg_length: "li_msg m \<Longrightarrow> 2 \<le> length m \<and> length m \<le> 17"
  using nibble_less [of "hd m"] by (auto simp: li_msg_def)

lemma read_bytes_all:
  "li_rx l = map Some cs @ r \<Longrightarrow> k + length cs \<le> length buf \<Longrightarrow>
   read_bytes [k..<k + length cs] buf l = (take k buf @ cs @ drop (k + length cs) buf, l\<lparr>li_rx := r\<rparr>)"
proof (induction cs arbitrary: k buf l)
  case (Cons c cs)
  have u: "[k..<k + length (c # cs)] = k # [Suc k..<Suc k + length cs]"
    by (subst upt_conv_Cons) simp_all
  have "readByte k buf l = (0, buf[k := c], l\<lparr>li_rx := map Some cs @ r\<rparr>)" using Cons.prems by (simp add: readByte_def)
  then show ?case
    unfolding u using Cons.prems Cons.IH [of "l\<lparr>li_rx := map Some cs @ r\<rparr>" "Suc k" "buf[k := c]"]
    by (simp add: take_Suc_conv_app_nth take_update_cancel)
qed (use list_update_id in simp)

lemma li_fetch_msg:
  assumes "li_msg m" and "li_rx l = map Some (header @ m) @ r" and "length header = (if usb l then 2 else 0)"
    and "length buf = 20"
  shows "li_fetch buf l = (0, length m, m @ drop (length m) buf, l\<lparr>li_rx := r\<rparr>)"
proof -
  obtain c cs where m: "m = c # cs" using assms(1) by (cases m) (auto simp: li_msg_def)
  obtain k where n: "unat (c AND 0x0f) = k" "length cs = Suc k" "xor_all (c # cs) = 0"
    using assms(1) by (auto simp: li_msg_def m)
  have len: "Suc (length cs) \<le> 17" using li_msg_length [OF assms(1)] by (simp add: m)
  have rest: "read_bytes [1..<Suc (length cs)] (buf[0 := c]) (l\<lparr>li_rx := map Some cs @ r\<rparr>) =
      (c # cs @ drop (Suc (length cs)) buf, l\<lparr>li_rx := r\<rparr>)"
    using read_bytes_all [of "l\<lparr>li_rx := map Some cs @ r\<rparr>" cs r 1 "buf[0 := c]"] len assms(4)
    by (cases buf) simp_all
  show ?thesis
  proof (cases "usb l")
    case True
    then obtain h0 h1 where h: "header = [h0, h1]" using assms(3) by (auto simp: length_Suc_conv numeral_2_eq_2)
    show ?thesis
      using assms(2,4) True rest n by (simp add: li_fetch_def readByte_def h m Let_def del: upt_Suc)
  next
    case False
    then show ?thesis using assms(2,3,4) rest n by (simp add: li_fetch_def readByte_def m Let_def del: upt_Suc)
  qed
qed

lemma bind_drop: "x \<bind> (\<lambda>(_, _, l, w). Some (s, l, w)) = map_option (\<lambda>(_, _, l, w). (s, l, w)) x"
  by (cases x) auto

lemma readAnswer_msg:
  assumes "li_msg m" and "li_rx l = map Some (header @ m) @ r" and "length header = (if usb l then 2 else 0)"
    and "pop_junk l = (v, l1)" and "length (v_buf v) = 20"
  shows "readAnswer b l w = map_option (\<lambda>(_, _, l, w). (0, l, w))
    (li_process b (length m) (m @ drop (length m) (v_buf v))
      (v\<lparr>v_gl := (v_gl v)\<lparr>l_speed := 0, l_funcs := 0\<rparr>, v_buf := m @ drop (length m) (v_buf v)\<rparr>) (l1\<lparr>li_rx := r\<rparr>) w)"
proof -
  have l1: "li_rx l1 = li_rx l" "usb l1 = usb l" using assms(4) by (auto simp: pop_junk_def)
  have f: "li_fetch (v_buf v) l1 = (0, length m, m @ drop (length m) (v_buf v), l1\<lparr>li_rx := r\<rparr>)"
    using li_fetch_msg [of m l1 header r "v_buf v"] assms l1 by simp
  show ?thesis
    unfolding readAnswer_def
    by (subst li_wait.simps) (simp add: assms(4) f bind_drop)
qed

text \<open>C13: A complete answer with a valid check byte is taken from the line whole and ends the
  wait: readAnswer does what the message asks for once and returns 0.\<close>

theorem li100_answer_ends_wait:
  assumes "li_msg m" and "li_rx l = map Some (header @ m) @ r" and "length header = (if usb l then 2 else 0)"
    and "pop_junk l = (v, l1)" and "length (v_buf v) = 20"
  shows "readAnswer b l w = map_option (\<lambda>(_, _, l, w). (0, l, w))
    (li_process b (length m) (m @ drop (length m) (v_buf v))
      (v\<lparr>v_gl := (v_gl v)\<lparr>l_speed := 0, l_funcs := 0\<rparr>, v_buf := m @ drop (length m) (v_buf v)\<rparr>) (l1\<lparr>li_rx := r\<rparr>) w)"
  by (rule readAnswer_msg [OF assms])

text \<open>Data for the witnesses: the interface has answered once that a command was passed on.\<close>

definition li_sample_vars :: li_vars where
  "li_sample_vars = \<lparr>v_buf = replicate 20 0, v_gl = zero_gl, v_cur = zero_gl, v_ga = zero_ga\<rparr>"

definition li_sample :: li100 where
  "li_sample = \<lparr>usb = False, li_number_ga = 256, li_number_gl = 99, li_number_fb = 0, last_bit = 0, last_type = None,
     last_typeaddr = 0, last_value = -1, get_addr = 0, li_tga = replicate 50 zero_ga, emergency_on = 0,
     version_interface = 0, code_interface = 0, version_zentrale = 0x0300, extern_engine = replicate 100 (-1),
     extern_engine_ctr = 0, pgm_mode = 0, working = 1, li_tx = [], li_rx = map Some [0x01, 0x04, 0x05], li_polls = [],
     li_junk = (\<lambda>_. li_sample_vars)\<rparr>"

lemma li_sample_answer:
  "readAnswer b (li_sample\<lparr>li_tx := tx\<rparr>) w = Some (0, li_sample\<lparr>li_tx := tx, li_rx := []\<rparr>, w)"
proof -
  have "li_msg [0x01, 0x04, 0x05]" by (simp add: li_msg_def xor_all_def)
  from readAnswer_msg [OF this, of "li_sample\<lparr>li_tx := tx\<rparr>" "[]" "[]" li_sample_vars "li_sample\<lparr>li_tx := tx\<rparr>" b w]
  show ?thesis
    by (simp add: li_sample_def pop_junk_def li_sample_vars_def li_process_def li_loco_def Let_def)
qed

theorem li100_answer_ends_wait_witness:
  "readAnswer 1 li_sample sample_world = Some (0, li_sample\<lparr>li_rx := []\<rparr>, sample_world)"
proof -
  have "li_msg [0x01, 0x04, 0x05]" by (simp add: li_msg_def xor_all_def)
  from li100_answer_ends_wait [OF this, of li_sample "[]" "[]" li_sample_vars li_sample 1 sample_world]
  show ?thesis
    by (simp add: li_sample_def pop_junk_def li_sample_vars_def li_process_def li_loco_def Let_def)
qed

lemma li_power_line: "li_power b b1 l w = Some (l', w') \<Longrightarrow> li_rx l' = li_rx l \<and> li_tx l' = li_tx l \<and> usb l' = usb l"
  by (auto simp: li_power_def bind_eq_Some_conv split: if_splits option.splits)

lemma extern_line [simp]:
  "li_rx (add_extern_engine a l) = li_rx l" "li_tx (add_extern_engine a l) = li_tx l" "usb (add_extern_engine a l) = usb l"
  "li_rx (remove_extern_engine a l) = li_rx l" "li_tx (remove_extern_engine a l) = li_tx l" "usb (remove_extern_engine a l) = usb l"
  by (simp_all add: add_extern_engine_def remove_extern_engine_def Let_def split: option.splits)

lemma li_version_line [simp]:
  "li_rx (li_version buf l) = li_rx l" "li_tx (li_version buf l) = li_tx l" "usb (li_version buf l) = usb l"
  by (simp_all add: li_version_def Let_def)

lemma li_loco_update_line: "li_loco_update b v w = Some (v', w') \<Longrightarrow> v_buf v' = v_buf v"
  by (auto simp: li_loco_update_def bind_eq_Some_conv Let_def split: if_splits)

lemma li_programmed_line: "li_programmed b buf l w = Some (l', w') \<Longrightarrow> li_rx l' = li_rx l \<and> li_tx l' = li_tx l \<and> usb l' = usb l"
  by (auto simp: li_programmed_def bind_eq_Some_conv split: option.splits)

lemma li_status_report_line:
  "li_status_report b buf v l w = Some (v', l', w') \<Longrightarrow> li_rx l' = li_rx l \<and> li_tx l' = li_tx l \<and> usb l' = usb l \<and> v_buf v' = v_buf v"
  by (simp add: li_status_report_def bind_eq_Some_conv Let_def split: if_splits option.splits) auto

lemma li_loco_line1:
  "ensures (\<lambda>(v', l', _). li_rx l' = li_rx l \<and> li_tx l' = li_tx l \<and> usb l' = usb l \<and> v_buf v' = v_buf v) (\<lambda>x. x) (li_loco b buf v l w)"
  unfolding li_loco_def Let_def
  by (intro keeps_if keeps_map; simp only: keeps_def)
    (auto dest: li_loco_update_line li_programmed_line li_status_report_line)

lemma li_loco_line:
  "li_loco b buf v l w = Some (v', l', w') \<Longrightarrow> li_rx l' = li_rx l \<and> li_tx l' = li_tx l \<and> usb l' = usb l \<and> v_buf v' = v_buf v"
  using keepsD [OF li_loco_line1, of b buf v l w "(v', l', w')"] by simp

lemma li_process_line:
  assumes "li_process b n buf v l w = Some (ctr, v', l', w')"
  shows "li_rx l' = li_rx l" and "li_tx l' = li_tx l" and "usb l' = usb l" and "v_buf v' = v_buf v"
    and "ctr = (if buf ! 0 AND 0xf0 = 0x40 then int (unat (buf ! 0 AND 0x0f)) else int n)"
proof -
  have p: "ensures (\<lambda>(c, v', l', _). li_rx l' = li_rx l \<and> li_tx l' = li_tx l \<and> usb l' = usb l \<and> v_buf v' = v_buf v \<and>
      c = (if buf ! 0 AND 0xf0 = 0x40 then int (unat (buf ! 0 AND 0x0f)) else int n)) (\<lambda>x. x) (li_process b n buf v l w)"
    unfolding keeps_def li_process_def Let_def
    by (auto simp: bind_eq_Some_conv dest!: li_power_line li_loco_line split: if_splits)
  from keepsD [OF p assms] show "li_rx l' = li_rx l" "li_tx l' = li_tx l" "usb l' = usb l" "v_buf v' = v_buf v"
    "ctr = (if buf ! 0 AND 0xf0 = 0x40 then int (unat (buf ! 0 AND 0x0f)) else int n)" by simp_all
qed

text \<open>When nothing more comes, the stale buffer is processed over and over.\<close>

lemma read_bytes_stuck: "li_rx l = [] \<Longrightarrow> read_bytes is buf l = (buf, l)"
  by (induction "is") (simp_all add: readByte_def)

lemma li_fetch_stuck:
  "li_rx l = [] \<Longrightarrow> li_fetch buf l = (-1, unat (buf ! 0 AND 0x0f) + 2, buf, l)"
  by (simp add: li_fetch_def readByte_def read_bytes_stuck Let_def del: upt_Suc)

lemma nibble_40: "(c :: 8 word) AND 0xf0 = 0x40 \<Longrightarrow> c \<noteq> 0x40 \<Longrightarrow> 0 < unat (c AND 0x0f)"
  by (rule all_bytesI [where P = "\<lambda>c. c AND 0xf0 = 0x40 \<longrightarrow> c \<noteq> 0x40 \<longrightarrow> 0 < unat (c AND 0x0f)", rule_format]) code_simp

lemma li_wait_stuck:
  "li_wait ctr b v l w = Some r \<Longrightarrow> \<not> (li_rx l = [] \<and> 1 \<le> ctr \<and> v_buf v ! 0 \<noteq> 0x40)"
proof (erule li_wait.raw_induct [where P = "\<lambda>ctr b v l w r. \<not> (li_rx l = [] \<and> 1 \<le> ctr \<and> v_buf v ! 0 \<noteq> 0x40)", rotated])
  fix li_wait ctr b v l w r
  assume IH: "\<And>ctr b v l w r. li_wait ctr b v l w = Some r \<Longrightarrow> \<not> (li_rx l = [] \<and> 1 \<le> ctr \<and> v_buf v ! 0 \<noteq> 0x40)"
    and step: "(if ctr - 1 < (0 :: int) then Some (-1, l, w)
      else do {
        let (status, n, buf, l) = li_fetch (v_buf v) l;
        (ctr, v, l, w) \<leftarrow> li_process b n buf (v\<lparr>v_buf := buf\<rparr>) l w;
        if status = -1 then li_wait ctr b v l w else Some (status, l, w) }) = Some r"
  show "\<not> (li_rx l = [] \<and> 1 \<le> ctr \<and> v_buf v ! 0 \<noteq> 0x40)"
  proof
    assume a: "li_rx l = [] \<and> 1 \<le> ctr \<and> v_buf v ! 0 \<noteq> 0x40"
    define n where "n = unat (v_buf v ! 0 AND 0x0f) + 2"
    obtain c v2 l2 w2 where p: "li_process b n (v_buf v) v l w = Some (c, v2, l2, w2)" and r: "li_wait c b v2 l2 w2 = Some r"
    proof -
      have c: "\<not> ctr - 1 < 0" using a by linarith
      have v: "v\<lparr>v_buf := v_buf v\<rparr> = v" by simp
      have "li_fetch (v_buf v) l = (-1, n, v_buf v, l)" using a by (simp add: li_fetch_stuck n_def)
      with step that show thesis by (simp only: c if_False Let_def prod.case v) (auto simp: bind_eq_Some_conv)
    qed
    note q = li_process_line [OF p]
    have "1 \<le> c"
    proof (cases "v_buf v ! 0 AND 0xf0 = 0x40")
      case True
      then have "0 < unat (v_buf v ! 0 AND 0x0f)" using nibble_40 a by blast
      then show ?thesis using True unfolding q(5) by (simp only: refl if_True)
    next
      case False
      then show ?thesis unfolding q(5) n_def by (simp only: if_False)
    qed
    with IH [OF r] q(1,4) a show False by simp
  qed
qed

text \<open>C35: When nothing more comes from the interface, readAnswer does not return, unless the
  first byte the stack holds in its buffer is 0x40: the limit of 50 attempts has no effect.\<close>

theorem li100_no_answer_no_return:
  assumes "li_rx l = []" and "v_buf (li_junk l 0) ! 0 \<noteq> 0x40"
  shows "readAnswer b l w = None"
proof (rule ccontr)
  assume "readAnswer b l w \<noteq> None"
  then obtain r where "readAnswer b l w = Some r" by auto
  then show False
    using li_wait_stuck [of 50 b "(li_junk l 0)\<lparr>v_gl := (v_gl (li_junk l 0))\<lparr>l_speed := 0, l_funcs := 0\<rparr>\<rparr>"
        "l\<lparr>li_junk := \<lambda>n. li_junk l (Suc n)\<rparr>" w r] assms by (simp add: readAnswer_def pop_junk_def)
qed

theorem li100_no_answer_no_return_witness: "readAnswer 1 (li_sample\<lparr>li_rx := []\<rparr>) sample_world = None"
  by (rule li100_no_answer_no_return) (simp_all add: li_sample_def li_sample_vars_def)

subsection \<open>Accessories are reported back\<close>

text \<open>What a command station answers to \<open>0x52 a d\<close>: the turnout is one of four at address \<open>a\<close>,
  and \<open>N\<close> tells which two of them the answer is about.\<close>

definition station_turnout :: "8 word \<Rightarrow> 8 word" where
  "station_turnout d =
     0x20 OR (if d AND 4 \<noteq> 0 then 0x10 else 0) OR
     (if d AND 2 \<noteq> 0 then (if d AND 1 \<noteq> 0 then 0x08 else 0x04) else (if d AND 1 \<noteq> 0 then 0x02 else 0x01))"

lemma ga_bytes_parts:
  assumes "addr = int (4 * q + r) + 1" and "q < 256" and "r < 4"
  shows "ga_bytes addr port on = [0x52, word_of_nat q,
    0x80 OR word_of_nat (2 * r) OR (if on then 0x08 else 0) OR (if 0 < port then 0x01 else 0)]"
proof -
  have t: "addr - 1 = int (4 * q + r)" using assms(1) by simp
  have "drop_bit 2 (addr - 1) = int q"
    unfolding t drop_bit_eq_div using assms(3) by (simp add: zdiv_int [symmetric])
  moreover have "(addr - 1) AND 3 = int r"
  proof -
    have "int (4 * q + r) AND 3 = take_bit 2 (int (4 * q + r))" by (simp add: take_bit_eq_mask mask_eq_exp_minus_1)
    then show ?thesis unfolding t using assms(3) by (simp add: take_bit_eq_mod)
  qed
  ultimately show ?thesis by (simp add: ga_bytes_def push_bit_eq_mult mult.commute)
qed

lemma station_bits:
  assumes "r < 4" and "d = 0x80 OR word_of_nat (2 * r) OR (if on then 0x08 else 0) OR (if p then 0x01 else 0)"
  defines "z \<equiv> station_turnout d"
  shows "z AND 0x60 = 0x20" and "(z AND 0x10 \<noteq> 0) = (2 \<le> r)"
    and "z AND 0x03 = (if even r then (if p then 2 else 1) else 0)"
    and "drop_bit 2 z AND 0x03 = (if even r then 0 else (if p then 2 else 1))"
proof -
  have r: "r \<in> {0, 1, 2, 3}" using assms(1) by auto
  show "z AND 0x60 = 0x20" "(z AND 0x10 \<noteq> 0) = (2 \<le> r)" "z AND 0x03 = (if even r then (if p then 2 else 1) else 0)"
    "drop_bit 2 z AND 0x03 = (if even r then 0 else (if p then 2 else 1))"
    using r by (cases on; cases p; auto simp: z_def assms(2) station_turnout_def)+
qed

lemma turnout_simps:
  "turnout b x 0 g w = Some (g\<lparr>a_id := x\<rparr>, w)"
  "turnout b x (if p then 2 else 1) g w = map_option (\<lambda>(_, w). (g\<lparr>a_id := x, a_port := of_bool p, a_action := 1\<rparr>, w))
     (setGA b x (g\<lparr>a_id := x, a_port := of_bool p, a_action := 1\<rparr>) w)"
  by (simp_all add: turnout_def Let_def)


subsection \<open>Locomotives are reported back\<close>

text \<open>What a command station from version 3 on reports of a locomotive after the four messages of a
  command: the speed steps as a code of three bits, the speed byte, and the functions, of which
  a group keeps as many bits as it has functions.\<close>

definition station_mode :: "8 word \<Rightarrow> 8 word" where
  "station_mode m = (if m = 0x10 then 0 else if m = 0x11 then 1 else if m = 0x12 then 2 else 4)"

fun station_report :: "8 word list list \<Rightarrow> 8 word list" where
  "station_report (sp # f1 # f2 # f3 # _) =
     [0xe4, station_mode (sp ! 1), sp ! 4, f1 ! 4 AND 0x1f, push_bit 4 (f3 ! 4 AND 0x0f) OR (f2 ! 4 AND 0x0f)]"
| "station_report _ = []"

lemma speed28_read:
  assumes "0 \<le> s" and "s \<le> 28" and "d \<in> {0, 0x80}"
  shows "report_speed 1 (speed28 s OR d) old = s" and "report_speed 2 (speed28 s OR d) old = s"
    and "(speed28 s OR d) AND 0x80 = d"
proof -
  have "list_all (\<lambda>s. list_all (\<lambda>d. report_speed 1 (speed28 s OR d) 0 = s \<and> report_speed 2 (speed28 s OR d) 0 = s \<and>
      (speed28 s OR d) AND 0x80 = d) [0, 0x80]) [0..28]" by code_simp
  then have "report_speed 1 (speed28 s OR d) 0 = s \<and> report_speed 2 (speed28 s OR d) 0 = s \<and> (speed28 s OR d) AND 0x80 = d"
    using assms by (auto simp: list_all_iff)
  then show "report_speed 1 (speed28 s OR d) old = s" "report_speed 2 (speed28 s OR d) old = s"
    "(speed28 s OR d) AND 0x80 = d" by (simp_all add: report_speed_def Let_def)
qed

lemma f_group1_bits: "(f_group1 g AND 0x1f) AND 0x10 \<noteq> 0 \<longleftrightarrow> bit (l_funcs g) 0 \<or> bit (l_funcs g) 5"
proof -
  have "(f_group1 g AND 0x1f) AND 0x10 \<noteq> 0 \<longleftrightarrow> bit (f_group1 g) 4"
  proof -
    have "(v AND 0x1f) AND 0x10 \<noteq> 0 \<longleftrightarrow> bit v 4" for v :: "8 word"
      by (rule all_bytesI [where P = "\<lambda>v. ((v AND 0x1f) AND 0x10 \<noteq> 0) = bit v 4"]) code_simp
    then show ?thesis .
  qed
  moreover have "l_funcs g AND 1 \<noteq> 0 \<longleftrightarrow> bit (l_funcs g) 0" by (simp add: and_one_eq odd_iff_mod_2_eq_one bit_0)
  ultimately show ?thesis by (auto simp: f_group1_def bit_simps)
qed

lemma addr_bits: "0 \<le> a \<Longrightarrow> a < 0x4000 \<Longrightarrow> a AND 0x3fff = (a :: int)"
proof -
  have "a AND 0x3fff = take_bit 14 a" by (simp add: take_bit_eq_mask mask_eq_exp_minus_1)
  also assume "0 \<le> a" and "a < 0x4000"
  then have "take_bit 14 a = a" by (simp add: take_bit_int_eq_self)
  finally show ?thesis .
qed

lemma byte_index: "j < 8 \<Longrightarrow> j \<in> {0, 1, 2, 3, 4, 5, 6, 7 :: nat}"
  by (simp only: insert_iff empty_iff) presburger

lemma high_functions:
  assumes "j < 8"
  shows "bit (push_bit 4 ((ucast (drop_bit 9 f) :: 8 word) AND 0x0f) OR ((ucast (drop_bit 5 f) :: 8 word) AND 0x0f)) j
    = bit (f :: 32 word) (5 + j)"
  using byte_index [OF assms] by (auto simp: bit_simps)

lemma low_functions:
  assumes "j < 8"
  shows "bit ((f_group1 g AND 0x1f) AND 0x0f) j = (j < 4 \<and> bit (l_funcs g) (Suc j))"
  using byte_index [OF assms] by (auto simp: f_group1_def bit_simps)

lemma low_functions_above: "8 \<le> j \<Longrightarrow> \<not> bit ((f_group1 g AND 0x1f) AND 0x0f) j"
  by (auto dest!: bit_imp_le_length)

lemma li_loco_read_back:
  fixes g h0 :: gl_state
  assumes "l_n_fs g \<in> {27, 28}" and "0 \<le> l_speed g" and "l_speed g \<le> 28" and "l_direction g \<in> {0, 1}"
    and "9 < l_n_func g" and "0 \<le> l_id g" and "l_id g < 0x4000"
  defines "h \<equiv> li_report (l_id g) (station_report (gl_messages3 g)) h0"
  shows "l_id h = l_id g" and "l_speed h = l_speed g" and "l_direction h = l_direction g"
    and "\<forall>i<13. bit (l_funcs h) i = (bit (l_funcs g) i \<or> i = 0 \<and> bit (l_funcs g) 5)"
proof -
  define d :: "8 word" where "d = (if l_direction g \<noteq> 0 then 0x80 else 0)"
  define f2 :: "8 word" where "f2 = ucast (drop_bit 5 (l_funcs g))"
  define f3 :: "8 word" where "f3 = ucast (drop_bit 9 (l_funcs g))"
  have m: "gl_messages3 g = [gl_speed_bytes g, gl_func_bytes 0x20 (f_group1 g) g, gl_func_bytes 0x21 f2 g, gl_func_bytes 0x22 f3 g]"
    using assms(5) by (simp add: gl_messages3_def f2_def f3_def)
  have r: "station_report (gl_messages3 g) = [0xe4, if l_n_fs g = 27 then 1 else 2, speed28 (l_speed g) OR d,
      f_group1 g AND 0x1f, push_bit 4 (f3 AND 0x0f) OR (f2 AND 0x0f)]"
    using assms(1) by (auto simp: m gl_speed_bytes_def gl_func_bytes_def station_mode_def fs_mode_def d_def)
  have d: "d \<in> {0, 0x80}" by (simp add: d_def)
  note s = speed28_read [OF assms(2,3) d]
  show "l_id h = l_id g" using addr_bits [OF assms(6,7)] by (simp add: h_def li_report_def)
  show "l_speed h = l_speed g" using s(1,2) by (simp add: h_def li_report_def r)
  show "l_direction h = l_direction g" using s(3) assms(4) by (auto simp: h_def li_report_def r d_def)
  show "\<forall>i<13. bit (l_funcs h) i = (bit (l_funcs g) i \<or> i = 0 \<and> bit (l_funcs g) 5)"
  proof (intro allI impI)
    fix i :: nat assume "i < 13"
    have f: "l_funcs h = push_bit 5 (ucast (push_bit 4 (f3 AND 0x0f) OR (f2 AND 0x0f))) OR
        (push_bit 1 (ucast ((f_group1 g AND 0x1f) AND 0x0f)) OR (if bit (l_funcs g) 0 \<or> bit (l_funcs g) 5 then 1 else 0))"
      using f_group1_bits [of g] by (auto simp: h_def li_report_def r)
    have 1: "bit (push_bit 5 (ucast (push_bit 4 (f3 AND 0x0f) OR (f2 AND 0x0f)) :: 32 word)) i = (5 \<le> i \<and> bit (l_funcs g) i)"
      using \<open>i < 13\<close> high_functions [of "i - 5" "l_funcs g"]
      by (auto simp: bit_push_bit_iff bit_unsigned_iff f2_def f3_def)
    have 2: "bit (push_bit 1 (ucast ((f_group1 g AND 0x1f) AND 0x0f) :: 32 word)) i = (1 \<le> i \<and> i < 5 \<and> bit (l_funcs g) i)"
    proof -
      have "bit (push_bit 1 (ucast ((f_group1 g AND 0x1f) AND 0x0f) :: 32 word)) i =
          (1 \<le> i \<and> bit ((f_group1 g AND 0x1f) AND 0x0f) (i - 1))"
        using \<open>i < 13\<close> by (simp only: bit_push_bit_iff bit_unsigned_iff) auto
      then show ?thesis
        using low_functions [of "i - 1" g] low_functions_above [of "i - 1" g] by (cases "i - 1 < 8") auto
    qed
    show "bit (l_funcs h) i = (bit (l_funcs g) i \<or> i = 0 \<and> bit (l_funcs g) 5)"
      unfolding f bit_or_iff 1 2 by (cases "i = 0") (auto simp: bit_1_iff)
  qed
qed



subsection \<open>Everything written is a sequence of framed messages\<close>

text \<open>A command with the length its first byte announces, and its bytes on the line.\<close>

definition li_cmd :: "8 word list \<Rightarrow> bool" where
  "li_cmd m \<longleftrightarrow> m \<noteq> [] \<and> length m = unat (hd m AND 0x0f) + 1"

definition li_wire :: "bool \<Rightarrow> 8 word list \<Rightarrow> 8 word list" where
  "li_wire u m = (if u then [0xff, 0xfe] else []) @ li_frame m"

text \<open>The interface's side: it takes the messages out of the bytes, and has no result if a header,
  a length or a check byte is wrong.\<close>

definition li_take_header :: "bool \<Rightarrow> 8 word list \<Rightarrow> 8 word list option" where
  "li_take_header u bs =
     (if \<not> u then Some bs else case bs of a # c # r \<Rightarrow> if a = 0xff \<and> c = 0xfe then Some r else None | _ \<Rightarrow> None)"

function li_parse :: "bool \<Rightarrow> 8 word list \<Rightarrow> 8 word list list option" where
  "li_parse u bs =
     (if bs = [] then Some []
      else case li_take_header u bs of
        Some (c # r) \<Rightarrow>
          (let n = unat (c AND 0x0f)
           in if length r < n + 1 \<or> xor_all (c # take (n + 1) r) \<noteq> 0 then None
              else map_option (Cons (c # take n r)) (li_parse u (drop (n + 1) r)))
      | _ \<Rightarrow> None)"
  by auto
termination
  by (relation "measure (\<lambda>(u, bs). length bs)")
    (auto simp: li_take_header_def split: if_splits list.splits)

declare li_parse.simps [simp del]

lemma xor_all_frame: "xor_all (li_frame m) = 0"
  by (simp add: xor_all_def li_frame_def)

lemma li_parse_wire:
  assumes "li_cmd m"
  shows "li_parse u (li_wire u m @ bs) = map_option (Cons m) (li_parse u bs)"
proof -
  obtain c r where m: "m = c # r" and n: "unat (c AND 0x0f) = length r" using assms by (cases m) (auto simp: li_cmd_def)
  have h: "li_take_header u (li_wire u m @ bs) = Some (c # r @ xor_all m # bs)" and ne: "li_wire u m \<noteq> []"
    by (simp_all add: li_take_header_def li_wire_def li_frame_def m)
  have x: "xor_all (c # r @ [xor_all m]) = 0" using xor_all_frame [of m] by (simp add: li_frame_def m)
  show ?thesis by (subst li_parse.simps) (simp add: ne h n x m [symmetric] Let_def)
qed

lemma li_parse_wires:
  "\<forall>m\<in>set ms. li_cmd m \<Longrightarrow> li_parse u (concat (map (li_wire u) ms) @ bs) = map_option ((@) ms) (li_parse u bs)"
proof (induction ms)
  case Nil
  then show ?case by (cases "li_parse u bs") simp_all
next
  case (Cons m ms)
  then show ?case by (simp add: li_parse_wire option.map_comp comp_def)
qed

text \<open>What has been written since \<open>t\<close>. The rules are those of \<open>keeps\<close>, for the driver's state.\<close>

definition li_sent :: "bool \<Rightarrow> 8 word list \<Rightarrow> li100 \<Rightarrow> bool" where
  "li_sent u t l \<longleftrightarrow> usb l = u \<and> (\<exists>ms. (\<forall>m\<in>set ms. li_cmd m) \<and> li_tx l = t @ concat (map (li_wire u) ms))"

lemma li_sent_updates [simp]:
  "li_sent u t (l\<lparr>last_value := i\<rparr>) = li_sent u t l" "li_sent u t (l\<lparr>last_type := ty\<rparr>) = li_sent u t l"
  "li_sent u t (l\<lparr>last_typeaddr := i\<rparr>) = li_sent u t l" "li_sent u t (l\<lparr>last_bit := i\<rparr>) = li_sent u t l"
  "li_sent u t (l\<lparr>li_polls := ps\<rparr>) = li_sent u t l" "li_sent u t (l\<lparr>li_junk := j\<rparr>) = li_sent u t l"
  "li_sent u t (l\<lparr>li_tga := tb\<rparr>) = li_sent u t l"
  by (simp_all add: li_sent_def)

named_theorems li_sends "operations that write framed messages"

lemma li_fetch_tx:
  assumes "li_fetch buf l = (s, n, buf', l')"
  shows "li_tx l' = li_tx l" and "usb l' = usb l"
proof -
  have rd: "li_tx (snd (snd (readByte i bf k))) = li_tx k" "usb (snd (snd (readByte i bf k))) = usb k" for i bf k
    by (simp_all add: readByte_def split: list.splits option.splits)
  have rds: "li_tx (snd (read_bytes is bf k)) = li_tx k" "usb (snd (read_bytes is bf k)) = usb k" for "is" bf k
    by (induction "is" arbitrary: bf k) (simp_all add: rd case_prod_unfold Let_def)
  have "li_tx (snd (snd (snd (li_fetch buf l)))) = li_tx l" "usb (snd (snd (snd (li_fetch buf l)))) = usb l"
    by (simp_all add: li_fetch_def Let_def case_prod_unfold rd rds)
  then show "li_tx l' = li_tx l" and "usb l' = usb l" using assms by simp_all
qed

lemma li_wait_tx:
  "li_wait ctr b v l w = Some r \<Longrightarrow> li_tx (fst (snd r)) = li_tx l \<and> usb (fst (snd r)) = usb l"
proof (erule li_wait.raw_induct [where P = "\<lambda>ctr b v l w r. li_tx (fst (snd r)) = li_tx l \<and> usb (fst (snd r)) = usb l", rotated])
  fix li_wait ctr b v l w r
  assume IH: "\<And>ctr b v l w r. li_wait ctr b v l w = Some r \<Longrightarrow> li_tx (fst (snd r)) = li_tx l \<and> usb (fst (snd r)) = usb l"
    and step: "(if ctr - 1 < (0 :: int) then Some (-1, l, w)
      else do {
        let (status, n, buf, l) = li_fetch (v_buf v) l;
        (ctr, v, l, w) \<leftarrow> li_process b n buf (v\<lparr>v_buf := buf\<rparr>) l w;
        if status = -1 then li_wait ctr b v l w else Some (status, l, w) }) = Some r"
  obtain status n buf l1 where f: "li_fetch (v_buf v) l = (status, n, buf, l1)" by (cases "li_fetch (v_buf v) l") auto
  show "li_tx (fst (snd r)) = li_tx l \<and> usb (fst (snd r)) = usb l"
  proof (cases "ctr - 1 < 0")
    case False
    then obtain ctr2 v2 l2 w2 where p: "li_process b n buf (v\<lparr>v_buf := buf\<rparr>) l1 w = Some (ctr2, v2, l2, w2)"
        and r: "(if status = -1 then li_wait ctr2 b v2 l2 w2 else Some (status, l2, w2)) = Some r"
      using step by (auto simp: f bind_eq_Some_conv)
    show ?thesis using li_process_line(2,3) [OF p] li_fetch_tx [OF f] r IH [of ctr2 b v2 l2 w2 r] by (auto split: if_splits)
  qed (use step in auto)
qed

lemma li_sent_cong: "li_sent u t l \<Longrightarrow> li_tx l' = li_tx l \<Longrightarrow> usb l' = usb l \<Longrightarrow> li_sent u t l'"
  by (simp add: li_sent_def)

lemma readAnswer_sends [li_sends]: "li_sent u t l \<Longrightarrow> ensures (li_sent u t) (\<lambda>x. fst (snd x)) (readAnswer b l w)"
  by (auto simp: keeps_def readAnswer_def pop_junk_def intro: li_sent_cong dest!: li_wait_tx)

lemma li_poll_sends [li_sends]: "li_sent u t l \<Longrightarrow> ensures (li_sent u t) fst (li_poll ps b l w)"
proof (induction ps arbitrary: l w)
  case (Cons p ps)
  then show ?case using readAnswer_sends [of u t l b w] by (fastforce simp: keeps_def bind_eq_Some_conv)
qed (simp add: keeps_def)

lemma check_status_sends [li_sends]: "li_sent u t l \<Longrightarrow> ensures (li_sent u t) fst (check_status b l w)"
  by (simp add: check_status_def li_poll_sends)

lemma send_command_sends [li_sends]: "li_sent u t l \<Longrightarrow> ensures (li_sent u t) (\<lambda>x. fst (snd x)) (send_command b str l w)"
proof -
  assume s: "li_sent u t l"
  define n where "n = unat (str ! 0 AND 0x0f) + 1"
  have "li_sent u t (l\<lparr>li_tx := li_tx l @ (if usb l then [0xff, 0xfe] else []) @ li_frame (take n str)\<rparr>)" if "n \<le> length str"
  proof -
    obtain ms where ms: "\<forall>m\<in>set ms. li_cmd m" "li_tx l = t @ concat (map (li_wire u) ms)" and u: "usb l = u"
      using s by (auto simp: li_sent_def)
    have "li_cmd (take n str)" using that by (cases str) (auto simp: li_cmd_def n_def min_def)
    then have "\<forall>m\<in>set (ms @ [take n str]). li_cmd m" using ms(1) by auto
    then show ?thesis unfolding li_sent_def by (intro conjI exI [of _ "ms @ [take n str]"]) (simp_all add: ms(2) u li_wire_def)
  qed
  then show ?thesis
    unfolding send_command_def Let_def n_def [symmetric] by (intro keeps_if keeps_None li_sends) simp
qed

lemma send_pair_sends [li_sends]:
  "li_sent u t l \<Longrightarrow> ensures (li_sent u t) (\<lambda>x. fst (snd (snd x))) (map_option (Pair g) (send_command b str l w))"
  by (rule keeps_map) (simp add: li_sends)

lemma send_all_sends [li_sends]: "li_sent u t l \<Longrightarrow> ensures (li_sent u t) (\<lambda>x. fst (snd x)) (send_all b status ms l w)"
proof (induction ms arbitrary: status l w)
  case (Cons m ms)
  then show ?case using send_command_sends [of u t l b m w] by (fastforce simp: keeps_def bind_eq_Some_conv)
qed (simp add: keeps_def)

lemma li_tga_step_sends [li_sends]: "li_sent u t (fst lw) \<Longrightarrow> ensures (li_sent u t) fst (li_tga_step b akt i lw)"
  unfolding li_tga_step_def
  by ((rule li_sends | rule keeps_bind [where g = "\<lambda>x. fst (snd x)"], rule li_sends | rule keeps_bind, rule keeps_const, assumption
     | rule keeps_let keeps_if keeps_Some | rule keeps_prod | clarsimp simp: case_prod_unfold split del: if_split)+)

lemma send_command_ga_sends [li_sends]: "li_sent u t l \<Longrightarrow> ensures (li_sent u t) fst (send_command_ga b l w)"
  unfolding send_command_ga_def
  by ((rule li_sends | rule keeps_bind [where g = fst], rule loopM_keeps, erule li_tga_step_sends
     | rule keeps_bind [where g = "\<lambda>x. fst (snd x)"], rule li_sends | rule keeps_bind, rule keeps_const, assumption
     | rule keeps_let keeps_if keeps_Some | rule keeps_prod | clarsimp simp: case_prod_unfold split del: if_split)+)

lemma li_gl_send_sends [li_sends]: "li_sent u t l \<Longrightarrow> ensures (li_sent u t) (\<lambda>x. fst (snd (snd x))) (li_gl_send b g l w)"
  unfolding li_gl_send_def
  by ((rule li_sends | rule keeps_bind [where g = "\<lambda>x. fst (snd x)"], rule li_sends
     | rule keeps_let keeps_if keeps_Some keeps_map | rule keeps_prod | clarsimp simp: case_prod_unfold split del: if_split)+)

lemma send_command_gl_sends [li_sends]: "li_sent u t l \<Longrightarrow> ensures (li_sent u t) fst (send_command_gl b l w)"
  unfolding send_command_gl_def pop_junk_def
  by ((rule li_sends | rule keeps_bind [where g = "\<lambda>x. fst (snd (snd x))"], rule li_sends | rule keeps_bind, rule keeps_const, assumption
     | rule keeps_let keeps_if keeps_Some keeps_map | rule keeps_prod | clarsimp simp: case_prod_unfold split del: if_split)+)

lemma ask_engine_sends [li_sends]: "li_sent u t (fst lw) \<Longrightarrow> ensures (li_sent u t) fst (ask_engine b g addr lw)"
  unfolding ask_engine_def
  by ((rule li_sends | rule keeps_bind [where g = "\<lambda>x. fst (snd x)"], rule li_sends | rule keeps_bind [where g = fst]
     | rule keeps_let keeps_if keeps_Some keeps_map | rule keeps_prod | clarsimp simp: case_prod_unfold split del: if_split)+)

lemma check_extern_sends [li_sends]: "li_sent u t l \<Longrightarrow> ensures (li_sent u t) fst (check_extern_engines b l w)"
proof -
  assume inv: "li_sent u t l"
  have "ensures (li_sent u t) fst (loopM (\<lambda>i (l, w). if extern_engine l ! i \<noteq> -1 then ask_engine b g (extern_engine l ! i) (l, w)
      else Some (l, w)) is (l', w))" if "li_sent u t l'" for g "is" l'
    by (rule loopM_keeps) (auto simp: that li_sends keeps_Some)
  then show ?thesis
    unfolding check_extern_engines_def pop_junk_def
    by (intro keeps_bind [where g = fst] keeps_if) (auto simp: inv keeps_Some)
qed

lemma li_sm_sends [li_sends]:
  "li_sent u t l \<Longrightarrow> ensures (li_sent u t) (\<lambda>x. fst (snd x)) (li_read_sm code b place l w)"
  "li_sent u t l \<Longrightarrow> ensures (li_sent u t) (\<lambda>x. fst (snd x)) (li_write_sm code b place v l w)"
  "li_sent u t l \<Longrightarrow> ensures (li_sent u t) (\<lambda>x. fst (snd x)) (send_pom_cv b addr cv v l w)"
  "li_sent u t l \<Longrightarrow> ensures (li_sent u t) (\<lambda>x. fst (snd x)) (send_pom_cvbit b addr cv bt v l w)"
  "li_sent u t l \<Longrightarrow> ensures (li_sent u t) (\<lambda>x. fst (snd x)) (term_pgm b l w)"
  unfolding li_read_sm_def li_write_sm_def send_pom_cv_def send_pom_cvbit_def term_pgm_def get_status_sm_def
  by ((rule li_sends | rule keeps_bind [where g = "\<lambda>x. fst (snd x)"], rule li_sends | rule keeps_bind [where g = fst]
     | rule keeps_let keeps_if keeps_Some keeps_map | rule keeps_prod | clarsimp simp: case_prod_unfold split del: if_split)+)

lemma li_sm_set_sends [li_sends]: "li_sent u t l \<Longrightarrow> ensures (li_sent u t) fst (li_sm_set b s l w)"
  unfolding li_sm_set_def li_sm_rw by (cases "s_type s"; (rule keeps_map, simp add: li_sends keeps_Some))

lemma li_sm_get_sends [li_sends]: "li_sent u t l \<Longrightarrow> ensures (li_sent u t) fst (li_sm_get b s l w)"
  unfolding li_sm_get_def li_sm_rw by (cases "s_type s"; simp add: keeps_map li_sends keeps_Some)

lemma send_command_sm_sends [li_sends]: "li_sent u t l \<Longrightarrow> ensures (li_sent u t) fst (send_command_sm b l w)"
proof -
  assume inv: "li_sent u t l"
  have "ensures (li_sent u t) fst (case s_command s of SM_SET \<Rightarrow> li_sm_set b s l w | SM_GET \<Rightarrow> li_sm_get b s l w
      | SM_VERIFY \<Rightarrow> Some (l, w) | SM_INIT \<Rightarrow> Some (l, w)
      | SM_TERM \<Rightarrow> if pgm_mode l = 1 then map_option snd (term_pgm b l w) else Some (l, w))"
    if "li_sent u t l" for s l w
    using that by (cases "s_command s") (simp_all add: li_sends keeps_Some keeps_map)
  then show ?thesis
    unfolding send_command_sm_def using inv
    by (intro keeps_if keeps_bind [where g = "\<lambda>_. l"] keeps_let) (auto simp: keeps_Some keeps_const Let_def)
qed

lemma li_power_command_sends [li_sends]: "li_sent u t l \<Longrightarrow> ensures (li_sent u t) fst (li_power_command b l w)"
  unfolding li_power_command_def
  by ((rule li_sends | rule keeps_bind [where g = "\<lambda>x. fst (snd x)"], rule li_sends
     | rule keeps_let keeps_if keeps_Some | rule keeps_prod | clarsimp simp: case_prod_unfold split del: if_split)+)

lemma li_turn_sends: "li_sent u t l \<Longrightarrow> ensures (li_sent u t) fst (li_turn b l w)"
  unfolding li_turn_def
  by ((rule li_sends | rule keeps_bind [where g = fst], rule li_sends | rule keeps_bind, rule keeps_const, assumption
     | rule keeps_Some | rule keeps_prod | clarsimp)+)

lemma li_parse_append:
  "li_parse u t = Some ms \<Longrightarrow> li_parse u (t @ bs) = map_option ((@) ms) (li_parse u bs)"
proof (induction u t arbitrary: ms rule: li_parse.induct)
  case (1 u t)
  show ?case
  proof (cases "t = []")
    case True
    then have "ms = []" using 1(2) by (simp add: li_parse.simps [of u "[]"])
    then show ?thesis using True by (cases "li_parse u bs") simp_all
  next
    case False
    then obtain c r where h: "li_take_header u t = Some (c # r)"
      using 1(2) by (subst (asm) li_parse.simps) (auto split: option.splits list.splits)
    define n where "n = unat (c AND 0x0f)"
    obtain ms1 where ok: "\<not> (length r < n + 1 \<or> xor_all (c # take (n + 1) r) \<noteq> 0)"
        and ms1: "li_parse u (drop (n + 1) r) = Some ms1" and ms: "ms = (c # take n r) # ms1"
      using 1(2) False h by (subst (asm) li_parse.simps) (auto simp: Let_def n_def split: if_splits)
    have h': "li_take_header u (t @ bs) = Some (c # r @ bs)"
      using h by (auto simp: li_take_header_def split: if_splits list.splits)
    have IH: "li_parse u (drop (n + 1) r @ bs) = map_option ((@) ms1) (li_parse u bs)"
      using 1(1) [OF False h refl refl _ ms1 [unfolded n_def]] ok by (simp add: n_def)
    have "li_parse u (t @ bs) = map_option (Cons (c # take n r)) (li_parse u (drop (n + 1) r @ bs))"
      using False h' ok by (subst li_parse.simps) (simp add: Let_def n_def [symmetric])
    then show ?thesis unfolding IH ms by (simp add: option.map_comp comp_def)
  qed
qed

text \<open>C12: Whatever the interface answers, a turn of the LI100 driver that returns has written
  complete messages with the right length and check byte (and header, on USB), which follow
  those written before.\<close>

theorem li100_writes_messages:
  assumes "li_parse (usb l) (li_tx l) = Some ms" and "li_turn b l w = Some (l', w')"
  shows "\<exists>ms'. li_parse (usb l') (li_tx l') = Some (ms @ ms')"
proof -
  have "li_sent (usb l) (li_tx l) l" by (auto simp: li_sent_def intro: exI [of _ "[]"])
  from keepsD [OF li_turn_sends [OF this] assms(2)] obtain ms' where
    u: "usb l' = usb l" and ms': "\<forall>m\<in>set ms'. li_cmd m" "li_tx l' = li_tx l @ concat (map (li_wire (usb l)) ms')"
    by (auto simp: li_sent_def)
  have "li_parse (usb l) (concat (map (li_wire (usb l)) ms')) = Some ms'"
    using li_parse_wires [OF ms'(1), of "usb l" "[]"] by (simp add: li_parse.simps [of "usb l" "[]"])
  then show ?thesis unfolding u ms'(2) li_parse_append [OF assms(1)] by simp
qed

text \<open>A turn that passes the power command on.\<close>

definition li_world :: world where
  "li_world = sample_world\<lparr>buses := (\<lambda>b. zero_bus\<lparr>power_changed := 1, power_state := 1\<rparr>)\<rparr>"

lemma li_idle_tga:
  "\<forall>g\<in>set (li_tga l). a_id g = 0 \<Longrightarrow> length (li_tga l) = 50 \<Longrightarrow> loopM (li_tga_step b akt) [0..<50] (l, w) = Some (l, w)"
proof -
  assume a: "\<forall>g\<in>set (li_tga l). a_id g = 0" and len: "length (li_tga l) = 50"
  have "loopM (li_tga_step b akt) is (l, w) = Some (l, w)" if "\<forall>i\<in>set is. i < 50" for "is"
    using that a len by (induction "is") (simp_all add: li_tga_step_def)
  then show ?thesis by simp
qed

theorem li100_writes_messages_witness:
  "\<exists>l' w' ms'. li_turn 1 li_sample li_world = Some (l', w') \<and> li_tx l' = [0x21, 0x81, 0xa0] \<and>
     li_parse (usb l') (li_tx l') = Some ms'"
proof -
  let ?l = "li_sample\<lparr>li_tx := [0x21, 0x81, 0xa0], li_rx := []\<rparr>"
  let ?w = "li_world\<lparr>buses := upd (\<lambda>d. d\<lparr>power_changed := 0\<rparr>) 1 (buses li_world)\<rparr>"
  have s: "usb li_sample = False" "li_tx li_sample = []" by (simp_all add: li_sample_def)
  have p: "li_power_command 1 li_sample li_world = Some (?l, ?w)"
    using li_sample_answer [of 1 "[0x21, 0x81, 0xa0]" li_world]
    by (simp add: li_power_command_def li_world_def send_command_def li_frame_def xor_all_def s)
  have q: "queue_GL_isempty 1 (tick ?w)" "queue_GA_isempty 1 (tick ?w)" "queue_SM_isempty 1 (tick ?w)" "queue_GL_isempty 1 ?w"
    by (simp_all add: queue_GL_isempty_def queue_GA_isempty_def queue_SM_isempty_def ring_isempty_def li_world_def
        sample_world_def zero_world_def ring_new_def)
  have ga: "send_command_ga 1 ?l ?w = Some (?l, tick ?w)"
    unfolding send_command_ga_def by (subst li_idle_tga) (simp_all add: q li_sample_def zero_ga_def del: One_nat_def)
  have "world_inv (tick ?w)" using sample_world_inv by (simp add: li_world_def)
  then obtain w2 where w2: "check_reset_fb 1 (tick ?w) = Some w2" using check_reset_fb_ok by blast
  have t: "li_turn 1 li_sample li_world = Some (?l\<lparr>last_value := -1, li_polls := []\<rparr>,
      w2\<lparr>buses := upd (\<lambda>d. d\<lparr>watchdog := 1\<rparr>) 1 (buses w2)\<rparr>)"
    unfolding li_turn_def p
    by (simp add: send_command_gl_def q ga check_status_def check_extern_engines_def send_command_sm_def w2
        del: One_nat_def) (simp add: li_sample_def q w2 del: One_nat_def)
  have "li_parse (usb li_sample) (li_tx li_sample) = Some []" by (simp add: s li_parse.simps)
  from li100_writes_messages [OF this t] t show ?thesis by auto
qed



end
