(* ===== verification/Ib_Protocol.thy ===== *)
theory Ib_Protocol
  imports Ib
begin

text \<open>
  What goes over the line to and from the Intellibox: the commands for a locomotive read the way
  the P50Xb protocol defines them, the reports of the feedback modules, and what happens when the
  Intellibox falls silent in the middle of a report.
\<close>

unbundle bit_operations_syntax

subsection \<open>Reading P50Xb commands\<close>

text \<open>A locomotive command has address, speed, direction, light and F1 to F4; a function command sets
  the functions from a first one on.\<close>

datatype p50x = Lok int int bool bool "bool list" | Func nat int "bool list"

definition p50x_addr :: "8 word \<Rightarrow> 8 word \<Rightarrow> int" where
  "p50x_addr lo hi = uint lo + 256 * uint hi"

definition p50x_lok :: "8 word \<Rightarrow> 8 word \<Rightarrow> 8 word \<Rightarrow> 8 word \<Rightarrow> p50x" where
  "p50x_lok lo hi v d = Lok (p50x_addr lo hi) (uint v) (bit d 5) (bit d 4) (map (bit d) [0..<4])"

fun p50x_read :: "8 word list \<Rightarrow> p50x list option" where
  "p50x_read [] = Some []"
| "p50x_read (c # lo # hi # f # r) =
     (if c = XFunc then map_option (Cons (Func 1 (p50x_addr lo hi) (map (bit f) [0..<8]))) (p50x_read r)
      else if c = XFuncX then map_option (Cons (Func 9 (p50x_addr lo hi) (map (bit f) [0..<8]))) (p50x_read r)
      else (case r of
          [] \<Rightarrow> None
        | d # r \<Rightarrow>
            if c = XLok then map_option (Cons (p50x_lok lo hi f d)) (p50x_read r)
            else if c = XFunc34
              then map_option (Cons (Func 17 (p50x_addr lo hi) (map (bit f) [0..<8] @ map (bit d) [0..<4]))) (p50x_read r)
            else None))"
| "p50x_read _ = None"

lemma p50x_addr_bytes: "0 \<le> a \<Longrightarrow> a < 65536 \<Longrightarrow> p50x_addr (addr_low_IB a) (addr_high_IB a) = a"
proof -
  assume a: "0 \<le> a" "a < 65536"
  have "a AND 0xff = a mod 256"
    using take_bit_eq_mask [of 8 a] by (simp add: take_bit_eq_mod mask_numeral)
  then have "uint (addr_low_IB a) = a mod 256"
    by (simp add: addr_low_IB_def unsigned_of_int take_bit_eq_mod)
  moreover have "uint (addr_high_IB a) = a div 256"
    using a by (simp add: addr_high_IB_def unsigned_of_int take_bit_eq_mod drop_bit_eq_div)
  ultimately show ?thesis by (simp add: p50x_addr_def)
qed

text \<open>Adding the light bit to the shifted functions carries into the direction bit when F5 is on.\<close>

lemma add_light_bits:
  fixes c :: "8 word"
  shows add_light_5: "bit (c + 0x10) 5 \<longleftrightarrow> bit c 5 \<noteq> bit c 4" and add_light_4: "bit (c + 0x10) 4 \<longleftrightarrow> \<not> bit c 4"
    and add_light_low: "(c + 0x10) AND 0x0f = c AND 0x0f"
proof -
  have u: "uint (c + 0x10) = (uint c + 16) mod 256" by (simp add: uint_word_ariths)
  have b: "bit v i \<longleftrightarrow> odd (uint v div 2 ^ i)" for v :: "8 word" and i
    using bit_uint_iff [of v i] bit_imp_le_length [of v i] bit_iff_odd [of "uint v" i] by auto
  have "list_all (\<lambda>n. (odd ((n + 16) mod 256 div 32) = (odd (n div 32) \<noteq> odd (n div 16)))
      \<and> odd ((n + 16) mod 256 div 16) = even (n div 16)) [0..255::int]" by code_simp
  moreover have "uint c \<in> set [0..255]" using uint_lt2p [of c] by simp
  ultimately show "bit (c + 0x10) 5 \<longleftrightarrow> bit c 5 \<noteq> bit c 4" "bit (c + 0x10) 4 \<longleftrightarrow> \<not> bit c 4"
    unfolding b u by (auto simp: list_all_iff)
  have "uint (v AND 0x0f) = uint v mod 16" for v :: "8 word"
  proof -
    have "uint (0x0f :: 8 word) = mask 4" by code_simp
    then show ?thesis unfolding unsigned_and_eq by (simp only: take_bit_eq_mask [symmetric] take_bit_eq_mod) simp
  qed
  moreover have "(uint c + 16) mod 256 mod 16 = uint c mod 16" by (simp add: mod_mod_cancel)
  ultimately show "(c + 0x10) AND 0x0f = c AND 0x0f" by (simp add: word_uint_eq_iff u)
qed

lemma ucast_add_byte: "(ucast (a + b :: 32 word) :: 8 word) = ucast a + ucast b"
proof (transfer)
  fix a b :: int
  show "take_bit LENGTH(8) (take_bit LENGTH(32) (a + b)) = take_bit LENGTH(8) (take_bit LENGTH(32) a + take_bit LENGTH(32) b)"
    using take_bit_add [of 8 a b] take_bit_add [of 8 "take_bit 32 a" "take_bit 32 b"] by simp
qed

lemma bits_0f: "i < 4 \<Longrightarrow> bit (0x0f :: 8 word) i"
proof -
  assume i: "i < 4"
  have "(0x0f :: 8 word) = mask 4" by code_simp
  then show ?thesis using i by (simp only: bit_mask_iff) simp
qed

lemma dir_byte_bits:
  fixes f :: "32 word" and d :: bool
  defines "v \<equiv> (ucast (drop_bit 1 f + (if f AND 1 \<noteq> 0 then 0x10 else 0)) OR 0xc0) OR (if d then 0x20 else 0) :: 8 word"
  shows "bit v 5 \<longleftrightarrow> d \<or> bit f 6 \<noteq> (bit f 0 \<and> bit f 5)" and "bit v 4 \<longleftrightarrow> bit f 0 \<noteq> bit f 5"
    and "map (bit v) [0..<4] = map (bit f) [1..<5]"
proof -
  let ?c = "ucast (drop_bit 1 f) :: 8 word"
  have f0: "f AND 1 \<noteq> 0 \<longleftrightarrow> bit f 0" by (simp add: and_one_eq odd_iff_mod_2_eq_one bit_0)
  have v: "v = ((?c + (if bit f 0 then 0x10 else 0)) OR 0xc0) OR (if d then 0x20 else 0)"
    unfolding v_def f0 by (simp add: ucast_add_byte)
  have c: "bit ?c i \<longleftrightarrow> bit f (Suc i)" if "i < 8" for i
    using that by (simp add: bit_simps)
  show "bit v 5 \<longleftrightarrow> d \<or> bit f 6 \<noteq> (bit f 0 \<and> bit f 5)" "bit v 4 \<longleftrightarrow> bit f 0 \<noteq> bit f 5"
    using c [of 5] c [of 4] by (auto simp: v bit_or_iff add_light_5 add_light_4)
  have "bit (?c + 0x10) i = bit ?c i" if "i < 4" for i
  proof -
    have "bit (?c + 0x10) i = bit ((?c + 0x10) AND 0x0f) i"
      using that bits_0f [of i] by (simp add: bit_and_iff)
    then show ?thesis using that bits_0f [of i] by (simp add: add_light_low bit_and_iff)
  qed
  then show "map (bit v) [0..<4] = map (bit f) [1..<5]"
    using c by (auto simp: v bit_or_iff upt_rec)
qed
text \<open>The line: what a command appends, and what its answer is, do not depend on the rest.\<close>

lemma ib_read_tx [simp]: "ib_tx (snd (ib_read v p)) = ib_tx p"
proof -
  have "ib_tx (snd (snd (ib_attempts n v p))) = ib_tx p" for n
    by (induction n v p rule: ib_attempts.induct) (auto split: list.splits option.splits)
  then show ?thesis by (simp add: ib_read_def readByte_IB_def)
qed

lemma ib_send_tx [simp]: "ib_tx (snd (ib_send bs v p)) = ib_tx p @ bs"
  by (simp add: ib_send_def ib_write_def)

lemma ib_read_now: "ib_rx p = Some c # r \<Longrightarrow> ib_read v p = (c, p\<lparr>ib_rx := r\<rparr>)"
  by (simp add: ib_read_def readByte_IB_def eval_nat_numeral)

lemma ib_send_now: "ib_rx p = Some c # r \<Longrightarrow> ib_send bs v p = (c, p\<lparr>ib_tx := ib_tx p @ bs, ib_rx := r\<rparr>)"
  by (simp add: ib_send_def ib_write_def ib_read_now)

lemma ib_pop_line [simp]: "ib_rx (snd (ib_pop p)) = ib_rx p" "ib_tx (snd (ib_pop p)) = ib_tx p"
  by (simp_all add: ib_pop_def)

text \<open>The functions a command announces.\<close>

definition p50x_functions :: "gl_state \<Rightarrow> p50x list" where
  "p50x_functions g =
     (if 5 < l_n_func g then [Func 1 (l_id g) (map (bit (l_funcs g)) [1..<9])] else []) @
     (if 9 < l_n_func g then [Func 9 (l_id g) (map (bit (l_funcs g)) [9..<17])] else []) @
     (if 17 < l_n_func g then [Func 17 (l_id g) (map (bit (l_funcs g)) [17..<29])] else [])"

lemma func_byte_bits:
  fixes f :: "32 word"
  shows "map (bit (ucast (drop_bit n f AND 0xff) :: 8 word)) [0..<8] = map (bit f) [n..<n + 8]"
    and "map (bit (ucast (drop_bit n f AND 0x0f) :: 8 word)) [0..<4] = map (bit f) [n..<n + 4]"
proof -
  have m: "(0xff :: 32 word) = mask 8" "(0x0f :: 32 word) = mask 4" by code_simp+
  have "bit (ucast (drop_bit n f AND 0xff) :: 8 word) i = bit f (n + i)" if "i < 8" for i
    using that unfolding m by (simp only: bit_ucast_iff bit_and_iff bit_mask_iff bit_drop_bit_eq) auto
  then show "map (bit (ucast (drop_bit n f AND 0xff) :: 8 word)) [0..<8] = map (bit f) [n..<n + 8]"
    by (intro nth_equalityI) auto
  have "bit (ucast (drop_bit n f AND 0x0f) :: 8 word) i = bit f (n + i)" if "i < 4" for i
    using that unfolding m by (simp only: bit_ucast_iff bit_and_iff bit_mask_iff bit_drop_bit_eq) auto
  then show "map (bit (ucast (drop_bit n f AND 0x0f) :: 8 word)) [0..<4] = map (bit f) [n..<n + 4]"
    by (intro nth_equalityI) auto
qed

lemma ib_functions_read:
  assumes "0 \<le> l_id g" and "l_id g < 65536"
  shows "\<exists>bs. ib_tx (ib_functions g v p) = ib_tx p @ bs \<and> p50x_read bs = Some (p50x_functions g)"
proof -
  let ?h = "\<lambda>c fs. ib_func_bytes c g fs"
  let ?f = "l_funcs g"
  define bs where "bs =
    (if 5 < l_n_func g then ?h XFunc [ucast (drop_bit 1 ?f AND 0xff)] else []) @
    (if 9 < l_n_func g then ?h XFuncX [ucast (drop_bit 9 ?f AND 0xff)] else []) @
    (if 17 < l_n_func g then ?h XFunc34 [ucast (drop_bit 17 ?f AND 0xff), ucast (drop_bit 25 ?f AND 0x0f)] else [])"
  have "ib_tx (ib_functions g v p) = ib_tx p @ bs"
    by (simp add: ib_functions_def bs_def case_prod_unfold Let_def)
  moreover have "p50x_read bs = Some (p50x_functions g)"
    using func_byte_bits(1) [of 1 ?f] func_byte_bits(1) [of 9 ?f] func_byte_bits(1) [of 17 ?f] func_byte_bits(2) [of 25 ?f]
    by (simp add: bs_def p50x_functions_def ib_func_bytes_def p50x_addr_bytes assms del: upt_Suc)
  ultimately show ?thesis by blast
qed
text \<open>The speed on the scale of the Intellibox, where 1 is the emergency stop.\<close>

definition p50x_speed :: "gl_state \<Rightarrow> int \<Rightarrow> int" where
  "p50x_speed g n_fs =
     (if l_direction g = 2 then 1
      else let v = l_speed g * 126 div n_fs in if v = 0 then 0 else v + 1)"

lemma ib_speed_byte_read:
  assumes "0 \<le> l_speed g" and "l_speed g \<le> n_fs" and "0 < n_fs" and "n_fs \<le> 16777216"
  shows "\<exists>v. ib_speed_byte g n_fs = Some v \<and> uint v = p50x_speed g n_fs"
proof -
  let ?v = "l_speed g * 126 div n_fs"
  have v: "0 \<le> ?v" "?v \<le> 126"
    using assms pos_imp_zdiv_nonneg_iff [of n_fs] zdiv_mono1 [of "l_speed g * 126" "n_fs * 126" n_fs] by simp_all
  have "in_int (l_speed g * 126)" using assms by (simp add: in_int_def)
  moreover have u: "uint (word_of_int x :: 8 word) = x" if "0 \<le> x" "x < 256" for x
    using that by (simp add: unsigned_of_int take_bit_eq_mod)
  moreover have "uint (word_of_int ?v :: 8 word) = ?v" using u v by simp
  moreover have "uint (word_of_int ?v + 1 :: 8 word) = ?v + 1" using u [of "?v + 1"] v by simp
  moreover have "(0 :: 8 word) < word_of_int ?v \<longleftrightarrow> ?v \<noteq> 0"
    using v by (simp add: word_less_def unsigned_of_int take_bit_eq_mod) linarith
  ultimately show ?thesis
    using assms by (auto simp: ib_speed_byte_def p50x_speed_def Let_def)
qed

text \<open>C16: A command for a locomotive that the Intellibox accepts is written as P50Xb commands for
  its address: speed on the scale of the Intellibox, then F1 to F8, F9 to F16 and F17 to F28
  as far as the decoder has them. Light and direction are those of the command only while F5
  and F6 are off: they are added to functions that are not masked out.\<close>

theorem ib_loco_command:
  assumes "dequeueNextGL b w = Some (g, w1)" and "cacheGetGL b (l_id g) w1 = Some cur"
    and "cacheSetGL b (l_id g) g w1 = Some (rc, w2)"
    and "l_direction g \<noteq> l_direction cur \<or> l_speed g \<noteq> l_speed cur \<or> l_funcs g \<noteq> l_funcs cur"
    and "ib_rx p = Some 0 # r" and "0 \<le> l_id g" and "l_id g < 16384"
    and "0 \<le> l_speed g" and "l_speed g \<le> l_n_fs cur" and "0 < l_n_fs cur" and "l_n_fs cur \<le> 16777216"
  shows "\<exists>p' bs. send_command_gl_IB b p w = Some (p', w2) \<and> ib_tx p' = ib_tx p @ bs \<and>
    p50x_read bs = Some (Lok (l_id g) (p50x_speed g (l_n_fs cur))
        (l_direction g \<noteq> 0 \<or> bit (l_funcs g) 6 \<noteq> (bit (l_funcs g) 0 \<and> bit (l_funcs g) 5))
        (bit (l_funcs g) 0 \<noteq> bit (l_funcs g) 5) (map (bit (l_funcs g)) [1..<5]) # p50x_functions g)"
proof -
  obtain v where v: "ib_speed_byte g (l_n_fs cur) = Some v" "uint v = p50x_speed g (l_n_fs cur)"
    using ib_speed_byte_read assms(8-11) by blast
  have q: "\<not> queue_GL_isempty b w"
    using assms(1) by (auto simp: dequeueNextGL_def queue_GL_isempty_def ring_get_def ring_isempty_def split: if_splits)
  define cmd where "cmd = [XLok, addr_low_IB (l_id g), addr_high_IB (l_id g), v, ib_dir_byte g]"
  define p1 where "p1 = (snd (ib_pop p))\<lparr>ib_tx := ib_tx p @ cmd, ib_rx := r\<rparr>"
  have s: "ib_send cmd x (snd (ib_pop p)) = (0, p1)" for x
    using assms(5) by (simp add: ib_send_now p1_def)
  have run: "send_command_gl_IB b p w = Some (ib_functions g 0 p1, w2)"
    using q assms(1-4) v(1) s [of "ib_byte (fst (ib_pop p))"]
    by (auto simp: send_command_gl_IB_def case_prod_unfold Let_def cmd_def)
  obtain fs where fs: "ib_tx (ib_functions g 0 p1) = ib_tx p1 @ fs" "p50x_read fs = Some (p50x_functions g)"
    using ib_functions_read [of g 0 p1] assms(6,7) by auto
  have "p50x_lok (addr_low_IB (l_id g)) (addr_high_IB (l_id g)) v (ib_dir_byte g) =
      Lok (l_id g) (p50x_speed g (l_n_fs cur))
        (l_direction g \<noteq> 0 \<or> bit (l_funcs g) 6 \<noteq> (bit (l_funcs g) 0 \<and> bit (l_funcs g) 5))
        (bit (l_funcs g) 0 \<noteq> bit (l_funcs g) 5) (map (bit (l_funcs g)) [1..<5])"
    using dir_byte_bits [of "l_funcs g" "l_direction g \<noteq> 0"] v(2) assms(6,7)
    by (cases "l_direction g = 0") (simp_all add: p50x_lok_def p50x_addr_bytes ib_dir_byte_def Let_def)
  then have "p50x_read (cmd @ fs) = Some (Lok (l_id g) (p50x_speed g (l_n_fs cur))
        (l_direction g \<noteq> 0 \<or> bit (l_funcs g) 6 \<noteq> (bit (l_funcs g) 0 \<and> bit (l_funcs g) 5))
        (bit (l_funcs g) 0 \<noteq> bit (l_funcs g) 5) (map (bit (l_funcs g)) [1..<5]) # p50x_functions g)"
    using fs(2) by (simp add: cmd_def)
  moreover have "ib_tx (ib_functions g 0 p1) = ib_tx p @ cmd @ fs" using fs(1) by (simp add: p1_def)
  ultimately show ?thesis using run by blast
qed

subsection \<open>Reports of the feedback modules\<close>

text \<open>What the Intellibox sends for modules with their two bytes of contacts.\<close>

definition fb_report :: "(8 word \<times> 8 word \<times> 8 word) list \<Rightarrow> 8 word list" where
  "fb_report ms = concat (map (\<lambda>(m, hi, lo). [m, hi, lo]) ms) @ [0]"

definition fb_set_module :: "nat \<Rightarrow> 8 word \<times> 8 word \<times> 8 word \<Rightarrow> world \<Rightarrow> world option" where
  "fb_set_module b m w =
     (case m of (m, hi, lo) \<Rightarrow> map_option snd (setFBmodul b (uint m) (256 * uint hi + uint lo) w))"

lemma two_bytes: "push_bit 8 (uint (hi :: 8 word)) OR uint (lo :: 8 word) = 256 * uint hi + uint lo"
proof -
  have "bit (uint lo) n \<Longrightarrow> n < 8" for n using bit_imp_le_length [of lo n] by (simp add: bit_uint_iff)
  then have "push_bit 8 (uint hi) AND uint lo = 0"
    by (intro bit_eqI) (auto simp: bit_and_iff bit_push_bit_iff dest: not_less [THEN iffD2])
  then have "push_bit 8 (uint hi) OR uint lo = push_bit 8 (uint hi) + uint lo"
    by (simp add: disjunctive_add_eq_or)
  then show ?thesis by (simp add: push_bit_eq_mult)
qed

text \<open>One round of the loop of \<open>check_status_fb_IB\<close>, with all its bytes on the line.\<close>

lemma ib_fb_round_now:
  "ib_rx p = map Some [hi, lo, n] @ r \<Longrightarrow> m \<noteq> 0 \<Longrightarrow>
   ib_fb_round b (m, p, w) = map_option (\<lambda>w. (True, n, p\<lparr>ib_rx := r\<rparr>, w)) (fb_set_module b (m, hi, lo) w)"
  by (cases "setFBmodul b (uint m) (256 * uint hi + uint lo) w")
     (auto simp: ib_fb_round_def ib_read_now fb_set_module_def two_bytes)

lemma ib_fb_loop_now:
  assumes "\<forall>m\<in>set ms. fst m \<noteq> 0" and "ib_rx p = tl (map Some (fb_report ms) @ r)"
  shows "map_option snd (repeat_while (ib_fb_round b) (hd (fb_report ms), p, w)) =
    map_option (\<lambda>w. (p\<lparr>ib_rx := r\<rparr>, w)) (loopM (fb_set_module b) ms w)"
  using assms
proof (induction ms arbitrary: p w)
  case Nil
  then show ?case by (simp add: fb_report_def repeat_while.simps ib_fb_round_def) 
next
  case (Cons x ms)
  obtain m hi lo where x: "x = (m, hi, lo)" by (cases x)
  have rep: "fb_report (x # ms) = m # hi # lo # fb_report ms" by (simp add: fb_report_def x)
  have ne: "fb_report ms \<noteq> []" by (simp add: fb_report_def)
  then have rx: "ib_rx p = map Some [hi, lo, hd (fb_report ms)] @ tl (map Some (fb_report ms) @ r)"
    using Cons.prems(2) unfolding rep by (cases "fb_report ms") simp_all
  have step: "ib_fb_round b (m, p, w) =
      map_option (\<lambda>w. (True, hd (fb_report ms), p\<lparr>ib_rx := tl (map Some (fb_report ms) @ r)\<rparr>, w)) (fb_set_module b x w)"
    using ib_fb_round_now [OF rx, of m b w] Cons.prems(1) x by simp
  show ?case
  proof (cases "fb_set_module b x w")
    case None
    then show ?thesis using step by (simp add: rep repeat_while.simps)
  next
    case (Some w1)
    then show ?thesis
      using step Cons.IH [of "p\<lparr>ib_rx := tl (map Some (fb_report ms) @ r)\<rparr>" w1] Cons.prems(1)
      by (simp add: rep repeat_while.simps [of _ "(m, p, w)"])
  qed
qed

text \<open>C20: The report of the feedback modules is taken from the line whole: every module, in the
  order of the report, is set to its two bytes of contacts, what follows stays on the line,
  and the loop ends at the module number 0.\<close>

theorem ib_feedback_reported:
  assumes "\<forall>m\<in>set ms. fst m \<noteq> 0" and "ib_rx p = map Some (fb_report ms) @ r"
  shows "check_status_fb_IB b p w =
    map_option (\<lambda>w. ((snd (ib_pop p))\<lparr>ib_tx := ib_tx p @ [XEvtSen], ib_rx := r\<rparr>, w)) (loopM (fb_set_module b) ms w)"
proof -
  have "fb_report ms \<noteq> []" by (simp add: fb_report_def)
  then have rx: "ib_rx (snd (ib_pop p)) = Some (hd (fb_report ms)) # tl (map Some (fb_report ms) @ r)"
    using assms(2) by (cases "fb_report ms") simp_all
  let ?p = "(snd (ib_pop p))\<lparr>ib_tx := ib_tx p @ [XEvtSen], ib_rx := tl (map Some (fb_report ms) @ r)\<rparr>"
  have "check_status_fb_IB b p w = map_option snd (repeat_while (ib_fb_round b) (hd (fb_report ms), ?p, w))"
    by (simp add: check_status_fb_IB_def case_prod_unfold Let_def ib_send_now [OF rx])
  then show ?thesis using ib_fb_loop_now [OF assms(1), of ?p r b w] by simp
qed

subsection \<open>A silent line\<close>

text \<open>A loop that goes round again in every state of a set it does not leave has no result.\<close>

lemma repeat_while_never:
  assumes "P s" and "\<And>s again s'. P s \<Longrightarrow> body s = Some (again, s') \<Longrightarrow> again \<and> P s'"
  shows "repeat_while body s = None"
proof -
  have "repeat_while f s = Some s' \<Longrightarrow> f = body \<longrightarrow> \<not> P s" for f s'
  proof (erule repeat_while.raw_induct [where P = "\<lambda>f s s'. f = body \<longrightarrow> \<not> P s", rotated])
    fix rep f s s'
    assume IH: "\<And>f s s'. rep f s = Some s' \<Longrightarrow> f = body \<longrightarrow> \<not> P s"
      and r: "(case f s of None \<Rightarrow> None | Some (again, s) \<Rightarrow> if again then rep f s else Some s) = Some s'"
    obtain again t where "f s = Some (again, t)" "if again then rep f t = Some s' else t = s'"
      using r by (auto split: option.splits if_splits)
    then show "f = body \<longrightarrow> \<not> P s" using IH [of f t s'] assms(2) [of s again t] by auto
  qed
  then show ?thesis using assms(1) by (cases "repeat_while body s") auto
qed

lemma ib_read_silent: "ib_rx p = [] \<Longrightarrow> ib_read v p = (v, p)"
  by (simp add: ib_read_def readByte_IB_def eval_nat_numeral)

lemma ib_attempts_silent: "ib_rx p = [] \<Longrightarrow> readByte_IB v p = (-1, v, p)"
  by (simp add: readByte_IB_def eval_nat_numeral)

lemma ib_write_rx [simp]: "ib_rx (ib_write bs p) = ib_rx p"
  by (simp add: ib_write_def)

lemma ib_power_silent: "ib_rx p = [] \<Longrightarrow> send_command_power_IB b p w = None"
  unfolding send_command_power_IB_def
  by (rule repeat_while_never [where P = "\<lambda>s. ib_rx (snd s) = []"])
     (auto simp: ib_power_round_def ib_attempts_silent case_prod_unfold)

lemma ib_pt_silent: "ib_rx p = [] \<Longrightarrow> check_status_pt_IB b p w = None"
proof -
  assume "ib_rx p = []"
  then have "repeat_while ib_pt_round (x, snd (ib_pop p)) = None" for x
    by (intro repeat_while_never [where P = "\<lambda>s. ib_rx (snd s) = []"])
       (auto simp: ib_pt_round_def ib_attempts_silent case_prod_unfold)
  then show ?thesis by (simp add: check_status_pt_IB_def case_prod_unfold Let_def)
qed

lemma ib_gl_parse_silent: "ib_rx p = [] \<Longrightarrow> ib_gl_parse rr g p = (r, g', q) \<Longrightarrow> r = rr AND 0x3f \<and> q = p"
  by (auto simp: ib_gl_parse_def ib_read_silent Let_def)

lemma low_six: "(c AND 0x3f) < (0x80 :: 8 word)"
  by (rule all_bytesI [where P = "\<lambda>c. (c AND 0x3f) < 0x80"]) code_simp

lemma ib_gl_silent:
  assumes "rr < 0x80" and "ib_rx p = []"
  shows "repeat_while (ib_gl_event b) (rr, g, cur, p, w) = None"
proof (rule repeat_while_never [where P = "\<lambda>s. fst s < 0x80 \<and> ib_rx (fst (snd (snd (snd s)))) = []"])
  fix s again s'
  assume P: "fst s < 0x80 \<and> ib_rx (fst (snd (snd (snd s)))) = []" and e: "ib_gl_event b s = Some (again, s')"
  obtain rr g cur p w where s: "s = (rr, g, cur, p, w)" by (cases s)
  obtain r g1 q where q: "ib_gl_parse rr g p = (r, g1, q)" by (cases "ib_gl_parse rr g p")
  have "r = rr AND 0x3f \<and> q = p" using ib_gl_parse_silent [OF _ q] P s by simp
  then have "again \<and> fst s' = rr AND 0x3f \<and> fst (snd (snd (snd s'))) = p"
    using e P unfolding ib_gl_event_def s
    by (simp add: q not_le [symmetric] bind_eq_Some_conv)
       (auto simp: ib_read_silent case_prod_unfold Let_def split: if_splits)
  then show "again \<and> fst s' < 0x80 \<and> ib_rx (fst (snd (snd (snd s')))) = []"
    using P s low_six by simp
qed (use assms in simp)

lemma check_gl_silent:
  "rr < 0x80 \<Longrightarrow> ib_rx p = [Some rr] \<Longrightarrow> check_status_gl_IB b p w = None"
  using ib_send_now [of "snd (ib_pop p)" rr "[]" "[XEvtLok]"]
  by (simp add: check_status_gl_IB_def case_prod_unfold Let_def ib_gl_silent)

text \<open>C34: If the Intellibox falls silent after the first byte of a report of locomotives, or
  gives no answer to a change of the power state or to the question for the result of
  programming, the driver does not come back from its loop: it never gives up.\<close>

theorem ib_silence_hangs:
  assumes "ib_rx p = []" and "ib_rx q = [Some rr]" and "rr < 0x80"
    and "power_changed (buses w b) = 1" and "emergency_on_ib p = 0"
  shows "ib_turn b p w = None \<and> check_status_pt_IB b p w = None \<and> check_status_gl_IB b q w = None"
proof -
  have "ib_turn b p w = None"
    using assms(1,4,5) by (simp add: ib_turn_def ib_power_change_def ib_power_silent upd_def)
  then show ?thesis using ib_pt_silent assms(1) check_gl_silent assms(2,3) by blast
qed

subsection \<open>Examples\<close>

definition sample_ib :: ib where
  "sample_ib = \<lparr>ib_number_ga = 10, ib_number_gl = 10, ib_number_fb = 2, ib_last_bit = 0, ib_last_type = None,
     ib_last_typeaddr = 0, ib_last_value = 0, ib_tga = replicate 50 zero_ga, working_IB = 1, emergency_on_ib = 0,
     pt_initialized = False, isOpenDCC_XP = False, ib_tx = [], ib_rx = [],
     ib_junk = (\<lambda>_. \<lparr>jv_bytes = (\<lambda>_. 0), jv_gl = zero_gl, jv_cur = zero_gl, jv_ga = zero_ga\<rparr>)\<rparr>"

definition ib_cmd :: gl_state where
  "ib_cmd = sample_gl\<lparr>l_speed := 20, l_direction := 0, l_funcs := 0x41, l_n_func := 7\<rparr>"

definition ib_world :: world where
  "ib_world = sample_world\<lparr>gl_queue := (\<lambda>_. \<lparr>slots = [ib_cmd, zero_gl], wr = 1, rd = 0\<rparr>)\<rparr>"

text \<open>Backwards with the light and F6 on: the Intellibox reads forwards.\<close>

theorem ib_loco_command_witness:
  "\<exists>p' w2. send_command_gl_IB 1 (sample_ib\<lparr>ib_rx := [Some 0]\<rparr>) ib_world = Some (p', w2) \<and>
     p50x_read (ib_tx p') = Some [Lok 3 91 True True [False, False, False, False],
       Func 1 3 [False, False, False, False, False, True, False, False]]"
proof -
  let ?w1 = "ib_world\<lparr>gl_queue := upd (\<lambda>q. q\<lparr>rd := 1\<rparr>) 1 (gl_queue ib_world)\<rparr>"
  have d: "dequeueNextGL 1 ib_world = Some (ib_cmd, ?w1)"
    by (simp add: dequeueNextGL_def ib_world_def ring_get_def ring_next_def upd_def)
  have ini: "isInitializedGL 1 3 ?w1" "nat 3 < length (glstate (gl ?w1 1))" "gl_at 1 3 ?w1 = sample_gl"
    by (simp_all add: isInitializedGL_def isValidGL_def ib_world_def sample_world_def sample_gl_def)
  have id: "l_id ib_cmd = 3" by (simp add: ib_cmd_def sample_gl_def)
  then have c: "cacheGetGL 1 (l_id ib_cmd) ?w1 = Some sample_gl" using ini by (simp add: cacheGetGL_def)
  have "sess_inv ?w1" using world_inv_sess [OF sample_world_inv] by (simp add: ib_world_def sess_inv_def)
  then have "\<exists>rc w2. cacheSetGL 1 (l_id ib_cmd) ib_cmd ?w1 = Some (rc, w2)"
    using cacheSetGL_defined [OF _ ini(1,2), of ib_cmd] id by (simp add: ib_cmd_def sample_gl_def)
  then obtain rc w2 where s: "cacheSetGL 1 (l_id ib_cmd) ib_cmd ?w1 = Some (rc, w2)" by blast
  have speed: "p50x_speed ib_cmd 28 = 91" and
    bits: "map (bit (0x41 :: 32 word)) [0..<9] = [True, False, False, False, False, False, True, False, False]"
    by (simp add: p50x_speed_def ib_cmd_def sample_gl_def) code_simp
  have funcs: "p50x_functions ib_cmd = [Func 1 3 [False, False, False, False, False, True, False, False]]"
    using bits by (simp add: p50x_functions_def ib_cmd_def sample_gl_def upt_rec)
  let ?p = "sample_ib\<lparr>ib_rx := [Some 0]\<rparr>"
  have "l_direction ib_cmd \<noteq> l_direction sample_gl \<or> l_speed ib_cmd \<noteq> l_speed sample_gl \<or>
      l_funcs ib_cmd \<noteq> l_funcs sample_gl"
    and fs: "l_n_fs sample_gl = 28" "l_speed ib_cmd = 20" "l_direction ib_cmd = 0" "l_funcs ib_cmd = 0x41"
    by (simp_all add: ib_cmd_def sample_gl_def zero_gl_def)
  then obtain p' bs where "send_command_gl_IB 1 ?p ib_world = Some (p', w2)" "ib_tx p' = ib_tx ?p @ bs"
      "p50x_read bs = Some (Lok 3 91 (0 \<noteq> (0 :: int) \<or> bit (0x41 :: 32 word) 6 \<noteq> (bit (0x41 :: 32 word) 0 \<and> bit (0x41 :: 32 word) 5))
        (bit (0x41 :: 32 word) 0 \<noteq> bit (0x41 :: 32 word) 5) (map (bit (0x41 :: 32 word)) [1..<5]) # p50x_functions ib_cmd)"
    using ib_loco_command [OF d c s, of ?p "[]"] by (auto simp: id speed)
  then show ?thesis using bits by (intro exI [of _ p'] exI [of _ w2]) (simp add: funcs sample_ib_def upt_rec)
qed

theorem ib_feedback_reported_witness:
  "check_status_fb_IB 1 (sample_ib\<lparr>ib_rx := map Some [1, 0, 5, 0, 7]\<rparr>) sample_world =
     map_option (\<lambda>w. ((snd (ib_pop sample_ib))\<lparr>ib_tx := [XEvtSen], ib_rx := [Some 7]\<rparr>, w))
       (map_option snd (setFBmodul 1 1 5 sample_world))"
  using ib_feedback_reported [of "[(1, 0, 5)]" "sample_ib\<lparr>ib_rx := map Some [1, 0, 5, 0, 7]\<rparr>" "[Some 7]" 1 sample_world]
  by (cases "setFBmodul 1 1 5 sample_world") (simp_all add: fb_report_def fb_set_module_def sample_ib_def ib_pop_def)

theorem ib_silence_hangs_witness:
  "ib_turn 1 sample_ib (sample_world\<lparr>buses := upd (\<lambda>d. d\<lparr>power_changed := 1\<rparr>) 1 (buses sample_world)\<rparr>) = None"
  using ib_silence_hangs [of sample_ib "sample_ib\<lparr>ib_rx := [Some 1]\<rparr>" 1]
  by (simp add: sample_ib_def upd_def)

end
