(* ===== verification/Dcc_Versions.thy ===== *)
theory Dcc_Versions
  imports Dcc_Translate "HOL-Library.Monad_Syntax"
begin

text \<open>
  The two older translations of a DCC bit stream, \<open>translateBitstream2Packetstream_v1\<close> and
  \<open>_v2\<close> of \<open>ddl_nmra.c\<close>, which a configuration may choose: both search with backtracking for
  a partition of the stream into the patterns of the table \<open>TranslateData\<close>, each of which is
  one byte on the serial line. The arrays are lists; what a function leaves in the part of the
  packet it does not return stays there. Both always end, and what they return reads as the
  stream that the default version sends.
\<close>

subsection \<open>The table\<close>

definition TranslateData :: "(bits \<times> nat) list" where
  "TranslateData =
     (let l = False; H = True
      in [([l], 0xF0), ([l, l], 0xC6), ([l, H], 0x78), ([H, l], 0xE1), ([l, l, H], 0x66), ([l, H, l], 0x96),
          ([l, H, H], 0x5C), ([H, l, l], 0x99), ([H, l, H], 0x71), ([H, H, l], 0xC5), ([l, H, H, H], 0x56),
          ([H, l, H, H], 0x59), ([H, H, l, H], 0x65), ([H, H, H, l], 0x95), ([H, H, H, H, H], 0x55)])"

definition DataCnt :: nat where "DataCnt = 15"

definition tr_pattern :: "nat \<Rightarrow> bits" where
  "tr_pattern i = fst (TranslateData ! i)"

definition tr_value :: "nat \<Rightarrow> nat" where
  "tr_value i = snd (TranslateData ! i)"

text \<open>\<open>strncmp\<close> with the length of the pattern, and the search for the first pattern that fits, from \<open>i\<close> - 1
  downwards.\<close>

definition fits :: "bits \<Rightarrow> nat \<Rightarrow> bool" where
  "fits rest i \<longleftrightarrow> take (length (tr_pattern i)) rest = tr_pattern i"

fun search :: "bits \<Rightarrow> nat \<Rightarrow> nat option" where
  "search rest 0 = None"
| "search rest (Suc i) = (if fits rest i then Some i else search rest i)"

lemma search_fits: "search rest n = Some i \<Longrightarrow> i < n \<and> fits rest i"
  by (induction n) (auto split: if_splits)

subsection \<open>Version 2\<close>

text \<open>\<open>tr_next\<close> is the variable \<open>i\<close> plus one: the number of patterns still to be tried.\<close>

record v2_state =
  tr_pos :: nat
  tr_next :: nat
  tr_j :: nat
  tr_stack :: "nat list"
  tr_out :: "nat list"
  tr_ret :: "nat option"

definition v2_init :: v2_state where
  "v2_init = \<lparr>tr_pos = 0, tr_next = DataCnt, tr_j = 0, tr_stack = replicate PKTSIZE 0,
     tr_out = replicate PKTSIZE 0, tr_ret = None\<rparr>"

text \<open>Back to the last level.\<close>

definition v2_back :: "v2_state \<Rightarrow> v2_state" where
  "v2_back s =
     (if 0 < tr_j s then
        let j = tr_j s - 1; i = tr_stack s ! j
        in s\<lparr>tr_j := j, tr_pos := tr_pos s - length (tr_pattern i), tr_next := i\<rparr>
      else s\<lparr>tr_ret := Some 0\<rparr>)"

definition v2_push :: "nat \<Rightarrow> v2_state \<Rightarrow> v2_state" where
  "v2_push i s =
     (let j = tr_j s
      in s\<lparr>tr_out := (tr_out s)[j := tr_value i], tr_pos := tr_pos s + length (tr_pattern i),
           tr_stack := (tr_stack s)[j := i], tr_j := j + 1, tr_next := DataCnt,
           tr_ret := (if PKTSIZE \<le> j + 1 then Some 0 else None)\<rparr>)"

definition v2_step :: "bits \<Rightarrow> v2_state \<Rightarrow> v2_state" where
  "v2_step bs s =
     (let rest = drop (tr_pos s) bs
      in if length rest \<le> 5 \<and> rest = replicate (length rest) True
         then s\<lparr>tr_out := (tr_out s)[tr_j s := 0x55], tr_ret := Some (tr_j s + 2)\<rparr>
         else (case search rest (tr_next s) of None \<Rightarrow> v2_back s | Some i \<Rightarrow> v2_push i s))"

definition v2_running :: "bits \<Rightarrow> v2_state \<Rightarrow> bool" where
  "v2_running bs s \<longleftrightarrow> tr_ret s = None \<and> tr_pos s < length bs"

text \<open>The number of bytes returned, and the packet.\<close>

definition v2_result :: "v2_state \<Rightarrow> nat \<times> nat list" where
  "v2_result s = ((case tr_ret s of Some n \<Rightarrow> n | None \<Rightarrow> tr_j s + 1), tr_out s)"

definition translateBitstream2Packetstream_v2 :: "bits \<Rightarrow> (nat \<times> nat list) option" where
  "translateBitstream2Packetstream_v2 bs = map_option v2_result (while_option (v2_running bs) (v2_step bs) v2_init)"

subsection \<open>Version 1\<close>

definition BUFFERSIZE :: nat where "BUFFERSIZE = 1000"
definition NMRA_STACKSIZE :: nat where "NMRA_STACKSIZE = 200"

text \<open>Whether the stream ends with one of the patterns. For fewer than 5 bits the code compares from
  before the start of the buffer.\<close>

definition translateabel :: "bits \<Rightarrow> bool option" where
  "translateabel bs =
     (if length bs < 5 then None
      else Some (\<exists>i\<in>set [0..<DataCnt]. drop (length bs - length (tr_pattern i)) bs = tr_pattern i))"

record v1_state =
  w1_buf :: bits
  w1_pos :: nat
  w1_next :: nat
  w1_j :: nat
  w1_pstack :: int
  w1_stack :: "nat list"
  w1_high :: nat
  w1_correction :: bool
  w1_out :: "nat list"
  w1_ret :: "nat option"
  w1_overrun :: bool

definition v1_init :: "bits \<Rightarrow> bool \<Rightarrow> v1_state" where
  "v1_init bs correction =
     \<lparr>w1_buf = bs, w1_pos = 0, w1_next = DataCnt, w1_j = 0, w1_pstack = 0, w1_stack = replicate NMRA_STACKSIZE 0,
      w1_high = 0, w1_correction = correction, w1_out = replicate PKTSIZE 0, w1_ret = None, w1_overrun = False\<rparr>"

definition v1_back :: "bool \<Rightarrow> v1_state \<Rightarrow> v1_state" where
  "v1_back force s =
     (let p = w1_pstack s - 1
      in if 0 \<le> p then
           let i = w1_stack s ! nat p; j = w1_j s - 1
           in s\<lparr>w1_pstack := p, w1_pos := w1_pos s - length (tr_pattern i),
                w1_j := (if 7 \<le> int (w1_high s) - int j \<and> \<not> force then 0 else j), w1_next := i\<rparr>
         else s\<lparr>w1_pstack := p\<rparr>)"

definition v1_push :: "nat \<Rightarrow> v1_state \<Rightarrow> v1_state" where
  "v1_push i s =
     (let j = w1_j s + 1
      in s\<lparr>w1_out := (w1_out s)[w1_j s := tr_value i], w1_j := j, w1_high := max (w1_high s) j,
           w1_pos := w1_pos s + length (tr_pattern i), w1_stack := (w1_stack s)[nat (w1_pstack s) := i],
           w1_pstack := w1_pstack s + 1, w1_next := DataCnt\<rparr>)"

text \<open>A restart with one more \<open>'1'\<close> at the end. The buffer has room for \<open>BUFFERSIZE\<close> - 1 characters.\<close>

definition v1_restart :: "v1_state \<Rightarrow> v1_state" where
  "v1_restart s =
     s\<lparr>w1_buf := w1_buf s @ [True], w1_pos := 0, w1_j := 0, w1_pstack := 0, w1_next := DataCnt,
       w1_correction := False, w1_out := replicate PKTSIZE 0,
       w1_overrun := (BUFFERSIZE \<le> length (w1_buf s) + 1)\<rparr>"

definition v1_step :: "bool \<Rightarrow> v1_state \<Rightarrow> v1_state" where
  "v1_step force s =
     (let s = (case search (drop (w1_pos s) (w1_buf s)) (w1_next s) of
                 None \<Rightarrow> v1_back force s | Some i \<Rightarrow> v1_push i s)
      in if PKTSIZE - 1 \<le> w1_j s \<or> length (w1_buf s) = BUFFERSIZE then s\<lparr>w1_ret := Some 0\<rparr>
         else if w1_j s = 0 \<or> w1_pstack s < 0 \<or> int NMRA_STACKSIZE - 1 < w1_pstack s then v1_restart s
         else s)"

definition v1_running :: "v1_state \<Rightarrow> bool" where
  "v1_running s \<longleftrightarrow> w1_ret s = None \<and> \<not> w1_overrun s \<and> w1_pos s < length (w1_buf s)"

definition v1_result :: "v1_state \<Rightarrow> (nat \<times> nat list) option" where
  "v1_result s =
     (if w1_overrun s then None
      else case w1_ret s of
          Some n \<Rightarrow> Some (n, w1_out s)
        | None \<Rightarrow> Some (if w1_correction s then (w1_j s + 2, (w1_out s)[w1_j s := 0x99]) else (w1_j s + 1, w1_out s)))"

text \<open>A stream of 999 bits and more fills the buffer without its terminating null.\<close>

definition translateBitstream2Packetstream_v1 :: "bool \<Rightarrow> bits \<Rightarrow> (nat \<times> nat list) option" where
  "translateBitstream2Packetstream_v1 force bs =
     (if BUFFERSIZE - 1 \<le> length bs then None
      else do {
        ok \<leftarrow> translateabel bs;
        s \<leftarrow> while_option v1_running (v1_step force) (v1_init (if ok then bs else butlast bs) (\<not> ok));
        v1_result s })"

text \<open>The version the bus is configured for.\<close>

definition translateBitstream2Packetstream :: "nat \<Rightarrow> bool \<Rightarrow> bits \<Rightarrow> (nat \<times> nat list) option" where
  "translateBitstream2Packetstream NMRADCC_TR_V force bs =
     (if NMRADCC_TR_V = 1 then translateBitstream2Packetstream_v1 force bs
      else if NMRADCC_TR_V = 2 then translateBitstream2Packetstream_v2 bs
      else if NMRADCC_TR_V = 3 then map_option (\<lambda>out. (length out, out)) (translateBitstream2Packetstream_v3 bs)
      else Some (0, []))"


subsection \<open>A partition of the stream and its bytes\<close>

lemma TranslateData_sends: "list_all (\<lambda>(p, v). halves (uart v) = dup p \<and> p \<noteq> []) TranslateData"
  by (simp add: TranslateData_def Let_def uart_def upt_rec)

lemma entry_bits: "i < DataCnt \<Longrightarrow> halves (uart (tr_value i)) = dup (tr_pattern i) \<and> tr_pattern i \<noteq> []"
proof -
  assume "i < DataCnt"
  then have "TranslateData ! i \<in> set TranslateData" by (intro nth_mem) (simp add: TranslateData_def Let_def DataCnt_def)
  then have "case TranslateData ! i of (p, v) \<Rightarrow> halves (uart v) = dup p \<and> p \<noteq> []"
    by (rule bspec [OF TranslateData_sends [unfolded list_all_iff]])
  then show ?thesis by (simp add: tr_pattern_def tr_value_def case_prod_unfold)
qed

definition tiles :: "bits \<Rightarrow> nat \<Rightarrow> nat \<Rightarrow> nat list \<Rightarrow> nat list \<Rightarrow> bool" where
  "tiles bs pos j stack out \<longleftrightarrow>
     j \<le> length stack \<and> j \<le> length out \<and> (\<forall>k<j. stack ! k < DataCnt \<and> out ! k = tr_value (stack ! k)) \<and>
     pos \<le> length bs \<and> take pos bs = concat (map tr_pattern (take j stack))"

lemma tiles_start: "tiles bs 0 0 stack out"
  by (simp add: tiles_def)

lemma tiles_push:
  assumes "tiles bs pos j stack out" and "fits (drop pos bs) i" and "i < DataCnt" and "j < length stack" and "j < length out"
  shows "tiles bs (pos + length (tr_pattern i)) (Suc j) (stack[j := i]) (out[j := tr_value i])"
proof -
  let ?n = "length (tr_pattern i)"
  have f: "take ?n (drop pos bs) = tr_pattern i" using assms(2) by (simp add: fits_def)
  then have "?n \<le> length bs - pos" by (metis length_drop length_take min.cobounded1 min.commute)
  moreover have "take (pos + ?n) bs = take pos bs @ tr_pattern i" using f by (simp add: take_add)
  moreover have "take (Suc j) (stack[j := i]) = take j stack @ [i]"
    using assms(4) by (simp add: take_Suc_conv_app_nth)
  ultimately show ?thesis
    using assms by (auto simp: tiles_def nth_list_update less_Suc_eq)
qed

lemma tiles_pop:
  assumes "tiles bs pos (Suc j) stack out"
  shows "tiles bs (pos - length (tr_pattern (stack ! j))) j stack out"
proof -
  let ?c = "concat (map tr_pattern (take j stack))" and ?p = "tr_pattern (stack ! j)"
  have t: "take pos bs = ?c @ ?p" "pos \<le> length bs" "Suc j \<le> length stack"
    using assms by (simp_all add: tiles_def take_Suc_conv_app_nth)
  then have pos: "pos = length ?c + length ?p" by (metis length_append length_take min.absorb2)
  have "take (length ?c) (take pos bs) = ?c" using t(1) by simp
  then have "take (pos - length ?p) bs = ?c" using pos by (simp add: min_def)
  then show ?thesis using assms diff_le_self order_trans by (auto simp: tiles_def)
qed

lemma tiles_sends: "tiles bs pos j stack out \<Longrightarrow> halves (wave (take j out)) = dup (take pos bs)"
proof -
  assume t: "tiles bs pos j stack out"
  then have "map (\<lambda>b. halves (uart b)) (take j out) = map (\<lambda>i. dup (tr_pattern i)) (take j stack)"
    by (intro nth_equalityI) (auto simp: tiles_def entry_bits)
  moreover have "concat (map (\<lambda>i. dup (tr_pattern i)) is) = dup (concat (map tr_pattern is))" for "is"
    by (induction "is") simp_all
  ultimately show ?thesis using t by (simp add: halves_wave tiles_def)
qed

lemma wave_append: "halves (wave (a @ b)) = halves (wave a) @ halves (wave b)"
  by (simp add: halves_wave)

text \<open>The search ends: the stack and the number of patterns still to be tried, read as a number, decrease
  with every step forwards and do not grow when it goes back.\<close>

definition weight :: "nat list \<Rightarrow> nat \<Rightarrow> nat \<Rightarrow> nat" where
  "weight stack j next = (\<Sum>k<j. stack ! k * 16 ^ (PKTSIZE - k)) + next * 16 ^ (PKTSIZE - j)"

lemma weight_push:
  assumes "i < next" and "j < PKTSIZE" and "j < length stack"
  shows "weight (stack[j := i]) (Suc j) DataCnt < weight stack j next"
proof -
  let ?w = "16 ^ (PKTSIZE - j) :: nat"
  have w: "?w = 16 * 16 ^ (PKTSIZE - Suc j)"
    using assms(2) by (metis Suc_diff_Suc power_Suc)
  have "weight (stack[j := i]) (Suc j) DataCnt =
      (\<Sum>k<j. stack ! k * 16 ^ (PKTSIZE - k)) + i * ?w + DataCnt * 16 ^ (PKTSIZE - Suc j)"
    using assms(3) by (simp add: weight_def)
  moreover have "i * ?w + DataCnt * 16 ^ (PKTSIZE - Suc j) < (i + 1) * ?w" by (simp add: w DataCnt_def)
  moreover have "(i + 1) * ?w \<le> next * ?w" using assms(1) by (intro mult_right_mono) simp_all
  ultimately show ?thesis by (simp add: weight_def)
qed

lemma weight_pop: "weight stack j (stack ! j) \<le> weight stack (Suc j) next"
  by (simp add: weight_def)

lemma weight_less:
  assumes "\<forall>k<j. stack ! k < DataCnt" and "next \<le> DataCnt" and "j \<le> PKTSIZE"
  shows "weight stack j next < 16 ^ Suc PKTSIZE"
proof -
  have "(\<Sum>k<j. stack ! k * 16 ^ (PKTSIZE - k)) + 16 * 16 ^ (PKTSIZE - j) \<le> 16 ^ Suc PKTSIZE"
    using assms(1,3)
  proof (induction j)
    case (Suc j)
    let ?w = "16 ^ (PKTSIZE - j) :: nat"
    have w: "?w = 16 * 16 ^ (PKTSIZE - Suc j)"
      using Suc.prems(2) by (metis Suc_diff_Suc Suc_le_lessD power_Suc)
    have "stack ! j * ?w \<le> 15 * ?w" using Suc.prems(1) by (intro mult_right_mono) (auto simp: DataCnt_def less_Suc_eq_le)
    then have "stack ! j * ?w + 16 * 16 ^ (PKTSIZE - Suc j) \<le> 16 * ?w" using w by simp
    then show ?case using Suc by fastforce
  qed simp
  moreover have "next * 16 ^ (PKTSIZE - j) < 16 * 16 ^ (PKTSIZE - j)"
    using assms(2) by (intro mult_strict_right_mono) (simp_all add: DataCnt_def)
  ultimately show ?thesis unfolding weight_def by linarith
qed

subsection \<open>Version 2 ends\<close>

definition v2_inv :: "bits \<Rightarrow> v2_state \<Rightarrow> bool" where
  "v2_inv bs s \<longleftrightarrow>
     tiles bs (tr_pos s) (tr_j s) (tr_stack s) (tr_out s) \<and> length (tr_stack s) = PKTSIZE \<and>
     length (tr_out s) = PKTSIZE \<and> tr_next s \<le> DataCnt \<and> (tr_ret s = None \<longrightarrow> tr_j s < PKTSIZE) \<and>
     (\<forall>n. tr_ret s = Some n \<longrightarrow> n = 0 \<or>
        n = tr_j s + 2 \<and> tr_j s < PKTSIZE \<and> tr_out s ! tr_j s = 0x55 \<and>
        (\<exists>l\<le>5. drop (tr_pos s) bs = replicate l True))"

definition v2_measure :: "v2_state \<Rightarrow> nat" where
  "v2_measure s = 2 * weight (tr_stack s) (tr_j s) (tr_next s) + tr_j s + (if tr_ret s = None then 2 else 0)"

lemma v2_init_inv: "v2_inv bs v2_init"
  by (simp add: v2_inv_def v2_init_def tiles_start PKTSIZE_def)

lemma v2_push_inv:
  assumes "v2_inv bs s" and "v2_running bs s" and "search (drop (tr_pos s) bs) (tr_next s) = Some i"
  shows "v2_inv bs (v2_push i s)" and "v2_measure (v2_push i s) < v2_measure s"
proof -
  have s: "i < tr_next s" "fits (drop (tr_pos s) bs) i" using search_fits [OF assms(3)] by simp_all
  have inv: "tiles bs (tr_pos s) (tr_j s) (tr_stack s) (tr_out s)" "length (tr_stack s) = PKTSIZE"
      "length (tr_out s) = PKTSIZE" "tr_next s \<le> DataCnt" "tr_j s < PKTSIZE" "tr_ret s = None"
    using assms(1,2) by (simp_all add: v2_inv_def v2_running_def)
  then show "v2_inv bs (v2_push i s)"
    using tiles_push [OF inv(1) s(2)] s(1) by (simp add: v2_inv_def v2_push_def Let_def)
  have "weight ((tr_stack s)[tr_j s := i]) (Suc (tr_j s)) DataCnt < weight (tr_stack s) (tr_j s) (tr_next s)"
    using weight_push s(1) inv by simp
  then show "v2_measure (v2_push i s) < v2_measure s"
    using inv(6) by (simp add: v2_measure_def v2_push_def Let_def)
qed

lemma v2_back_inv:
  assumes "v2_inv bs s" and "v2_running bs s"
  shows "v2_inv bs (v2_back s)" and "v2_measure (v2_back s) < v2_measure s"
proof -
  have inv: "tiles bs (tr_pos s) (tr_j s) (tr_stack s) (tr_out s)" "length (tr_stack s) = PKTSIZE"
      "length (tr_out s) = PKTSIZE" "tr_j s < PKTSIZE" "tr_ret s = None"
    using assms by (simp_all add: v2_inv_def v2_running_def)
  have "v2_inv bs (v2_back s) \<and> v2_measure (v2_back s) < v2_measure s"
  proof (cases "tr_j s")
    case 0
    then show ?thesis using assms(1) inv(5) by (simp add: v2_back_def v2_inv_def v2_measure_def)
  next
    case (Suc j)
    then have "tiles bs (tr_pos s - length (tr_pattern (tr_stack s ! j))) j (tr_stack s) (tr_out s)"
      and "tr_stack s ! j < DataCnt"
      using tiles_pop inv(1) by (simp, simp add: tiles_def)
    then show ?thesis
      using inv Suc weight_pop [of "tr_stack s" j "tr_next s"]
      by (simp add: v2_back_def v2_inv_def v2_measure_def Let_def)
  qed
  then show "v2_inv bs (v2_back s)" "v2_measure (v2_back s) < v2_measure s" by blast+
qed

lemma v2_step_inv:
  assumes "v2_inv bs s" and "v2_running bs s"
  shows "v2_inv bs (v2_step bs s) \<and> v2_measure (v2_step bs s) < v2_measure s"
proof -
  let ?rest = "drop (tr_pos s) bs"
  show ?thesis
  proof (cases "length ?rest \<le> 5 \<and> ?rest = replicate (length ?rest) True")
    case True
    have "tiles bs (tr_pos s) (tr_j s) (tr_stack s) ((tr_out s)[tr_j s := 0x55])"
      using assms(1) by (auto simp: v2_inv_def tiles_def)
    then show ?thesis
      using True assms by (auto simp: v2_step_def v2_inv_def v2_measure_def v2_running_def)
  next
    case False
    then have "v2_step bs s = (case search ?rest (tr_next s) of None \<Rightarrow> v2_back s | Some i \<Rightarrow> v2_push i s)"
      unfolding v2_step_def Let_def by (rule if_not_P)
    then show ?thesis
      using v2_back_inv [OF assms] v2_push_inv [OF assms] by (cases "search ?rest (tr_next s)") simp_all
  qed
qed

lemma v2_ends: "\<exists>s. while_option (v2_running bs) (v2_step bs) v2_init = Some s \<and> v2_inv bs s \<and> \<not> v2_running bs s"
proof -
  have "\<exists>s. while_option (v2_running bs) (v2_step bs) v2_init = Some s"
  proof (rule measure_while_option_Some [where P = "v2_inv bs" and f = v2_measure])
    show "v2_inv bs s \<Longrightarrow> v2_running bs s \<Longrightarrow> v2_inv bs (v2_step bs s) \<and> v2_measure (v2_step bs s) < v2_measure s" for s
      by (rule v2_step_inv)
  qed (rule v2_init_inv)
  then obtain s where s: "while_option (v2_running bs) (v2_step bs) v2_init = Some s" by blast
  have step: "v2_inv bs (v2_step bs s)" if "v2_inv bs s" "v2_running bs s" for s
    using v2_step_inv [OF that] by simp
  show ?thesis
    using s while_option_rule [where P = "v2_inv bs", OF step s v2_init_inv] while_option_stop [OF s] by blast
qed

text \<open>A receiver that takes its phase from the first zero: preambles of any number of half waves are read.\<close>

definition dcc_sync :: "bool list \<Rightarrow> bits option" where
  "dcc_sync w = pair_halves (dropWhile id (halves w))"

lemma pair_halves_even: "pair_halves (dup bs) = Some bs"
  by (induction bs) auto

lemma dropWhile_ones: "dropWhile id (replicate n True @ xs) = dropWhile id xs"
  by (induction n) simp_all

lemma dup_ones: "dup (replicate n True) = replicate (n + n) True"
  by (induction n) simp_all

lemma sync_even: "halves w = dup (replicate k True @ False # r) \<Longrightarrow> dcc_sync w = Some (False # r)"
  by (simp add: dcc_sync_def dup_ones dropWhile_ones pair_halves_even del: replicate.simps)

lemma sync_odd: "sends out (replicate k True @ False # r) \<Longrightarrow> dcc_sync (wave out) = Some (False # r)"
proof -
  have p: "pair_halves (dup xs @ [True]) = Some xs" for xs by (rule pair_halves_dup)
  assume "sends out (replicate k True @ False # r)"
  then have "halves (wave out) = replicate (Suc (k + k)) True @ False # False # dup r @ [True]"
    by (simp add: sends_def dup_ones)
  then show ?thesis using p [of "False # r"] by (simp add: dcc_sync_def dropWhile_ones del: replicate.simps)
qed

lemma v2_sends:
  assumes "translateBitstream2Packetstream_v2 bs = Some (n, out)" and "n \<noteq> 0"
  shows "\<exists>m\<le>5. halves (wave (take (n - 1) out)) = dup (bs @ replicate m True)"
proof -
  obtain s where s: "v2_inv bs s" "\<not> v2_running bs s" "v2_result s = (n, out)"
    using assms(1) v2_ends [of bs] by (auto simp: translateBitstream2Packetstream_v2_def)
  have tile: "tiles bs (tr_pos s) (tr_j s) (tr_stack s) (tr_out s)" using s(1) by (simp add: v2_inv_def)
  have out: "out = tr_out s" using s(3) by (simp add: v2_result_def)
  show ?thesis
  proof (cases "tr_ret s")
    case None
    then have "n = tr_j s + 1" "tr_pos s = length bs"
      using s(2,3) tile by (auto simp: v2_result_def v2_running_def tiles_def)
    then show ?thesis using tiles_sends [OF tile] by (intro exI [of _ 0]) (simp add: out)
  next
    case (Some k)
    then have k: "k = n" using s(3) by (simp add: v2_result_def)
    then obtain l where e: "n = tr_j s + 2" "tr_j s < PKTSIZE" "out ! tr_j s = 0x55" "l \<le> 5"
        "drop (tr_pos s) bs = replicate l True" "length out = PKTSIZE"
      using s(1) Some assms(2) out by (auto simp: v2_inv_def)
    have "take (n - 1) out = take (tr_j s) out @ [0x55]"
      using e by (simp add: take_Suc_conv_app_nth)
    moreover have "replicate 5 True = [True, True, True, True, True]" by (simp add: numeral_eq_Suc)
    then have "halves (wave [0x55]) = dup (replicate 5 True)" by (simp add: wave_def)
    ultimately have "halves (wave (take (n - 1) out)) = dup (take (tr_pos s) bs) @ dup (replicate 5 True)"
      using tiles_sends [OF tile] by (simp only: wave_append out)
    moreover have "bs @ replicate (5 - l) True = take (tr_pos s) bs @ replicate 5 True"
      using e(4,5) by (metis append.assoc append_take_drop_id le_add_diff_inverse replicate_add)
    ultimately show ?thesis by (intro exI [of _ "5 - l"]) simp
  qed
qed

subsection \<open>Version 1 ends\<close>

text \<open>\<open>base\<close> is the stream the search starts with, without its last bit if \<open>c\<close>; restarts have appended
  ones to it.\<close>

definition v1_inv :: "bool \<Rightarrow> bits \<Rightarrow> v1_state \<Rightarrow> bool" where
  "v1_inv c base s \<longleftrightarrow>
     tiles (w1_buf s) (w1_pos s) (w1_j s) (w1_stack s) (w1_out s) \<and> w1_pstack s = int (w1_j s) \<and>
     length (w1_stack s) = NMRA_STACKSIZE \<and> length (w1_out s) = PKTSIZE \<and> w1_next s \<le> DataCnt \<and>
     w1_j s < PKTSIZE - 1 \<and>
     (\<exists>e. w1_buf s = base @ replicate e True \<and> w1_correction s = (c \<and> e = 0))"

text \<open>While it runs, \<open>v1_inv\<close> holds; a returned 0 or an overrun ends the loop.\<close>

definition v1_loop_inv :: "bool \<Rightarrow> bits \<Rightarrow> v1_state \<Rightarrow> bool" where
  "v1_loop_inv c base s \<longleftrightarrow>
     (w1_ret s = None \<and> \<not> w1_overrun s \<longrightarrow> v1_inv c base s \<and> length (w1_buf s) < BUFFERSIZE) \<and>
     (\<forall>n. w1_ret s = Some n \<longrightarrow> n = 0)"

definition v1_measure :: "v1_state \<Rightarrow> nat" where
  "v1_measure s =
     (BUFFERSIZE - length (w1_buf s)) * (2 * 16 ^ Suc PKTSIZE) +
     (2 * weight (w1_stack s) (w1_j s) (w1_next s) + w1_j s) +
     (if w1_ret s = None then 2 else 0)"

lemma v1_push_inv:
  assumes "v1_inv c base s" and "search (drop (w1_pos s) (w1_buf s)) (w1_next s) = Some i"
  defines "t \<equiv> v1_push i s"
  shows "tiles (w1_buf t) (w1_pos t) (w1_j t) (w1_stack t) (w1_out t)" and "w1_pstack t = int (w1_j t)"
    and "length (w1_stack t) = NMRA_STACKSIZE" and "length (w1_out t) = PKTSIZE" and "w1_next t = DataCnt"
    and "w1_buf t = w1_buf s" and "w1_correction t = w1_correction s" and "w1_ret t = w1_ret s"
    and "w1_overrun t = w1_overrun s" and "w1_j t = Suc (w1_j s)"
    and "weight (w1_stack t) (w1_j t) (w1_next t) < weight (w1_stack s) (w1_j s) (w1_next s)"
proof -
  have f: "i < w1_next s" "fits (drop (w1_pos s) (w1_buf s)) i" using search_fits [OF assms(2)] by simp_all
  have inv: "tiles (w1_buf s) (w1_pos s) (w1_j s) (w1_stack s) (w1_out s)" "w1_pstack s = int (w1_j s)"
      "length (w1_stack s) = 200" "length (w1_out s) = 80" "w1_next s \<le> DataCnt" "w1_j s < 79"
    using assms(1) by (simp_all add: v1_inv_def NMRA_STACKSIZE_def PKTSIZE_def)
  show "tiles (w1_buf t) (w1_pos t) (w1_j t) (w1_stack t) (w1_out t)"
    using tiles_push [OF inv(1) f(2)] f(1) inv by (simp add: t_def v1_push_def Let_def)
  show "w1_pstack t = int (w1_j t)" "length (w1_stack t) = NMRA_STACKSIZE" "length (w1_out t) = PKTSIZE"
    "w1_next t = DataCnt" "w1_buf t = w1_buf s" "w1_correction t = w1_correction s" "w1_ret t = w1_ret s"
    "w1_overrun t = w1_overrun s" "w1_j t = Suc (w1_j s)"
    using inv by (simp_all add: t_def v1_push_def Let_def NMRA_STACKSIZE_def PKTSIZE_def)
  show "weight (w1_stack t) (w1_j t) (w1_next t) < weight (w1_stack s) (w1_j s) (w1_next s)"
    using weight_push [OF f(1), of "w1_j s" "w1_stack s"] inv by (simp add: t_def v1_push_def Let_def PKTSIZE_def)
qed

lemma v1_back_inv:
  assumes "v1_inv c base s" and "t = v1_back force s"
  shows "w1_buf t = w1_buf s" and "w1_correction t = w1_correction s" and "w1_ret t = w1_ret s"
    and "w1_overrun t = w1_overrun s" and "w1_stack t = w1_stack s" and "w1_out t = w1_out s"
    and "w1_j t = 0 \<or> (tiles (w1_buf t) (w1_pos t) (w1_j t) (w1_stack t) (w1_out t) \<and> w1_pstack t = int (w1_j t) \<and>
      w1_next t \<le> DataCnt \<and> w1_j s = Suc (w1_j t) \<and>
      weight (w1_stack t) (w1_j t) (w1_next t) \<le> weight (w1_stack s) (w1_j s) (w1_next s))"
proof -
  have inv: "tiles (w1_buf s) (w1_pos s) (w1_j s) (w1_stack s) (w1_out s)" "w1_pstack s = int (w1_j s)"
    using assms(1) by (simp_all add: v1_inv_def)
  show "w1_buf t = w1_buf s" "w1_correction t = w1_correction s" "w1_ret t = w1_ret s"
    "w1_overrun t = w1_overrun s" "w1_stack t = w1_stack s" "w1_out t = w1_out s"
    by (simp_all add: assms(2) v1_back_def Let_def)
  show "w1_j t = 0 \<or> (tiles (w1_buf t) (w1_pos t) (w1_j t) (w1_stack t) (w1_out t) \<and> w1_pstack t = int (w1_j t) \<and>
      w1_next t \<le> DataCnt \<and> w1_j s = Suc (w1_j t) \<and>
      weight (w1_stack t) (w1_j t) (w1_next t) \<le> weight (w1_stack s) (w1_j s) (w1_next s))"
  proof (cases "w1_j s")
    case 0
    then show ?thesis using inv(2) by (simp add: assms(2) v1_back_def)
  next
    case (Suc j)
    then have "tiles (w1_buf s) (w1_pos s - length (tr_pattern (w1_stack s ! j))) j (w1_stack s) (w1_out s)"
      and "w1_stack s ! j < DataCnt"
      using tiles_pop inv(1) by (simp, simp add: tiles_def)
    then show ?thesis
      using inv(2) Suc weight_pop [of "w1_stack s" j "w1_next s"]
      by (auto simp: assms(2) v1_back_def Let_def)
  qed
qed

lemma v1_restart_inv:
  assumes "v1_inv c base s" and "w1_ret s = None" and "length (w1_buf s) < BUFFERSIZE"
    and "w1_buf t = w1_buf s" and "w1_ret t = None" and "length (w1_stack t) = NMRA_STACKSIZE"
  shows "v1_loop_inv c base (v1_restart t)" and "v1_measure (v1_restart t) < v1_measure s"
proof -
  obtain e where "w1_buf s = base @ replicate e True" using assms(1) by (auto simp: v1_inv_def)
  then have "w1_buf s @ [True] = base @ replicate (Suc e) True" by (simp add: replicate_append_same)
  then have "\<exists>e. w1_buf s @ [True] = base @ replicate e True \<and> 0 < e" by blast
  then show "v1_loop_inv c base (v1_restart t)"
    using assms(4-6) by (auto simp: v1_loop_inv_def v1_inv_def v1_restart_def tiles_start PKTSIZE_def)
  have "weight (w1_stack t) 0 DataCnt < 16 ^ Suc PKTSIZE" by (rule weight_less) simp_all
  then have "2 * weight (w1_stack t) 0 DataCnt + 2 \<le> 2 * 16 ^ Suc PKTSIZE" by linarith
  moreover have "BUFFERSIZE - length (w1_buf s) = Suc (BUFFERSIZE - Suc (length (w1_buf s)))" using assms(3) by simp
  ultimately show "v1_measure (v1_restart t) < v1_measure s"
    using assms(2,4,5) by (simp add: v1_measure_def v1_restart_def del: power_Suc)
qed

lemma v1_step_inv:
  assumes "v1_loop_inv c base s" and "v1_running s"
  shows "v1_loop_inv c base (v1_step force s) \<and> v1_measure (v1_step force s) < v1_measure s"
proof -
  have s: "v1_inv c base s" "w1_ret s = None" "\<not> w1_overrun s" "length (w1_buf s) < BUFFERSIZE"
    using assms by (auto simp: v1_loop_inv_def v1_running_def)
  have e: "\<exists>e. w1_buf s = base @ replicate e True \<and> w1_correction s = (c \<and> e = 0)"
    and j: "w1_j s < 79" and st: "length (w1_stack s) = NMRA_STACKSIZE" "length (w1_out s) = PKTSIZE"
    using s(1) by (simp_all add: v1_inv_def PKTSIZE_def)
  show ?thesis
  proof (cases "search (drop (w1_pos s) (w1_buf s)) (w1_next s)")
    case None
    define t where t: "t = v1_back force s"
    note b = v1_back_inv [OF s(1) t]
    have step: "v1_step force s = (if w1_j t = 0 \<or> w1_pstack t < 0 \<or> 199 < w1_pstack t then v1_restart t else t)"
      if "w1_j t < 79"
      using that s(4) b(1) by (simp add: v1_step_def None t [symmetric] PKTSIZE_def NMRA_STACKSIZE_def)
    show ?thesis
    proof (cases "w1_j t = 0")
      case True
      then show ?thesis using step v1_restart_inv [OF s(1,2,4), of t] b st s(2) by simp
    next
      case False
      then have "v1_step force s = t" using step b(7) j by simp
      moreover have "v1_inv c base t" "w1_ret t = None" using False b s(2) e j st by (simp_all add: v1_inv_def PKTSIZE_def)
      moreover have "v1_measure t < v1_measure s"
      proof -
        have "w1_j s = Suc (w1_j t)" using False b(7) by simp
        moreover have "weight (w1_stack t) (w1_j t) (w1_next t) \<le> weight (w1_stack s) (w1_j s) (w1_next s)"
          by (rule disjE [OF b(7)]) (use False in simp, (elim conjE), assumption)
        ultimately show ?thesis unfolding v1_measure_def using b(1,3) s(2) by simp
      qed
      ultimately show ?thesis using b s by (simp add: v1_loop_inv_def)
    qed
  next
    case (Some i)
    define t where "t = v1_push i s"
    note p = v1_push_inv [OF s(1) Some, folded t_def]
    have "v1_step force s = (if 79 \<le> w1_j t then t\<lparr>w1_ret := Some 0\<rparr> else t)"
      using s(4) p by (simp add: v1_step_def Some t_def [symmetric] PKTSIZE_def NMRA_STACKSIZE_def)
    then show ?thesis using p s e by (simp add: v1_loop_inv_def v1_inv_def v1_measure_def PKTSIZE_def)
  qed
qed

lemma v1_ends:
  assumes "length base < BUFFERSIZE"
  shows "\<exists>s. while_option v1_running (v1_step force) (v1_init base c) = Some s \<and> v1_loop_inv c base s \<and> \<not> v1_running s"
proof -
  have init: "v1_loop_inv c base (v1_init base c)"
    using assms by (simp add: v1_loop_inv_def v1_inv_def v1_init_def tiles_start PKTSIZE_def)
  have "\<exists>s. while_option v1_running (v1_step force) (v1_init base c) = Some s"
  proof (rule measure_while_option_Some [where P = "v1_loop_inv c base" and f = v1_measure])
    show "v1_loop_inv c base s \<Longrightarrow> v1_running s \<Longrightarrow>
        v1_loop_inv c base (v1_step force s) \<and> v1_measure (v1_step force s) < v1_measure s" for s
      by (rule v1_step_inv)
  qed (rule init)
  then obtain s where s: "while_option v1_running (v1_step force) (v1_init base c) = Some s" by blast
  have step: "v1_loop_inv c base (v1_step force s)" if "v1_loop_inv c base s" "v1_running s" for s
    using v1_step_inv [OF that] by simp
  show ?thesis
    using s while_option_rule [where P = "v1_loop_inv c base", OF step s init] while_option_stop [OF s] by blast
qed

text \<open>A stream that does not end with a pattern ends with a one.\<close>

lemma untranslatable_last: "translateabel bs = Some False \<Longrightarrow> bs = butlast bs @ [True]"
proof -
  assume t: "translateabel bs = Some False"
  then obtain xs x where bs: "bs = xs @ [x]" by (cases bs rule: rev_cases) (auto simp: translateabel_def)
  have p: "tr_pattern 0 = [False]" by (simp add: tr_pattern_def TranslateData_def Let_def)
  have "drop (length bs - length (tr_pattern 0)) bs \<noteq> tr_pattern 0"
    using t by (auto simp: translateabel_def DataCnt_def split: if_splits)
  then show ?thesis by (simp add: bs p)
qed

lemma take_byte: "j < length out \<Longrightarrow> take (Suc j) (out[j := v]) = take j out @ [v]"
  by (simp add: take_Suc_conv_app_nth)

text \<open>What version 1 returns reads as the stream and some ones, or, if it cut off the last one, as the stream
  and two zeros.\<close>

lemma v1_sends:
  assumes "translateBitstream2Packetstream_v1 force bs = Some (n, out)" and "n \<noteq> 0"
  shows "\<exists>e. halves (wave (take (n - 1) out)) = dup (bs @ e) \<and> (e = replicate (length e) True \<or> e = [False, False])"
proof -
  obtain ok where ok: "translateabel bs = Some ok" and len: "length bs < 999"
    using assms(1) by (auto simp: translateBitstream2Packetstream_v1_def BUFFERSIZE_def bind_eq_Some_conv split: if_splits)
  define base where "base = (if ok then bs else butlast bs)"
  have "length base < BUFFERSIZE" using len by (auto simp: base_def BUFFERSIZE_def)
  then obtain s where w: "while_option v1_running (v1_step force) (v1_init base (\<not> ok)) = Some s"
    and inv: "v1_loop_inv (\<not> ok) base s" and stop: "\<not> v1_running s"
    using v1_ends by blast
  have r: "v1_result s = Some (n, out)"
    using assms(1) ok len w
    by (simp add: translateBitstream2Packetstream_v1_def BUFFERSIZE_def base_def [symmetric] bind_eq_Some_conv)
  then have none: "w1_ret s = None" "\<not> w1_overrun s"
    using inv assms(2) by (auto simp: v1_result_def v1_loop_inv_def split: if_splits option.splits)
  then have s: "v1_inv (\<not> ok) base s" "w1_pos s = length (w1_buf s)"
  proof -
    show inv1: "v1_inv (\<not> ok) base s" using inv none by (simp add: v1_loop_inv_def)
    then have "w1_pos s \<le> length (w1_buf s)" by (simp add: v1_inv_def tiles_def)
    then show "w1_pos s = length (w1_buf s)" using stop none by (simp add: v1_running_def)
  qed
  then obtain e where e: "w1_buf s = base @ replicate e True" "w1_correction s = (\<not> ok \<and> e = 0)"
    by (auto simp: v1_inv_def)
  have h: "halves (wave (take (w1_j s) (w1_out s))) = dup (w1_buf s)" and j: "w1_j s < length (w1_out s)"
    using s tiles_sends [of "w1_buf s" "w1_pos s" "w1_j s" "w1_stack s" "w1_out s"]
    by (simp_all add: v1_inv_def PKTSIZE_def)
  have out: "take (n - 1) out = take (w1_j s) (w1_out s) @ (if w1_correction s then [0x99] else [])"
    using r none j by (auto simp: v1_result_def take_byte)
  show ?thesis
  proof (cases "w1_correction s")
    case True
    then have "bs = base @ [True]" "w1_buf s = base"
      using e untranslatable_last ok by (auto simp: base_def)
    moreover have "halves (wave [0x99]) = dup [True, False, False]"
      using entry_bits [of 7] by (simp add: wave_def tr_value_def tr_pattern_def TranslateData_def Let_def DataCnt_def)
    ultimately show ?thesis
      using out True h by (intro exI [of _ "[False, False]"]) (simp add: wave_append)
  next
    case False
    have "\<exists>m. w1_buf s = bs @ replicate m True"
    proof (cases ok)
      case True
      then show ?thesis using e by (auto simp: base_def)
    next
      case not_ok: False
      then obtain m where "e = Suc m" using e(2) False by (cases e) auto
      moreover have "bs = base @ [True]" using untranslatable_last ok not_ok by (simp add: base_def)
      ultimately show ?thesis using e(1) by (auto simp: replicate_append_same [symmetric])
    qed
    then show ?thesis using out False h by auto
  qed
qed

subsection \<open>All versions send the same bits\<close>

lemma v3_syncs:
  assumes "bs = replicate k True @ False # r" and "(k + 2) mod 5 \<noteq> 0" and "length bs \<le> 72"
  shows "\<exists>out. translateBitstream2Packetstream_v3 bs = Some out \<and>
    (\<exists>m\<le>4. dcc_sync (wave out) = Some (False # r @ replicate m True))"
proof -
  obtain out m where out: "translateBitstream2Packetstream_v3 bs = Some out" "m \<le> 4"
      "sends out (True # bs @ replicate m True)"
    using v3_sends [OF assms(2,1)] assms(3) by (auto simp: PKTSIZE_def le_less)
  then have "sends out (replicate (Suc k) True @ False # (r @ replicate m True))" using assms(1) by simp
  then show ?thesis using out(1,2) sync_odd by blast
qed


definition sample_bits :: bits where
  "sample_bits = replicate 15 True @ [False, False, True, True, False, True, False, False, True, True]"

lemma sample_bits_v2:
  "map_option (\<lambda>(n, out). (n, take (n - 1) out)) (translateBitstream2Packetstream 2 False sample_bits)
    = Some (8, [0x55, 0x55, 0x55, 0x66, 0x71, 0x66, 0x55])"
  by code_simp


end
