(* ===== verification/Selectrix_Bus.thy ===== *)
theory Selectrix_Bus
  imports Selectrix
begin

text \<open>
  What the Selectrix driver does to the layout: a station that reads the bytes written, with the
  two buses of a Rautenhaus interface, and the cycle of timer, command thread and signal handler
  that reads the feedback modules.
\<close>

unbundle bit_operations_syntax

subsection \<open>The station\<close>

text \<open>Commands are two bytes: an address, with the write bit, and the data. A write to address 126
  selects the bus. The state is the selected bus, the bytes of the 256 addresses, and the
  addresses that were asked for.\<close>

type_synonym station = "bool \<times> (int \<Rightarrow> 8 word) \<times> int list"

fun station :: "8 word list \<Rightarrow> station \<Rightarrow> station" where
  "station (c # d # r) s =
     station r
       (let (sel, img, asked) = s; base = (if sel then 128 else 0)
        in if c < 0x80 then (sel, img, asked @ [uint c + base])
           else if c = 0xfe then (bit d 1, img, asked)
           else (sel, img((uint c - 0x80) + base := d), asked))"
| "station _ s = s"

lemma station_append: "even (length a) \<Longrightarrow> station (a @ b) s = station b (station a s)"
proof (induction a arbitrary: s rule: induct_list012)
  case (3 c d r)
  then show ?case by simp
qed simp_all

subsection \<open>Flags\<close>

lemma flag_other:
  fixes f :: int
  assumes "k AND m = 0"
  shows "(f OR k) AND m = f AND m" and "(f AND NOT k) AND m = f AND m"
proof -
  have "(f OR k) AND m = (f AND m) OR (k AND m)" "(f AND NOT k) AND m = f AND m AND NOT (k AND m)"
    by (rule bit_eqI; auto simp: bit_simps)+
  then show "(f OR k) AND m = f AND m" "(f AND NOT k) AND m = f AND m" using assms by simp_all
qed

lemma flag_own: "(f OR k) AND k = k" "(f AND NOT k) AND k = 0" for f k :: int
  by (rule bit_eqI; auto simp: bit_simps)+

lemmas flag_bits = flag_own [of _ "0x80"] flag_other [of "0x80" "0x22"] flag_other [of "0x80" "0x12"]
  flag_other [of "0x100" "0x22"] flag_other [of "0x100" "0x12"] flag_other [of "0x100" "0x80"]

text \<open>Both buses are in use.\<close>

definition two_buses :: "sx \<Rightarrow> bool" where
  "two_buses p \<longleftrightarrow> checkSXflag p (Rautenhaus_MODE + Rautenhaus_DBL)"

definition second_bus :: "sx \<Rightarrow> bool" where
  "second_bus p \<longleftrightarrow> checkSXflag p Rautenhaus_RTBS"

lemma flags [simp]:
  "second_bus (setSXflag Rautenhaus_RTBS p)" "\<not> second_bus (clearSXflag Rautenhaus_RTBS p)"
  "two_buses (setSXflag Rautenhaus_RTBS p) = two_buses p" "two_buses (clearSXflag Rautenhaus_RTBS p) = two_buses p"
  "two_buses (write_port v p) = two_buses p" "second_bus (write_port v p) = second_bus p"
  by (simp_all add: second_bus_def two_buses_def checkSXflag_def setSXflag_def clearSXflag_def write_port_def flag_bits [simplified])

lemma flag_ports [simp]:
  "sx_tx (setSXflag f p) = sx_tx p" "sx_tx (clearSXflag f p) = sx_tx p" "sx_tx (write_port v p) = sx_tx p @ [word_of_int v]"
  by (simp_all add: setSXflag_def clearSXflag_def write_port_def)

text \<open>After the selection, the station is on the bus of the address, and nothing else has changed.\<close>

lemma selRautenhaus_station:
  assumes "two_buses p" and "even (length (sx_tx p))" and "station (sx_tx p) s0 = (second_bus p, img, asked)"
  shows "station (sx_tx (selRautenhaus a p)) s0 = (127 < a, img, asked)" and "second_bus (selRautenhaus a p) = (127 < a)"
    and "even (length (sx_tx (selRautenhaus a p)))" and "two_buses (selRautenhaus a p)"
proof -
  have b: "bit (2 :: 8 word) 1" "\<not> bit (0 :: 8 word) 1" by code_simp+
  have st: "station (sx_tx p @ [254, word_of_int v]) s0 = (bit (word_of_int v :: 8 word) 1, img, asked)" for v
    using assms(2,3) by (simp add: station_append)
  have sel: "selRautenhaus a p =
      (if 127 < a \<and> \<not> second_bus p then setSXflag Rautenhaus_RTBS (write_port RautenhsB1 (write_port (SXwrite + RautenhsCC) p))
       else if \<not> 127 < a \<and> second_bus p then clearSXflag Rautenhaus_RTBS (write_port RautenhsB0 (write_port (SXwrite + RautenhsCC) p))
       else p)"
    using assms(1) unfolding selRautenhaus_def two_buses_def second_bus_def by auto
  show "station (sx_tx (selRautenhaus a p)) s0 = (127 < a, img, asked)"
    using assms(1,3) st [of 2] st [of 0] b unfolding sel by auto
  show "second_bus (selRautenhaus a p) = (127 < a)" "even (length (sx_tx (selRautenhaus a p)))" "two_buses (selRautenhaus a p)"
    using assms(1,2) unfolding sel by auto
qed

lemma low_bits: "(a :: int) AND 0x7f = a mod 128"
  using take_bit_eq_mask [of 7 a] by (simp add: take_bit_eq_mod mask_numeral)

lemma byte_uint: "0 \<le> x \<Longrightarrow> x < 256 \<Longrightarrow> uint (word_of_int x :: 8 word) = x"
  by (simp add: unsigned_of_int take_bit_eq_mod)

lemma bus_address: "0 \<le> a \<Longrightarrow> a < 256 \<Longrightarrow> a mod 128 + (if 127 < a then 128 else 0) = a" for a :: int
  by presburger

lemma writeSXbus_station:
  assumes "two_buses p" and "even (length (sx_tx p))" and "station (sx_tx p) s0 = (second_bus p, img, asked)"
    and "sx_open p" and "0 \<le> a" and "a < 256" and "a \<noteq> 126" and "a \<noteq> 254"
    and "q = writeSXbus a v p"
  shows "station (sx_tx q) s0 = (second_bus q, img(a := word_of_int v), asked)" and "even (length (sx_tx q))" and "two_buses q"
proof -
  let ?r = "selRautenhaus a p"
  note sel = selRautenhaus_station [OF assms(1-3), of a]
  have q: "q = write_port v (write_port (SXwrite + (a AND 0x7f)) ?r)" using assms(4,9) by (simp add: writeSXbus_def)
  let ?c = "word_of_int (SXwrite + a mod 128) :: 8 word"
  have c: "uint ?c = 128 + a mod 128" by (rule byte_uint) (use pos_mod_bound [of 128 a] in simp_all)
  have "\<not> ?c < 0x80" using c pos_mod_sign [of 128 a] by (simp add: word_less_def)
  moreover have "?c \<noteq> 0xfe"
  proof
    assume "?c = 0xfe"
    then have "uint ?c = 254" by simp
    then have "a mod 128 = 126" using c by simp
    then show False using assms(5-8) by presburger
  qed
  ultimately have "station [?c, word_of_int v] (127 < a, img, asked) = (127 < a, img(a := word_of_int v), asked)"
    using c bus_address [OF assms(5,6)] by (simp add: add.commute)
  then show "station (sx_tx q) s0 = (second_bus q, img(a := word_of_int v), asked)"
    using sel by (simp add: q low_bits station_append)
  show "even (length (sx_tx q))" "two_buses q" using sel by (simp_all add: q)
qed

lemma commandreadSXbus_station:
  assumes "two_buses p" and "even (length (sx_tx p))" and "station (sx_tx p) s0 = (second_bus p, img, asked)"
    and "sx_open p" and "0 \<le> a" and "a < 256" and "q = commandreadSXbus a p"
  shows "station (sx_tx q) s0 = (second_bus q, img, asked @ [a])" and "even (length (sx_tx q))" and "two_buses q"
proof -
  note sel = selRautenhaus_station [OF assms(1-3), of a]
  have q: "q = write_port SXempty (write_port (SXread + (a AND 0x7f)) (selRautenhaus a p))"
    using assms(4,7) by (simp add: commandreadSXbus_def)
  let ?c = "word_of_int (a mod 128) :: 8 word"
  have c: "uint ?c = a mod 128" by (rule byte_uint) (use pos_mod_bound [of 128 a] in simp_all)
  then have "?c < 0x80" using pos_mod_bound [of 128 a] by (simp add: word_less_def)
  then have "station [?c, d] (127 < a, img, asked) = (127 < a, img, asked @ [a])" for d
    using c bus_address [OF assms(5,6)] by simp
  then show "station (sx_tx q) s0 = (second_bus q, img, asked @ [a])"
    using sel by (simp add: q low_bits station_append)
  show "even (length (sx_tx q))" "two_buses q" using sel by (simp_all add: q)
qed

subsection \<open>Locomotives\<close>

text \<open>Speed, direction, light and function share a byte.\<close>

lemma sx_byte_parts:
  fixes s :: int
  assumes "0 \<le> s" and "s < 32" and "v = (if d then 32 else 0) + s + (if l then 64 else 0) + (if f then 128 else 0)"
  shows "v mod 32 = s" and "bit v 5 = d" and "bit v 6 = l" and "bit v 7 = f" and "0 \<le> v" and "v < 256"
proof -
  define k where "k = of_bool d + 2 * of_bool l + (4 :: int) * of_bool f"
  have k: "0 \<le> k" "k < 8" "bit k 0 = d" "bit k 1 = l" "bit k 2 = f"
    unfolding k_def by (cases d; cases l; cases f; simp)+
  have v: "v = s + k * 32" using assms(3) by (simp add: k_def)
  then have "v div 32 = k" using assms(1,2) by simp
  moreover have "bit v (5 + n) = bit (v div 32) n" for n
    using bit_drop_bit_eq [of 5 v] by (simp add: drop_bit_eq_div fun_eq_iff)
  ultimately have b: "bit v (5 + n) = bit k n" for n by simp
  show "bit v 5 = d" "bit v 6 = l" "bit v 7 = f" using b [of 0] b [of 1] b [of 2] k by simp_all
  show "v mod 32 = s" "0 \<le> v" "v < 256" using v k assms(1,2) by simp_all
qed

lemma and_bit5: "(x :: int) AND 0x20 = (if bit x 5 then 32 else 0)"
proof -
  have "x AND 2 ^ n = (if bit x n then 2 ^ n else 0)" for n by (rule bit_eqI) (auto simp: bit_simps)
  from this [of 5] show ?thesis by simp
qed

lemma funcs_bits: "(f AND 1 \<noteq> 0) = bit f 0" "(f AND 2 \<noteq> 0) = bit f 1" for f :: "32 word"
proof -
  have "f AND 2 ^ n = (if bit f n then 2 ^ n else 0)" for n
    by (rule bit_eqI) (auto simp: bit_simps)
  then have "f AND 2 ^ 0 = (if bit f 0 then 2 ^ 0 else 0)" "f AND 2 ^ 1 = (if bit f 1 then 2 ^ 1 else 0)" by blast+
  then show "(f AND 1 \<noteq> 0) = bit f 0" "(f AND 2 \<noteq> 0) = bit f 1" by auto
qed

definition sx_backwards :: "gl_state \<Rightarrow> int \<Rightarrow> bool" where
  "sx_backwards g old = (if l_direction g = 0 \<or> l_direction g = 1 then l_direction g = 0 else bit old 5)"

definition sx_speed :: "gl_state \<Rightarrow> int" where
  "sx_speed g = (if l_direction g = 0 \<or> l_direction g = 1 then l_speed g else 0)"

lemma sx_gl_byte_parts:
  assumes "0 \<le> l_speed g" and "l_speed g < 32" and "v = sx_gl_byte g old"
  shows "v mod 32 = sx_speed g" and "bit v 5 = sx_backwards g old" and "bit v 6 = bit (l_funcs g) 0"
    and "bit v 7 = bit (l_funcs g) 1" and "0 \<le> v" and "v < 256"
proof -
  have "v = (if sx_backwards g old then 32 else 0) + sx_speed g + (if bit (l_funcs g) 0 then 64 else 0) + (if bit (l_funcs g) 1 then 128 else 0)"
    unfolding assms(3) sx_gl_byte_def sx_backwards_def sx_speed_def funcs_bits and_bit5 by simp
  moreover have "0 \<le> sx_speed g" "sx_speed g < 32" using assms(1,2) by (simp_all add: sx_speed_def)
  ultimately show "v mod 32 = sx_speed g" "bit v 5 = sx_backwards g old" "bit v 6 = bit (l_funcs g) 0"
    "bit v 7 = bit (l_funcs g) 1" "0 \<le> v" "v < 256" using sx_byte_parts by metis+
qed

text \<open>C17: With two buses, whichever is selected, a command for a locomotive sets exactly the byte
  of its address in a station that reads the written bytes: speed, direction (kept by an
  emergency stop), light and function; the driver's image of the bus has the same byte.\<close>

theorem sx_loco_lands:
  assumes "two_buses p" and "even (length (sx_tx p))" and "station (sx_tx p) s0 = (second_bus p, img, asked)" and "sx_open p"
    and "dequeueNextGL b (set_watchdog 4 b w) = Some (g, w1)" and "l_state g \<noteq> 2"
    and "cacheSetGL b (l_id g) (g\<lparr>l_speed := sx_speed g\<rparr>) w1 = Some (rc, w2)"
    and "0 \<le> l_id g" and "l_id g < 256" and "l_id g \<noteq> 126" and "l_id g \<noteq> 254"
    and "max_address p = 256" and "length (sx_bus_data p) = 256" and "0 \<le> l_speed g" and "l_speed g < 32"
  shows "\<exists>p' v. sx_gl_command b p w = Some (p', w2) \<and> v mod 32 = sx_speed g \<and>
    bit v 5 = sx_backwards g (sx_bus_data p ! nat (l_id g)) \<and> bit v 6 = bit (l_funcs g) 0 \<and> bit v 7 = bit (l_funcs g) 1 \<and>
    station (sx_tx p') s0 = (second_bus p', img(l_id g := word_of_int v), asked) \<and>
    sx_bus_data p' = (sx_bus_data p)[nat (l_id g) := v] \<and> two_buses p' \<and> even (length (sx_tx p'))"
proof -
  define v where "v = sx_gl_byte g (sx_bus_data p ! nat (l_id g))"
  define q where "q = writeSXbus (l_id g) v p"
  note parts = sx_gl_byte_parts [OF assms(14,15) v_def]
  note landed = writeSXbus_station [OF assms(1-4,8-11) q_def]
  have same: "sx_bus_data q = sx_bus_data p" 
    by (simp add: q_def writeSXbus_def selRautenhaus_def write_port_def setSXflag_def clearSXflag_def)
  have g: "(if l_direction g = 0 \<or> l_direction g = 1 then g else g\<lparr>l_speed := 0\<rparr>) = g\<lparr>l_speed := sx_speed g\<rparr>"
    by (simp add: sx_speed_def)
  have in256: "nat (l_id g) < 256" using assms(8,9) by simp
  have "sx_gl_command b p w = Some (q\<lparr>sx_bus_data := (sx_bus_data p)[nat (l_id g) := v]\<rparr>, w2)"
    using assms(5-9,12,13) in256
    by (simp add: sx_gl_command_def Let_def g fetch_def store_def same flip: v_def q_def)
  moreover have "two_buses (q\<lparr>sx_bus_data := xs\<rparr>) = two_buses q" "second_bus (q\<lparr>sx_bus_data := xs\<rparr>) = second_bus q" for xs
    by (simp_all add: two_buses_def second_bus_def checkSXflag_def)
  ultimately show ?thesis using parts landed by auto
qed

subsection \<open>Reading the feedback modules\<close>

text \<open>One module: the timer selects it, the command thread asks for it, the answer raises the signal.\<close>

definition sx_poll :: "nat \<Rightarrow> sx \<times> world \<Rightarrow> (sx \<times> world) option" where
  "sx_poll b s = do {
     (_, p) \<leftarrow> sx_timer 0 (fst s);
     p \<leftarrow> sx_fb_command p;
     sig_processSelectrix b p (snd s) }"

text \<open>The bits of a module in reverse order.\<close>

definition contacts :: "int \<Rightarrow> int" where
  "contacts v = horner_sum of_bool 2 (rev (map (bit v) [0..<8]))"

lemma rotate_bits_horner:
  "0 \<le> v \<Longrightarrow> rotate_bits n v up = up * 2 ^ n + horner_sum of_bool 2 (rev (map (bit v) [0..<n]))"
proof (induction n arbitrary: v up)
  case (Suc n)
  have "map (bit v) [0..<Suc n] = bit v 0 # map (bit (v div 2)) [0..<n]"
    by (simp add: upt_conv_Cons map_Suc_upt [symmetric] bit_Suc del: upt_Suc)
  moreover have "v AND 1 = of_bool (bit v 0)" by (simp add: and_one_eq bit_0 odd_iff_mod_2_eq_one)
  moreover have "c_div v 2 = v div 2" using Suc.prems by simp
  ultimately show ?case using Suc.IH [of "v div 2"] Suc.prems
    by (simp add: horner_sum_append algebra_simps del: upt_Suc)
qed simp

lemma rotate_bits_contacts: "0 \<le> v \<Longrightarrow> rotate_bits 8 v 0 = contacts v"
  by (simp only: rotate_bits_horner contacts_def)

text \<open>The modules are asked for one after the other, none has been asked for.\<close>

definition polling :: "sx \<Rightarrow> bool" where
  "polling p \<longleftrightarrow> sx_open p \<and> two_buses p \<and> \<not> checkSXflag p (Rautenhaus_MODE + Rautenhaus_FDBCK) \<and> stateInterface p = 0 \<and>
     1 \<le> currentFB p \<and> currentFB p \<le> sx_number_fb p \<and> sx_number_fb p < 256 \<and> max_address p = 256 \<and>
     length (fb_adresses p) = 256 \<and> length (sx_bus_data p) = 256 \<and> (\<forall>a\<in>set (fb_adresses p). 0 \<le> a \<and> a < 256) \<and>
     even (length (sx_tx p))"

lemma selRautenhaus_same [simp]:
  "stateInterface (selRautenhaus a p) = stateInterface p" "currentFB (selRautenhaus a p) = currentFB p"
  "sx_number_fb (selRautenhaus a p) = sx_number_fb p" "max_address (selRautenhaus a p) = max_address p"
  "fb_adresses (selRautenhaus a p) = fb_adresses p" "sx_bus_data (selRautenhaus a p) = sx_bus_data p"
  "sx_open (selRautenhaus a p) = sx_open p" "sx_rx (selRautenhaus a p) = sx_rx p"
  "checkSXflag (selRautenhaus a p) (Rautenhaus_MODE + Rautenhaus_FDBCK) = checkSXflag p (Rautenhaus_MODE + Rautenhaus_FDBCK)"
proof -
  have "SXflags (selRautenhaus a p) AND 0x12 = SXflags p AND 0x12"
    by (simp add: selRautenhaus_def setSXflag_def clearSXflag_def write_port_def flag_bits [simplified])
  then show "checkSXflag (selRautenhaus a p) (Rautenhaus_MODE + Rautenhaus_FDBCK) = checkSXflag p (Rautenhaus_MODE + Rautenhaus_FDBCK)"
    by (simp add: checkSXflag_def)
qed (simp_all add: selRautenhaus_def setSXflag_def clearSXflag_def write_port_def)

lemma commandreadSXbus_same [simp]:
  "stateInterface (commandreadSXbus a p) = stateInterface p" "currentFB (commandreadSXbus a p) = currentFB p"
  "sx_number_fb (commandreadSXbus a p) = sx_number_fb p" "max_address (commandreadSXbus a p) = max_address p"
  "fb_adresses (commandreadSXbus a p) = fb_adresses p" "sx_bus_data (commandreadSXbus a p) = sx_bus_data p"
  "sx_open (commandreadSXbus a p) = sx_open p" "sx_rx (commandreadSXbus a p) = sx_rx p"
  "checkSXflag (commandreadSXbus a p) (Rautenhaus_MODE + Rautenhaus_FDBCK) = checkSXflag p (Rautenhaus_MODE + Rautenhaus_FDBCK)"
  using selRautenhaus_same [of a p] by (simp_all add: commandreadSXbus_def write_port_def checkSXflag_def)

lemma connection_flags [simp]:
  "two_buses (setSXflag Connection p) = two_buses p" "second_bus (setSXflag Connection p) = second_bus p"
  "checkSXflag (setSXflag Connection p) (Rautenhaus_MODE + Rautenhaus_FDBCK) = checkSXflag p (Rautenhaus_MODE + Rautenhaus_FDBCK)"
  by (simp_all add: two_buses_def second_bus_def checkSXflag_def setSXflag_def flag_bits [simplified])

lemma fetch_in: "0 \<le> i \<Longrightarrow> i < int (length xs) \<Longrightarrow> fetch xs i = Some (xs ! nat i)"
  by (simp add: fetch_def)

lemma store_in: "0 \<le> i \<Longrightarrow> i < int (length xs) \<Longrightarrow> store xs i v = Some (xs[nat i := v])"
  by (simp add: store_def)

lemma sx_poll_step:
  assumes "polling p" and "sx_rx p = c # r" and "c < 256" and "station (sx_tx p) s0 = (second_bus p, img, asked)"
    and "setFBmodul b (currentFB p) (contacts (int c)) w = Some (rc, w')"
  shows "\<exists>p'. sx_poll b (p, w) = Some (p', w') \<and> polling p' \<and> sx_rx p' = r \<and> fb_adresses p' = fb_adresses p \<and>
    sx_number_fb p' = sx_number_fb p \<and> currentFB p' = (if sx_number_fb p \<le> currentFB p then 1 else currentFB p + 1) \<and>
    station (sx_tx p') s0 = (second_bus p', img, asked @ [fb_adresses p ! nat (currentFB p)])"
proof -
  define a where "a = fb_adresses p ! nat (currentFB p)"
  define p1 where "p1 = p\<lparr>stateInterface := 2\<rparr>"
  define p2 where "p2 = commandreadSXbus a p1"
  have i: "0 \<le> currentFB p" "currentFB p < 256" "length (fb_adresses p) = 256" using assms(1) by (auto simp: polling_def)
  then have "a \<in> set (fb_adresses p)" by (simp add: a_def)
  then have a: "0 \<le> a" "a < 256" using assms(1) by (auto simp: polling_def)
  have timer: "sx_timer 0 p = Some (0, p\<lparr>stateInterface := 1\<rparr>)"
    using assms(1) i a by (simp add: sx_timer_def polling_def fetch_in flip: a_def)
  have fb: "sx_fb_command (p\<lparr>stateInterface := 1\<rparr>) = Some p2"
    using i by (simp add: sx_fb_command_def fetch_in p2_def p1_def flip: a_def)
  have p1: "two_buses p1 = two_buses p" "second_bus p1 = second_bus p" "sx_tx p1 = sx_tx p" "sx_open p1 = sx_open p"
    by (simp_all add: p1_def two_buses_def second_bus_def checkSXflag_def)
  have asked: "station (sx_tx p2) s0 = (second_bus p2, img, asked @ [a])" "even (length (sx_tx p2))" "two_buses p2"
    using commandreadSXbus_station [of p1 s0 img asked a p2] assms(1,4) a p1 by (simp_all add: polling_def p2_def)
  define p3 where "p3 = (setSXflag Connection p2)\<lparr>sx_rx := r, sx_bus_data := (sx_bus_data p)[nat a := int c],
      currentFB := (if sx_number_fb p \<le> currentFB p then 1 else currentFB p + 1), stateInterface := 0\<rparr>"
  have sig: "sig_processSelectrix b p2 w = Some (p3, w')"
    using assms(1-3,5) i a
    by (simp add: sig_processSelectrix_def readSXbus_def p2_def p1_def setSXflag_def sx_module_def fetch_in store_in
        polling_def rotate_bits_contacts p3_def flip: a_def)
  have flags: "two_buses p3" "second_bus p3 = second_bus p2" "sx_tx p3 = sx_tx p2"
    "checkSXflag p3 (Rautenhaus_MODE + Rautenhaus_FDBCK) = checkSXflag p (Rautenhaus_MODE + Rautenhaus_FDBCK)"
    using asked(3) connection_flags [of p2] commandreadSXbus_same(9) [of a p1]
    by (simp_all add: p3_def two_buses_def second_bus_def checkSXflag_def setSXflag_def p2_def p1_def)
  have "polling p3"
    using assms(1) flags asked(2) by (simp add: polling_def p3_def) (simp add: setSXflag_def p2_def p1_def)
  then show ?thesis
    using timer fb sig flags asked(1)
    by (intro exI [of _ p3]) (simp add: sx_poll_def p3_def setSXflag_def p2_def p1_def flip: a_def)
qed

text \<open>The values of the modules from number \<open>k\<close> on, entered as they come.\<close>

fun sx_report :: "nat \<Rightarrow> int \<Rightarrow> nat list \<Rightarrow> world \<Rightarrow> world option" where
  "sx_report b k [] w = Some w"
| "sx_report b k (c # cs) w = do {
     (_, w) \<leftarrow> setFBmodul b k (contacts (int c)) w;
     sx_report b (k + 1) cs w }"

lemma sx_scan_from:
  assumes "polling p" and "sx_rx p = cs @ r" and "\<forall>c\<in>set cs. c < 256" and "cs \<noteq> []"
    and "currentFB p + int (length cs) = sx_number_fb p + 1"
    and "station (sx_tx p) s0 = (second_bus p, img, asked)" and "sx_report b (currentFB p) cs w = Some w'"
  shows "\<exists>p'. loopM (\<lambda>_. sx_poll b) cs (p, w) = Some (p', w') \<and> polling p' \<and> currentFB p' = 1 \<and> sx_rx p' = r \<and>
    station (sx_tx p') s0 = (second_bus p', img, asked @ drop (nat (currentFB p)) (take (nat (sx_number_fb p + 1)) (fb_adresses p)))"
  using assms
proof (induction cs arbitrary: p asked w)
  case (Cons c cs)
  obtain rc w1 where m: "setFBmodul b (currentFB p) (contacts (int c)) w = Some (rc, w1)"
    and rest: "sx_report b (currentFB p + 1) cs w1 = Some w'"
    using Cons.prems(7) by (auto simp: bind_eq_Some_conv)
  obtain p1 where p1: "sx_poll b (p, w) = Some (p1, w1)" "polling p1" "sx_rx p1 = cs @ r" "fb_adresses p1 = fb_adresses p"
      "sx_number_fb p1 = sx_number_fb p" "currentFB p1 = (if sx_number_fb p \<le> currentFB p then 1 else currentFB p + 1)"
      "station (sx_tx p1) s0 = (second_bus p1, img, asked @ [fb_adresses p ! nat (currentFB p)])"
    using sx_poll_step [OF Cons.prems(1) _ _ Cons.prems(6) m] Cons.prems(2,3) by force
  have l: "length (fb_adresses p) = 256" "1 \<le> currentFB p" "currentFB p \<le> sx_number_fb p" "sx_number_fb p < 256"
    using Cons.prems(1) by (simp_all add: polling_def)
  have split: "drop (nat (currentFB p)) (take (nat (sx_number_fb p + 1)) (fb_adresses p)) =
      fb_adresses p ! nat (currentFB p) # drop (nat (currentFB p + 1)) (take (nat (sx_number_fb p + 1)) (fb_adresses p))"
    using l Cons_nth_drop_Suc [of "nat (currentFB p)" "take (nat (sx_number_fb p + 1)) (fb_adresses p)"]
    by (simp add: nat_add_distrib)
  show ?case
  proof (cases "cs = []")
    case True
    then show ?thesis using p1 rest Cons.prems(5) split l by simp
  next
    case False
    then have cur: "currentFB p1 = currentFB p + 1" using p1(6) Cons.prems(5) by (cases cs) auto
    show ?thesis
      using Cons.IH [OF p1(2,3) _ False _ p1(7), of w1] Cons.prems(3,5) rest cur p1(1,4,5) split by simp
  qed
qed simp

lemma contacts_bit: "bit (contacts v) j \<longleftrightarrow> j < 8 \<and> bit v (7 - j)"
  by (auto simp: contacts_def bit_horner_sum_bit_iff rev_nth)

text \<open>On a bus with modules of eight contacts, contact \<open>i + 1\<close> of a module is bit \<open>i\<close> of its byte.\<close>

definition sx_feedback :: "nat \<Rightarrow> world \<Rightarrow> bool" where
  "sx_feedback b w \<longleftrightarrow> fb_settled b w \<and> fb_ports (flags (buses w b)) = 8 \<and> \<not> bit (flags (buses w b)) 9"

lemma sx_report_sets:
  assumes "sx_feedback b w" and "1 \<le> k" and "(k - 1 + int (length cs)) * 8 \<le> get_number_fb b w"
    and "k + int (length cs) \<le> 256"
  shows "\<exists>w'. sx_report b k cs w = Some w' \<and> sx_feedback b w' \<and> get_number_fb b w' = get_number_fb b w \<and>
    (\<forall>port\<ge>1. fb_value b port w' =
       (if (k - 1) * 8 < port \<and> port \<le> (k - 1 + int (length cs)) * 8
        then of_bool (bit (int (cs ! nat ((port - 1) div 8 - (k - 1)))) (nat ((port - 1) mod 8)))
        else fb_value b port w))"
  using assms
proof (induction cs arbitrary: k w)
  case (Cons c cs)
  let ?fl = "flags (buses w b)"
  have fl: "fb_settled b w" "fb_ports ?fl = 8" "\<not> bit ?fl 9" using Cons.prems(1) by (simp_all add: sx_feedback_def)
  obtain w1 where w1: "setFB_loop b ?fl (contacts (int c)) ((k - 1) * 8 + 1) [0..<8] SRCP_OK w = Some (SRCP_OK, w1)"
    "fb_settled b w1" "get_number_fb b w1 = get_number_fb b w" "buses w1 = buses w"
    "\<forall>p\<ge>1. fb_value b p w1 = (if (k - 1) * 8 + 1 \<le> p \<and> p < (k - 1) * 8 + 1 + int (length [0..<8])
        then of_bool (bit (contacts (int c)) (fb_mask_bit ?fl ([0..<8] ! nat (p - ((k - 1) * 8 + 1))))) else fb_value b p w)"
    using setFB_loop_sets [OF fl(1), of "(k - 1) * 8 + 1" "[0..<8]" ?fl "contacts (int c)"] Cons.prems(2,3) by auto
  have m: "setFBmodul b k (contacts (int c)) w = Some (SRCP_OK, w1)"
    using w1(1) fl(2) Cons.prems(2,4) by (simp add: setFBmodul_def in_int_def)
  have fb1: "sx_feedback b w1" using fl w1(2,4) by (simp add: sx_feedback_def)
  obtain w2 where w2: "sx_report b (k + 1) cs w1 = Some w2" "sx_feedback b w2" "get_number_fb b w2 = get_number_fb b w1"
    "\<forall>port\<ge>1. fb_value b port w2 = (if (k + 1 - 1) * 8 < port \<and> port \<le> (k + 1 - 1 + int (length cs)) * 8
        then of_bool (bit (int (cs ! nat ((port - 1) div 8 - (k + 1 - 1)))) (nat ((port - 1) mod 8))) else fb_value b port w1)"
    using Cons.IH [OF fb1, of "k + 1"] Cons.prems w1(3) by auto
  have "fb_value b port w2 = (if (k - 1) * 8 < port \<and> port \<le> (k - 1 + int (length (c # cs))) * 8
        then of_bool (bit (int ((c # cs) ! nat ((port - 1) div 8 - (k - 1)))) (nat ((port - 1) mod 8))) else fb_value b port w)"
    if "1 \<le> port" for port
  proof (cases "(k - 1) * 8 < port \<and> port \<le> k * 8")
    case True
    define j where "j = nat (port - ((k - 1) * 8 + 1))"
    have ij: "j < 8" "port - 1 = int j + (k - 1) * 8" using True by (auto simp: j_def)
    have j: "j < 8" "(port - 1) div 8 = k - 1" "nat ((port - 1) mod 8) = j"
      unfolding ij(2) mod_mult_self1 using ij(1) by simp_all
    have "fb_mask_bit ?fl ([0..<8] ! j) = 7 - j" using j(1) fl(2,3) by (simp add: fb_mask_bit_def)
    moreover have "fb_value b port w1 = of_bool (bit (contacts (int c)) (fb_mask_bit ?fl ([0..<8] ! j)))"
      unfolding j_def using w1(5) [rule_format, OF that] True by (simp split: if_splits)
    moreover have "7 - j < 8" by simp
    ultimately have "fb_value b port w1 = of_bool (bit (int c) j)" using j(1) by (simp only: contacts_bit) simp
    then show ?thesis using w2(4) that True j by simp
  next
    case False
    then have "fb_value b port w1 = fb_value b port w" using w1(5) that by auto
    moreover have "nat ((port - 1) div 8 - (k - 1)) = Suc (nat ((port - 1) div 8 - k))" if "k * 8 < port" using that by simp
    ultimately show ?thesis using w2(4) that False by auto
  qed
  then show ?case using m w2 w1(3) by auto
qed simp


subsection \<open>The driver's data\<close>

text \<open>The arrays have all 256 elements, a module has an address of the bus and the bus has bytes,
  and the number of the module that is read is inside the arrays.\<close>

definition sx_ok :: "sx \<Rightarrow> bool" where
  "sx_ok p \<longleftrightarrow> length (fb_adresses p) = 256 \<and> length (sx_bus_data p) = 256 \<and> max_address p = 256 \<and>
     (\<forall>a\<in>set (fb_adresses p). 0 \<le> a \<and> a < 256) \<and> (\<forall>v\<in>set (sx_bus_data p). 0 \<le> v \<and> v < 256) \<and>
     sx_number_fb p < 255 \<and> 1 \<le> currentFB p \<and> currentFB p \<le> max 0 (sx_number_fb p) + 1"

lemma sx_ok_updates [simp]:
  "sx_ok (setSXflag f p) = sx_ok p" "sx_ok (clearSXflag f p) = sx_ok p" "sx_ok (write_port v p) = sx_ok p"
  "sx_ok (p\<lparr>stateInterface := s\<rparr>) = sx_ok p" "sx_ok (p\<lparr>sx_irq := i\<rparr>) = sx_ok p" "sx_ok (p\<lparr>sx_rx := r\<rparr>) = sx_ok p"
  "sx_ok (selRautenhaus a p) = sx_ok p" "sx_ok (commandreadSXbus a p) = sx_ok p" "sx_ok (writeSXbus a v p) = sx_ok p"
  "sx_ok (confRautenhaus p) = sx_ok p"
  by (simp_all add: sx_ok_def setSXflag_def clearSXflag_def write_port_def selRautenhaus_def commandreadSXbus_def
      writeSXbus_def confRautenhaus_def Let_def)

lemma sx_ok_first: "sx_ok p \<Longrightarrow> sx_ok (p\<lparr>currentFB := 1\<rparr>)" "sx_ok p \<Longrightarrow> sx_ok (p\<lparr>stateInterface := i, currentFB := 1\<rparr>)"
  by (simp_all add: sx_ok_def)

lemma sx_ok_module: "sx_ok p \<Longrightarrow> \<exists>a. fetch (fb_adresses p) (currentFB p) = Some a \<and> 0 \<le> a \<and> a < 256"
proof -
  assume p: "sx_ok p"
  then have "fetch (fb_adresses p) (currentFB p) = Some (fb_adresses p ! nat (currentFB p))"
    by (intro fetch_in) (auto simp: sx_ok_def)
  moreover have "fb_adresses p ! nat (currentFB p) \<in> set (fb_adresses p)" using p by (intro nth_mem) (auto simp: sx_ok_def)
  ultimately show ?thesis using p by (auto simp: sx_ok_def)
qed

lemma sx_ok_store:
  "sx_ok p \<Longrightarrow> store (sx_bus_data p) a v = Some xs \<Longrightarrow> 0 \<le> v \<Longrightarrow> v < 256 \<Longrightarrow> sx_ok (p\<lparr>sx_bus_data := xs\<rparr>)"
  using set_update_subset_insert by (fastforce simp: sx_ok_def store_def split: if_splits)

lemma readSXbus_ok: "sx_ok p \<Longrightarrow> readSXbus p = Some (v, p') \<Longrightarrow> sx_ok p' \<and> 0 \<le> v \<and> v < 256"
  by (auto simp: readSXbus_def split: if_splits list.splits)

lemma sx_module_ok:
  "sx_ok p \<Longrightarrow> 0 \<le> v \<Longrightarrow> v < 256 \<Longrightarrow> sx_module b v p w = Some (p', w') \<Longrightarrow>
    sx_ok p' \<and> currentFB p' = currentFB p \<and> sx_number_fb p' = sx_number_fb p"
  by (auto simp: sx_module_def bind_eq_Some_conv dest: sx_ok_store)

lemma sx_find_ok:
  "sx_ok p \<Longrightarrow> currentFB p + int n \<le> max 0 (sx_number_fb p) + 1 \<Longrightarrow> \<exists>p'. sx_find n v p = Some p' \<and> sx_ok p'"
proof (induction n arbitrary: p)
  case (Suc n)
  obtain a where a: "fetch (fb_adresses p) (currentFB p) = Some a" using sx_ok_module [OF Suc.prems(1)] by blast
  have "sx_ok (p\<lparr>currentFB := currentFB p + 1\<rparr>)" using Suc.prems by (simp add: sx_ok_def)
  then show ?case using Suc.IH [of "p\<lparr>currentFB := currentFB p + 1\<rparr>"] Suc.prems a by simp
qed simp

lemma sig_process_ok:
  assumes "sx_ok p" and "sig_processSelectrix b p w = Some (p', w')"
  shows "sx_ok p'"
proof -
  obtain v q where r: "readSXbus (setSXflag Connection p) = Some (v, q)"
    using assms(2) by (auto simp: sig_processSelectrix_def bind_eq_Some_conv)
  then have q: "sx_ok q" "0 \<le> v" "v < 256" using readSXbus_ok [OF _ r] assms(1) by simp_all
  have module: "ensures sx_ok fst (sx_module b v q w \<bind> (\<lambda>(p, w). Some (f p, w)))"
    if "\<And>p. sx_ok p \<Longrightarrow> sx_ok (f p)" for f
    using that sx_module_ok [OF q] by (auto simp: keeps_def bind_eq_Some_conv)
  have next_ok: "sx_ok (q'\<lparr>currentFB := (if sx_number_fb q' \<le> currentFB q' then 1 else currentFB q' + 1), stateInterface := 0\<rparr>)"
    if "sx_ok q'" for q'
    using that by (simp add: sx_ok_def)
  obtain f where find: "sx_find (nat (sx_number_fb q)) v (q\<lparr>currentFB := 1\<rparr>) = Some f" "sx_ok f"
    using sx_find_ok [OF sx_ok_first(1) [OF q(1)], of "nat (sx_number_fb q)" v] by (auto simp: max_def split: if_splits)
  have "ensures sx_ok fst (sig_processSelectrix b p w)"
    unfolding sig_processSelectrix_def r bind.bind_lunit prod.case
    by (intro keeps_if keeps_map module next_ok) (simp_all add: keeps_Some q(1) sx_ok_first find keeps_map)
  then show ?thesis using assms(2) by (auto dest: keepsD)
qed

lemma sx_sleep_ok: "sx_ok p \<Longrightarrow> sx_sleep b p w = Some (p', w') \<Longrightarrow> sx_ok p'"
  by (auto simp: sx_sleep_def Let_def split: if_splits dest: sig_process_ok [rotated])

lemma sx_wait_ok: "sx_ok p \<Longrightarrow> sx_wait b step p w = Some (n, p', w') \<Longrightarrow> sx_ok p'"
  unfolding sx_wait_def
  by (drule repeat_while_preserves [where P = "\<lambda>s. sx_ok (fst (snd s))"])
    (auto simp: sx_wait_round_def dest: sx_sleep_ok split: if_splits)

lemma chkCC2000Status_ok: "sx_ok p \<Longrightarrow> chkCC2000Status b step f p w = Some (r, p', w') \<Longrightarrow> sx_ok p'"
  by (auto simp: chkCC2000Status_def bind_eq_Some_conv dest!: sx_wait_ok [rotated] dest: readSXbus_ok)

lemma chkCC2000Ready_ok: "sx_ok p \<Longrightarrow> chkCC2000Ready b p w = Some (r, p', w') \<Longrightarrow> sx_ok p'"
  by (auto simp: chkCC2000Ready_def bind_eq_Some_conv split: if_splits dest: chkCC2000Status_ok)

lemma sx_decoder_byte_ok: "sx_ok p \<Longrightarrow> sx_decoder_byte b place p w = Some (r, p', w') \<Longrightarrow> sx_ok p'"
  by (auto simp: sx_decoder_byte_def bind_eq_Some_conv split: if_splits dest!: sx_wait_ok [rotated] dest: readSXbus_ok)

lemma readSXDecoder_ok: "sx_ok p \<Longrightarrow> readSXDecoder b p w = Some (r, p', w') \<Longrightarrow> sx_ok p'"
  by (fastforce simp: readSXDecoder_def bind_eq_Some_conv Let_def split: if_splits option.splits
      dest: chkCC2000Ready_ok sx_decoder_byte_ok [rotated])

lemma sx_programmed_ok: "sx_ok p \<Longrightarrow> sx_programmed n b p w = Some (p', w') \<Longrightarrow> sx_ok p'"
  by (induction n arbitrary: p w) (auto simp: bind_eq_Some_conv split: if_splits dest: chkCC2000Status_ok)

lemma writeSXDecoder_ok: "sx_ok p \<Longrightarrow> writeSXDecoder b v p w = Some (p', w') \<Longrightarrow> sx_ok p'"
  by (fastforce simp: writeSXDecoder_def bind_eq_Some_conv Let_def split: if_splits
      dest: chkCC2000Ready_ok sx_programmed_ok [rotated])

lemma sx_sm_command_ok:
  assumes "sx_ok p" and "sx_sm_command b p w = Some (p', w')"
  shows "sx_ok p'"
proof -
  obtain s w1 where "dequeueNextSM b (set_watchdog 3 b w) = Some (s, w1)"
    using assms(2) by (cases "dequeueNextSM b (set_watchdog 3 b w)") (auto simp: sx_sm_command_def)
  then show ?thesis
    using assms
    by (cases "s_command s")
      (auto simp: sx_sm_command_def bind_eq_Some_conv dest: readSXDecoder_ok [OF assms(1)] writeSXDecoder_ok [OF assms(1)])
qed

lemma sx_power_ok: "sx_ok p \<Longrightarrow> sx_power b p w = Some (p', w') \<Longrightarrow> sx_ok p'"
  by (auto simp: sx_power_def Let_def bind_eq_Some_conv split: if_splits)

lemma sx_ga_byte_range:
  assumes "0 \<le> old" and "old < 256" and "v = sx_ga_byte a old"
  shows "0 \<le> v \<and> v < 256"
proof -
  define m :: int where "m = (if 1 \<le> a_port a \<and> a_port a \<le> 8 then 2 ^ nat (a_port a - 1) else 0)"
  have m: "0 \<le> m" "m < 2 ^ 8"
    using power_strict_increasing [of "nat (a_port a - 1)" 8 "2 :: int"] unfolding m_def by auto
  have "old AND (0xff - m) \<le> old" by (rule AND_upper1) (use assms in simp)
  moreover have "old OR m < 2 ^ 8" by (rule OR_upper) (use assms m in simp_all)
  ultimately show ?thesis
    using assms m by (auto simp: sx_ga_byte_def simp flip: m_def)
qed

lemma sx_write_ok:
  "sx_ok p \<Longrightarrow> store (sx_bus_data (writeSXbus a v p)) i x = Some xs \<Longrightarrow> 0 \<le> x \<Longrightarrow> x < 256 \<Longrightarrow>
    sx_ok ((writeSXbus a v p)\<lparr>sx_bus_data := xs\<rparr>)"
  by (rule sx_ok_store) simp_all

lemma sx_gl_command_ok:
  assumes "sx_ok p" and "dequeueNextGL b (set_watchdog 4 b w) = Some (g, w1)" and "0 \<le> l_speed g" and "l_speed g < 32"
    and "sx_gl_command b p w = Some (p', w')"
  shows "sx_ok p'"
proof -
  have "p' = p \<or> (\<exists>a old xs. store (sx_bus_data (writeSXbus a (sx_gl_byte g old) p)) a (sx_gl_byte g old) = Some xs \<and>
      p' = (writeSXbus a (sx_gl_byte g old) p)\<lparr>sx_bus_data := xs\<rparr>)"
    using assms(2,5) by (auto simp: sx_gl_command_def bind_eq_Some_conv Let_def split: if_splits)
  then show ?thesis using assms(1) sx_write_ok sx_gl_byte_parts(5,6) [OF assms(3,4) refl] by blast
qed

lemma sx_ga_command_ok:
  assumes "sx_ok p" and "sx_ga_command b p w = Some (p', w')"
  shows "sx_ok p'"
proof -
  have "p' = p \<or> (\<exists>a i old xs. fetch (sx_bus_data p) i = Some old \<and>
      store (sx_bus_data (writeSXbus i (sx_ga_byte a old) p)) i (sx_ga_byte a old) = Some xs \<and>
      p' = (writeSXbus i (sx_ga_byte a old) p)\<lparr>sx_bus_data := xs\<rparr>)"
    using assms(2) by (auto simp: sx_ga_command_def bind_eq_Some_conv Let_def split: if_splits)
  moreover have "0 \<le> old \<and> old < 256" if "fetch (sx_bus_data p) i = Some old" for i old
    using that assms(1) nth_mem [of "nat i" "sx_bus_data p"] by (auto simp: fetch_def sx_ok_def split: if_splits)
  ultimately show ?thesis using assms(1) sx_write_ok sx_ga_byte_range [OF _ _ refl] by blast
qed

text \<open>C19: The data of the Selectrix driver keeps its type: arrays of 256 elements, module
  addresses and bus bytes from 0 to 255, the number of the module inside the arrays. The timer
  and the reading of a module always have a result; signal handler, power, programming,
  accessory commands and the commands of locomotives with at most 31 speed steps keep it.\<close>

theorem sx_types:
  assumes "sx_ok p"
  shows "(\<exists>t' p'. sx_timer t p = Some (t', p') \<and> sx_ok p') \<and> (\<exists>p'. sx_fb_command p = Some p' \<and> sx_ok p') \<and>
    (\<forall>p' w'. sig_processSelectrix b p w = Some (p', w') \<longrightarrow> sx_ok p') \<and>
    (\<forall>p' w'. sx_power b p w = Some (p', w') \<longrightarrow> sx_ok p') \<and>
    (\<forall>p' w'. sx_sm_command b p w = Some (p', w') \<longrightarrow> sx_ok p') \<and>
    (\<forall>g w1 p' w'. dequeueNextGL b (set_watchdog 4 b w) = Some (g, w1) \<longrightarrow> 0 \<le> l_speed g \<longrightarrow> l_speed g < 32 \<longrightarrow>
       sx_gl_command b p w = Some (p', w') \<longrightarrow> sx_ok p') \<and>
    (\<forall>p' w'. sx_ga_command b p w = Some (p', w') \<longrightarrow> sx_ok p')"
proof (intro conjI allI impI)
  obtain a where a: "fetch (fb_adresses p) (currentFB p) = Some a" "0 \<le> a" "a < 256" using sx_ok_module [OF assms] by blast
  show "\<exists>t' p'. sx_timer t p = Some (t', p') \<and> sx_ok p'"
    using assms a by (simp add: sx_timer_def sx_ok_first)
  show "\<exists>p'. sx_fb_command p = Some p' \<and> sx_ok p'" using assms a by (simp add: sx_fb_command_def)
qed (use assms in \<open>blast intro: sig_process_ok sx_power_ok sx_sm_command_ok sx_gl_command_ok sx_ga_command_ok\<close>)+

subsection \<open>Instances\<close>

text \<open>Two modules, the second on the second bus, and their answers.\<close>

definition sample_sx :: sx where
  "sample_sx = (sx_initial (\<lambda>_. 255) (\<lambda>_. 0) [1, 128] (\<lambda>_. False))\<lparr>sx_number_fb := 2,
     fb_adresses := [255, 5, 130] @ replicate 253 255, sx_bus_data := replicate 256 0, SXflags := 0x22, sx_open := True\<rparr>"

lemma sample_sx_flags: "two_buses sample_sx" "\<not> second_bus sample_sx" "\<not> checkSXflag sample_sx (Rautenhaus_MODE + Rautenhaus_FDBCK)"
  by (simp_all add: two_buses_def second_bus_def checkSXflag_def sample_sx_def)

lemma sample_sx_polling: "polling sample_sx" "sx_ok sample_sx"
  using sample_sx_flags by (simp_all add: polling_def sx_ok_def) (simp_all add: sample_sx_def sx_initial_def)

definition sx_cmd :: gl_state where
  "sx_cmd = sample_gl\<lparr>l_speed := 20, l_direction := 0, l_funcs := 1, l_n_func := 2\<rparr>"

definition sx_world :: world where
  "sx_world = sample_world\<lparr>gl_queue := (\<lambda>_. \<lparr>slots = [sx_cmd, zero_gl], wr = 1, rd = 0\<rparr>)\<rparr>"

text \<open>Backwards at speed 20 with the light on.\<close>

theorem sx_loco_lands_witness:
  "\<exists>p' w2 v. sx_gl_command 1 sample_sx sx_world = Some (p', w2) \<and>
     station (sx_tx p') (False, (\<lambda>_. 0), []) = (second_bus p', (\<lambda>_. 0)(3 := word_of_int v), []) \<and>
     v mod 32 = 20 \<and> bit v 5 \<and> bit v 6 \<and> \<not> bit v 7"
proof -
  let ?w0 = "set_watchdog 4 1 sx_world"
  let ?w1 = "?w0\<lparr>gl_queue := upd (\<lambda>q. q\<lparr>rd := 1\<rparr>) 1 (gl_queue sx_world)\<rparr>"
  have d: "dequeueNextGL 1 ?w0 = Some (sx_cmd, ?w1)"
    by (simp add: dequeueNextGL_def sx_world_def ring_get_def ring_next_def upd_def set_watchdog_def)
  have speed: "sx_speed sx_cmd = 20" "l_id sx_cmd = 3" "l_state sx_cmd = 1" "l_speed sx_cmd = 20" "l_funcs sx_cmd = 1"
    by (simp_all add: sx_speed_def sx_cmd_def sample_gl_def)
  have ini: "isInitializedGL 1 3 ?w1" "nat 3 < length (glstate (gl ?w1 1))"
    by (simp_all add: isInitializedGL_def isValidGL_def sx_world_def sample_world_def sample_gl_def set_watchdog_def)
  have "sess_inv ?w1" using world_inv_sess [OF sample_world_inv] by (simp add: sx_world_def set_watchdog_def sess_inv_def)
  then obtain rc w2 where s: "cacheSetGL 1 (l_id sx_cmd) (sx_cmd\<lparr>l_speed := sx_speed sx_cmd\<rparr>) ?w1 = Some (rc, w2)"
    using cacheSetGL_defined [OF _ ini, of "sx_cmd\<lparr>l_speed := sx_speed sx_cmd\<rparr>"] speed by (auto simp: sx_cmd_def)
  have p: "sx_tx sample_sx = []" "sx_open sample_sx" "max_address sample_sx = 256" "length (sx_bus_data sample_sx) = 256"
    by (simp_all add: sample_sx_def sx_initial_def)
  have "l_direction sx_cmd = 0" by (simp add: sx_cmd_def)
  then show ?thesis
    using sx_loco_lands [OF sample_sx_flags(1) _ _ p(2) d _ s _ _ _ _ p(3,4), of "(False, (\<lambda>_. 0), [])" "\<lambda>_. 0" "[]"]
      sample_sx_flags(2) p(1) speed
    by (auto simp: sx_backwards_def simp del: fun_upd_apply intro!: exI [of _ w2])
qed


theorem sx_types_witness:
  "\<exists>p'. sx_fb_command sample_sx = Some p' \<and> sx_ok p'"
  using sx_types [OF sample_sx_polling(2), of 0 1 sample_world] by blast

end
