(* ===== verification/Spec2Isabelle.thy ===== *)
theory Spec2Isabelle
  imports Config_Start Srcp_Lines Socket_IO Dcc_Address Dcc_Program Ddl_Bus Li100_Protocol Ib_Protocol Dcc_Versions Selectrix_Bus
begin

text \<open>
  srcpd, the Simple Railroad Command Protocol daemon (\<open>src/src\<close>): a server for model
  railways. Clients send SRCP commands over TCP; the server keeps the state of all devices,
  queues commands for the bus drivers and reports every change to the INFO sessions.

  \<^bold>\<open>Parts of the program and theories\<close>

  \<^item> \<open>Prelude\<close>, \<open>C_Strings\<close>: C integers, the numbers \<open>printf\<close> writes, and the string
    functions the code calls (\<open>sscanf\<close>, \<open>strncasecmp\<close>, \<open>strstr\<close>, \<open>atoi\<close>).
  \<^item> \<open>Ring_Queue\<close>: the array-and-two-indices queue that \<open>srcp-gl.c\<close>, \<open>srcp-ga.c\<close>,
    \<open>srcp-sm.c\<close> and \<open>srcp-fb.c\<close> each contain; the locale \<open>fifo\<close> is its contract.
  \<^item> \<open>Device_Lock\<close>: the locale \<open>device_lock\<close>, the contract of SRCP device locks;
    \<open>Srcp_GL\<close> and \<open>Srcp_GA\<close> interpret it.
  \<^item> \<open>Srcp_State\<close>: the structs of the headers and \<open>world\<close>, the record of all file-level
    statics of the server core; \<open>Srcp_Inv\<close>: its well-formedness \<open>world_inv\<close>.
  \<^item> \<open>Srcp_Error\<close> (\<open>srcp-error.c\<close>), \<open>Srcp_Session\<close> (\<open>srcp-session.c\<close>), \<open>Srcp_GL\<close>
    (\<open>srcp-gl.c\<close>), \<open>Srcp_GA\<close> (\<open>srcp-ga.c\<close>), \<open>Srcp_FB\<close> (\<open>srcp-fb.c\<close>), \<open>Srcp_SM\<close>
    (\<open>srcp-sm.c\<close>), \<open>Srcp_Time\<close> (\<open>srcp-time.c\<close>), \<open>Srcp_Bus\<close> (\<open>srcp-power.c\<close>,
    \<open>srcp-gm.c\<close>, \<open>srcp-descr.c\<close>, \<open>srcp-server.c\<close>): the device groups.
  \<^item> \<open>Srcp_Command\<close> (\<open>srcp-command.c\<close>): one definition per handler and per branch of a
    handler; \<open>Srcp_Command_Inv\<close> shows that every command keeps \<open>world_inv\<close>; \<open>Srcp_Lines\<close>
    follows a line from its characters to the operation on the device.
  \<^item> \<open>Client_Service\<close> (\<open>clientservice.c\<close>): handshake and end of a connection;
    \<open>Info_Client\<close> (\<open>srcp-info.c\<close>): INFO mode; \<open>Socket_IO\<close> (\<open>io.c\<close>): lines and buffers on
    a socket.
  \<^item> \<open>Loopback\<close> (\<open>loopback.c\<close>): the driver without hardware; \<open>Server_Main\<close> (\<open>srcpd.c\<close>,
    \<open>config-srcpd.c\<close>): start-up, main loop, and the interleaving of all threads.
  \<^item> \<open>Xml\<close>: the nodes of the configuration file; \<open>Srcp_Config\<close> (\<open>config-srcpd.c\<close>, the \<open>readconfig\<close>
    functions of the drivers, \<open>init_all_buses\<close>): from the document to the table of buses;
    \<open>Config_Inv\<close>: reading and initialising keep the server's data well formed; \<open>Config_Start\<close>: buses are
    read independently of each other, and a server with loopback buses starts.
  \<^item> \<open>Dcc_Address\<close> (\<open>dcc-address.c\<close>), \<open>Dcc_Translate\<close>, \<open>Dcc_Versions\<close>, \<open>Dcc_Packet\<close>,
    \<open>Dcc_Program\<close> (\<open>ddl_nmra.c\<close>): the NMRA DCC signal, with the three versions of its translation.
  \<^item> \<open>Ddl_State\<close>, \<open>Ddl_Bus\<close> (\<open>ddl.c\<close>) and \<open>Ddl_Maerklin\<close> (\<open>ddl_maerklin.c\<close>): the driver that
    makes the track signal on a serial port. \<open>Ddl_State\<close> has its data (packet queue, packet
    pools), \<open>Ddl_Maerklin\<close> the Motorola packets, \<open>Ddl_Bus\<close> the serial lines, the power
    supervision, the two threads of the driver and their initialisation.
  \<^item> \<open>Driver_Inv\<close>: what the drivers share, the predicate \<open>keeps\<close> (a driver's step keeps
    \<open>world_inv\<close>) and its rules; \<open>Ddl_Inv\<close>: the threads of the DDL driver keep it.
  \<^item> \<open>Loconet\<close> (\<open>loconet.c\<close>): the LocoNet driver, its messages on a serial line or over the
    text protocol of a LoconetOverTCP server.
  \<^item> \<open>Li100\<close> (\<open>li100.c\<close>, \<open>li100-main.c\<close>): the Lenz LI100 driver, serial and USB;
    \<open>Li100_Protocol\<close>: its messages and those of the command station.
  \<^item> \<open>Ib\<close> (\<open>ib.c\<close>): the Intellibox driver with its events and programming;
    \<open>Ib_Protocol\<close>: what it writes, read as P50Xb commands, and the reports it reads.
  \<^item> \<open>Selectrix\<close> (\<open>selectrix.c\<close>): the Selectrix driver
    with its three threads; \<open>Selectrix_Bus\<close>: what it does to the layout, and the type of its data.

  \<^bold>\<open>How state and effects are modelled\<close>

  Every operation takes the \<open>world\<close> it finds and returns the one it leaves; the mutexes are
  the atomicity of an operation. \<open>gettimeofday\<close> reads the next time stamp of \<open>clk\<close>, an
  arbitrary sequence. \<open>None\<close> is "no defined result": an access outside an array or through
  a pointer to freed memory, signed overflow, or a wait that does not end; the theorems that
  say \<open>\<exists>w'. ... = Some w'\<close> rule these out. SRCP errors are return codes, as in the code.
  What the rest of the server does while a handler sleeps is an argument (\<open>sm_wait\<close>, \<open>env\<close>).
  The threads are the step relation \<open>srv_step\<close>; \<open>reachable\<close> holds of the states any
  interleaving of them leads to from the start with any configuration file, build and hardware,
  as long as the memory suffices for the tables. What the program finds in its surroundings (drivers that are
  compiled in, what \<open>malloc\<close> returns, whether a port opens) are the records \<open>conf_env\<close> and \<open>init_env\<close>.

  \<^bold>\<open>What is shown\<close>

  \<open>world_inv\<close> (healthy session list, indices inside their arrays, tables as long as their
  bounds say, feedbacks in the reset queue inside the table) holds in every reachable state,
  and in such a state the unconditional background work always has a result. Device locks are
  exclusive between sessions, last as long as asked for, and are released when the client
  hangs up; commands reach a driver in the order they were accepted; a written CV is read
  back; the clock keeps time and WAIT ends; messages, replies and lines are framed correctly.
  For DCC the theorems run from the command to a decoder written from the NMRA packet format:
  \<open>dcc_receive\<close> reads the levels on the serial line, \<open>dcc_packets\<close> finds the packets.
  For the driver on the serial port: the packet queue keeps its order below \<open>QSIZE\<close>, the
  pools hold the last packets of every locomotive, the Motorola packets are read back by a
  decoder of that format, everything that waits is sent, everything in the pools is refreshed,
  and nothing leaves while the power is off. For LocoNet: every message is framed as the bus
  wants it, and the messages of other throttles are mirrored into the server's state.
  The DDL, LocoNet, LI100, Intellibox and Selectrix threads are steps of \<open>srv_step\<close> beside the
  loopback driver's. For Selectrix a station reads the bytes: a command sets the byte of its address
  and no other, and all feedback modules are read in turn.
  Some theorems state what the code does where that is not what it means to do
  (\<open>release_is_not_cancelled\<close>, \<open>pump_read_carry\<close>, \<open>enqueueGA_result\<close>,
  \<open>delayed_reset_hits_last\<close>, \<open>maerklin_1_stop_lost\<close>, \<open>packet_queue_order\<close>).

  \<^bold>\<open>Bounds and fuel\<close>

  \<open>check_reset_loop\<close> has fuel \<open>QUEUELENGTH_FB\<close>; every pass but the last takes an entry out of
  a queue of fewer entries (\<open>check_reset_fb_ok\<close>). The translation of a bit stream is
  \<open>while_option\<close>; \<open>v3_translates\<close> shows that it ends for the streams the program builds; the
  backtracking of versions 1 and 2 always ends (\<open>v1_ends\<close>, \<open>v2_ends\<close>).
  The wait of the LI100 driver for an answer is \<open>partial_function (option)\<close>: an answer ends it
  (\<open>li100_answer_ends_wait\<close>), and without one there is no result (\<open>li100_no_answer_no_return\<close>).
  The loops of the Intellibox driver are \<open>repeat_while\<close>, the same for any body: a complete report
  ends them (\<open>ib_feedback_reported\<close>), silence does not (\<open>ib_silence_hangs\<close>).
  \<open>wait_time\<close> is \<open>partial_function (option)\<close>; \<open>wait_time_ends\<close> shows that it returns.
  Session ids and pointers are natural numbers: that \<open>unsigned long\<close> wraps after \<open>2 ^ 64\<close>
  sessions is not modelled.

  \<^bold>\<open>Not modelled\<close>

  The parsing of XML (a document is a tree of nodes), the network service, signals and daemon start-up, syslog, serial
  port settings and the drivers other than loopback, DDL,
  LocoNet, LI100, Intellibox and Selectrix (see the manifest). Of \<open>ddl.c\<close>, the
  settings of the serial port, the waiting for the UART, the sleeps and the thread priorities.
  Of \<open>ddl_nmra.c\<close>, the reading of the acknowledge line: the programming track is the
  parameter \<open>track\<close>. The packets are built with the default version 3 of the translation
  (\<open>NMRADCC_TR_V\<close>); \<open>versions_equivalent\<close> compares the others with it.
\<close>

subsection \<open>The server as a whole\<close>

text \<open>A build with the loopback driver and memory for everything.\<close>

definition sample_env :: conf_env where
  "sample_env = \<lparr>compiled = (\<lambda>n. n = ''loopback''), allocated = (\<lambda>_ _. True), raw_ga = (\<lambda>_ _. zero_ga),
     mem_ddl = (\<lambda>_. sample_ddl), mem_ib = (\<lambda>_. sample_ib), mem_li = (\<lambda>_. li_sample), mem_ln = (\<lambda>_. sample_loconet),
     mem_sx = (\<lambda>_. sample_sx), getprotobyname = (\<lambda>_. None), getservbyname = None, kernel_release = (CHR ''6'', CHR ''1''),
     linux_serial = True\<rparr>"

definition sample_init :: init_env where
  "sample_init = \<lparr>port_opens = (\<lambda>_ _. True), init_allocated = (\<lambda>_ _. True), init_raw_ga = (\<lambda>_ _. zero_ga)\<rparr>"

lemma sample_env_ok:
  "compiled sample_env ''loopback''" "memory_suffices sample_env" "init_memory_suffices sample_init"
  by (simp_all add: sample_env_def memory_suffices_def sample_init_def init_memory_suffices_def)







subsection \<open>A client's session\<close>

text \<open>Any sequence of lines a COMMAND client sends, valid or not, leaves the server's data
  well formed, whatever the other threads do while the handlers wait, as long as they keep it
  well formed themselves.\<close>

theorem client_session_keeps_inv:
  assumes "sm_wait_ok drv" and "env_ok env" and "world_inv w"
    and "doCmdClient drv env stk sid lines w = Some (replies, w')"
  shows "world_inv w'"
  using assms by (rule doCmdClient_keeps_inv)

theorem client_session_keeps_inv_witness:
  "\<exists>replies w'. doCmdClient loop_sm_wait (\<lambda>_. Some) \<lparr>u_addr = 0, u_lockid = 0, u_value = 0\<rparr> 1 [''GET'']
      sample_world = Some (replies, w') \<and> world_inv w'"
proof -
  have s: "sscanf (strip_newline ''GET'') [Str None, Str None, Str None, Chs 1000] = (1, [VS ''GET''])"
    by (simp add: sscanf_def strip_newline_def skip_ws_def is_space_def)
  obtain replies w' where r: "doCmdClient loop_sm_wait (\<lambda>_. Some) \<lparr>u_addr = 0, u_lockid = 0, u_value = 0\<rparr> 1
      [''GET''] sample_world = Some (replies, w')"
    by (simp add: cmd_line_def s reply_now_def is_term_def)
  have "env_ok (\<lambda>_. Some)" by (simp add: env_ok_def)
  from client_session_keeps_inv [OF loop_sm_wait_ok this sample_world_inv r] r show ?thesis by blast
qed

end
